(* ===== verification/Float64.thy ===== *)
theory Float64
  imports Complex_Main "HOL-Library.Log_Nat"
begin

text \<open>
  Go's \<open>float64\<close> for the scores: every operation is the exact rational result rounded to
  53 bits, ties to even. Scores lie between -1 and the size of a request, so the model leaves
  out overflow, subnormals and NaN. The lemmas say rounding is monotone and keeps what 53 bits
  hold, which is all the ranking needs.
\<close>

definition rne :: "rat \<Rightarrow> int" where
  "rne x = (let f = \<lfloor>x\<rfloor>; d = x - of_int f in
     if d < 1 / 2 then f else if d > 1 / 2 then f + 1 else if even f then f else f + 1)"

definition binade :: "rat \<Rightarrow> int" where
  "binade x = (if 1 \<le> x then int (floorlog 2 (nat \<lfloor>x\<rfloor>)) - 1 else - int (ceillog2 (nat \<lceil>1 / x\<rceil>)))"

definition f64 :: "rat \<Rightarrow> rat" where
  "f64 x = (if x = 0 then 0
     else (let s = 2 powi (52 - binade \<bar>x\<bar>) in of_int (rne (x * s)) / s))"

lemma rne_of_int [simp]: "rne (of_int n) = n"
  by (simp add: rne_def)

lemma rne_bounds: "\<lfloor>x\<rfloor> \<le> rne x" "rne x \<le> \<lfloor>x\<rfloor> + 1"
  by (simp_all add: rne_def Let_def)

lemma rne_mono: "x \<le> y \<Longrightarrow> rne x \<le> rne y"
proof -
  assume le: "x \<le> y"
  show ?thesis
  proof (cases "\<lfloor>x\<rfloor> = \<lfloor>y\<rfloor>")
    case True
    with le show ?thesis by (simp add: rne_def Let_def)
  next
    case False
    with le have "\<lfloor>x\<rfloor> + 1 \<le> \<lfloor>y\<rfloor>" using floor_mono [OF le] by linarith
    then show ?thesis using rne_bounds(2) [of x] rne_bounds(1) [of y] by linarith
  qed
qed

lemma binade_ge1:
  assumes "1 \<le> x"
  shows "2 powi binade x \<le> x" "x < 2 powi (binade x + 1)"
proof -
  let ?n = "nat \<lfloor>x\<rfloor>"
  have n: "?n > 0" "rat_of_nat ?n \<le> x" "x < rat_of_nat ?n + 1"
    using assms floor_correct [of x] by (auto simp: le_floor_iff)
  have L: "2 ^ (floorlog 2 ?n - 1) \<le> ?n" "?n < 2 ^ floorlog 2 ?n"
    using floorlog_bounds [of ?n 2] n(1) by auto
  have pos: "floorlog 2 ?n \<ge> 1" using L(2) n(1) by (cases "floorlog 2 ?n") auto
  have b: "binade x = int (floorlog 2 ?n - 1)" "binade x + 1 = int (floorlog 2 ?n)"
    using assms pos by (simp_all add: binade_def of_nat_diff)
  have lo: "2 powi binade x = rat_of_nat (2 ^ (floorlog 2 ?n - 1))"
    unfolding b(1) by simp
  have hi: "2 powi (binade x + 1) = rat_of_nat (2 ^ floorlog 2 ?n)"
    unfolding b(2) by simp
  have "rat_of_nat (2 ^ (floorlog 2 ?n - 1)) \<le> rat_of_nat ?n"
    using L(1) by (simp only: of_nat_le_iff)
  moreover have "rat_of_nat ?n + 1 \<le> rat_of_nat (2 ^ floorlog 2 ?n)"
    using L(2) Suc_leI [of ?n] of_nat_mono [of "Suc ?n" "2 ^ floorlog 2 ?n", where 'a = rat]
    by (simp only: of_nat_Suc add.commute)
  ultimately show "2 powi binade x \<le> x" "x < 2 powi (binade x + 1)"
    unfolding lo hi using n(2,3) by linarith+
qed

lemma binade_lt1:
  assumes "0 < x" "x < 1"
  shows "2 powi binade x \<le> x" "x < 2 powi (binade x + 1)"
proof -
  let ?n = "nat \<lceil>1 / x\<rceil>"
  have "1 < 1 / x" using assms by (simp add: field_simps)
  then have n: "2 \<le> ?n" "1 / x \<le> rat_of_nat ?n" "rat_of_nat ?n - 1 < 1 / x"
    using ceiling_correct [of "1 / x"] by (auto simp: le_nat_iff)
  have "ceillog2 ?n \<noteq> 0"
  proof
    assume "ceillog2 ?n = 0"
    then have "?n \<le> 1" using le_two_power_ceillog2 [of ?n] by simp
    with n(1) show False by simp
  qed
  then obtain c where c: "ceillog2 ?n = Suc c" using not0_implies_Suc by blast
  have C: "?n \<le> 2 ^ Suc c" "2 ^ c < ?n"
    using le_two_power_ceillog2 [of ?n] two_power_ceillog2_gt [of ?n] n(1) c assms(1) by auto
  have b: "binade x = - int (Suc c)" using assms c by (simp add: binade_def)
  have "1 / x \<le> 2 ^ Suc c"
    using n(2) of_nat_mono [OF C(1), where 'a = rat] by simp
  moreover have "2 ^ c < 1 / x"
  proof -
    have "(2::rat) ^ c + 1 \<le> rat_of_nat ?n"
      using of_nat_mono [OF Suc_leI [OF C(2)], where 'a = rat] by simp
    with n(3) show ?thesis by linarith
  qed
  moreover note assms
  ultimately have x: "1 / 2 ^ Suc c \<le> x" "x < 1 / 2 ^ c" by (simp_all add: field_simps)
  have lo: "2 powi binade x = 1 / (2::rat) ^ Suc c"
    unfolding b by (simp only: power_int_minus power_int_of_nat inverse_eq_divide)
  have "binade x + 1 = - int c" using b by simp
  then have hi: "2 powi (binade x + 1) = 1 / (2::rat) ^ c"
    by (simp only: power_int_minus power_int_of_nat inverse_eq_divide)
  show "2 powi binade x \<le> x" "x < 2 powi (binade x + 1)"
    unfolding lo hi using x .
qed

lemma binade: "0 < x \<Longrightarrow> 2 powi binade x \<le> x \<and> x < 2 powi (binade x + 1)"
  using binade_ge1 [of x] binade_lt1 [of x] by (cases "1 \<le> x") auto

text \<open>
  Rounding is monotone on the non-negative rationals.\<close>

lemma f64_nonneg: "0 \<le> x \<Longrightarrow> 0 \<le> f64 x"
proof -
  assume "0 \<le> x"
  then have "0 \<le> x * 2 powi (52 - binade \<bar>x\<bar>)" by simp
  from rne_mono [OF this] show ?thesis using rne_of_int [of 0] by (simp add: f64_def Let_def)
qed

lemma powi_scale:
  "2 powi b * 2 powi (52 - b) = rat_of_int (2 ^ 52)"
  "2 powi (b + 1) * 2 powi (52 - b) = rat_of_int (2 ^ 53)"
proof -
  have "2 powi b * 2 powi (52 - b) = (2::rat) powi (b + (52 - b))"
    "2 powi (b + 1) * 2 powi (52 - b) = (2::rat) powi (b + 1 + (52 - b))"
    by (simp_all only: power_int_add zero_neq_numeral [symmetric] simp_thms)
  then show "2 powi b * 2 powi (52 - b) = rat_of_int (2 ^ 52)"
    "2 powi (b + 1) * 2 powi (52 - b) = rat_of_int (2 ^ 53)" by simp_all
qed

lemma scaled_binade:
  assumes "0 < x"
  shows "of_int (2 ^ 52) \<le> x * 2 powi (52 - binade x)" "x * 2 powi (52 - binade x) \<le> of_int (2 ^ 53)"
proof -
  have pos: "(0::rat) < 2 powi (52 - binade x)" by simp
  show "of_int (2 ^ 52) \<le> x * 2 powi (52 - binade x)"
    unfolding powi_scale(1) [of "binade x", symmetric]
    using binade [OF assms] pos by (intro mult_right_mono) auto
  show "x * 2 powi (52 - binade x) \<le> of_int (2 ^ 53)"
    unfolding powi_scale(2) [of "binade x", symmetric]
    using binade [OF assms] pos by (intro mult_right_mono) auto
qed

lemma f64_within_binade:
  assumes "0 < x"
  shows "2 powi binade x \<le> f64 x" "f64 x \<le> 2 powi (binade x + 1)"
proof -
  let ?s = "(2::rat) powi (52 - binade x)"
  have f: "f64 x = of_int (rne (x * ?s)) / ?s" using assms by (simp add: f64_def Let_def)
  have r: "2 ^ 52 \<le> rne (x * ?s)" "rne (x * ?s) \<le> 2 ^ 53"
    using rne_mono [OF scaled_binade(1) [OF assms]] rne_mono [OF scaled_binade(2) [OF assms]]
    unfolding rne_of_int .
  have pos: "0 < ?s" by simp
  show "2 powi binade x \<le> f64 x"
    unfolding f pos_le_divide_eq [OF pos] powi_scale using r(1) by (simp only: of_int_le_iff)
  show "f64 x \<le> 2 powi (binade x + 1)"
    unfolding f pos_divide_le_eq [OF pos] powi_scale using r(2) by (simp only: of_int_le_iff)
qed

lemma f64_mono: "0 \<le> x \<Longrightarrow> x \<le> y \<Longrightarrow> f64 x \<le> f64 y"
proof (cases "x = 0")
  case True
  assume "x \<le> y"
  then show ?thesis using True f64_nonneg [of y] by (simp add: f64_def)
next
  case False
  assume "0 \<le> x" and le: "x \<le> y"
  with False have x: "0 < x" and y: "0 < y" by auto
  show ?thesis
  proof (cases "binade x = binade y")
    case True
    have "x * 2 powi (52 - binade y) \<le> y * 2 powi (52 - binade y)" using le by (simp add: mult_right_mono)
    from rne_mono [OF this] show ?thesis
      using x y True by (simp add: f64_def Let_def divide_right_mono)
  next
    case False
    have "binade x \<le> binade y"
    proof (rule ccontr)
      assume "\<not> binade x \<le> binade y"
      then have "(2::rat) powi (binade y + 1) \<le> 2 powi binade x" by (intro power_int_increasing) auto
      then show False using binade [OF x] binade [OF y] le by linarith
    qed
    with False have "(2::rat) powi (binade x + 1) \<le> 2 powi binade y"
      by (intro power_int_increasing) auto
    then show ?thesis using f64_within_binade(2) [OF x] f64_within_binade(1) [OF y] by linarith
  qed
qed

text \<open>
  A value of at most 53 significant bits is kept.\<close>

lemma f64_exact:
  assumes "x = of_int k * 2 powi e" "0 \<le> k" "k < 2 ^ 53"
  shows "f64 x = x"
proof (cases "k = 0")
  case True
  then show ?thesis using assms by (simp add: f64_def)
next
  case False
  then have x: "0 < x" using assms by simp
  have "binade x \<le> e + 52"
  proof (rule ccontr)
    assume "\<not> binade x \<le> e + 52"
    then have "(2::rat) powi (e + 53) \<le> 2 powi binade x" by (intro power_int_increasing) auto
    also have "\<dots> \<le> x" using binade [OF x] by simp
    also have "x < of_int (2 ^ 53) * 2 powi e"
      unfolding assms(1) using assms(3) by (intro mult_strict_right_mono) (simp_all only: of_int_less_iff, simp)
    also have "\<dots> = 2 powi (e + 53)" by (simp add: power_int_add)
    finally show False by simp
  qed
  then obtain d where d: "52 - binade x + e = int d"
    using nonneg_int_cases [of "52 - binade x + e"] by auto
  have "x * 2 powi (52 - binade x) = of_int k * 2 powi (52 - binade x + e)"
    unfolding assms(1) by (simp add: power_int_add)
  also have "\<dots> = of_int (k * 2 ^ d)" unfolding d by simp
  finally have i: "x * 2 powi (52 - binade x) = of_int (k * 2 ^ d)" .
  have "of_int (rne (x * 2 powi (52 - binade x))) = x * 2 powi (52 - binade x)"
    unfolding i rne_of_int ..
  with x show ?thesis by (simp add: f64_def)
qed

lemma f64_of_int [simp]: "0 \<le> k \<Longrightarrow> k < 2 ^ 53 \<Longrightarrow> f64 (of_int k) = of_int k"
  by (rule f64_exact [where e = 0]) auto

lemma f64_half: "0 \<le> k \<Longrightarrow> k < 2 ^ 53 \<Longrightarrow> f64 (of_int k / 2) = of_int k / 2"
  by (rule f64_exact [where e = "-1"]) auto

end
