(* ===== verification/Prelude.thy ===== *)
theory Prelude
  imports Main "HOL-Library.AList" "HOL-Library.Monad_Syntax"
begin

text \<open>
  Shared ground of the development: Go's 64-bit signed \<open>int\<close> written as mathematical
  integers with the wrap-around explicit, the helpers of package \<open>strings\<close> and
  \<open>strconv\<close> the program calls, Go maps as association lists, and the generic lemmas and
  collections the component theories use.
\<close>

named_theorems go_int \<open>facts about the 64-bit wrap-around\<close>
named_theorems inv_intros \<open>preservation of component invariants\<close>

section \<open>Go's int\<close>

text \<open>
  On the platforms fluxq builds for, \<open>int\<close> is a 64-bit two's complement integer whose
  arithmetic wraps silently. \<open>i64\<close> maps a mathematical result to the value Go computes.
\<close>

definition i64 :: "int \<Rightarrow> int" where
  "i64 x = (x + 2 ^ 63) mod 2 ^ 64 - 2 ^ 63"

definition fits64 :: "int \<Rightarrow> bool" where
  "fits64 x \<longleftrightarrow> - (2 ^ 63) \<le> x \<and> x < 2 ^ 63"

lemma i64_fits [go_int]: "fits64 x \<Longrightarrow> i64 x = x"
  by (simp add: i64_def fits64_def)

lemma fits64_i64 [go_int, simp]: "fits64 (i64 x)"
  by (simp add: i64_def fits64_def)

lemma i64_idem [go_int, simp]: "i64 (i64 x) = i64 x"
  by (rule i64_fits) simp

lemma i64_cong: "i64 x = i64 y \<longleftrightarrow> x mod 2 ^ 64 = y mod 2 ^ 64"
proof
  assume "i64 x = i64 y"
  then have "(x + 2 ^ 63) mod 2 ^ 64 = (y + 2 ^ 63) mod 2 ^ 64"
    by (simp add: i64_def)
  then have "(x + 2 ^ 63 - 2 ^ 63) mod 2 ^ 64 = (y + 2 ^ 63 - 2 ^ 63) mod 2 ^ 64"
    by (rule mod_diff_cong) simp
  then show "x mod 2 ^ 64 = y mod 2 ^ 64" by simp
next
  assume "x mod 2 ^ 64 = y mod 2 ^ 64"
  then have "(x + 2 ^ 63) mod 2 ^ 64 = (y + 2 ^ 63) mod 2 ^ 64"
    by (rule mod_add_cong) simp
  then show "i64 x = i64 y" by (simp add: i64_def)
qed

lemma i64_mod: "i64 x mod 2 ^ 64 = x mod 2 ^ 64"
  unfolding i64_cong [symmetric] by (rule i64_idem)

lemma i64_add_left [go_int]: "i64 (i64 x + y) = i64 (x + y)"
  unfolding i64_cong by (rule mod_add_cong [OF i64_mod refl])

lemma i64_add_right [go_int]: "i64 (x + i64 y) = i64 (x + y)"
  using i64_add_left [of y x] by (simp add: add.commute)

lemma i64_mult_left [go_int]: "i64 (i64 x * y) = i64 (x * y)"
  unfolding i64_cong by (rule mod_mult_cong [OF i64_mod refl])

lemma i64_mult_right [go_int]: "i64 (x * i64 y) = i64 (x * y)"
  using i64_mult_left [of y x] by (simp add: mult.commute)

text \<open>
  The two shapes in which a wrapped count enters a running sum.\<close>

lemma i64_scaled: "i64 (i64 p * y + z) = i64 (p * y + z)"
  by (metis i64_add_left i64_mult_left)

lemma i64_accumulate_miss: "i64 (i64 (c + i64 p * y) + z) = i64 (c + (p * y + z))"
proof -
  have "i64 (i64 (c + i64 p * y) + z) = i64 (i64 p * y + (c + z))"
    unfolding i64_add_left by (simp add: algebra_simps)
  also have "\<dots> = i64 (p * y + (c + z))" by (rule i64_scaled)
  finally show ?thesis by (simp add: algebra_simps)
qed

lemma i64_accumulate_hit:
  "i64 (i64 (c + i64 p) + (p * y + z)) = i64 (c + (p * (1 + y) + z))"
proof -
  have "i64 (i64 (c + i64 p) + (p * y + z)) = i64 (i64 p * 1 + (c + p * y + z))"
    unfolding i64_add_left by (simp add: algebra_simps)
  also have "\<dots> = i64 (p * 1 + (c + p * y + z))" by (rule i64_scaled)
  finally show ?thesis by (simp add: algebra_simps)
qed

lemma fits64_between: "fits64 y \<Longrightarrow> 0 \<le> x \<Longrightarrow> x \<le> y \<Longrightarrow> fits64 x"
  by (simp add: fits64_def)

lemma fits64_small [simp]: "0 \<le> x \<Longrightarrow> x < 2 ^ 63 \<Longrightarrow> fits64 x"
  by (simp add: fits64_def)

section \<open>Decimal rendering: strconv.Itoa and the verb d of package fmt\<close>

fun digit_char :: "nat \<Rightarrow> char" where
  "digit_char d = char_of (48 + d)"

fun itoa :: "nat \<Rightarrow> string" where
  "itoa n = (if n < 10 then [digit_char n] else itoa (n div 10) @ [digit_char (n mod 10)])"

declare itoa.simps [simp del]

definition is_digit :: "char \<Rightarrow> bool" where
  "is_digit c \<longleftrightarrow> 48 \<le> (of_char c :: nat) \<and> (of_char c :: nat) \<le> 57"

definition digit_val :: "char \<Rightarrow> nat" where
  "digit_val c = of_char c - 48"

definition digits_val :: "string \<Rightarrow> nat" where
  "digits_val s = foldl (\<lambda>a c. a * 10 + digit_val c) 0 s"

lemma digits_val_snoc [simp]: "digits_val (s @ [c]) = digits_val s * 10 + digit_val c"
  by (simp add: digits_val_def)

lemma digits_val_single [simp]: "digits_val [c] = digit_val c"
  by (simp add: digits_val_def)

lemma of_char_digit_char [simp]: "d < 10 \<Longrightarrow> (of_char (digit_char d) :: nat) = 48 + d"
  by (simp add: of_char_of)

lemma digit_val_digit_char [simp]: "d < 10 \<Longrightarrow> digit_val (digit_char d) = d"
  by (simp add: digit_val_def del: digit_char.simps)

lemma is_digit_digit_char [simp]: "d < 10 \<Longrightarrow> is_digit (digit_char d)"
  by (simp add: is_digit_def del: digit_char.simps)

lemma digits_val_itoa [simp]: "digits_val (itoa n) = n"
proof (induction n rule: itoa.induct)
  case (1 n)
  then show ?case
    by (cases "n < 10") (simp_all add: itoa.simps [of n] del: digit_char.simps)
qed

lemma itoa_inject [simp]: "itoa m = itoa n \<longleftrightarrow> m = n"
  by (metis digits_val_itoa)

lemma itoa_digits: "list_all is_digit (itoa n)"
proof (induction n rule: itoa.induct)
  case (1 n)
  then show ?case
    by (cases "n < 10") (simp_all add: itoa.simps [of n] del: digit_char.simps)
qed

lemma itoa_nonempty [simp]: "itoa n \<noteq> []"
  by (subst itoa.simps) simp

section \<open>Quoting: strconv.Quote and the verb q of package fmt\<close>

text \<open>Strings are byte strings; the escapes are those of ASCII text.\<close>

definition hex_char :: "nat \<Rightarrow> char" where
  "hex_char d = (if d < 10 then char_of (48 + d) else char_of (87 + d))"

definition quote_char :: "char \<Rightarrow> string" where
  "quote_char c =
     (let n = of_char c :: nat in
      if n = 34 then [char_of (92 :: nat), c]
      else if n = 92 then [c, c]
      else if n = 7 then [char_of (92 :: nat), CHR ''a'']
      else if n = 8 then [char_of (92 :: nat), CHR ''b'']
      else if n = 9 then [char_of (92 :: nat), CHR ''t'']
      else if n = 10 then [char_of (92 :: nat), CHR ''n'']
      else if n = 11 then [char_of (92 :: nat), CHR ''v'']
      else if n = 12 then [char_of (92 :: nat), CHR ''f'']
      else if n = 13 then [char_of (92 :: nat), CHR ''r'']
      else if n < 32 \<or> n = 127 then [char_of (92 :: nat), CHR ''x'', hex_char (n div 16), hex_char (n mod 16)]
      else [c])"

definition go_quote :: "string \<Rightarrow> string" where
  "go_quote s = [char_of (34 :: nat)] @ concat (map quote_char s) @ [char_of (34 :: nat)]"

section \<open>Go maps as association lists\<close>

text \<open>
  A Go map that the code ranges over is an association list with distinct keys: Go leaves
  the iteration order open, and the order of the list stands for the one a run takes.
  \<open>AList.update\<close> and \<open>AList.delete\<close> are assignment and \<open>delete\<close>.
\<close>

definition mkeys :: "('k \<times> 'v) list \<Rightarrow> 'k list" where
  "mkeys m = map fst m"

definition wf_map :: "('k \<times> 'v) list \<Rightarrow> bool" where
  "wf_map m \<longleftrightarrow> distinct (map fst m)"

lemma wf_map_empty [simp]: "wf_map []"
  by (simp add: wf_map_def)

lemma wf_map_update [simp]: "wf_map m \<Longrightarrow> wf_map (AList.update k v m)"
  by (simp add: wf_map_def distinct_update)

lemma wf_map_delete [simp]: "wf_map m \<Longrightarrow> wf_map (AList.delete k m)"
  by (simp add: wf_map_def distinct_delete)

lemma map_of_update [simp]: "map_of (AList.update k v m) = (map_of m)(k \<mapsto> v)"
  by (rule update_conv')

lemma map_of_delete [simp]: "map_of (AList.delete k m) = (map_of m)(k := None)"
  by (rule delete_conv')

lemma wf_map_in_iff: "wf_map m \<Longrightarrow> (k, v) \<in> set m \<longleftrightarrow> map_of m k = Some v"
  by (auto simp: wf_map_def dest: map_of_SomeD intro: map_of_is_SomeI)

section \<open>Lists and options\<close>

lemma option_bind_Some_iff: "(Option.bind x f = Some y) \<longleftrightarrow> (\<exists>a. x = Some a \<and> f a = Some y)"
  by (cases x) auto

section \<open>Keyed stores\<close>

text \<open>
  The contract of a store that holds at most one record per key: the fleet registry and the
  job queue provide it, the manager relies on it.
\<close>

locale keyed_store =
  fixes get :: "'s \<Rightarrow> 'k \<Rightarrow> 'v option"
    and put :: "'v \<Rightarrow> 's \<Rightarrow> 's"
    and key :: "'v \<Rightarrow> 'k"
    and inv :: "'s \<Rightarrow> bool"
  assumes get_put: "inv s \<Longrightarrow> get (put v s) k = (if k = key v then Some v else get s k)"
    and get_key: "inv s \<Longrightarrow> get s k = Some v \<Longrightarrow> key v = k"
    and inv_put: "inv s \<Longrightarrow> inv (put v s)"
begin

lemma get_put_same: "inv s \<Longrightarrow> get (put v s) (key v) = Some v"
  by (simp add: get_put)

lemma get_put_other: "inv s \<Longrightarrow> k \<noteq> key v \<Longrightarrow> get (put v s) k = get s k"
  by (simp add: get_put)

lemma put_overwrites: "inv s \<Longrightarrow> key w = key v \<Longrightarrow> get (put w (put v s)) = get (put w s)"
  by (simp add: get_put inv_put fun_eq_iff)

lemma put_commute:
  "inv s \<Longrightarrow> key v \<noteq> key w \<Longrightarrow> get (put v (put w s)) = get (put w (put v s))"
  by (auto simp: get_put inv_put fun_eq_iff)

end

locale keyed_registry = keyed_store +
  fixes del :: "'k \<Rightarrow> 's \<Rightarrow> bool \<times> 's"
  assumes get_del: "inv s \<Longrightarrow> get (snd (del i s)) k = (if k = i then None else get s k)"
    and found_del: "inv s \<Longrightarrow> fst (del i s) \<longleftrightarrow> get s i \<noteq> None"
    and inv_del: "inv s \<Longrightarrow> inv (snd (del i s))"
begin

lemma del_put: "inv s \<Longrightarrow> get (snd (del (key v) (put v s))) = get (snd (del (key v) s))"
  by (auto simp: get_del get_put inv_put fun_eq_iff)

lemma del_twice: "inv s \<Longrightarrow> \<not> fst (del i (snd (del i s)))"
  by (simp add: found_del inv_del get_del)

end

end
