(* ===== verification/Jgf.thy ===== *)
theory Jgf
  imports Prelude
begin

text \<open>
  Package \<open>pkg/graph\<close>, file \<open>jgf.go\<close>: the JSON Graph Format resource graphs, their
  index, and the depth-first descent below a vertex that \<open>nodeCapacity\<close>,
  \<open>CoresPerNode\<close>, \<open>GPUsPerNode\<close> and \<open>shapesOf\<close> share. A JGF document is input, so
  its edges may form a cycle, on which the Go recursion never returns; the descent is an
  option, \<open>None\<close> for that outcome, and the lemmas show the fuel chosen decides it exactly.
\<close>

section \<open>The graph\<close>

record vertex_meta =
  vm_type :: string
  vm_basename :: string
  vm_name :: string
  vm_id :: int
  vm_uniq_id :: int
  vm_rank :: int
  vm_size :: int
  vm_unit :: string
  vm_exclusive :: bool
  vm_properties :: "(string \<times> string) list"
  vm_paths :: "(string \<times> string) list"

record vertex =
  v_id :: string
  v_meta :: vertex_meta

record edge_meta =
  em_subsystem :: string
  em_name :: string

record edge =
  e_source :: string
  e_target :: string
  e_meta :: edge_meta

record jgf =
  g_nodes :: "vertex list"
  g_edges :: "edge list"

abbreviation v_type :: "vertex \<Rightarrow> string" where
  "v_type v \<equiv> vm_type (v_meta v)"

definition byID :: "jgf \<Rightarrow> (string \<times> vertex) list" where
  "byID g = foldl (\<lambda>m v. AList.update (v_id v) v m) [] (g_nodes g)"

definition children :: "jgf \<Rightarrow> string \<Rightarrow> string list" where
  "children g = foldl (\<lambda>m e. m(e_source e := m (e_source e) @ [e_target e])) (\<lambda>_. []) (g_edges g)"

definition index :: "jgf \<Rightarrow> (string \<times> vertex) list \<times> (string \<Rightarrow> string list)" where
  "index g = (byID g, children g)"

definition verticesOfType :: "jgf \<Rightarrow> string \<Rightarrow> vertex list" where
  "verticesOfType g t = filter (\<lambda>v. v_type v = t) (g_nodes g)"

definition find_vertex :: "jgf \<Rightarrow> (vertex \<Rightarrow> bool) \<Rightarrow> vertex option" where
  "find_vertex g pred = List.find pred (g_nodes g)"

section \<open>The index\<close>

abbreviation lookup :: "jgf \<Rightarrow> string \<Rightarrow> vertex option" where
  "lookup g i \<equiv> map_of (byID g) i"

lemma byID_fold:
  "wf_map m \<Longrightarrow> wf_map (foldl (\<lambda>m v. AList.update (v_id v) v m) m vs) \<and>
   map_of (foldl (\<lambda>m v. AList.update (v_id v) v m) m vs) =
     map_of m ++ map_of (rev (map (\<lambda>v. (v_id v, v)) vs))"
  by (induction vs arbitrary: m) (simp_all add: map_add_assoc map_add_upd_left)

lemma wf_byID [simp]: "wf_map (byID g)"
  using byID_fold [of "[]" "g_nodes g"] by (simp add: byID_def)

lemma lookup_eq: "lookup g i = map_of (rev (map (\<lambda>v. (v_id v, v)) (g_nodes g))) i"
  using byID_fold [of "[]" "g_nodes g"] by (simp add: byID_def)

lemma lookup_Some: "lookup g i = Some v \<Longrightarrow> v \<in> set (g_nodes g) \<and> v_id v = i"
  by (auto simp: lookup_eq dest!: map_of_SomeD)

lemma lookup_exists: "lookup g i \<noteq> None \<longleftrightarrow> i \<in> v_id ` set (g_nodes g)"
  by (force simp: lookup_eq map_of_eq_None_iff)

lemma lookup_distinct:
  "distinct (map v_id (g_nodes g)) \<Longrightarrow> v \<in> set (g_nodes g) \<Longrightarrow> lookup g (v_id v) = Some v"
proof -
  assume d: "distinct (map v_id (g_nodes g))" and v: "v \<in> set (g_nodes g)"
  have "map fst (rev (map (\<lambda>v. (v_id v, v)) (g_nodes g))) = rev (map v_id (g_nodes g))"
    by (simp add: rev_map comp_def)
  then have "distinct (map fst (rev (map (\<lambda>v. (v_id v, v)) (g_nodes g))))"
    using d by (simp only: distinct_rev)
  with v show ?thesis unfolding lookup_eq by (intro map_of_is_SomeI) auto
qed

lemma children_fold:
  "foldl (\<lambda>m e. m(e_source e := m (e_source e) @ [e_target e])) m es s =
   m s @ map e_target (filter (\<lambda>e. e_source e = s) es)"
  by (induction es arbitrary: m) auto

lemma children_eq: "children g s = map e_target (filter (\<lambda>e. e_source e = s) (g_edges g))"
  by (simp add: children_def children_fold)

lemma in_children: "c \<in> set (children g s) \<longleftrightarrow> (\<exists>e \<in> set (g_edges g). e_source e = s \<and> e_target e = c)"
  by (auto simp: children_eq)

section \<open>Descent below a vertex\<close>

text \<open>
  The closure \<open>walk\<close> of the four callers: for every child that is a vertex of the graph,
  account for it and recurse. \<open>fuel\<close> bounds the recursion depth.
\<close>

fun descend :: "(vertex \<Rightarrow> 'a \<Rightarrow> 'a) \<Rightarrow> nat \<Rightarrow> jgf \<Rightarrow> string \<Rightarrow> 'a \<Rightarrow> 'a option"
  and descend_list ::
    "(vertex \<Rightarrow> 'a \<Rightarrow> 'a) \<Rightarrow> nat \<Rightarrow> jgf \<Rightarrow> string list \<Rightarrow> 'a \<Rightarrow> 'a option" where
  "descend account 0 g i acc = None"
| "descend account (Suc fuel) g i acc = descend_list account fuel g (children g i) acc"
| "descend_list account fuel g [] acc = Some acc"
| "descend_list account fuel g (c # cs) acc =
     (case lookup g c of
        None \<Rightarrow> descend_list account fuel g cs acc
      | Some v \<Rightarrow>
          (case descend account fuel g c (account v acc) of
             None \<Rightarrow> None
           | Some acc' \<Rightarrow> descend_list account fuel g cs acc'))"

definition depth_bound :: "jgf \<Rightarrow> nat" where
  "depth_bound g = Suc (length (g_nodes g))"

definition below :: "(vertex \<Rightarrow> 'a \<Rightarrow> 'a) \<Rightarrow> jgf \<Rightarrow> string \<Rightarrow> 'a \<Rightarrow> 'a option" where
  "below account g i acc = descend account (depth_bound g) g i acc"

text \<open>A size of 0 or less counts as one unit.\<close>

definition vsize :: "vertex \<Rightarrow> int" where
  "vsize v = (if vm_size (v_meta v) \<le> 0 then 1 else vm_size (v_meta v))"

section \<open>When the descent returns\<close>

fun chain :: "jgf \<Rightarrow> string \<Rightarrow> string list \<Rightarrow> bool" where
  "chain g i [] = True"
| "chain g i (c # cs) = (c \<in> set (children g i) \<and> lookup g c \<noteq> None \<and> chain g c cs)"

definition endless :: "jgf \<Rightarrow> string \<Rightarrow> bool" where
  "endless g i \<longleftrightarrow> (\<forall>n. \<exists>cs. length cs = n \<and> chain g i cs)"

definition cycle_below :: "jgf \<Rightarrow> string \<Rightarrow> bool" where
  "cycle_below g i \<longleftrightarrow> (\<exists>as c bs. chain g i (as @ [c]) \<and> chain g c (bs @ [c]))"

lemma chain_append:
  "chain g i (as @ bs) \<longleftrightarrow> chain g i as \<and> chain g (last (i # as)) bs"
  by (induction as arbitrary: i) auto

lemma chain_vertices: "chain g i cs \<Longrightarrow> set cs \<subseteq> v_id ` set (g_nodes g)"
  by (induction cs arbitrary: i) (auto simp: lookup_exists [symmetric])

lemma descend_list_None_iff:
  assumes "\<And>c acc. descend account fuel g c acc = None \<longleftrightarrow> (\<exists>xs. length xs = fuel \<and> chain g c xs)"
  shows "descend_list account fuel g cs acc = None \<longleftrightarrow>
    (\<exists>c \<in> set cs. lookup g c \<noteq> None \<and> (\<exists>xs. length xs = fuel \<and> chain g c xs))"
proof (induction cs arbitrary: acc)
  case (Cons c cs)
  show ?case
  proof (cases "lookup g c")
    case None
    then show ?thesis using Cons by auto
  next
    case (Some v)
    then show ?thesis
      using Cons assms [of c "account v acc"]
      by (cases "descend account fuel g c (account v acc)") auto
  qed
qed simp

lemma descend_None_iff:
  "descend account fuel g i acc = None \<longleftrightarrow> (\<exists>xs. length xs = fuel \<and> chain g i xs)"
proof (induction fuel arbitrary: i acc)
  case (Suc fuel)
  have "(\<exists>xs. length xs = Suc fuel \<and> chain g i xs) \<longleftrightarrow>
    (\<exists>c \<in> set (children g i). lookup g c \<noteq> None \<and> (\<exists>xs. length xs = fuel \<and> chain g c xs))"
    (is "?l \<longleftrightarrow> ?r")
  proof
    assume ?l
    then show ?r by (auto simp: length_Suc_conv) blast
  next
    assume ?r
    then obtain c xs where "c \<in> set (children g i)" "lookup g c \<noteq> None" "length xs = fuel" "chain g c xs"
      by blast
    then have "length (c # xs) = Suc fuel \<and> chain g i (c # xs)" by simp
    then show ?l by blast
  qed
  then show ?case
    by (simp add: descend_list_None_iff [OF Suc.IH])
qed simp

lemma cycle_below_endless: "cycle_below g i \<Longrightarrow> endless g i"
proof -
  assume "cycle_below g i"
  then obtain as c bs where c: "chain g i (as @ [c])" "chain g c (bs @ [c])"
    by (auto simp: cycle_below_def)
  let ?loop = "\<lambda>n. concat (replicate n (bs @ [c]))"
  have last: "last (c # ?loop n) = c" for n
    by (cases n) (simp_all add: replicate_append_same [symmetric])
  have loop: "chain g c (?loop n)" for n
  proof (induction n)
    case (Suc n)
    then show ?case
      using c(2) last [of n] by (simp add: chain_append replicate_append_same [symmetric])
  qed simp
  have "\<exists>cs. length cs = n \<and> chain g i cs" for n
  proof -
    have "n \<le> length (?loop n)" by (induction n) auto
    moreover have full: "chain g i (as @ [c] @ ?loop n)"
      using c(1) loop [of n] by (simp add: chain_append)
    ultimately have "length (take n (as @ [c] @ ?loop n)) = n" by simp
    moreover have "chain g i (take n (as @ [c] @ ?loop n))"
      using full by (metis append_take_drop_id chain_append)
    ultimately show ?thesis by blast
  qed
  then show ?thesis by (simp add: endless_def)
qed

lemma long_chain_cycle:
  assumes "chain g i xs" "length xs = depth_bound g"
  shows "cycle_below g i"
proof -
  have "card (set xs) \<le> card (v_id ` set (g_nodes g))"
    using chain_vertices [OF assms(1)] by (intro card_mono) auto
  also have "\<dots> \<le> length (g_nodes g)"
    by (metis card_length list.set_map length_map)
  finally have "\<not> distinct xs"
    using assms(2) distinct_card [of xs] by (auto simp: depth_bound_def)
  then obtain as bs cs c where "xs = as @ [c] @ bs @ [c] @ cs"
    using not_distinct_decomp by blast
  with assms(1) have "chain g i (as @ [c])" "chain g c (bs @ [c])"
    by (auto simp: chain_append)
  then show ?thesis by (auto simp: cycle_below_def)
qed

text \<open>
  The bound decides termination: running out of it means no amount is enough.\<close>

lemma below_None_iff: "below account g i acc = None \<longleftrightarrow> cycle_below g i"
  unfolding below_def descend_None_iff
  using long_chain_cycle cycle_below_endless by (metis endless_def)

lemma below_None_endless: "below account g i acc = None \<longleftrightarrow> (\<forall>fuel. descend account fuel g i acc = None)"
  unfolding below_None_iff
  by (metis below_def below_None_iff cycle_below_endless descend_None_iff endless_def)

lemma descend_mono_list:
  assumes "\<And>c acc r. descend account fuel g c acc = Some r \<Longrightarrow> descend account (Suc fuel) g c acc = Some r"
    and "descend_list account fuel g cs acc = Some r"
  shows "descend_list account (Suc fuel) g cs acc = Some r"
  using assms(2)
proof (induction cs arbitrary: acc)
  case (Cons c cs)
  then show ?case
    by (cases "lookup g c") (auto split: option.splits dest: assms(1) simp del: descend.simps)
qed simp

lemma descend_mono: "descend account fuel g i acc = Some r \<Longrightarrow> descend account (Suc fuel) g i acc = Some r"
proof (induction fuel arbitrary: i acc r)
  case (Suc fuel)
  then show ?case
    using descend_mono_list [of account fuel g] by (metis descend.simps(2))
qed simp

lemma descend_more: "descend account fuel g i acc = Some r \<Longrightarrow> descend account (fuel + k) g i acc = Some r"
proof (induction k)
  case (Suc k)
  then show ?case using descend_mono [of account "fuel + k"] by simp
qed simp

text \<open>The recursion equation of the code, with the bound out of sight.\<close>

fun below_list :: "(vertex \<Rightarrow> 'a \<Rightarrow> 'a) \<Rightarrow> jgf \<Rightarrow> string list \<Rightarrow> 'a \<Rightarrow> 'a option" where
  "below_list account g [] acc = Some acc"
| "below_list account g (c # cs) acc =
     (case lookup g c of
        None \<Rightarrow> below_list account g cs acc
      | Some v \<Rightarrow> (case below account g c (account v acc) of
                     None \<Rightarrow> None | Some acc' \<Rightarrow> below_list account g cs acc'))"

lemma below_list_descend:
  "descend_list account (length (g_nodes g)) g cs acc = Some r \<Longrightarrow> below_list account g cs acc = Some r"
proof (induction cs arbitrary: acc)
  case (Cons c cs)
  then show ?case
    by (cases "lookup g c")
      (auto split: option.splits dest: descend_mono simp: below_def depth_bound_def simp del: descend.simps)
qed simp

lemma below_list_None_iff:
  "below_list account g cs acc = None \<longleftrightarrow> (\<exists>c \<in> set cs. lookup g c \<noteq> None \<and> cycle_below g c)"
proof (induction cs arbitrary: acc)
  case (Cons c cs)
  show ?case
  proof (cases "lookup g c")
    case (Some v)
    then show ?thesis
      using Cons below_None_iff [of account g c "account v acc"]
      by (cases "below account g c (account v acc)") auto
  qed (use Cons in auto)
qed simp

lemma cycle_below_child:
  "cycle_below g i \<longleftrightarrow> (\<exists>c \<in> set (children g i). lookup g c \<noteq> None \<and> cycle_below g c)"
proof
  assume "cycle_below g i"
  then have "descend (\<lambda>_ a. a) (Suc (depth_bound g)) g i () = None"
    using cycle_below_endless unfolding descend_None_iff endless_def by blast
  then obtain c where "c \<in> set (children g i)" "lookup g c \<noteq> None"
      "\<exists>xs. length xs = depth_bound g \<and> chain g c xs"
    unfolding descend.simps descend_list_None_iff [OF descend_None_iff] by blast
  then show "\<exists>c \<in> set (children g i). lookup g c \<noteq> None \<and> cycle_below g c"
    using long_chain_cycle by blast
next
  assume "\<exists>c \<in> set (children g i). lookup g c \<noteq> None \<and> cycle_below g c"
  then obtain c as d bs where c: "c \<in> set (children g i)" "lookup g c \<noteq> None"
      "chain g c (as @ [d])" "chain g d (bs @ [d])"
    by (auto simp: cycle_below_def)
  then have "chain g i ((c # as) @ [d])" by simp
  with c(4) show "cycle_below g i" unfolding cycle_below_def by blast
qed

lemma below_unfold: "below account g i acc = below_list account g (children g i) acc"
proof (cases "below account g i acc")
  case None
  then have "below_list account g (children g i) acc = None"
    unfolding below_list_None_iff below_None_iff cycle_below_child [of g i] .
  with None show ?thesis by simp
next
  case (Some r)
  then have "below_list account g (children g i) acc = Some r"
    by (intro below_list_descend) (simp add: below_def depth_bound_def)
  with Some show ?thesis by simp
qed

text \<open>
  A graph whose edges climb a rank has no cycle, so every descent returns.\<close>

lemma chain_rank:
  assumes "\<And>e. e \<in> set (g_edges g) \<Longrightarrow> rank (e_source e) < (rank (e_target e) :: nat)"
  shows "chain g i (cs @ [c]) \<Longrightarrow> rank i < rank c"
proof (induction cs arbitrary: i)
  case Nil
  then show ?case using assms by (auto simp: in_children)
next
  case (Cons d ds)
  then have "rank i < rank d" using assms by (auto simp: in_children)
  also have "rank d < rank c" using Cons by simp
  finally show ?case .
qed

lemma ranked_no_cycle:
  assumes "\<And>e. e \<in> set (g_edges g) \<Longrightarrow> rank (e_source e) < (rank (e_target e) :: nat)"
  shows "\<not> cycle_below g i"
  using chain_rank [of g rank, OF assms] by (fastforce simp: cycle_below_def)

definition acyclic_jgf :: "jgf \<Rightarrow> bool" where
  "acyclic_jgf g \<longleftrightarrow> (\<forall>i. \<not> cycle_below g i)"

lemma acyclic_below: "acyclic_jgf g \<Longrightarrow> \<exists>r. below account g i acc = Some r"
  by (metis acyclic_jgf_def below_None_iff option.exhaust)

section \<open>Property\<close>

text \<open>
  C31. The recursive descent of \<open>nodeCapacity\<close>, \<open>CoresPerNode\<close>, \<open>GPUsPerNode\<close> and
  \<open>shapesOf\<close> returns exactly on the vertices below which the graph has no cycle: if it does
  not return within a depth of one more than the number of vertices, no depth is enough. When
  it returns it satisfies the recursion equation of the code.
\<close>

theorem descent_returns_iff:
  "(below account g i acc = None) = cycle_below g i \<and>
   (below account g i acc = None) = (\<forall>fuel. descend account fuel g i acc = None) \<and>
   below account g i acc = below_list account g (children g i) acc"
  using below_None_iff [of account g i acc] below_None_endless [of account g i acc]
    below_unfold [of account g i acc] by (simp only: simp_thms)

end
