(* ===== verification/Build.thy ===== *)
theory Build
  imports Jgf "HOL-Library.Sublist"
begin

text \<open>
  Package \<open>pkg/graph\<close>, file \<open>build.go\<close>, and \<open>SingletonSubsystem\<close> of
  \<open>jgf.go\<close>: the builder that numbers vertices in the order it adds them and the
  containment graph cluster, rack, nodes, socket, cores, gpus and memory. The lemmas show the
  numbering is a bijection and that every edge climbs it, so built graphs have no cycle and
  every descent in them returns.
\<close>

section \<open>The builder\<close>

record nodeSpec =
  ns_count :: int
  ns_cores :: int
  ns_gpus :: int
  ns_mem :: int

record jgfBuilder =
  b_g :: jgf
  b_next :: nat
  b_nodeID :: nat

definition ContainmentSubsystem :: string where
  "ContainmentSubsystem = ''containment''"

definition new_builder :: jgfBuilder where
  "new_builder = \<lparr>b_g = \<lparr>g_nodes = [], g_edges = []\<rparr>, b_next = 0, b_nodeID = 0\<rparr>"

definition b_add :: "vertex_meta \<Rightarrow> jgfBuilder \<Rightarrow> string \<times> jgfBuilder" where
  "b_add m b =
     (let i = itoa (b_next b);
          v = \<lparr>v_id = i, v_meta = m\<lparr>vm_uniq_id := int (b_next b)\<rparr>\<rparr>
      in (i, b\<lparr>b_g := (b_g b)\<lparr>g_nodes := g_nodes (b_g b) @ [v]\<rparr>, b_next := Suc (b_next b)\<rparr>))"

definition b_edge :: "string \<Rightarrow> string \<Rightarrow> jgfBuilder \<Rightarrow> jgfBuilder" where
  "b_edge src dst b =
     b\<lparr>b_g := (b_g b)\<lparr>g_edges := g_edges (b_g b) @
         [\<lparr>e_source = src, e_target = dst,
           e_meta = \<lparr>em_subsystem = ContainmentSubsystem, em_name = ''contains''\<rparr>\<rparr>]\<rparr>\<rparr>"

definition meta :: "string \<Rightarrow> string \<Rightarrow> string \<Rightarrow> int \<Rightarrow> string \<Rightarrow> vertex_meta" where
  "meta t base name i path =
     \<lparr>vm_type = t, vm_basename = base, vm_name = name, vm_id = i, vm_uniq_id = 0, vm_rank = -1,
      vm_size = 1, vm_unit = '''', vm_exclusive = False, vm_properties = [],
      vm_paths = [(ContainmentSubsystem, path)]\<rparr>"

text \<open>Add a vertex and the edge that hangs it under a parent.\<close>

definition add_under :: "string \<Rightarrow> vertex_meta \<Rightarrow> jgfBuilder \<Rightarrow> string \<times> jgfBuilder" where
  "add_under parent m b = (let (i, b) = b_add m b in (i, b_edge parent i b))"

definition add_core :: "string \<Rightarrow> string \<Rightarrow> nat \<Rightarrow> jgfBuilder \<Rightarrow> jgfBuilder" where
  "add_core spath sID c b =
     snd (add_under sID (meta ''core'' ''core'' (''core'' @ itoa c) (int c)
                          (spath @ ''/core'' @ itoa c)) b)"

definition add_gpu :: "string \<Rightarrow> string \<Rightarrow> nat \<Rightarrow> jgfBuilder \<Rightarrow> jgfBuilder" where
  "add_gpu npath nID gp b =
     snd (add_under nID (meta ''gpu'' ''gpu'' (''gpu'' @ itoa gp) (int gp)
                          (npath @ ''/gpu'' @ itoa gp)) b)"

definition cap_props :: "string list \<Rightarrow> (string \<times> string) list \<Rightarrow> (string \<times> string) list" where
  "cap_props caps props = fold (\<lambda>c m. AList.update c '''' m) caps props"

definition add_node :: "string \<Rightarrow> string \<Rightarrow> string list \<Rightarrow> nodeSpec \<Rightarrow> jgfBuilder \<Rightarrow> jgfBuilder" where
  "add_node rackPath rackID caps grp b =
     (let npath = rackPath @ ''/node'' @ itoa (b_nodeID b);
          nm = (meta ''node'' ''node'' (''node'' @ itoa (b_nodeID b)) (int (b_nodeID b)) npath)
                 \<lparr>vm_rank := int (b_nodeID b)\<rparr>;
          nm = (if caps \<noteq> [] then nm\<lparr>vm_properties := cap_props caps []\<rparr> else nm);
          (nID, b) = add_under rackID nm b;
          spath = npath @ ''/socket0'';
          (sID, b) = add_under nID (meta ''socket'' ''socket'' ''socket0'' 0 spath) b;
          b = fold (add_core spath sID) [0..<nat (ns_cores grp)] b;
          b = fold (add_gpu npath nID) [0..<nat (ns_gpus grp)] b;
          b = (if ns_mem grp > 0
               then snd (add_under nID ((meta ''memory'' ''memory'' ''memory0'' 0
                      (npath @ ''/memory0''))\<lparr>vm_size := ns_mem grp, vm_unit := ''GB''\<rparr>) b)
               else b)
      in b\<lparr>b_nodeID := Suc (b_nodeID b)\<rparr>)"

definition add_group :: "string \<Rightarrow> string \<Rightarrow> string list \<Rightarrow> nodeSpec \<Rightarrow> jgfBuilder \<Rightarrow> jgfBuilder" where
  "add_group rackPath rackID caps grp b =
     fold (\<lambda>_. add_node rackPath rackID caps grp) [0..<nat (ns_count grp)] b"

definition BuildContainment ::
  "string \<Rightarrow> string \<Rightarrow> string \<Rightarrow> nodeSpec list \<Rightarrow> string list \<Rightarrow> jgf" where
  "BuildContainment clusterID m handle groups caps =
     (let props = cap_props caps [(''manager'', m), (''handle'', handle)];
          root = (meta ''cluster'' clusterID clusterID 0 (''/'' @ clusterID))
                   \<lparr>vm_properties := props\<rparr>;
          (rootID, b) = b_add root new_builder;
          rackPath = ''/'' @ clusterID @ ''/rack0'';
          (rackID, b) = add_under rootID (meta ''rack'' ''rack'' ''rack0'' 0 rackPath) b
      in b_g (fold (add_group rackPath rackID caps) groups b))"

definition SingletonSubsystem :: "string \<Rightarrow> string \<Rightarrow> jgf" where
  "SingletonSubsystem subsystem valueType =
     (let leafName = valueType @ ''0'';
          rootPath = ''/'' @ subsystem;
          (root, b) = b_add (meta ''cluster'' ''cluster'' subsystem 0 rootPath) new_builder;
          (leaf, b) = b_add (meta valueType valueType leafName 0 (rootPath @ ''/'' @ leafName)) b
      in b_g (b_edge root leaf b))"

section \<open>Numbering\<close>

definition builder_wf :: "jgfBuilder \<Rightarrow> bool" where
  "builder_wf b \<longleftrightarrow>
     map v_id (g_nodes (b_g b)) = map itoa [0..<b_next b] \<and>
     (\<forall>e \<in> set (g_edges (b_g b)). \<exists>x y. e_source e = itoa x \<and> e_target e = itoa y \<and>
        x < y \<and> y < b_next b)"

lemma builder_wf_new [inv_intros]: "builder_wf new_builder"
  by (simp add: builder_wf_def new_builder_def)

lemma builder_wf_add [inv_intros]:
  "builder_wf b \<Longrightarrow> builder_wf (snd (b_add m b))"
  by (fastforce simp: builder_wf_def b_add_def Let_def)

lemma b_add_facts [simp]:
  "fst (b_add m b) = itoa (b_next b)" "b_next (snd (b_add m b)) = Suc (b_next b)"
  "b_nodeID (snd (b_add m b)) = b_nodeID b"
  by (simp_all add: b_add_def Let_def)

lemma b_edge_facts [simp]:
  "b_next (b_edge s d b) = b_next b" "b_nodeID (b_edge s d b) = b_nodeID b"
  "g_nodes (b_g (b_edge s d b)) = g_nodes (b_g b)"
  by (simp_all add: b_edge_def)

lemma add_under_facts [simp]:
  "fst (add_under p m b) = itoa (b_next b)" "b_next (snd (add_under p m b)) = Suc (b_next b)"
  "b_nodeID (snd (add_under p m b)) = b_nodeID b"
  by (simp_all add: add_under_def split: prod.split)
    (metis b_add_facts fst_conv snd_conv)+

lemma builder_wf_add_under [inv_intros]:
  assumes "builder_wf b" "p < b_next b"
  shows "builder_wf (snd (add_under (itoa p) m b))"
proof -
  have "snd (add_under (itoa p) m b) = b_edge (itoa p) (itoa (b_next b)) (snd (b_add m b))"
    by (simp add: add_under_def split: prod.split) (metis b_add_facts(1) fst_conv)
  moreover have "builder_wf (snd (b_add m b))" using assms(1) by (rule builder_wf_add)
  ultimately show ?thesis
    using assms(2) by (auto simp: builder_wf_def b_edge_def)
qed

lemma builder_wf_nodeID [inv_intros]: "builder_wf b \<Longrightarrow> builder_wf (b\<lparr>b_nodeID := k\<rparr>)"
  by (simp add: builder_wf_def)

abbreviation nodes_of :: "jgfBuilder \<Rightarrow> vertex list" where
  "nodes_of b \<equiv> g_nodes (b_g b)"

lemma nodes_of_add_under:
  "nodes_of (snd (add_under p m b)) =
     nodes_of b @ [\<lparr>v_id = itoa (b_next b), v_meta = m\<lparr>vm_uniq_id := int (b_next b)\<rparr>\<rparr>]"
  by (simp add: add_under_def b_add_def b_edge_def Let_def)

text \<open>A builder step keeps the numbering and the vertices so far, and only adds.\<close>

definition extends :: "jgfBuilder \<Rightarrow> jgfBuilder \<Rightarrow> bool" where
  "extends b b' \<longleftrightarrow> builder_wf b' \<and> b_next b \<le> b_next b' \<and> prefix (nodes_of b) (nodes_of b')"

definition advances :: "(jgfBuilder \<Rightarrow> jgfBuilder) \<Rightarrow> nat \<Rightarrow> bool" where
  "advances f p \<longleftrightarrow> (\<forall>b. builder_wf b \<and> p < b_next b \<longrightarrow> extends b (f b))"

lemma extends_refl: "builder_wf b \<Longrightarrow> extends b b"
  by (simp add: extends_def)

lemma extends_trans: "extends a b \<Longrightarrow> extends b c \<Longrightarrow> extends a c"
  by (auto simp: extends_def intro: prefix_order.trans)

lemma extends_add_under:
  "builder_wf b \<Longrightarrow> p < b_next b \<Longrightarrow> extends b (snd (add_under (itoa p) m b))"
  by (simp add: extends_def builder_wf_add_under nodes_of_add_under)

lemma advancesD: "advances f p \<Longrightarrow> builder_wf b \<Longrightarrow> p < b_next b \<Longrightarrow> extends b (f b)"
  by (simp add: advances_def)

lemma extendsD: "extends b b' \<Longrightarrow> builder_wf b' \<and> b_next b \<le> b_next b'"
  by (simp add: extends_def)

lemma advances_fold:
  assumes "\<And>x. advances (f x) p"
  shows "advances (fold f xs) p"
proof (induction xs)
  case Nil
  then show ?case by (simp add: advances_def extends_refl)
next
  case (Cons x xs)
  show ?case unfolding advances_def
  proof (intro allI impI, elim conjE)
    fix b assume "builder_wf b" "p < b_next b"
    then have 1: "extends b (f x b)" using assms advancesD by blast
    then have "extends (f x b) (fold f xs (f x b))"
      using Cons \<open>p < b_next b\<close> extendsD advancesD by (meson less_le_trans)
    with 1 show "extends b (fold f (x # xs) b)" by (simp add: extends_trans)
  qed
qed

lemma advances_add_core: "advances (add_core path (itoa p) c) p"
  by (simp add: advances_def add_core_def extends_add_under)

lemma advances_add_gpu: "advances (add_gpu path (itoa p) c) p"
  by (simp add: advances_def add_gpu_def extends_add_under)

lemma advances_add_cores: "advances (fold (add_core path (itoa p)) cs) p"
  by (rule advances_fold) (rule advances_add_core)

lemma advances_add_gpus: "advances (fold (add_gpu path (itoa p)) cs) p"
  by (rule advances_fold) (rule advances_add_gpu)

lemma advances_add_node: "advances (add_node rackPath (itoa p) caps grp) p"
  unfolding advances_def
proof (intro allI impI, elim conjE)
  fix b assume wf: "builder_wf b" and p: "p < b_next b"
  define path where "path = rackPath @ ''/node'' @ itoa (b_nodeID b)"
  define nm0 where "nm0 = (meta ''node'' ''node'' (''node'' @ itoa (b_nodeID b)) (int (b_nodeID b)) path)
      \<lparr>vm_rank := int (b_nodeID b)\<rparr>"
  define nm where "nm = (if caps \<noteq> [] then nm0\<lparr>vm_properties := cap_props caps []\<rparr> else nm0)"
  define k where "k = b_next b"
  define b1 where "b1 = snd (add_under (itoa p) nm b)"
  define b2 where "b2 = snd (add_under (itoa k) (meta ''socket'' ''socket'' ''socket0'' 0 (path @ ''/socket0'')) b1)"
  define b3 where "b3 = fold (add_core (path @ ''/socket0'') (itoa (Suc k))) [0..<nat (ns_cores grp)] b2"
  define b4 where "b4 = fold (add_gpu path (itoa k)) [0..<nat (ns_gpus grp)] b3"
  define b5 where "b5 = (if ns_mem grp > 0
      then snd (add_under (itoa k) ((meta ''memory'' ''memory'' ''memory0'' 0
             (path @ ''/memory0''))\<lparr>vm_size := ns_mem grp, vm_unit := ''GB''\<rparr>) b4)
      else b4)"
  have eq: "add_node rackPath (itoa p) caps grp b = b5\<lparr>b_nodeID := Suc (b_nodeID b5)\<rparr>"
    unfolding add_node_def Let_def case_prod_unfold b5_def b4_def b3_def b2_def b1_def nm_def
      nm0_def path_def k_def by simp
  have 1: "extends b b1" "builder_wf b1" "b_next b1 = Suc k"
    using wf p extends_add_under by (auto simp: b1_def k_def intro: inv_intros)
  have 2: "extends b1 b2" "builder_wf b2" "b_next b2 = Suc (Suc k)"
    using 1 extends_add_under by (auto simp: b2_def intro: inv_intros)
  have 3: "extends b2 b3"
    using advancesD [OF advances_add_cores 2(2), of "Suc k"] 2(3) by (simp add: b3_def)
  then have wf3: "builder_wf b3" "Suc k < b_next b3" using 2(3) extendsD by fastforce+
  have 4: "extends b3 b4"
    using advancesD [OF advances_add_gpus wf3(1), of k] wf3(2) by (simp add: b4_def)
  then have wf4: "builder_wf b4" "k < b_next b4" using wf3(2) extendsD by fastforce+
  have 5: "extends b4 b5"
    using wf4 by (auto simp: b5_def extends_refl intro: extends_add_under)
  have "extends b b5"
    using 1(1) 2(1) 3 4 5 extends_trans by blast
  then show "extends b (add_node rackPath (itoa p) caps grp b)"
    unfolding eq by (simp add: extends_def builder_wf_nodeID)
qed

lemma advances_add_group: "advances (add_group rackPath (itoa p) caps grp) p"
proof -
  have "advances (fold (\<lambda>_. add_node rackPath (itoa p) caps grp) [0..<nat (ns_count grp)]) p"
    by (rule advances_fold) (rule advances_add_node)
  then show ?thesis unfolding add_group_def .
qed

lemma advances_add_groups: "advances (fold (add_group rackPath (itoa p) caps) grps) p"
  by (rule advances_fold) (rule advances_add_group)

definition root_meta :: "string \<Rightarrow> string \<Rightarrow> string \<Rightarrow> string list \<Rightarrow> vertex_meta" where
  "root_meta clusterID m handle caps =
     (meta ''cluster'' clusterID clusterID 0 (''/'' @ clusterID))
       \<lparr>vm_properties := cap_props caps [(''manager'', m), (''handle'', handle)]\<rparr>"

lemma BuildContainment_builder:
  "\<exists>b vs. builder_wf b \<and> BuildContainment clusterID m handle groups caps = b_g b \<and>
     nodes_of b = \<lparr>v_id = itoa 0, v_meta = root_meta clusterID m handle caps\<rparr> # vs"
proof -
  define r where "r = b_add (root_meta clusterID m handle caps) new_builder"
  define k where "k = add_under (fst r)
      (meta ''rack'' ''rack'' ''rack0'' 0 (''/'' @ clusterID @ ''/rack0'')) (snd r)"
  define f where "f = fold (add_group (''/'' @ clusterID @ ''/rack0'') (itoa 1) caps) groups (snd k)"
  have r: "fst r = itoa 0" "builder_wf (snd r)" "b_next (snd r) = 1"
      "nodes_of (snd r) = [\<lparr>v_id = itoa 0, v_meta = root_meta clusterID m handle caps\<rparr>]"
    by (auto simp: r_def new_builder_def builder_wf_def b_add_def Let_def root_meta_def meta_def)
  have k: "fst k = itoa 1" "extends (snd r) (snd k)" "b_next (snd k) = 2"
    using r extends_add_under by (auto simp: k_def)
  have "extends (snd k) f"
    using advancesD [OF advances_add_groups, of "snd k" 1] k(2,3) by (auto simp: f_def dest: extendsD)
  with k(2) have "extends (snd r) f" by (rule extends_trans)
  moreover have "BuildContainment clusterID m handle groups caps = b_g f"
    unfolding BuildContainment_def Let_def case_prod_unfold k_def r_def [symmetric] f_def
      root_meta_def [symmetric] using k(1) by (simp add: k_def)
  ultimately show ?thesis using r(4) by (auto simp: extends_def prefix_def)
qed

lemma builder_wf_acyclic: "builder_wf b \<Longrightarrow> acyclic_jgf (b_g b)"
  unfolding acyclic_jgf_def
  by (intro allI ranked_no_cycle [of _ digits_val]) (auto simp: builder_wf_def dest: bspec)

lemma builder_wf_distinct: "builder_wf b \<Longrightarrow> distinct (map v_id (g_nodes (b_g b)))"
  by (simp add: builder_wf_def distinct_map inj_on_def)

lemma acyclic_BuildContainment: "acyclic_jgf (BuildContainment c m h gs caps)"
  using BuildContainment_builder builder_wf_acyclic by metis

lemma distinct_BuildContainment: "distinct (map v_id (g_nodes (BuildContainment c m h gs caps)))"
  using BuildContainment_builder builder_wf_distinct by metis

end
