(* ===== verification/Fleet.thy ===== *)
theory Fleet
  imports Build
begin

text \<open>
  Package \<open>pkg/graph\<close>, file \<open>graph.go\<close> and the registration half of \<open>build.go\<close>:
  one cluster with its subsystem graphs and dispatch configuration, the fleet registry, and
  the loaders that recover a cluster from its containment graph. The registry is a list, as
  in the code; the locale \<open>keyed_registry\<close> states what its clients rely on.
\<close>

section \<open>Clusters\<close>

definition FluxOperator :: string where "FluxOperator = ''flux-operator''"
definition SlurmOperator :: string where "SlurmOperator = ''slurm-operator''"
definition K8sJob :: string where "K8sJob = ''k8s-job''"
definition FluxURI :: string where "FluxURI = ''flux-uri''"

definition KnownManagers :: "string list" where
  "KnownManagers = [FluxOperator, SlurmOperator, K8sJob, FluxURI]"

lemma managers_distinct:
  "FluxOperator \<noteq> SlurmOperator" "FluxOperator \<noteq> K8sJob" "FluxOperator \<noteq> FluxURI"
  "SlurmOperator \<noteq> K8sJob" "SlurmOperator \<noteq> FluxURI" "K8sJob \<noteq> FluxURI"
  by (simp_all add: FluxOperator_def SlurmOperator_def K8sJob_def FluxURI_def)

record cluster_graph =
  cg_ID :: string
  cg_Manager :: string
  cg_Handle :: string
  cg_Config :: "(string \<times> string) list"
  cg_Subsystems :: "(string \<times> jgf) list"
  cg_Descriptive :: "(string \<times> bool) list"

definition Containment_of :: "cluster_graph \<Rightarrow> jgf option" where
  "Containment_of c = map_of (cg_Subsystems c) ContainmentSubsystem"

definition is_root :: "vertex \<Rightarrow> bool" where
  "is_root v \<longleftrightarrow> v_type v = ''cluster''"

definition Capabilities :: "cluster_graph \<Rightarrow> (string \<times> bool) list" where
  "Capabilities c = (case Containment_of c of None \<Rightarrow> []
     | Some g \<Rightarrow> (case find_vertex g is_root of None \<Rightarrow> []
         | Some root \<Rightarrow>
             fold (\<lambda>(k, v) out. if k = ''manager'' \<or> k = ''handle'' then out
                               else AList.update k True out)
               (vm_properties (v_meta root)) []))"

definition count_type :: "string \<Rightarrow> vertex \<Rightarrow> int \<Rightarrow> int" where
  "count_type t v n = (if v_type v = t then i64 (n + vsize v) else n)"

fun min_cores :: "jgf \<Rightarrow> vertex list \<Rightarrow> int \<Rightarrow> int option" where
  "min_cores g [] minCores = Some minCores"
| "min_cores g (n # ns) minCores =
     (case below (count_type ''core'') g (v_id n) 0 of
        None \<Rightarrow> None
      | Some cores \<Rightarrow>
          min_cores g ns (if cores > 0 \<and> (minCores = 0 \<or> cores < minCores) then cores else minCores))"

definition cg_CoresPerNode :: "cluster_graph \<Rightarrow> int option" where
  "cg_CoresPerNode c = (case Containment_of c of None \<Rightarrow> Some 0
     | Some g \<Rightarrow> min_cores g (verticesOfType g ''node'') 0)"

fun min_gpus :: "jgf \<Rightarrow> vertex list \<Rightarrow> int \<Rightarrow> int option" where
  "min_gpus g [] minGPUs = Some minGPUs"
| "min_gpus g (n # ns) minGPUs =
     (case below (count_type ''gpu'') g (v_id n) 0 of
        None \<Rightarrow> None
      | Some gpus \<Rightarrow> min_gpus g ns (if minGPUs < 0 \<or> gpus < minGPUs then gpus else minGPUs))"

definition cg_GPUsPerNode :: "cluster_graph \<Rightarrow> int option" where
  "cg_GPUsPerNode c = (case Containment_of c of None \<Rightarrow> Some 0
     | Some g \<Rightarrow> map_option (\<lambda>m. if m < 0 then 0 else m) (min_gpus g (verticesOfType g ''node'') (-1)))"

definition SubsystemHas :: "cluster_graph \<Rightarrow> string \<Rightarrow> string \<Rightarrow> bool" where
  "SubsystemHas c sub value = (case map_of (cg_Subsystems c) sub of None \<Rightarrow> False
     | Some g \<Rightarrow> list_ex (\<lambda>v. v_type v = value) (g_nodes g))"

definition Cfg :: "cluster_graph \<Rightarrow> string \<Rightarrow> string" where
  "Cfg c key = (case map_of (cg_Config c) key of None \<Rightarrow> '''' | Some v \<Rightarrow> v)"

definition Emulated :: "cluster_graph \<Rightarrow> bool" where
  "Emulated c \<longleftrightarrow> Cfg c ''emulate'' = ''true''"

definition Reserves :: "cluster_graph \<Rightarrow> bool" where
  "Reserves c \<longleftrightarrow> Cfg c ''reserve'' \<noteq> ''false''"

definition IsDescriptive :: "cluster_graph \<Rightarrow> string \<Rightarrow> bool" where
  "IsDescriptive c sub =
     (if sub = ContainmentSubsystem then \<not> Reserves c
      else (case map_of (cg_Descriptive c) sub of Some d \<Rightarrow> d | None \<Rightarrow> True))"

definition AttachSubsystem :: "string \<Rightarrow> jgf \<Rightarrow> bool \<Rightarrow> cluster_graph \<Rightarrow> cluster_graph" where
  "AttachSubsystem name g descriptive c =
     c\<lparr>cg_Subsystems := AList.update name g (cg_Subsystems c),
       cg_Descriptive := AList.update name descriptive (cg_Descriptive c)\<rparr>"

definition DetachSubsystem :: "string \<Rightarrow> cluster_graph \<Rightarrow> bool \<times> cluster_graph" where
  "DetachSubsystem name c =
     (if name = ContainmentSubsystem then (False, c)
      else if map_of (cg_Subsystems c) name = None then (False, c)
      else (True, c\<lparr>cg_Subsystems := AList.delete name (cg_Subsystems c),
                    cg_Descriptive := AList.delete name (cg_Descriptive c)\<rparr>))"

section \<open>The fleet\<close>

type_synonym fleet = "cluster_graph list"

fun fl_Get :: "fleet \<Rightarrow> string \<Rightarrow> cluster_graph option" where
  "fl_Get [] i = None"
| "fl_Get (c # cs) i = (if cg_ID c = i then Some c else fl_Get cs i)"

definition fl_Names :: "fleet \<Rightarrow> string list" where
  "fl_Names f = map cg_ID f"

definition fl_Len :: "fleet \<Rightarrow> nat" where
  "fl_Len f = length f"

fun fl_Add :: "cluster_graph \<Rightarrow> fleet \<Rightarrow> fleet" where
  "fl_Add cg [] = [cg]"
| "fl_Add cg (c # cs) = (if cg_ID c = cg_ID cg then cg # cs else c # fl_Add cg cs)"

fun fl_Remove :: "string \<Rightarrow> fleet \<Rightarrow> bool \<times> fleet" where
  "fl_Remove i [] = (False, [])"
| "fl_Remove i (c # cs) =
     (if cg_ID c = i then (True, cs)
      else (case fl_Remove i cs of (found, cs') \<Rightarrow> (found, c # cs')))"

section \<open>Recovering a cluster from its containment graph\<close>

fun firstNonEmpty :: "string list \<Rightarrow> string" where
  "firstNonEmpty [] = ''''"
| "firstNonEmpty (x # xs) = (if x \<noteq> '''' then x else firstNonEmpty xs)"

definition prop_of :: "vertex_meta \<Rightarrow> string \<Rightarrow> string" where
  "prop_of m k = (case map_of (vm_properties m) k of None \<Rightarrow> '''' | Some v \<Rightarrow> v)"

definition from_root :: "(string \<times> jgf) list \<Rightarrow> vertex \<Rightarrow> cluster_graph" where
  "from_root subs root =
     \<lparr>cg_ID = firstNonEmpty [vm_name (v_meta root), vm_basename (v_meta root)],
      cg_Manager = prop_of (v_meta root) ''manager'',
      cg_Handle = prop_of (v_meta root) ''handle'',
      cg_Config = [], cg_Subsystems = subs, cg_Descriptive = []\<rparr>"

definition ClusterFromContainment :: "jgf \<Rightarrow> string + cluster_graph" where
  "ClusterFromContainment g =
     (case find_vertex g is_root of
        None \<Rightarrow> Inl ''containment has no cluster root vertex''
      | Some root \<Rightarrow> Inr (from_root [(ContainmentSubsystem, g)] root))"

record cluster_spec =
  sp_Name :: string
  sp_Manager :: string
  sp_Handle :: string
  sp_Nodes :: "nodeSpec list"
  sp_Capabilities :: "string list"

definition spec_Build :: "cluster_spec \<Rightarrow> string + cluster_graph" where
  "spec_Build s =
     (if sp_Name s = '''' then Inl ''cluster name is required''
      else if sp_Nodes s = [] then
        Inl (''cluster '' @ go_quote (sp_Name s) @ '' needs at least one node group'')
      else if sp_Manager s = '''' then
        Inl (''cluster '' @ go_quote (sp_Name s) @ '' needs a manager type'')
      else ClusterFromContainment
             (BuildContainment (sp_Name s) (sp_Manager s) (sp_Handle s) (sp_Nodes s) (sp_Capabilities s)))"

text \<open>
  \<open>loadClusterDir\<close> over the contents of a directory: file names in the order
  \<open>os.ReadDir\<close> gives them, each with the result of reading and decoding it.
\<close>

definition json_suffix :: string where
  "json_suffix = ''.json''"

definition has_json_suffix :: "string \<Rightarrow> bool" where
  "has_json_suffix n \<longleftrightarrow> length json_suffix \<le> length n \<and>
     drop (length n - length json_suffix) n = json_suffix"

definition trim_json :: "string \<Rightarrow> string" where
  "trim_json n = take (length n - length json_suffix) n"

fun load_subsystems ::
  "(string \<times> (string + jgf)) list \<Rightarrow> (string \<times> jgf) list \<Rightarrow> string + (string \<times> jgf) list" where
  "load_subsystems [] subs = Inr subs"
| "load_subsystems ((name, content) # files) subs =
     (if \<not> has_json_suffix name then load_subsystems files subs
      else (case content of
              Inl e \<Rightarrow> Inl e
            | Inr g \<Rightarrow> load_subsystems files (AList.update (trim_json name) g subs)))"

definition loadClusterDir :: "(string \<times> (string + jgf)) list \<Rightarrow> string + cluster_graph" where
  "loadClusterDir files =
     (case load_subsystems files [] of
        Inl e \<Rightarrow> Inl e
      | Inr subs \<Rightarrow>
          (case map_of subs ContainmentSubsystem of
             None \<Rightarrow> Inl ''missing containment.json''
           | Some cont \<Rightarrow>
               (case find_vertex cont is_root of
                  None \<Rightarrow> Inl ''containment has no cluster root vertex''
                | Some root \<Rightarrow> Inr (from_root subs root))))"

fun load_entries ::
  "(string \<times> bool \<times> (string \<times> (string + jgf)) list) list \<Rightarrow> fleet \<Rightarrow> string + fleet" where
  "load_entries [] fl = Inr fl"
| "load_entries ((name, is_dir, files) # es) fl =
     (if \<not> is_dir then load_entries es fl
      else (case loadClusterDir files of
              Inl e \<Rightarrow> Inl (''cluster '' @ go_quote name @ '': '' @ e)
            | Inr cg \<Rightarrow> load_entries es (fl_Add cg fl)))"

definition LoadFleet ::
  "(string \<times> bool \<times> (string \<times> (string + jgf)) list) list \<Rightarrow> string + fleet" where
  "LoadFleet entries = load_entries entries []"

section \<open>The registry as a keyed store\<close>

definition fleet_inv :: "fleet \<Rightarrow> bool" where
  "fleet_inv f \<longleftrightarrow> distinct (map cg_ID f)"

lemma ids_fl_Add:
  "map cg_ID (fl_Add cg f) = (if cg_ID cg \<in> cg_ID ` set f then map cg_ID f else map cg_ID f @ [cg_ID cg])"
  by (induction cg f rule: fl_Add.induct) auto

lemma fleet_inv_Add [inv_intros]: "fleet_inv f \<Longrightarrow> fleet_inv (fl_Add cg f)"
  by (auto simp: fleet_inv_def ids_fl_Add)

lemma ids_fl_Remove: "map cg_ID (snd (fl_Remove i f)) = remove1 i (map cg_ID f)"
  by (induction i f rule: fl_Remove.induct) (auto split: prod.split)

lemma fleet_inv_Remove [inv_intros]: "fleet_inv f \<Longrightarrow> fleet_inv (snd (fl_Remove i f))"
  by (simp add: fleet_inv_def ids_fl_Remove distinct_remove1)

lemma fl_Get_None_iff: "fl_Get f i = None \<longleftrightarrow> i \<notin> cg_ID ` set f"
  by (induction f i rule: fl_Get.induct) auto

lemma fl_Get_Add: "fl_Get (fl_Add cg f) i = (if i = cg_ID cg then Some cg else fl_Get f i)"
  by (induction cg f rule: fl_Add.induct) auto

lemma fl_Get_ID: "fl_Get f i = Some c \<Longrightarrow> cg_ID c = i \<and> c \<in> set f"
  by (induction f i rule: fl_Get.induct) (auto split: if_splits)

lemma fl_Get_Remove:
  "fleet_inv f \<Longrightarrow> fl_Get (snd (fl_Remove i f)) k = (if k = i then None else fl_Get f k)"
  by (induction i f rule: fl_Remove.induct)
    (auto simp: fleet_inv_def fl_Get_None_iff split: prod.split)

lemma fst_fl_Remove: "fst (fl_Remove i f) \<longleftrightarrow> fl_Get f i \<noteq> None"
  by (induction i f rule: fl_Remove.induct) (auto split: prod.split)

interpretation fl: keyed_registry fl_Get fl_Add cg_ID fleet_inv fl_Remove
  by unfold_locales
    (auto simp: fl_Get_Add fl_Get_Remove fst_fl_Remove dest: fl_Get_ID intro: inv_intros)

lemma fleet_inv_Nil [simp]: "fleet_inv []"
  by (simp add: fleet_inv_def)

lemma load_entries_inv: "load_entries es f = Inr f' \<Longrightarrow> fleet_inv f \<Longrightarrow> fleet_inv f'"
  by (induction es f rule: load_entries.induct) (auto split: if_splits sum.splits intro: inv_intros)

section \<open>Recovery\<close>

lemma map_of_fold_update_notin:
  "k \<notin> set xs \<Longrightarrow> map_of (fold (\<lambda>c m. AList.update c (f c) m) xs m) k = map_of m k"
  by (induction xs arbitrary: m) auto

lemma find_root_Build:
  "\<exists>vs. g_nodes (BuildContainment c m h gs caps) = \<lparr>v_id = itoa 0, v_meta = root_meta c m h caps\<rparr> # vs"
  using BuildContainment_builder [of c m h gs caps] by force

lemma find_vertex_Build:
  "find_vertex (BuildContainment c m h gs caps) is_root =
     Some \<lparr>v_id = itoa 0, v_meta = root_meta c m h caps\<rparr>"
  using find_root_Build [of c m h gs caps]
  by (auto simp: find_vertex_def is_root_def root_meta_def meta_def)

lemma root_props:
  "''manager'' \<notin> set caps \<Longrightarrow> prop_of (root_meta c m h caps) ''manager'' = m"
  "''handle'' \<notin> set caps \<Longrightarrow> prop_of (root_meta c m h caps) ''handle'' = h"
  by (simp_all add: prop_of_def root_meta_def cap_props_def map_of_fold_update_notin)

lemma vm_name_root [simp]: "vm_name (root_meta c m h caps) = c" "vm_basename (root_meta c m h caps) = c"
  by (simp_all add: root_meta_def meta_def)

lemma ClusterFromContainment_Build:
  "ClusterFromContainment (BuildContainment c m h gs caps) =
     Inr \<lparr>cg_ID = c, cg_Manager = prop_of (root_meta c m h caps) ''manager'',
          cg_Handle = prop_of (root_meta c m h caps) ''handle'', cg_Config = [],
          cg_Subsystems = [(ContainmentSubsystem, BuildContainment c m h gs caps)],
          cg_Descriptive = []\<rparr>"
  by (simp add: ClusterFromContainment_def find_vertex_Build from_root_def)

lemma Containment_of_Attach:
  "Containment_of (AttachSubsystem n g d c) =
     (if n = ContainmentSubsystem then Some g else Containment_of c)"
  by (auto simp: Containment_of_def AttachSubsystem_def)

lemma Attach_same [simp]:
  "cg_ID (AttachSubsystem n g d c) = cg_ID c" "cg_Config (AttachSubsystem n g d c) = cg_Config c"
  "cg_Manager (AttachSubsystem n g d c) = cg_Manager c"
  by (simp_all add: AttachSubsystem_def)

lemma Detach_same [simp]:
  "cg_ID (snd (DetachSubsystem n c)) = cg_ID c" "cg_Config (snd (DetachSubsystem n c)) = cg_Config c"
  by (simp_all add: DetachSubsystem_def)

lemma Containment_of_Detach [simp]:
  "Containment_of (snd (DetachSubsystem n c)) = Containment_of c"
  by (auto simp: Containment_of_def DetachSubsystem_def)

lemma Reserves_Attach [simp]: "Reserves (AttachSubsystem n g d c) = Reserves c"
  by (simp add: Reserves_def Cfg_def)

lemma Reserves_Detach [simp]: "Reserves (snd (DetachSubsystem n c)) = Reserves c"
  by (simp add: Reserves_def Cfg_def)

section \<open>Properties\<close>

text \<open>
  A cluster built from a specification is the one specified: \<open>spec_Build\<close> recovers the
  name, the manager and the handle from the containment graph it wrote, that graph is the
  cluster's containment subsystem, has distinct vertex ids and no cycle, and registering the
  graph again gives the same cluster.
\<close>

theorem spec_Build_recovers:
  assumes "sp_Name s \<noteq> ''''" "sp_Nodes s \<noteq> []" "sp_Manager s \<noteq> ''''"
    and "''manager'' \<notin> set (sp_Capabilities s)" "''handle'' \<notin> set (sp_Capabilities s)"
  shows "\<exists>cg g. spec_Build s = Inr cg \<and> Containment_of cg = Some g \<and>
     cg_ID cg = sp_Name s \<and> cg_Manager cg = sp_Manager s \<and> cg_Handle cg = sp_Handle s \<and>
     ClusterFromContainment g = Inr cg \<and> distinct (map v_id (g_nodes g)) \<and> acyclic_jgf g"
  using assms
  by (simp add: spec_Build_def ClusterFromContainment_Build root_props Containment_of_def
      distinct_BuildContainment acyclic_BuildContainment)

definition demo_spec :: cluster_spec where
  "demo_spec = \<lparr>sp_Name = ''east'', sp_Manager = ''flux-uri'', sp_Handle = ''local:///run/flux'',
     sp_Nodes = [\<lparr>ns_count = 2, ns_cores = 4, ns_gpus = 1, ns_mem = 16\<rparr>], sp_Capabilities = [''efa'']\<rparr>"

theorem spec_Build_recovers_witness:
  "\<exists>cg g. spec_Build demo_spec = Inr cg \<and> Containment_of cg = Some g \<and>
     cg_ID cg = ''east'' \<and> cg_Manager cg = ''flux-uri'' \<and> cg_Handle cg = ''local:///run/flux'' \<and>
     ClusterFromContainment g = Inr cg \<and> distinct (map v_id (g_nodes g)) \<and> acyclic_jgf g"
  using spec_Build_recovers [of demo_spec] by (simp add: demo_spec_def)

text \<open>
  The fleet registry holds one cluster per id. Adding a cluster makes it the one found
  under its id and touches no other, removing an id reports whether it was there and removes
  only it, re-adding keeps the position, and the ids stay distinct; a fleet loaded from disk
  starts in that state.
\<close>

theorem fleet_registry:
  assumes "LoadFleet entries = Inr f"
  shows "fleet_inv f \<and> fleet_inv (fl_Add cg f) \<and> fleet_inv (snd (fl_Remove i f)) \<and>
    fl_Get (fl_Add cg f) k = (if k = cg_ID cg then Some cg else fl_Get f k) \<and>
    fl_Get (snd (fl_Remove i f)) k = (if k = i then None else fl_Get f k) \<and>
    fst (fl_Remove i f) = (fl_Get f i \<noteq> None) \<and>
    fl_Names (fl_Add cg f) =
      (if fl_Get f (cg_ID cg) = None then fl_Names f @ [cg_ID cg] else fl_Names f) \<and>
    \<not> fst (fl_Remove i (snd (fl_Remove i f)))"
proof -
  have inv: "fleet_inv f"
    using load_entries_inv [of entries "[]" f] assms by (simp add: LoadFleet_def)
  have names: "fl_Names (fl_Add cg f) =
      (if fl_Get f (cg_ID cg) = None then fl_Names f @ [cg_ID cg] else fl_Names f)"
    using fl_Get_None_iff [of f "cg_ID cg"] by (simp add: fl_Names_def ids_fl_Add)
  show ?thesis
    using inv names fl.get_put [OF inv] fl.get_del [OF inv] fl.found_del [OF inv]
      fl.del_twice [OF inv] fl.inv_put [OF inv] fl.inv_del [OF inv] by simp
qed

definition demo_graph :: jgf where
  "demo_graph = \<lparr>g_nodes = [\<lparr>v_id = ''0'', v_meta = meta ''cluster'' ''c1'' ''c1'' 0 ''/c1''\<rparr>], g_edges = []\<rparr>"

theorem fleet_registry_witness:
  "\<exists>f. LoadFleet [(''c1'', True, [(''containment.json'', Inr demo_graph)]), (''README'', False, [])] = Inr f \<and>
     fl_Names f = [''c1''] \<and> fleet_inv (snd (fl_Remove ''c1'' f))"
proof -
  have "LoadFleet [(''c1'', True, [(''containment.json'', Inr demo_graph)]), (''README'', False, [])] =
      Inr [from_root [(''containment'', demo_graph)] (hd (g_nodes demo_graph))]" (is "?l = Inr ?f")
    by (simp add: LoadFleet_def loadClusterDir_def has_json_suffix_def json_suffix_def trim_json_def
        ContainmentSubsystem_def find_vertex_def demo_graph_def is_root_def meta_def)
  moreover have "fl_Names ?f = [''c1'']"
    by (simp add: fl_Names_def from_root_def demo_graph_def meta_def)
  ultimately show ?thesis
    using fleet_registry [of "[(''c1'', True, [(''containment.json'', Inr demo_graph)]), (''README'', False, [])]" ?f]
    by blast
qed

text \<open>
  What makes a cluster emulated is the configuration key alone: a cluster registered with
  no configuration at all, as \<open>spec_Build\<close> and the directory loader produce it, is not
  emulated and its containment is reserved, whatever its manager.
\<close>

theorem no_config_not_emulated:
  "(\<forall>s cg. spec_Build s = Inr cg \<longrightarrow> \<not> Emulated cg \<and> Reserves cg) \<and>
   (\<forall>files cg. loadClusterDir files = Inr cg \<longrightarrow> \<not> Emulated cg \<and> Reserves cg)"
  by (auto simp: spec_Build_def ClusterFromContainment_def loadClusterDir_def from_root_def Emulated_def
      Reserves_def Cfg_def split: if_splits option.splits sum.splits)

theorem no_config_not_emulated_witness:
  "\<exists>cg. loadClusterDir [(''containment.json'', Inr demo_graph)] = Inr cg \<and> \<not> Emulated cg \<and> Reserves cg"
proof -
  have "\<exists>cg. loadClusterDir [(''containment.json'', Inr demo_graph)] = Inr cg"
    by (simp add: loadClusterDir_def has_json_suffix_def json_suffix_def trim_json_def
        ContainmentSubsystem_def find_vertex_def demo_graph_def is_root_def meta_def)
  then show ?thesis using no_config_not_emulated by blast
qed

end
