(* ===== verification/Jobspec.thy ===== *)
theory Jobspec
  imports Prelude Complex_Main
begin

text \<open>
  Package \<open>pkg/jobspec\<close>: the Flux jobspec with its \<open>requires\<close> block
  (\<open>jobspec.go\<close>) and the documents rendered for Fluxion (\<open>flux.go\<close>). The theory
  holds the document types, the accessors that read counts off the resource tree, the
  builders, the expansion of \<open>anyof\<close> groups and the canonical containment request; its
  lemmas relate every tree walk to a reference sum over the tree.
\<close>

section \<open>The document\<close>

datatype resource = Resource
  (r_type: string) (r_count: int) (r_label: string) (r_exclusive: bool)
  (r_unit: string) (r_with: "resource list")

text \<open>The values a decoded JSON document can hold where the Go type is \<open>any\<close>.\<close>

datatype gany =
    GStr string
  | GInt int
  | GFloat rat
  | GBool bool
  | GNil
  | GList "gany list"
  | GMap "(string \<times> gany) list"

record task =
  t_command :: "string list"
  t_slot :: string
  t_count :: "(string \<times> int) list"

record attributes =
  a_system :: "(string \<times> gany) list"
  a_user :: "(string \<times> gany) list"

record jobspec =
  js_version :: int
  js_resources :: "resource list"
  js_tasks :: "task list"
  js_attributes :: "attributes option"
  js_requires :: "(string \<times> resource list) list"

section \<open>Accessors\<close>

definition Name :: "jobspec \<Rightarrow> string" where
  "Name j = (case js_attributes j of None \<Rightarrow> ''''
     | Some a \<Rightarrow> (case map_of (a_system a) ''job'' of
         Some (GMap job) \<Rightarrow> (case map_of job ''name'' of Some (GStr n) \<Rightarrow> n | _ \<Rightarrow> '''')
       | _ \<Rightarrow> ''''))"

definition user_string :: "string \<Rightarrow> jobspec \<Rightarrow> string" where
  "user_string k j = (case js_attributes j of None \<Rightarrow> ''''
     | Some a \<Rightarrow> (case map_of (a_user a) k of Some (GStr s) \<Rightarrow> s | _ \<Rightarrow> ''''))"

definition Image :: "jobspec \<Rightarrow> string" where
  "Image j = user_string ''image'' j"

definition Command :: "jobspec \<Rightarrow> string list" where
  "Command j = (case js_tasks j of [] \<Rightarrow> [] | t # _ \<Rightarrow> t_command t)"

fun numAttr :: "gany option \<Rightarrow> rat option" where
  "numAttr (Some (GFloat x)) = Some x"
| "numAttr (Some (GInt n)) = Some (of_int n)"
| "numAttr _ = None"

text \<open>Conversion of a float to an integer type drops the fraction.\<close>

definition trunc_rat :: "rat \<Rightarrow> int" where
  "trunc_rat x = (if 0 \<le> x then \<lfloor>x\<rfloor> else \<lceil>x\<rceil>)"

definition second :: int where
  "second = 1000000000"

definition Duration :: "jobspec \<Rightarrow> int" where
  "Duration j = (case js_attributes j of None \<Rightarrow> 0
     | Some a \<Rightarrow> (case numAttr (map_of (a_system a) ''duration'') of
         Some v \<Rightarrow> i64 (trunc_rat v * second)
       | None \<Rightarrow> 0))"

definition WithJobID :: "jobspec \<Rightarrow> string \<Rightarrow> jobspec" where
  "WithJobID j i =
     (let sys = (case js_attributes j of None \<Rightarrow> [] | Some a \<Rightarrow> a_system a);
          user = (case js_attributes j of None \<Rightarrow> [] | Some a \<Rightarrow> a_user a)
      in j\<lparr>js_attributes :=
             Some \<lparr>a_system = sys, a_user = AList.update ''jobid'' (GStr i) user\<rparr>\<rparr>)"

definition JobID :: "jobspec \<Rightarrow> string" where
  "JobID j = user_string ''jobid'' j"

section \<open>Counting resources\<close>

text \<open>
  \<open>counts\<close> of \<open>jobspec.go\<close> holds two recursive closures, both over the resource tree:
  \<open>perNode\<close> adds up cores, gpus and memory below one request, \<open>walk\<close> finds the node
  requests. Every product and sum is a Go \<open>int\<close>.
\<close>

definition eff_count :: "int \<Rightarrow> int" where
  "eff_count c = (if c \<le> 0 then 1 else c)"

definition add_unit :: "string \<Rightarrow> int \<Rightarrow> int \<times> int \<times> int \<Rightarrow> int \<times> int \<times> int" where
  "add_unit t m acc = (case acc of (c, g, mem) \<Rightarrow>
     (if t = ''core'' then (i64 (c + m), g, mem)
      else if t = ''gpu'' then (c, i64 (g + m), mem)
      else if t = ''memory'' then (c, g, i64 (mem + m))
      else (c, g, mem)))"

fun perNode :: "resource list \<Rightarrow> int \<Rightarrow> int \<times> int \<times> int \<Rightarrow> int \<times> int \<times> int" where
  "perNode [] mult acc = acc"
| "perNode (Resource t n l e u w # rs) mult acc =
     perNode rs mult
       (perNode w (i64 (mult * eff_count n)) (add_unit t (i64 (mult * eff_count n)) acc))"

record tally =
  ty_found :: bool
  ty_nodes :: int
  ty_cores :: int
  ty_gpus :: int
  ty_mem :: int

definition node_found :: "int \<Rightarrow> int \<times> int \<times> int \<Rightarrow> tally \<Rightarrow> tally" where
  "node_found m acc y = (case acc of (c, g, mem) \<Rightarrow>
     \<lparr>ty_found = True, ty_nodes = i64 (ty_nodes y + m),
      ty_cores = (if c > ty_cores y then c else ty_cores y),
      ty_gpus = (if g > ty_gpus y then g else ty_gpus y),
      ty_mem = (if mem > ty_mem y then mem else ty_mem y)\<rparr>)"

fun walk :: "resource list \<Rightarrow> int \<Rightarrow> tally \<Rightarrow> tally" where
  "walk [] mult y = y"
| "walk (Resource t n l e u w # rs) mult y =
     (if t = ''node''
      then walk rs mult (node_found (i64 (mult * eff_count n)) (perNode w 1 (0, 0, 0)) y)
      else walk rs mult (walk w (i64 (mult * eff_count n)) y))"

definition counts :: "jobspec \<Rightarrow> int \<times> int \<times> int \<times> int" where
  "counts j =
     (let y = walk (js_resources j) 1
                \<lparr>ty_found = False, ty_nodes = 0, ty_cores = 0, ty_gpus = 0, ty_mem = 0\<rparr>;
          (nodes, c, g, mem) =
            (if \<not> ty_found y then (1, perNode (js_resources j) 1 (0, 0, 0))
             else (ty_nodes y, ty_cores y, ty_gpus y, ty_mem y))
      in ((if nodes < 1 then 1 else nodes), c, g, mem))"

definition Nodes :: "jobspec \<Rightarrow> int" where
  "Nodes j = fst (counts j)"

definition CoresPerNode :: "jobspec \<Rightarrow> int" where
  "CoresPerNode j = fst (snd (counts j))"

definition GPUsPerNode :: "jobspec \<Rightarrow> int" where
  "GPUsPerNode j = fst (snd (snd (counts j)))"

definition MemGBPerNode :: "jobspec \<Rightarrow> int" where
  "MemGBPerNode j = snd (snd (snd (counts j)))"

fun excl_walk :: "resource list \<Rightarrow> bool" where
  "excl_walk [] = False"
| "excl_walk (Resource t n l e u w # rs) =
     ((t = ''node'' \<and> e) \<or> excl_walk w \<or> excl_walk rs)"

definition Exclusive :: "jobspec \<Rightarrow> bool" where
  "Exclusive j = (excl_walk (js_resources j) \<or> CoresPerNode j < 1)"

definition TasksTotal :: "jobspec \<Rightarrow> int" where
  "TasksTotal j =
     (let n = Nodes j in
      case js_tasks j of [] \<Rightarrow> n
      | t # _ \<Rightarrow>
          (case map_of (t_count t) ''total'' of
             Some k \<Rightarrow> if k > 0 then k
               else (case map_of (t_count t) ''per_slot'' of
                       Some ps \<Rightarrow> if ps > 0 then i64 (n * ps) else n
                     | None \<Rightarrow> n)
           | None \<Rightarrow> (case map_of (t_count t) ''per_slot'' of
                       Some ps \<Rightarrow> if ps > 0 then i64 (n * ps) else n
                     | None \<Rightarrow> n)))"

definition RequiredTypes :: "jobspec \<Rightarrow> string list" where
  "RequiredTypes j =
     concat (map (\<lambda>(sub, rs). map r_type (filter (\<lambda>r. r_type r \<noteq> '''') rs)) (js_requires j))"

section \<open>Builders\<close>

definition Containment :: "int \<Rightarrow> int \<Rightarrow> int \<Rightarrow> int \<Rightarrow> resource list" where
  "Containment nodes cores gpus mem =
     (let slotWith = [Resource ''core'' cores '''' False '''' []]
            @ (if gpus > 0 then [Resource ''gpu'' gpus '''' False '''' []] else [])
            @ (if mem > 0 then [Resource ''memory'' mem '''' False ''GB'' []] else [])
      in [Resource ''node'' nodes '''' False ''''
            [Resource ''slot'' 1 ''default'' False '''' slotWith]])"

definition New ::
  "string \<Rightarrow> string \<Rightarrow> string list \<Rightarrow> int \<Rightarrow> int \<Rightarrow> int \<Rightarrow> (string \<times> resource list) list \<Rightarrow> jobspec" where
  "New name img command nodes cores duration requires =
     \<lparr>js_version = 1,
      js_resources = Containment nodes cores 0 0,
      js_tasks = [\<lparr>t_command = command, t_slot = ''default'', t_count = [(''per_slot'', 1)]\<rparr>],
      js_attributes = Some
        \<lparr>a_system = (if duration > 0 then [(''duration'', GInt (duration div second))] else [])
            @ (if name \<noteq> '''' then [(''job'', GMap [(''name'', GStr name)])] else []),
         a_user = (if img \<noteq> '''' then [(''image'', GStr img)] else [])\<rparr>,
      js_requires = requires\<rparr>"

section \<open>Documents for Fluxion\<close>

record fluxDoc =
  fd_version :: int
  fd_resources :: "resource list"
  fd_tasks :: "task list"
  fd_attributes :: "(string \<times> gany) list"

definition attrsMap :: "attributes option \<Rightarrow> (string \<times> gany) list" where
  "attrsMap a = (case a of None \<Rightarrow> []
     | Some a \<Rightarrow> (if a_system a \<noteq> [] then [(''system'', GMap (a_system a))] else [])
              @ (if a_user a \<noteq> [] then [(''user'', GMap (a_user a))] else []))"

definition flux_doc :: "jobspec \<Rightarrow> fluxDoc" where
  "flux_doc j =
     (let exclusive = Exclusive j;
          cores = (if CoresPerNode j < 1 then 1 else CoresPerNode j);
          inner = [Resource ''socket'' 1 '''' False ''''
                     [Resource ''core'' cores '''' False '''' []]]
             @ (if GPUsPerNode j > 0
                then [Resource ''gpu'' (GPUsPerNode j) '''' False '''' []] else [])
             @ (if MemGBPerNode j > 0
                then [Resource ''memory'' (MemGBPerNode j) '''' False ''GB'' []] else []);
          slot = Resource ''slot'' 1 ''default'' False '''' inner;
          node = Resource ''node'' (Nodes j) '''' exclusive '''' [slot];
          cmd = (if Command j = [] then [''true''] else Command j)
      in \<lparr>fd_version = 1, fd_resources = [node],
          fd_tasks = [\<lparr>t_command = cmd, t_slot = ''default'', t_count = [(''per_slot'', 1)]\<rparr>],
          fd_attributes = attrsMap (js_attributes j)\<rparr>)"

text \<open>
  \<open>json.Marshal\<close> is the argument \<open>marshal\<close>: the document is what fluxq decides, its
  JSON text is the encoder's.
\<close>

definition ToFluxSpec :: "(fluxDoc \<Rightarrow> string + string) \<Rightarrow> jobspec \<Rightarrow> string + string" where
  "ToFluxSpec marshal j =
     (case marshal (flux_doc j) of
        Inl e \<Rightarrow> Inl (''render flux jobspec: '' @ e)
      | Inr b \<Rightarrow> Inr b)"

definition AnyOfType :: string where
  "AnyOfType = ''anyof''"

definition expand_one :: "resource list list \<Rightarrow> resource \<Rightarrow> resource list list" where
  "expand_one alts r =
     (if r_type r = AnyOfType
      then concat (map (\<lambda>base. map (\<lambda>choice. base @ [choice]) (r_with r)) alts)
      else map (\<lambda>base. base @ [r]) alts)"

definition ExpandSection :: "resource list \<Rightarrow> resource list list" where
  "ExpandSection section = foldl expand_one [[]] section"

fun atLeastOne :: "resource list \<Rightarrow> resource list" where
  "atLeastOne [] = []"
| "atLeastOne (Resource t n l e u w # rs) =
     Resource t (if n < 1 then 1 else n) l e u (if w \<noteq> [] then atLeastOne w else w)
       # atLeastOne rs"

definition subsystem_doc :: "resource list \<Rightarrow> fluxDoc" where
  "subsystem_doc section =
     \<lparr>fd_version = 1,
      fd_resources = [Resource ''slot'' 1 ''satisfy'' False '''' (atLeastOne section)],
      fd_tasks = [\<lparr>t_command = [''true''], t_slot = ''satisfy'', t_count = [(''per_slot'', 1)]\<rparr>],
      fd_attributes = []\<rparr>"

definition SubsystemFluxSpec ::
  "(fluxDoc \<Rightarrow> string + string) \<Rightarrow> resource list \<Rightarrow> string + string" where
  "SubsystemFluxSpec marshal section =
     (if section = [] then Inl ''empty subsystem section''
      else (case marshal (subsystem_doc section) of
              Inl e \<Rightarrow> Inl (''render subsystem jobspec: '' @ e)
            | Inr b \<Rightarrow> Inr b))"

definition orOne :: "int \<Rightarrow> int" where
  "orOne v = (if v \<le> 0 then 1 else v)"


section \<open>The tree walks against a reference\<close>

text \<open>
  \<open>units k rs\<close> is the true number of units of type \<open>k\<close> a request asks for: the sum over
  the tree of the products of the counts on the path. \<open>node_units\<close> and \<open>node_bodies\<close>
  stop at the topmost node requests, as \<open>walk\<close> does.
\<close>

fun units :: "string \<Rightarrow> resource list \<Rightarrow> int" where
  "units k [] = 0"
| "units k (Resource t n l e u w # rs) =
     eff_count n * ((if t = k then 1 else 0) + units k w) + units k rs"

fun node_units :: "resource list \<Rightarrow> int" where
  "node_units [] = 0"
| "node_units (Resource t n l e u w # rs) =
     eff_count n * (if t = ''node'' then 1 else node_units w) + node_units rs"

fun node_bodies :: "resource list \<Rightarrow> resource list list" where
  "node_bodies [] = []"
| "node_bodies (Resource t n l e u w # rs) =
     (if t = ''node'' then [w] else node_bodies w) @ node_bodies rs"

definition wrapped_units :: "resource list \<Rightarrow> int \<times> int \<times> int" where
  "wrapped_units rs = (i64 (units ''core'' rs), i64 (units ''gpu'' rs), i64 (units ''memory'' rs))"

lemma eff_count_pos [simp]: "1 \<le> eff_count n"
  by (simp add: eff_count_def)

lemma eff_count_nonneg [simp]: "0 \<le> eff_count n"
  by (simp add: eff_count_def)

lemma units_nonneg [simp]: "0 \<le> units k rs"
  by (induction k rs rule: units.induct) simp_all

lemma node_units_nonneg [simp]: "0 \<le> node_units rs"
  by (induction rs rule: node_units.induct) simp_all

lemma node_units_zero_iff: "node_units rs = 0 \<longleftrightarrow> node_bodies rs = []"
proof (induction rs rule: node_units.induct)
  case (2 t n l e u w rs)
  have "0 \<le> eff_count n * (if t = ''node'' then 1 else node_units w)" by simp
  moreover have "0 \<le> node_units rs" by simp
  moreover have "eff_count n \<noteq> 0" using eff_count_pos [of n] by linarith
  ultimately show ?case
    using 2 by (simp add: add_nonneg_eq_0_iff)
qed simp

lemma perNode_units:
  assumes "fits64 c" "fits64 g" "fits64 m"
  shows "perNode rs mult (c, g, m) =
    (i64 (c + mult * units ''core'' rs), i64 (g + mult * units ''gpu'' rs),
     i64 (m + mult * units ''memory'' rs))"
  using assms
proof (induction rs mult "(c, g, m)" arbitrary: c g m rule: perNode.induct)
  case (1 mult c g m)
  then show ?case by (simp add: i64_fits)
next
  case (2 t n l e u w rs mult c g m)
  let ?m = "i64 (mult * eff_count n)"
  obtain c' g' m' where acc: "add_unit t ?m (c, g, m) = (c', g', m')"
    by (cases "add_unit t ?m (c, g, m)")
  have fits: "fits64 c'" "fits64 g'" "fits64 m'"
    using acc 2(3-5) by (auto simp: add_unit_def split: if_splits)
  have inner: "perNode w ?m (c', g', m') =
      (i64 (c' + ?m * units ''core'' w), i64 (g' + ?m * units ''gpu'' w),
       i64 (m' + ?m * units ''memory'' w))"
    by (rule 2(1)) (simp_all add: acc fits)
  have outer: "perNode rs mult (perNode w ?m (c', g', m')) =
      (i64 (i64 (c' + ?m * units ''core'' w) + mult * units ''core'' rs),
       i64 (i64 (g' + ?m * units ''gpu'' w) + mult * units ''gpu'' rs),
       i64 (i64 (m' + ?m * units ''memory'' w) + mult * units ''memory'' rs))"
    unfolding inner by (rule 2(2)) (simp_all add: acc inner)
  have split: "mult * units k (Resource t n l e u w # rs) =
      mult * eff_count n * ((if t = k then 1 else 0) + units k w) + mult * units k rs" for k
    by (simp add: algebra_simps)
  show ?case
    using acc outer unfolding split
    by (auto simp: add_unit_def i64_accumulate_hit i64_accumulate_miss simp del: units.simps
        split: if_splits)
qed


lemma perNode_from_zero: "perNode rs 1 (0, 0, 0) = wrapped_units rs"
  by (simp add: perNode_units wrapped_units_def)

definition core_need :: "resource list \<Rightarrow> int" where
  "core_need w = i64 (units ''core'' w)"

definition gpu_need :: "resource list \<Rightarrow> int" where
  "gpu_need w = i64 (units ''gpu'' w)"

definition mem_need :: "resource list \<Rightarrow> int" where
  "mem_need w = i64 (units ''memory'' w)"

lemma wrapped_units_needs: "wrapped_units w = (core_need w, gpu_need w, mem_need w)"
  by (simp add: wrapped_units_def core_need_def gpu_need_def mem_need_def)

lemma walk_reference:
  "fits64 (ty_nodes y) \<Longrightarrow> walk rs mult y =
    \<lparr>ty_found = (ty_found y \<or> node_bodies rs \<noteq> []),
     ty_nodes = i64 (ty_nodes y + mult * node_units rs),
     ty_cores = foldl max (ty_cores y) (map core_need (node_bodies rs)),
     ty_gpus = foldl max (ty_gpus y) (map gpu_need (node_bodies rs)),
     ty_mem = foldl max (ty_mem y) (map mem_need (node_bodies rs))\<rparr>"
proof (induction rs mult y rule: walk.induct)
  case (1 mult y)
  then show ?case by (simp add: i64_fits)
next
  case (2 t n l e u w rs mult y)
  have split: "mult * node_units (Resource t n l e u w # rs) =
      mult * eff_count n * (if t = ''node'' then 1 else node_units w) + mult * node_units rs"
    by (simp add: algebra_simps)
  show ?case
  proof (cases "t = ''node''")
    case True
    have "i64 (i64 (ty_nodes y + i64 (mult * eff_count n)) + mult * node_units rs) =
        i64 (ty_nodes y + (mult * eff_count n * 1 + mult * node_units rs))"
      using i64_accumulate_hit [of "ty_nodes y" "mult * eff_count n" 0] by simp
    with True 2 show ?thesis
      unfolding split by (simp add: perNode_from_zero wrapped_units_needs node_found_def
          max_def del: node_units.simps)
  next
    case False
    with 2 show ?thesis
      unfolding split by (simp add: i64_accumulate_miss del: node_units.simps)
  qed
qed

lemma counts_reference:
  "counts j =
     (let rs = js_resources j in
      if node_bodies rs = [] then (1, wrapped_units rs)
      else (max 1 (i64 (node_units rs)), foldl max 0 (map core_need (node_bodies rs)),
            foldl max 0 (map gpu_need (node_bodies rs)),
            foldl max 0 (map mem_need (node_bodies rs))))"
  by (simp add: counts_def walk_reference perNode_from_zero Let_def wrapped_units_def max_def)

lemma Nodes_pos [simp]: "1 \<le> Nodes j"
  by (simp add: Nodes_def counts_def Let_def split: prod.split)


lemma Nodes_nonneg [simp]: "0 \<le> Nodes j"
  using Nodes_pos [of j] by linarith

lemma units_mono_body: "w \<in> set (node_bodies rs) \<Longrightarrow> units k w \<le> units k rs"
proof (induction rs arbitrary: w rule: node_bodies.induct)
  case (2 t n l e u w' rs)
  have scale: "x \<le> eff_count n * ((if t = k then 1 else 0) + x)" if "0 \<le> x" for x
  proof -
    have "x \<le> (if t = k then 1 else 0) + x" by simp
    also have "\<dots> \<le> eff_count n * ((if t = k then 1 else 0) + x)"
      using mult_right_mono [of 1 "eff_count n" "(if t = k then 1 else 0) + x"] that by simp
    finally show ?thesis .
  qed
  have "units k w' \<le> eff_count n * ((if t = k then 1 else 0) + units k w')"
    by (rule scale) simp
  moreover have "0 \<le> units k rs" by simp
  moreover have "0 \<le> eff_count n * ((if t = k then 1 else 0) + units k w')" by simp
  ultimately have sides: "units k w' \<le> units k (Resource t n l e u w' # rs)"
    "units k rs \<le> units k (Resource t n l e u w' # rs)"
    unfolding units.simps by linarith+
  have "units k w \<le> units k w' \<or> units k w \<le> units k rs"
    using 2 by (auto split: if_splits)
  with sides show ?case by (meson order_trans)
qed simp

definition modest :: "resource list \<Rightarrow> bool" where
  "modest rs \<longleftrightarrow> node_units rs < 2 ^ 63 \<and> units ''core'' rs < 2 ^ 63 \<and>
     units ''gpu'' rs < 2 ^ 63 \<and> units ''memory'' rs < 2 ^ 63"

lemma modest_need:
  assumes "modest rs" "w \<in> set (node_bodies rs)"
  shows "core_need w = units ''core'' w" "gpu_need w = units ''gpu'' w"
    "mem_need w = units ''memory'' w"
proof -
  have "units k w < 2 ^ 63" if "units k rs < 2 ^ 63" for k
    using units_mono_body [OF assms(2), of k] that by linarith
  then show "core_need w = units ''core'' w" "gpu_need w = units ''gpu'' w"
    "mem_need w = units ''memory'' w"
    using assms(1) by (simp_all add: modest_def core_need_def gpu_need_def mem_need_def i64_fits)
qed

lemma node_units_pos: "node_bodies rs \<noteq> [] \<Longrightarrow> 1 \<le> node_units rs"
  using node_units_zero_iff [of rs] node_units_nonneg [of rs] by linarith

subsection \<open>The canonical request shapes\<close>

lemma counts_Containment:
  assumes "js_resources j = Containment n c g m" "fits64 n" "fits64 c" "fits64 g" "fits64 m"
  shows "counts j = (max 1 n, max 1 c, max 0 g, max 0 m)"
proof -
  have i: "i64 (eff_count x) = max 1 x" if "fits64 x" for x
    using that by (auto simp: eff_count_def max_def i64_fits)
  show ?thesis
    using assms i
    by (auto simp: counts_reference Containment_def Let_def core_need_def gpu_need_def
        mem_need_def i64_fits eff_count_def max_def split: if_splits)
qed

lemma counts_fits:
  "fits64 (Nodes j)" "fits64 (CoresPerNode j)" "fits64 (GPUsPerNode j)" "fits64 (MemGBPerNode j)"
proof -
  have fold: "fits64 (foldl max x (map f ws))" if "fits64 x" "\<And>w. fits64 (f w)"
    for x and f :: "resource list \<Rightarrow> int" and ws
    using that by (induction ws arbitrary: x) (auto simp: max_def)
  have need: "fits64 (core_need w)" "fits64 (gpu_need w)" "fits64 (mem_need w)" for w
    by (simp_all add: core_need_def gpu_need_def mem_need_def)
  show "fits64 (Nodes j)" "fits64 (CoresPerNode j)" "fits64 (GPUsPerNode j)"
    "fits64 (MemGBPerNode j)"
    by (auto simp: Nodes_def CoresPerNode_def GPUsPerNode_def MemGBPerNode_def
        counts_reference Let_def wrapped_units_def max_def intro!: fold need)
qed

lemma counts_flux_doc:
  assumes "js_resources k = fd_resources (flux_doc j)"
  shows "counts k =
    (Nodes j, max 1 (CoresPerNode j), max 0 (GPUsPerNode j), max 0 (MemGBPerNode j))"
proof -
  have i: "i64 (eff_count x) = max 1 x" if "fits64 x" for x
    using that by (auto simp: eff_count_def max_def i64_fits)
  have n: "max 1 (Nodes j) = Nodes j" using Nodes_pos [of j] by linarith
  show ?thesis
    using assms counts_fits [of j] i n
    by (auto simp: counts_reference flux_doc_def Let_def core_need_def gpu_need_def
        mem_need_def i64_fits eff_count_def max_def split: if_splits)
qed

lemma Exclusive_flux_doc:
  assumes "js_resources k = fd_resources (flux_doc j)"
  shows "Exclusive k = Exclusive j"
proof -
  have "CoresPerNode k = max 1 (CoresPerNode j)"
    by (simp add: CoresPerNode_def counts_flux_doc [OF assms])
  then show ?thesis
    using assms by (simp add: Exclusive_def flux_doc_def Let_def)
qed

subsection \<open>Expansion of alternatives\<close>

lemma foldl_expand_one:
  "(\<exists>alt \<in> set (foldl expand_one alts section). \<forall>r \<in> set alt. P r) \<longleftrightarrow>
   (\<exists>base \<in> set alts. \<forall>r \<in> set base. P r) \<and>
   (\<forall>r \<in> set section. if r_type r = AnyOfType then \<exists>c \<in> set (r_with r). P c else P r)"
proof (induction "section" arbitrary: alts)
  case (Cons r rs)
  have "(\<exists>base \<in> set (expand_one alts r). \<forall>x \<in> set base. P x) \<longleftrightarrow>
    (\<exists>base \<in> set alts. \<forall>x \<in> set base. P x) \<and>
    (if r_type r = AnyOfType then \<exists>c \<in> set (r_with r). P c else P r)"
    unfolding expand_one_def by auto
  with Cons show ?case by simp
qed simp

lemma ExpandSection_sat:
  "(\<exists>alt \<in> set (ExpandSection section). \<forall>r \<in> set alt. P r) \<longleftrightarrow>
   (\<forall>r \<in> set section. if r_type r = AnyOfType then \<exists>c \<in> set (r_with r). P c else P r)"
  unfolding ExpandSection_def foldl_expand_one by simp

lemma length_concat_const: "(\<And>x. x \<in> set xs \<Longrightarrow> length (f x) = k) \<Longrightarrow>
  length (concat (map f xs)) = length xs * k"
  by (induction xs) auto

lemma length_expand_one:
  "length (expand_one alts r) = length alts * (if r_type r = AnyOfType then length (r_with r) else 1)"
  by (simp add: expand_one_def length_concat_const)

lemma length_foldl_expand_one:
  "length (foldl expand_one alts section) =
   length alts * prod_list (map (\<lambda>r. if r_type r = AnyOfType then length (r_with r) else 1) section)"
  by (induction "section" arbitrary: alts) (simp_all add: length_expand_one)

subsection \<open>Raising unset counts\<close>

fun all_counted :: "resource list \<Rightarrow> bool" where
  "all_counted [] = True"
| "all_counted (Resource t n l e u w # rs) = (1 \<le> n \<and> all_counted w \<and> all_counted rs)"

lemma atLeastOne_Nil_iff [simp]: "atLeastOne rs = [] \<longleftrightarrow> rs = []"
  by (cases rs rule: atLeastOne.cases) simp_all

lemma all_counted_atLeastOne: "all_counted (atLeastOne rs)"
  by (induction rs rule: atLeastOne.induct) auto

lemma atLeastOne_fixed: "all_counted rs \<Longrightarrow> atLeastOne rs = rs"
  by (induction rs rule: atLeastOne.induct) auto

lemma units_atLeastOne: "units k (atLeastOne rs) = units k rs"
  by (induction rs rule: atLeastOne.induct) (auto simp: eff_count_def)


section \<open>Properties\<close>

text \<open>
  C18. \<open>counts\<close> computes the request: when the true totals of the resource tree fit Go's
  int, \<open>Nodes\<close> is the product sum over the topmost node requests (1 when the tree names no
  node), and the per-node needs are the largest needs below one such node.
\<close>

theorem counts_exact:
  assumes "modest (js_resources j)"
  shows "counts j =
    (let rs = js_resources j in
     if node_bodies rs = [] then (1, units ''core'' rs, units ''gpu'' rs, units ''memory'' rs)
     else (node_units rs, foldl max 0 (map (units ''core'') (node_bodies rs)),
           foldl max 0 (map (units ''gpu'') (node_bodies rs)),
           foldl max 0 (map (units ''memory'') (node_bodies rs))))"
proof -
  have fits: "i64 (units ''core'' (js_resources j)) = units ''core'' (js_resources j)"
    "i64 (units ''gpu'' (js_resources j)) = units ''gpu'' (js_resources j)"
    "i64 (units ''memory'' (js_resources j)) = units ''memory'' (js_resources j)"
    "i64 (node_units (js_resources j)) = node_units (js_resources j)"
    using assms by (simp_all add: modest_def i64_fits)
  have needs: "map core_need (node_bodies (js_resources j)) =
      map (units ''core'') (node_bodies (js_resources j))"
    "map gpu_need (node_bodies (js_resources j)) = map (units ''gpu'') (node_bodies (js_resources j))"
    "map mem_need (node_bodies (js_resources j)) = map (units ''memory'') (node_bodies (js_resources j))"
    using modest_need [OF assms] by simp_all
  show ?thesis
    unfolding counts_reference Let_def wrapped_units_def needs fits
    using node_units_pos [of "js_resources j"] by simp
qed

definition demo_jobspec :: jobspec where
  "demo_jobspec = New ''lammps'' ''img'' [''lmp''] 3 8 0 []"

theorem counts_exact_witness:
  "modest (js_resources demo_jobspec) \<and> counts demo_jobspec = (3, 8, 0, 0)"
proof -
  have m: "modest (js_resources demo_jobspec)"
    by (simp add: modest_def demo_jobspec_def New_def Containment_def eff_count_def)
  show ?thesis
    using m counts_exact [OF m]
    by (simp add: demo_jobspec_def New_def Containment_def eff_count_def)
qed

text \<open>
  The products wrap: a request for \<open>2 ^ 32\<close> slots of \<open>2 ^ 32\<close> nodes asks for
  \<open>2 ^ 64\<close> nodes and is read as a request for a single node.
\<close>

theorem counts_overflow:
  "let rs = [Resource ''slot'' (2 ^ 32) '''' False ''''
               [Resource ''node'' (2 ^ 32) '''' False '''' []]]
   in node_units rs = 2 ^ 64 \<and> Nodes (j\<lparr>js_resources := rs\<rparr>) = 1"
  by (simp add: Let_def Nodes_def counts_reference eff_count_def i64_def max_def)

text \<open>
  Round trip of the builder: a jobspec over \<open>Containment n c g m\<close> reads back exactly
  these numbers (an unset node or core count reads as 1, an unset gpu or memory as 0).
\<close>

theorem Containment_roundtrip:
  assumes "js_resources j = Containment n c g m"
    and "fits64 n" "fits64 c" "fits64 g" "fits64 m"
  shows "Nodes j = max 1 n \<and> CoresPerNode j = max 1 c \<and>
    GPUsPerNode j = max 0 g \<and> MemGBPerNode j = max 0 m"
  unfolding Nodes_def CoresPerNode_def GPUsPerNode_def MemGBPerNode_def
    counts_Containment [OF assms] by simp_all

theorem Containment_roundtrip_witness: "Nodes demo_jobspec = 3"
proof -
  have r: "js_resources demo_jobspec = Containment 3 8 0 0"
    by (simp add: demo_jobspec_def New_def)
  show ?thesis
    using Containment_roundtrip [OF r] by simp
qed

text \<open>
  C32. The document \<open>ToFluxSpec\<close> renders for Fluxion asks for what the jobspec asks: read
  back, it has the same node count and the same gpu and memory need, at least one core, and
  the same whole-node exclusivity.
\<close>

theorem flux_doc_faithful:
  assumes "js_resources k = fd_resources (flux_doc j)"
  shows "Nodes k = Nodes j \<and> CoresPerNode k = max 1 (CoresPerNode j) \<and>
    GPUsPerNode k = max 0 (GPUsPerNode j) \<and> MemGBPerNode k = max 0 (MemGBPerNode j) \<and>
    Exclusive k = Exclusive j"
  by (simp add: Nodes_def CoresPerNode_def GPUsPerNode_def MemGBPerNode_def
      counts_flux_doc [OF assms, unfolded Nodes_def CoresPerNode_def GPUsPerNode_def
        MemGBPerNode_def] Exclusive_flux_doc [OF assms])

theorem flux_doc_faithful_witness:
  "Nodes (demo_jobspec\<lparr>js_resources := fd_resources (flux_doc demo_jobspec)\<rparr>) = Nodes demo_jobspec"
  using flux_doc_faithful
    [of "demo_jobspec\<lparr>js_resources := fd_resources (flux_doc demo_jobspec)\<rparr>" demo_jobspec]
  by simp

text \<open>
  C33. \<open>ExpandSection\<close> is disjunctive normal form: some alternative has all its entries
  satisfied exactly when every entry of the section is, an \<open>anyof\<close> entry by one of its
  children; and it yields as many alternatives as the product of the choices.
\<close>

theorem ExpandSection_dnf:
  "(\<exists>alt \<in> set (ExpandSection section). \<forall>r \<in> set alt. P r) =
     (\<forall>r \<in> set section. if r_type r = AnyOfType then \<exists>c \<in> set (r_with r). P c else P r) \<and>
   length (ExpandSection section) =
     prod_list (map (\<lambda>r. if r_type r = AnyOfType then length (r_with r) else 1) section)"
  using ExpandSection_sat [of "section" P] length_foldl_expand_one [of "[[]]" "section"]
  by (simp add: ExpandSection_def)

definition leaf :: "string \<Rightarrow> resource" where
  "leaf t = Resource t 0 '''' False '''' []"

theorem ExpandSection_dnf_witness:
  "length (ExpandSection [Resource ''anyof'' 0 '''' False '''' [leaf ''efa'', leaf ''ib'']]) = 2"
  using ExpandSection_dnf
    [of "[Resource ''anyof'' 0 '''' False '''' [leaf ''efa'', leaf ''ib'']]"]
  by (simp add: AnyOfType_def)

text \<open>
  A subsystem query never asks for zero: \<open>atLeastOne\<close> leaves every count of the tree
  at 1 or more, changes no request already so, and keeps the number of units asked for.
\<close>

theorem atLeastOne_counts:
  "all_counted (atLeastOne rs) \<and> atLeastOne (atLeastOne rs) = atLeastOne rs \<and>
   units k (atLeastOne rs) = units k rs"
  by (simp add: all_counted_atLeastOne atLeastOne_fixed units_atLeastOne)

end
