(* ===== verification/Matcher.thy ===== *)
theory Matcher
  imports Fleet Jobspec
begin

text \<open>
  Package \<open>pkg/matcher\<close>: the interface \<open>Matcher\<close> (\<open>matcher.go\<close>) as a record of
  operations, and \<open>SimMatcher\<close> (\<open>sim.go\<close>), the in-process implementation: the satisfy
  traversal of the subsystem graphs, the node-granular allocation of containment, and the
  bookkeeping that \<open>Free\<close> undoes. The operations run under the matcher's mutex, so each
  is one atomic function of the state. An outcome \<open>None\<close> is a call that does not come
  back: an endless descent of a cyclic graph, or a panic.
\<close>

section \<open>Candidates, allocations and the interface\<close>

record candidate =
  ca_Cluster :: string
  ca_Feasible :: bool
  ca_FreeNow :: bool
  ca_FreeNodes :: nat
  ca_Matched :: "string list"
  ca_Missing :: "string list"
  ca_Score :: rat

record allocation =
  al_ID :: string
  al_ClusterID :: string
  al_VertexIDs :: "string list"

text \<open>
  \<open>Allocate\<close> returns an error, \<open>Inr None\<close> for \<open>allocated=false, err=nil\<close>, or the
  allocation.
\<close>

record 'm matcher =
  mt_Evaluate :: "'m \<Rightarrow> jobspec \<Rightarrow> candidate list option"
  mt_Allocate :: "'m \<Rightarrow> jobspec \<Rightarrow> string \<Rightarrow> ('m \<times> (string + allocation option)) option"
  mt_Free :: "'m \<Rightarrow> string \<Rightarrow> 'm \<times> string option"
  mt_AddCluster :: "'m \<Rightarrow> cluster_graph \<Rightarrow> 'm \<times> string option"
  mt_RemoveCluster :: "'m \<Rightarrow> string \<Rightarrow> 'm \<times> string option"
  mt_AddSubsystem :: "'m \<Rightarrow> string \<Rightarrow> string \<Rightarrow> jgf \<Rightarrow> bool \<Rightarrow> 'm \<times> string option"
  mt_RemoveSubsystem :: "'m \<Rightarrow> string \<Rightarrow> string \<Rightarrow> 'm \<times> string option"

section \<open>The state of SimMatcher\<close>

record liveAlloc =
  la_cluster :: string
  la_vertexIDs :: "string list"

record sim =
  sm_clusters :: "string \<rightharpoonup> cluster_graph"
  sm_order :: "string list"
  sm_allocated :: "string \<rightharpoonup> string set"
  sm_live :: "string \<rightharpoonup> liveAlloc"
  sm_nextID :: nat

definition empty_sim :: sim where
  "empty_sim = \<lparr>sm_clusters = Map.empty, sm_order = [], sm_allocated = Map.empty,
     sm_live = Map.empty, sm_nextID = 0\<rparr>"

definition sim_AddCluster :: "sim \<Rightarrow> cluster_graph \<Rightarrow> sim \<times> string option" where
  "sim_AddCluster m cg =
     (let i = cg_ID cg;
          m1 = (if sm_clusters m i = None
                then m\<lparr>sm_order := sm_order m @ [i], sm_allocated := (sm_allocated m)(i \<mapsto> {})\<rparr>
                else m)
      in (m1\<lparr>sm_clusters := (sm_clusters m1)(i \<mapsto> cg)\<rparr>, None))"

definition NewSim :: "fleet option \<Rightarrow> sim" where
  "NewSim fleet = (case fleet of None \<Rightarrow> empty_sim
     | Some f \<Rightarrow> foldl (\<lambda>m c. fst (sim_AddCluster m c)) empty_sim f)"

definition sim_RemoveCluster :: "sim \<Rightarrow> string \<Rightarrow> sim \<times> string option" where
  "sim_RemoveCluster m i =
     (m\<lparr>sm_clusters := (sm_clusters m)(i := None),
        sm_order := remove1 i (sm_order m),
        sm_live := (\<lambda>a. case sm_live m a of None \<Rightarrow> None
                      | Some r \<Rightarrow> if la_cluster r = i then None else Some r),
        sm_allocated := (sm_allocated m)(i := None)\<rparr>, None)"

definition not_registered :: "string \<Rightarrow> string" where
  "not_registered i = ''cluster '' @ go_quote i @ '' not registered''"

definition sim_AddSubsystem :: "sim \<Rightarrow> string \<Rightarrow> string \<Rightarrow> jgf \<Rightarrow> bool \<Rightarrow> sim \<times> string option" where
  "sim_AddSubsystem m clusterID name g descriptive =
     (case sm_clusters m clusterID of
        None \<Rightarrow> (m, Some (not_registered clusterID))
      | Some cg \<Rightarrow>
          (m\<lparr>sm_clusters := (sm_clusters m)(clusterID \<mapsto> AttachSubsystem name g descriptive cg)\<rparr>, None))"

definition sim_RemoveSubsystem :: "sim \<Rightarrow> string \<Rightarrow> string \<Rightarrow> sim \<times> string option" where
  "sim_RemoveSubsystem m clusterID name =
     (case sm_clusters m clusterID of
        None \<Rightarrow> (m, Some (not_registered clusterID))
      | Some cg \<Rightarrow>
          (case DetachSubsystem name cg of
             (False, cg') \<Rightarrow> (m, Some (''subsystem '' @ go_quote name @ '' not found on '' @ go_quote clusterID))
           | (True, cg') \<Rightarrow> (m\<lparr>sm_clusters := (sm_clusters m)(clusterID \<mapsto> cg')\<rparr>, None)))"

section \<open>Traversals\<close>

definition add_capacity :: "vertex \<Rightarrow> int \<times> int \<times> int \<Rightarrow> int \<times> int \<times> int" where
  "add_capacity v acc = (case acc of (cores, gpus, mem) \<Rightarrow>
     (if v_type v = ''core'' then (i64 (cores + vsize v), gpus, mem)
      else if v_type v = ''gpu'' then (cores, i64 (gpus + vsize v), mem)
      else if v_type v = ''memory'' then (cores, gpus, i64 (mem + vsize v))
      else (cores, gpus, mem)))"

definition nodeCapacity :: "jgf \<Rightarrow> string \<Rightarrow> (int \<times> int \<times> int) option" where
  "nodeCapacity g nodeID = below add_capacity g nodeID (0, 0, 0)"

definition matchVertex :: "vertex option \<Rightarrow> resource \<Rightarrow> bool" where
  "matchVertex v r = (case v of None \<Rightarrow> False
     | Some v \<Rightarrow> v_type v = r_type r \<or> vm_basename (v_meta v) = r_type r \<or> vm_name (v_meta v) = r_type r)"

fun childrenSat :: "jgf \<Rightarrow> string \<Rightarrow> resource list \<Rightarrow> bool" where
  "childrenSat g parent [] = True"
| "childrenSat g parent (Resource t n l e u w # reqs) =
     (list_ex (\<lambda>cid. matchVertex (lookup g cid) (Resource t n l e u w) \<and> childrenSat g cid w)
        (children g parent) \<and>
      childrenSat g parent reqs)"

definition satisfyResource :: "jgf \<Rightarrow> resource \<Rightarrow> bool" where
  "satisfyResource g r =
     list_ex (\<lambda>(i, v). matchVertex (Some v) r \<and> childrenSat g i (r_with r)) (byID g)"

definition subsystemSatisfies :: "cluster_graph \<Rightarrow> string \<Rightarrow> resource list \<Rightarrow> bool" where
  "subsystemSatisfies cg sub section = (case map_of (cg_Subsystems cg) sub of
     None \<Rightarrow> False
   | Some g \<Rightarrow> list_ex (list_all (satisfyResource g)) (ExpandSection section))"

definition held :: "sim \<Rightarrow> string \<Rightarrow> string set" where
  "held m i = (case sm_allocated m i of None \<Rightarrow> {} | Some s \<Rightarrow> s)"

definition fits_node :: "jobspec \<Rightarrow> int \<times> int \<times> int \<Rightarrow> bool" where
  "fits_node js cap = (case cap of (c, gp, mem) \<Rightarrow>
     c \<ge> CoresPerNode js \<and> gp \<ge> GPUsPerNode js \<and> mem \<ge> MemGBPerNode js)"

fun fit_loop :: "jgf \<Rightarrow> jobspec \<Rightarrow> (string \<Rightarrow> bool) \<Rightarrow> vertex list \<Rightarrow> string list \<Rightarrow> string list option" where
  "fit_loop g js skip [] fit = Some fit"
| "fit_loop g js skip (n # ns) fit =
     (if skip (v_id n) then fit_loop g js skip ns fit
      else (case nodeCapacity g (v_id n) of
              None \<Rightarrow> None
            | Some cap \<Rightarrow> fit_loop g js skip ns (if fits_node js cap then fit @ [v_id n] else fit)))"

definition fittingNodes :: "sim \<Rightarrow> cluster_graph \<Rightarrow> jobspec \<Rightarrow> bool \<Rightarrow> string list option" where
  "fittingNodes m cg js onlyFree = (case Containment_of cg of
     None \<Rightarrow> Some []
   | Some g \<Rightarrow> fit_loop g js (\<lambda>n. onlyFree \<and> n \<in> held m (cg_ID cg)) (verticesOfType g ''node'') [])"

section \<open>Evaluate, Allocate, Free\<close>

definition zero_cluster :: cluster_graph where
  "zero_cluster = \<lparr>cg_ID = '''', cg_Manager = '''', cg_Handle = '''', cg_Config = [],
     cg_Subsystems = [], cg_Descriptive = []\<rparr>"

definition requires_report ::
  "cluster_graph \<Rightarrow> (string \<times> resource list) list \<Rightarrow> string list \<times> string list \<times> bool" where
  "requires_report cg reqs = foldl (\<lambda>(ma, mi, ok) (sub, section).
       if subsystemSatisfies cg sub section then (ma @ [sub], mi, ok) else (ma, mi @ [sub], False))
     ([], [], True) reqs"

definition evaluate_one :: "sim \<Rightarrow> jobspec \<Rightarrow> string \<Rightarrow> candidate option" where
  "evaluate_one m js i =
     (let cg = (case sm_clusters m i of None \<Rightarrow> zero_cluster | Some cg \<Rightarrow> cg);
          (matched, missing, subsOK) = requires_report cg (js_requires js);
          needNodes = Nodes js
      in case fittingNodes m cg js False of
           None \<Rightarrow> None
         | Some fit \<Rightarrow>
             (case fittingNodes m cg js True of
                None \<Rightarrow> None
              | Some free \<Rightarrow>
                  (let structOK = (int (length fit) \<ge> needNodes);
                       feasible = (subsOK \<and> structOK)
                   in Some \<lparr>ca_Cluster = i, ca_Feasible = feasible,
                            ca_FreeNow = (feasible \<and> int (length free) \<ge> needNodes),
                            ca_FreeNodes = length free, ca_Matched = matched,
                            ca_Missing = missing @ (if structOK then [] else [ContainmentSubsystem]),
                            ca_Score = 0\<rparr>)))"

fun evaluate_order :: "sim \<Rightarrow> jobspec \<Rightarrow> string list \<Rightarrow> candidate list option" where
  "evaluate_order m js [] = Some []"
| "evaluate_order m js (i # is) =
     (case evaluate_one m js i of None \<Rightarrow> None
      | Some c \<Rightarrow> (case evaluate_order m js is of None \<Rightarrow> None | Some cs \<Rightarrow> Some (c # cs)))"

definition sim_Evaluate :: "sim \<Rightarrow> jobspec \<Rightarrow> candidate list option" where
  "sim_Evaluate m js = evaluate_order m js (sm_order m)"

definition alloc_id :: "nat \<Rightarrow> string" where
  "alloc_id n = ''alloc-'' @ itoa n"

definition mint :: "sim \<Rightarrow> string \<times> sim" where
  "mint m = (let m' = m\<lparr>sm_nextID := sm_nextID m + 1\<rparr> in (alloc_id (sm_nextID m'), m'))"

definition sim_Allocate ::
  "sim \<Rightarrow> jobspec \<Rightarrow> string \<Rightarrow> (sim \<times> (string + allocation option)) option" where
  "sim_Allocate m js clusterID =
     (case sm_clusters m clusterID of
        None \<Rightarrow> Some (m, Inl (not_registered clusterID))
      | Some cg \<Rightarrow>
          (if \<not> Reserves cg
           then (case mint m of (i, m') \<Rightarrow>
             Some (m', Inr (Some \<lparr>al_ID = i, al_ClusterID = clusterID, al_VertexIDs = []\<rparr>)))
           else
             (case fittingNodes m cg js True of
                None \<Rightarrow> None
              | Some free \<Rightarrow>
                  (if int (length free) < Nodes js then Some (m, Inr None)
                   else
                     (let chosen = take (nat (Nodes js)) free;
                          (i, m1) = mint m
                      in case sm_allocated m1 clusterID of
                           None \<Rightarrow> None
                         | Some s \<Rightarrow>
                             Some (m1\<lparr>sm_allocated := (sm_allocated m1)(clusterID \<mapsto> s \<union> set chosen),
                                      sm_live := (sm_live m1)(i \<mapsto> \<lparr>la_cluster = clusterID, la_vertexIDs = chosen\<rparr>)\<rparr>,
                                   Inr (Some \<lparr>al_ID = i, al_ClusterID = clusterID,
                                              al_VertexIDs = chosen\<rparr>)))))))"

definition sim_Free :: "sim \<Rightarrow> string \<Rightarrow> sim \<times> string option" where
  "sim_Free m allocID =
     (case sm_live m allocID of
        None \<Rightarrow> (m, None)
      | Some rec \<Rightarrow>
          (m\<lparr>sm_allocated := (case sm_allocated m (la_cluster rec) of
                 None \<Rightarrow> sm_allocated m
               | Some s \<Rightarrow> (sm_allocated m)(la_cluster rec \<mapsto> s - set (la_vertexIDs rec))),
             sm_live := (sm_live m)(allocID := None)\<rparr>, None))"

definition SimMatcher :: "sim matcher" where
  "SimMatcher = \<lparr>mt_Evaluate = sim_Evaluate, mt_Allocate = sim_Allocate, mt_Free = sim_Free,
     mt_AddCluster = sim_AddCluster, mt_RemoveCluster = sim_RemoveCluster,
     mt_AddSubsystem = sim_AddSubsystem, mt_RemoveSubsystem = sim_RemoveSubsystem\<rparr>"

section \<open>The traversals against a specification\<close>

text \<open>
  \<open>embeds g i r\<close>: the request tree \<open>r\<close> maps into the graph with its root at vertex \<open>i\<close>,
  every child request at a child of the vertex its parent went to.
\<close>

inductive embeds :: "jgf \<Rightarrow> string \<Rightarrow> resource \<Rightarrow> bool" for g where
  embeds_node: "matchVertex (lookup g i) r \<Longrightarrow>
     (\<And>c. c \<in> set (r_with r) \<Longrightarrow> \<exists>k. k \<in> set (children g i) \<and> embeds g k c) \<Longrightarrow> embeds g i r"

lemma embeds_iff:
  "embeds g i r \<longleftrightarrow> matchVertex (lookup g i) r \<and>
     (\<forall>c \<in> set (r_with r). \<exists>k \<in> set (children g i). embeds g k c)"
  by (subst embeds.simps) blast

lemma childrenSat_embeds:
  "childrenSat g p reqs \<longleftrightarrow> (\<forall>r \<in> set reqs. \<exists>k \<in> set (children g p). embeds g k r)"
proof (induction g p reqs rule: childrenSat.induct)
  case (2 g p t n l e u w reqs)
  then show ?case
    by (auto simp: list_ex_iff embeds_iff [of g _ "Resource t n l e u w"])
qed simp

lemma satisfyResource_embeds: "satisfyResource g r \<longleftrightarrow> (\<exists>i. embeds g i r)"
proof -
  have "satisfyResource g r \<longleftrightarrow>
      (\<exists>i v. lookup g i = Some v \<and> matchVertex (Some v) r \<and> childrenSat g i (r_with r))"
    by (simp add: satisfyResource_def list_ex_iff wf_map_in_iff Bex_def split_paired_Ex)
  also have "\<dots> \<longleftrightarrow> (\<exists>i. matchVertex (lookup g i) r \<and> childrenSat g i (r_with r))"
    by (auto simp: matchVertex_def split: option.splits)
  also have "\<dots> \<longleftrightarrow> (\<exists>i. embeds g i r)"
    by (simp add: embeds_iff [of g _ r] childrenSat_embeds)
  finally show ?thesis .
qed

lemma fold_requires_report:
  "foldl (\<lambda>(ma, mi, ok) (sub, section).
       if subsystemSatisfies cg sub section then (ma @ [sub], mi, ok) else (ma, mi @ [sub], False))
     (ma, mi, ok) reqs =
   (ma @ map fst (filter (\<lambda>(sub, sec). subsystemSatisfies cg sub sec) reqs),
    mi @ map fst (filter (\<lambda>(sub, sec). \<not> subsystemSatisfies cg sub sec) reqs),
    ok \<and> (\<forall>(sub, sec) \<in> set reqs. subsystemSatisfies cg sub sec))"
  by (induction reqs arbitrary: ma mi ok) auto

lemma requires_report_eq:
  "requires_report cg reqs =
   (map fst (filter (\<lambda>(sub, sec). subsystemSatisfies cg sub sec) reqs),
    map fst (filter (\<lambda>(sub, sec). \<not> subsystemSatisfies cg sub sec) reqs),
    \<forall>(sub, sec) \<in> set reqs. subsystemSatisfies cg sub sec)"
  by (simp add: requires_report_def fold_requires_report)

text \<open>The nodes of a graph that can hold one node's share of a job.\<close>

definition adequate :: "jgf \<Rightarrow> jobspec \<Rightarrow> string \<Rightarrow> bool" where
  "adequate g js i = (case nodeCapacity g i of None \<Rightarrow> False | Some cap \<Rightarrow> fits_node js cap)"

lemma nodeCapacity_None_iff: "nodeCapacity g i = None \<longleftrightarrow> cycle_below g i"
  by (simp add: nodeCapacity_def below_None_iff)

lemma fit_loop_Some:
  "fit_loop g js skip ns fit = Some r \<Longrightarrow>
   r = fit @ map v_id (filter (\<lambda>n. \<not> skip (v_id n) \<and> adequate g js (v_id n)) ns)"
  by (induction g js skip ns fit rule: fit_loop.induct)
    (auto simp: adequate_def split: if_splits option.splits)

lemma fit_loop_None_iff:
  "fit_loop g js skip ns fit = None \<longleftrightarrow> (\<exists>n \<in> set ns. \<not> skip (v_id n) \<and> cycle_below g (v_id n))"
  by (induction g js skip ns fit rule: fit_loop.induct)
    (auto simp: nodeCapacity_None_iff [symmetric] split: option.splits)

definition usable :: "sim \<Rightarrow> cluster_graph \<Rightarrow> bool \<Rightarrow> vertex list" where
  "usable m cg onlyFree = (case Containment_of cg of None \<Rightarrow> []
     | Some g \<Rightarrow> filter (\<lambda>n. \<not> (onlyFree \<and> v_id n \<in> held m (cg_ID cg))) (verticesOfType g ''node''))"

definition fits_in :: "cluster_graph \<Rightarrow> jobspec \<Rightarrow> vertex \<Rightarrow> bool" where
  "fits_in cg js n = (case Containment_of cg of None \<Rightarrow> False | Some g \<Rightarrow> adequate g js (v_id n))"

lemma fittingNodes_Some:
  "fittingNodes m cg js b = Some r \<Longrightarrow> r = map v_id (filter (fits_in cg js) (usable m cg b))"
  by (auto simp: fittingNodes_def usable_def fits_in_def [abs_def] dest!: fit_loop_Some
      split: option.splits intro!: arg_cong [where f = "map v_id"] filter_cong)

lemma fittingNodes_None_iff:
  "fittingNodes m cg js b = None \<longleftrightarrow>
   (\<exists>g n. Containment_of cg = Some g \<and> n \<in> set (usable m cg b) \<and> cycle_below g (v_id n))"
  by (auto simp: fittingNodes_def usable_def fit_loop_None_iff split: option.splits)

lemma fittingNodes_all_None_iff:
  "fittingNodes m cg js False = None \<longleftrightarrow>
   (\<exists>g n. Containment_of cg = Some g \<and> n \<in> set (verticesOfType g ''node'') \<and> cycle_below g (v_id n))"
  by (auto simp: fittingNodes_def fit_loop_None_iff split: option.splits)

lemma fittingNodes_returns:
  "(\<And>g. Containment_of cg = Some g \<Longrightarrow> acyclic_jgf g) \<Longrightarrow> fittingNodes m cg js b \<noteq> None"
  by (auto simp: fittingNodes_None_iff acyclic_jgf_def)

lemma fittingNodes_free_subset:
  "fittingNodes m cg js True = Some r \<Longrightarrow> set r \<inter> held m (cg_ID cg) = {}"
  by (auto dest!: fittingNodes_Some simp: usable_def split: option.splits)

lemma fittingNodes_free_all:
  "fittingNodes m cg js False \<noteq> None \<Longrightarrow> fittingNodes m cg js True \<noteq> None"
  by (auto simp: fittingNodes_None_iff usable_def split: option.splits)

lemma fittingNodes_le:
  assumes "fittingNodes m cg js False = Some fit" "fittingNodes m cg js True = Some free"
  shows "length free \<le> length fit"
proof -
  have "filter (fits_in cg js) (usable m cg True) =
    filter (\<lambda>n. \<not> v_id n \<in> held m (cg_ID cg)) (filter (fits_in cg js) (usable m cg False))"
    by (auto simp: usable_def conj_commute split: option.splits intro!: filter_cong)
  with assms show ?thesis
    by (metis fittingNodes_Some length_filter_le length_map)
qed

section \<open>Properties\<close>

text \<open>
  C16. A subsystem section is satisfied exactly when the cluster has that subsystem's graph
  and every request of the section embeds in it: the request matches some vertex and each
  request below it a child of that vertex, recursively, where an \<open>anyof\<close> group stands for one
  of its alternatives. An empty section is satisfied by any cluster that has the graph.
\<close>

theorem subsystemSatisfies_embedding:
  "subsystemSatisfies cg sub section =
     (\<exists>g. map_of (cg_Subsystems cg) sub = Some g \<and>
       (\<forall>r \<in> set section. \<exists>c i. (if r_type r = AnyOfType then c \<in> set (r_with r) else c = r) \<and>
          embeds g i c))"
proof (cases "map_of (cg_Subsystems cg) sub")
  case (Some g)
  have "subsystemSatisfies cg sub section \<longleftrightarrow>
      (\<exists>alt \<in> set (ExpandSection section). \<forall>r \<in> set alt. \<exists>i. embeds g i r)"
    using Some by (simp add: subsystemSatisfies_def list_ex_iff list_all_iff satisfyResource_embeds)
  also have "\<dots> \<longleftrightarrow> (\<forall>r \<in> set section. if r_type r = AnyOfType then \<exists>c \<in> set (r_with r). \<exists>i. embeds g i c
      else \<exists>i. embeds g i r)"
    by (rule ExpandSection_sat)
  also have "\<dots> \<longleftrightarrow> (\<forall>r \<in> set section. \<exists>c i. (if r_type r = AnyOfType then c \<in> set (r_with r) else c = r) \<and>
      embeds g i c)"
    by (rule ball_cong) auto
  finally show ?thesis using Some by simp
qed (simp add: subsystemSatisfies_def)

definition v0 :: "string \<Rightarrow> string \<Rightarrow> int \<Rightarrow> vertex" where
  "v0 i t n = \<lparr>v_id = i, v_meta = (meta t t t 0 ''/'')\<lparr>vm_size := n\<rparr>\<rparr>"

definition e0 :: "string \<Rightarrow> string \<Rightarrow> edge" where
  "e0 s t = \<lparr>e_source = s, e_target = t, e_meta = \<lparr>em_subsystem = '''', em_name = ''''\<rparr>\<rparr>"

definition software_cluster :: cluster_graph where
  "software_cluster = zero_cluster\<lparr>cg_Subsystems := [(''software'',
     \<lparr>g_nodes = [v0 ''1'' ''lammps'' 1, v0 ''2'' ''kokkos'' 1, v0 ''3'' ''gromacs'' 1],
      g_edges = [e0 ''1'' ''2'']\<rparr>)]\<rparr>"

theorem subsystemSatisfies_embedding_witness:
  "subsystemSatisfies software_cluster ''software'' [Resource ''lammps'' 1 '''' False '''' [leaf ''kokkos'']] \<and>
   \<not> subsystemSatisfies software_cluster ''software'' [Resource ''gromacs'' 1 '''' False '''' [leaf ''kokkos'']] \<and>
   \<not> subsystemSatisfies software_cluster ''network'' []"
proof -
  have g: "\<not> subsystemSatisfies software_cluster ''software'' [Resource ''gromacs'' 1 '''' False '''' [leaf ''kokkos'']]"
    by code_simp
  let ?g = "\<lparr>g_nodes = [v0 ''1'' ''lammps'' 1, v0 ''2'' ''kokkos'' 1, v0 ''3'' ''gromacs'' 1],
      g_edges = [e0 ''1'' ''2'']\<rparr>"
  have "embeds ?g ''2'' (leaf ''kokkos'')"
    by (subst embeds_iff) (simp add: byID_def v0_def leaf_def matchVertex_def meta_def)
  then have e: "embeds ?g ''1'' (Resource ''lammps'' 1 '''' False '''' [leaf ''kokkos''])"
    by (subst embeds_iff) (simp add: byID_def children_def v0_def e0_def matchVertex_def meta_def)
  show ?thesis
    using g e
    unfolding subsystemSatisfies_embedding [of _ "''software''" "[Resource ''lammps'' 1 '''' False '''' [leaf ''kokkos'']]"]
      subsystemSatisfies_embedding [of _ "''network''"]
    by (auto simp: software_cluster_def zero_cluster_def AnyOfType_def)
qed

end
