(* ===== verification/Booking.thy ===== *)
theory Booking
  imports Matcher
begin

text \<open>
  The allocation books of \<open>SimMatcher\<close>. The locale \<open>booking\<close> is the contract the
  manager relies on from any \<open>Matcher\<close>: an allocation gets a new id and units nobody
  holds, a refusal changes nothing, and a release returns exactly what the id held.
  \<open>sim_inv\<close> is the invariant of the Go maps under which \<open>SimMatcher\<close> provides it.
\<close>

section \<open>The contract\<close>

datatype 'r call = Book 'r | Release string

fun run_calls ::
  "('s \<Rightarrow> 'r \<Rightarrow> ('s \<times> (string + allocation option)) option) \<Rightarrow> ('s \<Rightarrow> string \<Rightarrow> 's) \<Rightarrow>
   's \<Rightarrow> 'r call list \<Rightarrow> 's option" where
  "run_calls book rel s [] = Some s"
| "run_calls book rel s (Book q # cs) =
     (case book s q of None \<Rightarrow> None | Some (s', _) \<Rightarrow> run_calls book rel s' cs)"
| "run_calls book rel s (Release i # cs) = run_calls book rel (rel s i) cs"

definition units_of :: "allocation \<Rightarrow> (string \<times> string) set" where
  "units_of a = {al_ClusterID a} \<times> set (al_VertexIDs a)"

locale booking =
  fixes book :: "'s \<Rightarrow> 'r \<Rightarrow> ('s \<times> (string + allocation option)) option"
    and rel :: "'s \<Rightarrow> string \<Rightarrow> 's"
    and inv :: "'s \<Rightarrow> bool"
    and owns :: "'s \<Rightarrow> string \<Rightarrow> (string \<times> string) set"
    and issued :: "'s \<Rightarrow> string set"
  assumes book_inv: "inv s \<Longrightarrow> book s q = Some (s', r) \<Longrightarrow> inv s'"
    and book_grant: "inv s \<Longrightarrow> book s q = Some (s', Inr (Some a)) \<Longrightarrow>
      al_ID a \<notin> issued s \<and> issued s' = insert (al_ID a) (issued s) \<and>
      owns s' = (owns s)(al_ID a := units_of a) \<and> (\<forall>i. units_of a \<inter> owns s i = {})"
    and book_refuse: "inv s \<Longrightarrow> book s q = Some (s', r) \<Longrightarrow> \<forall>a. r \<noteq> Inr (Some a) \<Longrightarrow> s' = s"
    and rel_inv: "inv s \<Longrightarrow> inv (rel s i)"
    and rel_owns: "inv s \<Longrightarrow> owns (rel s i) = (owns s)(i := {})"
    and rel_issued: "inv s \<Longrightarrow> issued (rel s i) = issued s"
    and owns_issued: "inv s \<Longrightarrow> owns s i \<noteq> {} \<Longrightarrow> i \<in> issued s"
    and owns_apart: "inv s \<Longrightarrow> i \<noteq> j \<Longrightarrow> owns s i \<inter> owns s j = {}"
begin

lemma book_owns_old:
  assumes "inv s" "book s q = Some (s', r)" "i \<in> issued s"
  shows "owns s' i = owns s i" "i \<in> issued s'"
proof -
  have "owns s' i = owns s i \<and> i \<in> issued s'"
  proof (cases "\<exists>a. r = Inr (Some a)")
    case True
    then obtain a where "r = Inr (Some a)" ..
    then show ?thesis using book_grant [OF assms(1)] assms by auto
  next
    case False
    then show ?thesis using book_refuse [OF assms(1,2)] assms by auto
  qed
  then show "owns s' i = owns s i" "i \<in> issued s'" by auto
qed

lemma release_undoes_book:
  assumes "inv s" "book s q = Some (s', Inr (Some a))"
  shows "owns (rel s' (al_ID a)) = owns s"
proof -
  have "owns s (al_ID a) = {}"
    using book_grant [OF assms] owns_issued [OF assms(1)] by auto
  then show ?thesis
    using book_grant [OF assms] rel_owns [OF book_inv [OF assms], of "al_ID a"]
    by (simp add: fun_upd_idem)
qed

lemma release_twice: "inv s \<Longrightarrow> owns (rel (rel s i) i) = owns (rel s i)"
  by (simp add: rel_owns rel_inv)

lemma run_inv: "inv s \<Longrightarrow> run_calls book rel s cs = Some s' \<Longrightarrow> inv s'"
proof (induction cs arbitrary: s)
  case (Cons c cs)
  then show ?case
    by (cases c) (auto split: option.splits intro: rel_inv dest: book_inv)
qed simp

lemma run_apart:
  "inv s \<Longrightarrow> run_calls book rel s cs = Some s' \<Longrightarrow> i \<noteq> j \<Longrightarrow> owns s' i \<inter> owns s' j = {}"
  using run_inv owns_apart by blast

text \<open>
  An id that was issued and no longer holds anything never holds anything again.\<close>

lemma run_stale:
  "inv s \<Longrightarrow> run_calls book rel s cs = Some s' \<Longrightarrow> i \<in> issued s \<Longrightarrow> owns s i = {} \<Longrightarrow>
   owns s' i = {} \<and> i \<in> issued s'"
proof (induction cs arbitrary: s)
  case (Cons c cs)
  show ?case
  proof (cases c)
    case (Book q)
    then obtain s1 r where s1: "book s q = Some (s1, r)" "run_calls book rel s1 cs = Some s'"
      using Cons.prems(2) by (auto split: option.splits)
    then show ?thesis
      using Cons.IH [of s1] Cons.prems book_owns_old [OF Cons.prems(1) s1(1) Cons.prems(3)]
        book_inv [OF Cons.prems(1) s1(1)] by simp
  next
    case (Release j)
    then show ?thesis
      using Cons.IH [of "rel s j"] Cons.prems by (simp add: rel_owns rel_issued rel_inv)
  qed
qed simp

end

section \<open>The invariant of the books\<close>

definition sim_owns :: "sim \<Rightarrow> string \<Rightarrow> (string \<times> string) set" where
  "sim_owns m a = (case sm_live m a of None \<Rightarrow> {}
     | Some r \<Rightarrow> {la_cluster r} \<times> set (la_vertexIDs r))"

definition sim_issued :: "sim \<Rightarrow> string set" where
  "sim_issued m = {alloc_id k |k. 1 \<le> k \<and> k \<le> sm_nextID m}"

definition sim_registry_ok :: "sim \<Rightarrow> bool" where
  "sim_registry_ok m \<longleftrightarrow> distinct (sm_order m) \<and> set (sm_order m) = dom (sm_clusters m) \<and>
     dom (sm_allocated m) = dom (sm_clusters m) \<and>
     (\<forall>i cg. sm_clusters m i = Some cg \<longrightarrow> cg_ID cg = i)"

definition sim_books_ok :: "sim \<Rightarrow> bool" where
  "sim_books_ok m \<longleftrightarrow>
     dom (sm_live m) \<subseteq> sim_issued m \<and>
     (\<forall>a r. sm_live m a = Some r \<longrightarrow> sm_allocated m (la_cluster r) \<noteq> None) \<and>
     (\<forall>i s. sm_allocated m i = Some s \<longrightarrow> s = {v. \<exists>a. (i, v) \<in> sim_owns m a}) \<and>
     (\<forall>a b. a \<noteq> b \<longrightarrow> sim_owns m a \<inter> sim_owns m b = {})"

definition sim_inv :: "sim \<Rightarrow> bool" where
  "sim_inv m \<longleftrightarrow> sim_registry_ok m \<and> sim_books_ok m"

lemma alloc_id_inject [simp]: "alloc_id m = alloc_id n \<longleftrightarrow> m = n"
  by (simp add: alloc_id_def)

lemma alloc_id_fresh: "alloc_id (Suc (sm_nextID m)) \<notin> sim_issued m"
  by (auto simp: sim_issued_def)

lemma sim_issued_Suc:
  "sm_nextID m' = Suc (sm_nextID m) \<Longrightarrow> sim_issued m' = insert (alloc_id (Suc (sm_nextID m))) (sim_issued m)"
  by (auto simp: sim_issued_def le_Suc_eq)

lemma sim_owns_issued: "sim_inv m \<Longrightarrow> sim_owns m i \<noteq> {} \<Longrightarrow> i \<in> sim_issued m"
  by (auto simp: sim_inv_def sim_books_ok_def sim_owns_def split: option.splits)

lemma sim_owns_apart: "sim_inv m \<Longrightarrow> i \<noteq> j \<Longrightarrow> sim_owns m i \<inter> sim_owns m j = {}"
  by (simp add: sim_inv_def sim_books_ok_def)

lemma sim_owns_cluster: "sim_inv m \<Longrightarrow> (c, v) \<in> sim_owns m a \<Longrightarrow> c \<in> dom (sm_clusters m)"
  by (auto simp: sim_inv_def sim_books_ok_def sim_registry_ok_def sim_owns_def split: option.splits)

lemma held_owns: "sim_inv m \<Longrightarrow> held m c = {v. \<exists>a. (c, v) \<in> sim_owns m a}"
proof (cases "sm_allocated m c")
  case None
  assume inv: "sim_inv m"
  then have "c \<notin> dom (sm_clusters m)"
    using None by (metis domIff sim_inv_def sim_registry_ok_def)
  then show ?thesis
    using None sim_owns_cluster [OF inv, of c] by (auto simp: held_def)
qed (simp add: held_def sim_inv_def sim_books_ok_def)

lemma sim_live_held:
  assumes "sim_inv m" "sm_live m a = Some r"
  shows "\<exists>s. sm_allocated m (la_cluster r) = Some s"
proof -
  have "sim_books_ok m" using assms(1) by (simp add: sim_inv_def)
  then have "\<forall>b q. sm_live m b = Some q \<longrightarrow> sm_allocated m (la_cluster q) \<noteq> None"
    unfolding sim_books_ok_def by (elim conjE)
  with assms(2) show ?thesis by (simp flip: not_None_eq)
qed

lemma sim_books_cong:
  assumes "sm_live m' = sm_live m" "sm_nextID m' = sm_nextID m" "sm_allocated m' = sm_allocated m"
  shows "sim_books_ok m' \<longleftrightarrow> sim_books_ok m"
proof -
  have "sim_owns m' = sim_owns m" "sim_issued m' = sim_issued m"
    using assms by (simp_all add: sim_owns_def sim_issued_def fun_eq_iff)
  then show ?thesis using assms by (simp add: sim_books_ok_def)
qed

lemma sim_inv_empty [simp]: "sim_inv empty_sim"
  by (simp add: sim_inv_def sim_registry_ok_def sim_books_ok_def sim_owns_def empty_sim_def)

lemma sim_inv_AddCluster [inv_intros]:
  assumes "sim_inv m"
  shows "sim_inv (fst (sim_AddCluster m cg))"
proof (cases "sm_clusters m (cg_ID cg)")
  case None
  let ?m = "fst (sim_AddCluster m cg)"
  have own: "sim_owns ?m = sim_owns m" "sim_issued ?m = sim_issued m"
    by (simp_all add: sim_AddCluster_def sim_owns_def sim_issued_def Let_def fun_eq_iff)
  have "{v. \<exists>a. (cg_ID cg, v) \<in> sim_owns m a} = {}"
    using sim_owns_cluster [OF assms] None by blast
  moreover have "sim_registry_ok ?m"
    using assms None by (auto simp: sim_inv_def sim_registry_ok_def sim_AddCluster_def Let_def)
  ultimately show ?thesis
    using assms None own unfolding sim_inv_def sim_books_ok_def
    by (auto simp: sim_AddCluster_def Let_def)
next
  case (Some c)
  then have "sim_registry_ok (fst (sim_AddCluster m cg))"
    using assms by (auto simp: sim_inv_def sim_registry_ok_def sim_AddCluster_def Let_def)
  with Some show ?thesis
    using assms sim_books_cong [of "fst (sim_AddCluster m cg)" m]
    by (simp add: sim_inv_def sim_AddCluster_def Let_def)
qed

lemma sim_owns_RemoveCluster:
  "sim_owns (fst (sim_RemoveCluster m i)) a = sim_owns m a - {i} \<times> UNIV"
  by (auto simp: sim_owns_def sim_RemoveCluster_def split: option.splits if_splits)

lemma sim_inv_RemoveCluster [inv_intros]:
  assumes "sim_inv m"
  shows "sim_inv (fst (sim_RemoveCluster m i))"
proof -
  let ?m = "fst (sim_RemoveCluster m i)"
  have "sim_registry_ok ?m"
    using assms by (auto simp: sim_inv_def sim_registry_ok_def sim_RemoveCluster_def distinct_remove1)
  moreover have "dom (sm_live ?m) \<subseteq> sim_issued ?m"
    using assms by (fastforce simp: sim_inv_def sim_books_ok_def sim_RemoveCluster_def sim_issued_def
        split: option.splits if_splits)
  moreover have "sm_allocated ?m (la_cluster r) \<noteq> None" if "sm_live ?m a = Some r" for a r
    using assms that by (auto simp: sim_inv_def sim_books_ok_def sim_RemoveCluster_def dom_def
        split: option.splits if_splits)
  moreover have "s = {v. \<exists>a. (j, v) \<in> sim_owns ?m a}" if "sm_allocated ?m j = Some s" for j s
    using assms that unfolding sim_owns_RemoveCluster
    by (auto simp: sim_inv_def sim_books_ok_def sim_RemoveCluster_def split: if_splits)
  moreover have "sim_owns ?m a \<inter> sim_owns ?m b = {}" if "a \<noteq> b" for a b
    using sim_owns_apart [OF assms that] unfolding sim_owns_RemoveCluster by blast
  ultimately show ?thesis by (simp add: sim_inv_def sim_books_ok_def)
qed

lemma sim_inv_replace_graph:
  assumes "sim_inv m" "sm_clusters m i = Some cg" "cg_ID cg' = cg_ID cg"
  shows "sim_inv (m\<lparr>sm_clusters := (sm_clusters m)(i \<mapsto> cg')\<rparr>)"
proof -
  have "sim_registry_ok (m\<lparr>sm_clusters := (sm_clusters m)(i \<mapsto> cg')\<rparr>)"
    using assms by (auto simp: sim_inv_def sim_registry_ok_def)
  then show ?thesis
    using assms(1) sim_books_cong [of "m\<lparr>sm_clusters := (sm_clusters m)(i \<mapsto> cg')\<rparr>" m]
    by (simp add: sim_inv_def)
qed

lemma sim_inv_AddSubsystem [inv_intros]:
  "sim_inv m \<Longrightarrow> sim_inv (fst (sim_AddSubsystem m i name g d))"
  by (auto simp: sim_AddSubsystem_def intro: sim_inv_replace_graph split: option.splits)

lemma sim_inv_RemoveSubsystem [inv_intros]:
  assumes "sim_inv m"
  shows "sim_inv (fst (sim_RemoveSubsystem m i name))"
proof (cases "sm_clusters m i")
  case (Some cg)
  obtain found cg' where d: "DetachSubsystem name cg = (found, cg')"
    by (cases "DetachSubsystem name cg")
  then have "cg_ID cg' = cg_ID cg" using Detach_same(1) [of name cg] by simp
  then show ?thesis
    using assms Some d sim_inv_replace_graph [OF assms Some]
    by (cases found) (simp_all add: sim_RemoveSubsystem_def)
qed (use assms in \<open>simp add: sim_RemoveSubsystem_def\<close>)

text \<open>
  The outcomes of \<open>Allocate\<close>, one rule per branch of the code.\<close>

lemma sim_Allocate_cases:
  assumes "sim_Allocate m js c = Some (m', r)"
  obtains (unknown) "sm_clusters m c = None" "m' = m" "r = Inl (not_registered c)"
  | (satisfy_only) cg where "sm_clusters m c = Some cg" "\<not> Reserves cg"
      "m' = m\<lparr>sm_nextID := Suc (sm_nextID m)\<rparr>"
      "r = Inr (Some \<lparr>al_ID = alloc_id (Suc (sm_nextID m)), al_ClusterID = c, al_VertexIDs = []\<rparr>)"
  | (full) cg free where "sm_clusters m c = Some cg" "Reserves cg"
      "fittingNodes m cg js True = Some free" "int (length free) < Nodes js" "m' = m" "r = Inr None"
  | (granted) cg free s where "sm_clusters m c = Some cg" "Reserves cg"
      "fittingNodes m cg js True = Some free" "Nodes js \<le> int (length free)"
      "sm_allocated m c = Some s"
      "m' = m\<lparr>sm_nextID := Suc (sm_nextID m),
        sm_allocated := (sm_allocated m)(c \<mapsto> s \<union> set (take (nat (Nodes js)) free)),
        sm_live := (sm_live m)(alloc_id (Suc (sm_nextID m)) \<mapsto>
          \<lparr>la_cluster = c, la_vertexIDs = take (nat (Nodes js)) free\<rparr>)\<rparr>"
      "r = Inr (Some \<lparr>al_ID = alloc_id (Suc (sm_nextID m)), al_ClusterID = c,
                      al_VertexIDs = take (nat (Nodes js)) free\<rparr>)"
proof (cases "sm_clusters m c")
  case None
  then have "m' = m \<and> r = Inl (not_registered c)" using assms by (simp add: sim_Allocate_def)
  then show ?thesis using None by (intro unknown) simp_all
next
  case (Some cg)
  show ?thesis
  proof (cases "Reserves cg")
    case False
    have "m' = m\<lparr>sm_nextID := Suc (sm_nextID m)\<rparr> \<and>
        r = Inr (Some \<lparr>al_ID = alloc_id (Suc (sm_nextID m)), al_ClusterID = c, al_VertexIDs = []\<rparr>)"
      using assms Some False by (auto simp add: sim_Allocate_def mint_def Let_def)
    then show ?thesis using Some False by (intro satisfy_only) simp_all
  next
    case True
    then obtain free where f: "fittingNodes m cg js True = Some free"
      using assms Some by (auto simp: sim_Allocate_def split: option.splits)
    show ?thesis
    proof (cases "int (length free) < Nodes js")
      case short: True
      then have "m' = m \<and> r = Inr None"
        using assms Some True f by (simp add: sim_Allocate_def)
      then show ?thesis by (intro full [OF Some True f short]) simp_all
    next
      case False
      then obtain s where s: "sm_allocated m c = Some s"
        using assms Some True f
        by (auto simp: sim_Allocate_def mint_def Let_def split: option.splits)
      show ?thesis
        using assms Some True f False s
        by (intro granted [OF Some True f _ s])
          (simp_all add: sim_Allocate_def mint_def Let_def not_less)
    qed
  qed
qed

lemma sim_Allocate_grant:
  assumes inv: "sim_inv m" and al: "sim_Allocate m js c = Some (m', Inr (Some a))"
  shows "al_ID a \<notin> sim_issued m" "sim_issued m' = insert (al_ID a) (sim_issued m)"
    "sim_owns m' = (sim_owns m)(al_ID a := units_of a)" "units_of a \<inter> sim_owns m i = {}"
    "sim_inv m'"
proof -
  have fresh: "al_ID a \<notin> sim_issued m" "sm_nextID m' = Suc (sm_nextID m)"
      "al_ID a = alloc_id (Suc (sm_nextID m))"
    using al by (auto elim!: sim_Allocate_cases simp: alloc_id_fresh)
  then show "al_ID a \<notin> sim_issued m" and iss: "sim_issued m' = insert (al_ID a) (sim_issued m)"
    by (simp_all add: sim_issued_Suc)
  have none: "sim_owns m (al_ID a) = {}" "sm_live m (al_ID a) = None"
    using fresh(1) inv sim_owns_issued
    by (auto simp: sim_inv_def sim_books_ok_def domIff subset_iff)
  show own: "sim_owns m' = (sim_owns m)(al_ID a := units_of a)"
    using al none by (auto elim!: sim_Allocate_cases simp: sim_owns_def units_of_def fun_eq_iff)
  have apart: "units_of a \<inter> sim_owns m j = {}" for j
    using al
  proof (cases rule: sim_Allocate_cases)
    case (granted cg free s)
    have "cg_ID cg = c"
      using inv granted(1) by (simp add: sim_inv_def sim_registry_ok_def)
    then have "set free \<inter> held m c = {}"
      using fittingNodes_free_subset [OF granted(3)] by simp
    then show ?thesis
      using granted by (auto simp: units_of_def held_owns [OF inv] dest!: in_set_takeD)
  qed (simp_all add: units_of_def)
  then show "units_of a \<inter> sim_owns m i = {}" .
  show "sim_inv m'"
    using al
  proof (cases rule: sim_Allocate_cases)
    case (satisfy_only cg)
    then have "sim_owns m' = sim_owns m" by (auto simp: sim_owns_def fun_eq_iff)
    then show ?thesis
      using inv iss satisfy_only
      by (auto simp: sim_inv_def sim_registry_ok_def sim_books_ok_def)
  next
    case (granted cg free s)
    have "sim_registry_ok m'"
      using inv granted by (auto simp: sim_inv_def sim_registry_ok_def)
    moreover have "dom (sm_live m') \<subseteq> sim_issued m'"
      using inv granted iss by (auto simp: sim_inv_def sim_books_ok_def)
    moreover have "sm_allocated m' (la_cluster r) \<noteq> None" if "sm_live m' b = Some r" for b r
      using inv granted that by (auto simp: sim_inv_def sim_books_ok_def split: if_splits)
    moreover have "t = {v. \<exists>b. (j, v) \<in> sim_owns m' b}" if "sm_allocated m' j = Some t" for j t
    proof -
      have old: "\<And>t. sm_allocated m j = Some t \<Longrightarrow> t = {v. \<exists>b. (j, v) \<in> sim_owns m b}"
        using inv by (simp add: sim_inv_def sim_books_ok_def)
      have new: "(\<exists>b. (j, v) \<in> sim_owns m' b) \<longleftrightarrow> (\<exists>b. (j, v) \<in> sim_owns m b) \<or> (j, v) \<in> units_of a" for v
        unfolding own using none(1) by (auto split: if_splits) (metis empty_iff)
      show ?thesis
        using that granted old unfolding new by (auto simp: units_of_def split: if_splits)
    qed
    moreover have "sim_owns m' b \<inter> sim_owns m' d = {}" if "b \<noteq> d" for b d
      unfolding own using sim_owns_apart [OF inv that] apart that by auto
    ultimately show ?thesis by (simp add: sim_inv_def sim_books_ok_def)
  qed simp_all
qed

lemma sim_Allocate_refuse:
  "sim_Allocate m js c = Some (m', r) \<Longrightarrow> \<forall>a. r \<noteq> Inr (Some a) \<Longrightarrow> m' = m"
  by (auto elim!: sim_Allocate_cases)

lemma sim_Allocate_inv: "sim_inv m \<Longrightarrow> sim_Allocate m js c = Some (m', r) \<Longrightarrow> sim_inv m'"
  using sim_Allocate_grant(5) sim_Allocate_refuse by metis

lemma sim_issued_Free [simp]: "sim_issued (fst (sim_Free m i)) = sim_issued m"
  by (auto simp: sim_Free_def sim_issued_def split: option.split)

lemma sim_owns_Free: "sim_owns (fst (sim_Free m i)) = (sim_owns m)(i := {})"
  by (auto simp: sim_Free_def sim_owns_def fun_eq_iff split: option.split)

lemma sim_inv_Free [inv_intros]:
  assumes inv: "sim_inv m"
  shows "sim_inv (fst (sim_Free m i))"
proof (cases "sm_live m i")
  case None
  then show ?thesis using inv by (simp add: sim_Free_def)
next
  case (Some r)
  let ?m = "fst (sim_Free m i)"
  obtain s where s: "sm_allocated m (la_cluster r) = Some s"
    using sim_live_held [OF inv Some] by blast
  have "sim_registry_ok ?m"
    using inv Some s by (auto simp: sim_inv_def sim_registry_ok_def sim_Free_def)
  moreover have "dom (sm_live ?m) \<subseteq> sim_issued ?m"
    using inv Some s unfolding sim_issued_Free by (auto simp: sim_inv_def sim_books_ok_def sim_Free_def)
  moreover have "sm_allocated ?m (la_cluster q) \<noteq> None" if "sm_live ?m b = Some q" for b q
    using inv Some s that by (auto simp: sim_inv_def sim_books_ok_def sim_Free_def split: if_splits)
  moreover have "t = {v. \<exists>b. (j, v) \<in> sim_owns ?m b}" if t: "sm_allocated ?m j = Some t" for j t
  proof -
    have own: "sim_owns m i = {la_cluster r} \<times> set (la_vertexIDs r)"
      using Some by (simp add: sim_owns_def)
    have gone: "(\<exists>b. (j, v) \<in> sim_owns ?m b) \<longleftrightarrow> (\<exists>b. (j, v) \<in> sim_owns m b) \<and> (j, v) \<notin> sim_owns m i" for v
      unfolding sim_owns_Free using sim_owns_apart [OF inv] by (auto split: if_splits) metis
    have old: "\<And>t. sm_allocated m j = Some t \<Longrightarrow> t = {v. \<exists>b. (j, v) \<in> sim_owns m b}"
      using inv by (simp add: sim_inv_def sim_books_ok_def)
    show ?thesis
      using t old s Some unfolding gone own
      by (auto simp: sim_Free_def split: if_splits)
  qed
  moreover have "sim_owns ?m b \<inter> sim_owns ?m d = {}" if "b \<noteq> d" for b d
    using sim_owns_apart [OF inv that] by (auto simp: sim_owns_Free)
  ultimately show ?thesis by (simp add: sim_inv_def sim_books_ok_def)
qed

interpretation sim: booking "\<lambda>m (js, c). sim_Allocate m js c" "\<lambda>m i. fst (sim_Free m i)"
  sim_inv sim_owns sim_issued
  by unfold_locales
    (auto simp: sim_owns_Free sim_owns_issued intro: inv_intros sim_Allocate_inv
      dest: sim_Allocate_grant sim_Allocate_refuse sim_owns_apart)

section \<open>Reachable states\<close>

text \<open>Any sequence of the matcher's operations, starting from a fleet.\<close>

inductive sim_reach :: "sim \<Rightarrow> bool" where
  reach_new: "sim_reach (NewSim f)"
| reach_add: "sim_reach m \<Longrightarrow> sim_reach (fst (sim_AddCluster m cg))"
| reach_remove: "sim_reach m \<Longrightarrow> sim_reach (fst (sim_RemoveCluster m i))"
| reach_attach: "sim_reach m \<Longrightarrow> sim_reach (fst (sim_AddSubsystem m i name g d))"
| reach_detach: "sim_reach m \<Longrightarrow> sim_reach (fst (sim_RemoveSubsystem m i name))"
| reach_allocate: "sim_reach m \<Longrightarrow> sim_Allocate m js c = Some (m', r) \<Longrightarrow> sim_reach m'"
| reach_free: "sim_reach m \<Longrightarrow> sim_reach (fst (sim_Free m a))"

lemma sim_inv_fold_add: "sim_inv m \<Longrightarrow> sim_inv (foldl (\<lambda>m c. fst (sim_AddCluster m c)) m f)"
  by (induction f arbitrary: m) (auto intro: inv_intros)

lemma sim_inv_NewSim [inv_intros]: "sim_inv (NewSim f)"
  by (cases f) (simp_all add: NewSim_def sim_inv_fold_add)

lemma sim_reach_inv: "sim_reach m \<Longrightarrow> sim_inv m"
  by (induction rule: sim_reach.induct) (blast intro: inv_intros sim_Allocate_inv)+

section \<open>Evaluate and Allocate\<close>

lemma evaluate_order_Some:
  "evaluate_order m js is = Some cs \<Longrightarrow> list_all2 (\<lambda>i c. evaluate_one m js i = Some c) is cs"
  by (induction m js "is" arbitrary: cs rule: evaluate_order.induct) (auto split: option.splits)

lemma evaluate_order_None_iff:
  "evaluate_order m js is = None \<longleftrightarrow> (\<exists>i \<in> set is. evaluate_one m js i = None)"
  by (induction m js "is" rule: evaluate_order.induct) (auto split: option.splits)

definition graph_of :: "sim \<Rightarrow> string \<Rightarrow> cluster_graph" where
  "graph_of m i = (case sm_clusters m i of None \<Rightarrow> zero_cluster | Some cg \<Rightarrow> cg)"

lemma evaluate_one_Some:
  assumes "evaluate_one m js i = Some c"
  obtains fit free where "fittingNodes m (graph_of m i) js False = Some fit"
    "fittingNodes m (graph_of m i) js True = Some free"
    "ca_Cluster c = i" "ca_FreeNodes c = length free"
    "ca_Feasible c \<longleftrightarrow> (\<forall>(sub, sec) \<in> set (js_requires js). subsystemSatisfies (graph_of m i) sub sec) \<and>
       Nodes js \<le> int (length fit)"
    "ca_FreeNow c \<longleftrightarrow> ca_Feasible c \<and> Nodes js \<le> int (length free)"
    "ca_Missing c = map fst (filter (\<lambda>(sub, sec). \<not> subsystemSatisfies (graph_of m i) sub sec) (js_requires js)) @
       (if Nodes js \<le> int (length fit) then [] else [ContainmentSubsystem])"
  using assms
  by (auto simp: evaluate_one_def requires_report_eq Let_def graph_of_def [symmetric]
      split: option.splits)

lemma evaluate_one_None_iff:
  "evaluate_one m js i = None \<longleftrightarrow> fittingNodes m (graph_of m i) js False = None"
  using fittingNodes_free_all [of m "graph_of m i" js]
  by (cases "fittingNodes m (graph_of m i) js False")
    (auto simp: evaluate_one_def requires_report_eq Let_def graph_of_def [symmetric] split: option.splits)

lemma evaluated:
  assumes "sim_Evaluate m js = Some cs" "c \<in> set cs"
  shows "ca_Cluster c \<in> set (sm_order m)" "evaluate_one m js (ca_Cluster c) = Some c"
proof -
  have all: "list_all2 (\<lambda>i c. evaluate_one m js i = Some c) (sm_order m) cs"
    using assms(1) by (simp add: sim_Evaluate_def evaluate_order_Some)
  obtain k where "k < length cs" "c = cs ! k" using assms(2) by (auto simp: in_set_conv_nth)
  with all have k: "sm_order m ! k \<in> set (sm_order m)" "evaluate_one m js (sm_order m ! k) = Some c"
    by (auto simp: list_all2_conv_all_nth)
  moreover have "ca_Cluster c = sm_order m ! k"
    using k(2) by (rule evaluate_one_Some)
  ultimately show "ca_Cluster c \<in> set (sm_order m)" "evaluate_one m js (ca_Cluster c) = Some c"
    by simp_all
qed

lemma candidate_report:
  assumes "evaluate_one m js i = Some c"
  shows "ca_Feasible c =
      ((\<forall>(sub, sec) \<in> set (js_requires js). subsystemSatisfies (graph_of m i) sub sec) \<and>
       Nodes js \<le> int (length (filter (fits_in (graph_of m i) js) (usable m (graph_of m i) False))))"
    "ca_FreeNodes c = length (filter (fits_in (graph_of m i) js) (usable m (graph_of m i) True))"
    "ca_FreeNow c = (ca_Feasible c \<and> Nodes js \<le> int (ca_FreeNodes c))"
    "ca_Feasible c = (ca_Missing c = [])"
proof -
  from assms obtain fit free where c: "fittingNodes m (graph_of m i) js False = Some fit"
    "fittingNodes m (graph_of m i) js True = Some free" "ca_FreeNodes c = length free"
    "ca_Feasible c \<longleftrightarrow> (\<forall>(sub, sec) \<in> set (js_requires js). subsystemSatisfies (graph_of m i) sub sec) \<and>
       Nodes js \<le> int (length fit)"
    "ca_FreeNow c \<longleftrightarrow> ca_Feasible c \<and> Nodes js \<le> int (length free)"
    "ca_Missing c = map fst (filter (\<lambda>(sub, sec). \<not> subsystemSatisfies (graph_of m i) sub sec) (js_requires js)) @
       (if Nodes js \<le> int (length fit) then [] else [ContainmentSubsystem])"
    by (rule evaluate_one_Some)
  show "ca_Feasible c =
      ((\<forall>(sub, sec) \<in> set (js_requires js). subsystemSatisfies (graph_of m i) sub sec) \<and>
       Nodes js \<le> int (length (filter (fits_in (graph_of m i) js) (usable m (graph_of m i) False))))"
    using c(4) fittingNodes_Some [OF c(1)] by simp
  show "ca_FreeNodes c = length (filter (fits_in (graph_of m i) js) (usable m (graph_of m i) True))"
    using c(3) fittingNodes_Some [OF c(2)] by simp
  show "ca_FreeNow c = (ca_Feasible c \<and> Nodes js \<le> int (ca_FreeNodes c))"
    using c(3,5) by simp
  show "ca_Feasible c = (ca_Missing c = [])"
    unfolding c(4,6) by (auto simp: filter_empty_conv)
qed

section \<open>Properties\<close>

text \<open>
  C2. No unit is booked twice. In every state the matcher can reach, by any interleaving of
  registrations, removals, subsystem changes, allocations and releases, two allocations hold
  no vertex in common, what a cluster counts as allocated is what the live allocations on it
  hold, and nothing is held on a cluster that is not registered.
\<close>

theorem no_double_booking:
  assumes "sim_reach m" "a \<noteq> b"
  shows "sim_owns m a \<inter> sim_owns m b = {} \<and> held m c = {v. \<exists>i. (c, v) \<in> sim_owns m i} \<and>
    (c \<notin> set (sm_order m) \<longrightarrow> held m c = {})"
proof -
  have inv: "sim_inv m" using assms(1) by (rule sim_reach_inv)
  have "set (sm_order m) = dom (sm_allocated m)"
    using inv by (simp add: sim_inv_def sim_registry_ok_def)
  then have "held m c = {}" if "c \<notin> set (sm_order m)"
    using that by (simp add: held_def domIff)
  then show ?thesis
    using sim.owns_apart [OF inv assms(2)] held_owns [OF inv, of c] by blast
qed

definition one_node :: "string \<Rightarrow> (string \<times> string) list \<Rightarrow> cluster_graph" where
  "one_node i config = \<lparr>cg_ID = i, cg_Manager = ''flux-uri'', cg_Handle = '''', cg_Config = config,
     cg_Subsystems = [(''containment'', \<lparr>g_nodes = [v0 ''0'' ''cluster'' 1, v0 ''1'' ''node'' 1, v0 ''2'' ''core'' 8],
        g_edges = [e0 ''0'' ''1'', e0 ''1'' ''2'']\<rparr>)], cg_Descriptive = []\<rparr>"

definition demo_sim :: sim where
  "demo_sim = NewSim (Some [one_node ''c1'' []])"

definition one_node_job :: jobspec where
  "one_node_job = New ''j'' '''' [''true''] 1 4 0 []"

lemmas demo_defs = demo_sim_def NewSim_def sim_AddCluster_def empty_sim_def one_node_def v0_def e0_def
  meta_def one_node_job_def New_def Containment_def

lemma Nodes_one_node_job [simp]: "Nodes one_node_job = 1"
  by (simp add: Nodes_def counts_def one_node_job_def New_def Containment_def Let_def node_found_def
      add_unit_def eff_count_def i64_def)

lemma needs_one_node_job: "CoresPerNode one_node_job = 4 \<and> GPUsPerNode one_node_job = 0 \<and> MemGBPerNode one_node_job = 0"
  by (simp add: CoresPerNode_def GPUsPerNode_def MemGBPerNode_def counts_def one_node_job_def New_def
      Containment_def Let_def node_found_def add_unit_def eff_count_def i64_def)

lemma demo_Containment: "Containment_of (one_node i config) =
   Some \<lparr>g_nodes = [v0 ''0'' ''cluster'' 1, v0 ''1'' ''node'' 1, v0 ''2'' ''core'' 8],
         g_edges = [e0 ''0'' ''1'', e0 ''1'' ''2'']\<rparr>"
  by (simp add: Containment_of_def one_node_def ContainmentSubsystem_def)

lemma demo_fitting:
  "fittingNodes m (one_node i config) one_node_job b =
     Some (if b \<and> ''1'' \<in> held m i then [] else [''1''])"
  by (simp add: fittingNodes_def demo_Containment verticesOfType_def v0_def meta_def nodeCapacity_def
      below_def depth_bound_def byID_def children_def e0_def add_capacity_def vsize_def i64_def
      fits_node_def needs_one_node_job eval_nat_numeral) (simp add: one_node_def)

definition booked_sim :: sim where
  "booked_sim = demo_sim\<lparr>sm_nextID := 1, sm_allocated := (sm_allocated demo_sim)(''c1'' \<mapsto> {''1''}),
     sm_live := [''alloc-1'' \<mapsto> \<lparr>la_cluster = ''c1'', la_vertexIDs = [''1'']\<rparr>]\<rparr>"

lemma alloc_id_1: "alloc_id (Suc 0) = ''alloc-1''"
  by code_simp

lemma demo_sim_simps [simp]:
  "sm_clusters demo_sim = [''c1'' \<mapsto> one_node ''c1'' []]" "sm_order demo_sim = [''c1'']"
  "sm_allocated demo_sim = [''c1'' \<mapsto> {}]" "sm_live demo_sim = Map.empty" "sm_nextID demo_sim = 0"
  by (simp_all add: demo_sim_def NewSim_def sim_AddCluster_def empty_sim_def one_node_def Let_def)

lemma demo_Allocate:
  "sim_Allocate demo_sim one_node_job ''c1'' =
     Some (booked_sim, Inr (Some \<lparr>al_ID = ''alloc-1'', al_ClusterID = ''c1'', al_VertexIDs = [''1'']\<rparr>))"
  by (simp add: sim_Allocate_def demo_fitting mint_def booked_sim_def alloc_id_1 held_def Let_def)
    (simp add: Reserves_def Cfg_def one_node_def)

lemma demo_reach: "sim_reach demo_sim"
  unfolding demo_sim_def by (rule reach_new)

lemma booked_reach: "sim_reach booked_sim"
  by (rule reach_allocate [OF demo_reach demo_Allocate])

theorem no_double_booking_witness:
  "held booked_sim ''c1'' = {v. \<exists>i. (''c1'', v) \<in> sim_owns booked_sim i} \<and> held booked_sim ''c1'' = {''1''}"
  using no_double_booking [of booked_sim "''a''" "''b''" "''c1''"] booked_reach
  by (simp add: held_def booked_sim_def)

text \<open>
  C5. \<open>Evaluate\<close> reports every registered cluster once, in registration order. A candidate is
  feasible exactly when every requested subsystem is satisfied and enough nodes of its
  containment graph could hold one node's share of the job, which is when nothing is listed
  as missing; it can run now only if it is feasible and enough of those nodes are free.
\<close>

theorem Evaluate_report:
  assumes "sim_Evaluate m js = Some cs"
  shows "map ca_Cluster cs = sm_order m \<and>
    list_all (\<lambda>c. ca_Feasible c =
        ((\<forall>(sub, sec) \<in> set (js_requires js). subsystemSatisfies (graph_of m (ca_Cluster c)) sub sec) \<and>
         Nodes js \<le> int (length (filter (fits_in (graph_of m (ca_Cluster c)) js)
                                  (usable m (graph_of m (ca_Cluster c)) False)))) \<and>
      ca_FreeNodes c = length (filter (fits_in (graph_of m (ca_Cluster c)) js)
                                (usable m (graph_of m (ca_Cluster c)) True)) \<and>
      ca_FreeNow c = (ca_Feasible c \<and> Nodes js \<le> int (ca_FreeNodes c)) \<and>
      ca_Feasible c = (ca_Missing c = [])) cs"
proof -
  have "list_all2 (\<lambda>i c. ca_Cluster c = i) (sm_order m) cs"
    using evaluate_order_Some [OF assms [unfolded sim_Evaluate_def]]
    by (rule list_all2_mono) (auto elim: evaluate_one_Some)
  then have "map ca_Cluster cs = sm_order m"
    by (simp add: list_all2_conv_all_nth list_eq_iff_nth_eq)
  moreover note candidate_report [OF evaluated(2) [OF assms]]
  ultimately show ?thesis
    unfolding list_all_iff by (intro conjI ballI) (simp only:)
qed

lemma demo_subsystems: "js_requires one_node_job = []"
  by (simp add: one_node_job_def New_def)

lemma demo_Evaluate:
  "sim_Evaluate demo_sim one_node_job = Some [\<lparr>ca_Cluster = ''c1'', ca_Feasible = True, ca_FreeNow = True,
     ca_FreeNodes = 1, ca_Matched = [], ca_Missing = [], ca_Score = 0\<rparr>]"
  by (simp add: sim_Evaluate_def evaluate_one_def demo_fitting held_def requires_report_def demo_subsystems
      Let_def)

theorem Evaluate_report_witness:
  "\<exists>cs. sim_Evaluate demo_sim one_node_job = Some cs \<and> map ca_Cluster cs = [''c1'']"
  using Evaluate_report [OF demo_Evaluate] demo_Evaluate by auto

lemma Allocate_candidate:
  assumes inv: "sim_inv m" and "sim_Evaluate m js = Some cs" "c \<in> set cs" "ca_Feasible c"
    and "Reserves (graph_of m (ca_Cluster c))"
  shows "\<exists>m' r. sim_Allocate m js (ca_Cluster c) = Some (m', Inr r) \<and>
    (r \<noteq> None) = ca_FreeNow c \<and>
    (case r of None \<Rightarrow> m' = m | Some a \<Rightarrow> int (length (al_VertexIDs a)) = Nodes js)"
proof -
  define i where "i = ca_Cluster c"
  have i: "i \<in> set (sm_order m)" "evaluate_one m js i = Some c"
    using evaluated [OF assms(2,3)] by (simp_all add: i_def)
  then obtain free where f: "fittingNodes m (graph_of m i) js True = Some free"
      "ca_Cluster c = i" "ca_FreeNow c \<longleftrightarrow> ca_Feasible c \<and> Nodes js \<le> int (length free)"
    by (auto elim: evaluate_one_Some)
  have ok: "set (sm_order m) = dom (sm_clusters m)" "dom (sm_allocated m) = dom (sm_clusters m)"
    using inv by (simp_all add: sim_inv_def sim_registry_ok_def)
  obtain cg where cg: "sm_clusters m i = Some cg" using i(1) unfolding ok by blast
  obtain s where s: "sm_allocated m i = Some s" using i(1) unfolding ok(1) ok(2) [symmetric] by blast
  have g: "graph_of m i = cg" using cg by (simp add: graph_of_def)
  show ?thesis
  proof (cases "Nodes js \<le> int (length free)")
    case True
    then show ?thesis
      using f cg s g assms(4,5) Nodes_pos [of js]
      by (simp add: sim_Allocate_def mint_def Let_def)
  next
    case False
    then show ?thesis
      using f cg g assms(4,5) by (simp add: sim_Allocate_def)
  qed
qed

text \<open>
  C6. What \<open>Evaluate\<close> promises, \<open>Allocate\<close> delivers: on a reachable state, allocating a
  feasible candidate whose cluster reserves its nodes succeeds exactly when the candidate was
  reported free now, and then grants as many nodes as the job asks for.
\<close>

theorem Evaluate_Allocate_agree:
  assumes "sim_reach m" "sim_Evaluate m js = Some cs" "c \<in> set cs" "ca_Feasible c"
    and "Reserves (graph_of m (ca_Cluster c))"
  shows "\<exists>m' r. sim_Allocate m js (ca_Cluster c) = Some (m', Inr r) \<and>
    (r \<noteq> None) = ca_FreeNow c \<and>
    (case r of None \<Rightarrow> m' = m | Some a \<Rightarrow> int (length (al_VertexIDs a)) = Nodes js)"
  using Allocate_candidate [OF sim_reach_inv [OF assms(1)] assms(2-5)] .

theorem Evaluate_Allocate_agree_witness:
  "\<exists>m' a. sim_Allocate demo_sim one_node_job ''c1'' = Some (m', Inr (Some a)) \<and> length (al_VertexIDs a) = 1"
proof -
  have "Reserves (graph_of demo_sim ''c1'')"
    by (simp add: graph_of_def Reserves_def Cfg_def one_node_def)
  then show ?thesis
    using Evaluate_Allocate_agree [OF demo_reach demo_Evaluate] by fastforce
qed



text \<open>
  C21. Releasing an allocation right after it was granted restores the matcher exactly, up to
  the id counter; releasing an id twice, or one that was never granted, changes nothing; and an
  id that was released stays without units through any later allocations and releases.
\<close>

theorem Free_exact:
  assumes "sim_reach m" "sim_Allocate m js c = Some (m', Inr (Some a))"
  shows "fst (sim_Free m' (al_ID a)) = m\<lparr>sm_nextID := sm_nextID m'\<rparr> \<and>
    fst (sim_Free (fst (sim_Free m' i)) i) = fst (sim_Free m' i) \<and>
    (i \<notin> sim_issued m' \<longrightarrow> fst (sim_Free m' i) = m') \<and>
    (run_calls (\<lambda>m (js, c). sim_Allocate m js c) (\<lambda>m i. fst (sim_Free m i))
       (fst (sim_Free m' (al_ID a))) calls = Some m'' \<longrightarrow> sim_owns m'' (al_ID a) = {})"
proof -
  have inv: "sim_inv m" using assms(1) by (rule sim_reach_inv)
  note grant = sim_Allocate_grant [OF inv assms(2)]
  have live: "dom (sm_live m) \<subseteq> sim_issued m" "dom (sm_live m') \<subseteq> sim_issued m'"
    using inv grant(5) by (simp_all add: sim_inv_def sim_books_ok_def)
  have fresh: "sm_live m (al_ID a) = None" using grant(1) live(1) by blast
  have restored: "fst (sim_Free m' (al_ID a)) = m\<lparr>sm_nextID := sm_nextID m'\<rparr>"
    using assms(2)
  proof (cases rule: sim_Allocate_cases)
    case (satisfy_only cg)
    then show ?thesis using fresh by (simp add: sim_Free_def)
  next
    case (granted cg free s)
    have "cg_ID cg = c" using inv granted(1) by (simp add: sim_inv_def sim_registry_ok_def)
    then have "set free \<inter> s = {}"
      using fittingNodes_free_subset [OF granted(3)] granted(5) by (simp add: held_def)
    then have "(s \<union> set (take (nat (Nodes js)) free)) - set (take (nat (Nodes js)) free) = s"
      using set_take_subset [of "nat (Nodes js)" free] by blast
    then show ?thesis
      using granted fresh by (simp add: sim_Free_def fun_upd_idem)
  qed simp_all
  have twice: "fst (sim_Free (fst (sim_Free m' i)) i) = fst (sim_Free m' i)"
    by (simp add: sim_Free_def split: option.split)
  have unknown: "fst (sim_Free m' i) = m'" if "i \<notin> sim_issued m'"
  proof -
    have "sm_live m' i = None" using live(2) that by blast
    then show ?thesis by (simp add: sim_Free_def)
  qed
  have stale: "sim_owns m'' (al_ID a) = {}"
    if "run_calls (\<lambda>m (js, c). sim_Allocate m js c) (\<lambda>m i. fst (sim_Free m i))
       (fst (sim_Free m' (al_ID a))) calls = Some m''"
    using sim.run_stale [OF sim_inv_Free [OF grant(5)] that, of "al_ID a"] grant(2)
    by (simp add: sim_owns_Free)
  show ?thesis using restored twice unknown stale by blast
qed

theorem Free_exact_witness:
  "fst (sim_Free booked_sim ''alloc-1'') = demo_sim\<lparr>sm_nextID := 1\<rparr>"
  using Free_exact [OF demo_reach demo_Allocate, of "''x''"] by (simp add: booked_sim_def)

text \<open>
  On a reachable state \<open>Evaluate\<close> and \<open>Allocate\<close> never panic, and \<open>Evaluate\<close> fails to
  return exactly when some registered cluster has, below one of its node vertices, a cycle of
  containment edges.
\<close>

theorem Evaluate_returns_iff:
  assumes "sim_reach m"
  shows "(sim_Evaluate m js = None) =
      (\<exists>i cg g n. sm_clusters m i = Some cg \<and> Containment_of cg = Some g \<and>
         n \<in> set (verticesOfType g ''node'') \<and> cycle_below g (v_id n)) \<and>
    (sim_Evaluate m js \<noteq> None \<longrightarrow> sim_Allocate m js c \<noteq> None)"
proof -
  have ok: "set (sm_order m) = dom (sm_clusters m)" "dom (sm_allocated m) = dom (sm_clusters m)"
    using sim_reach_inv [OF assms] by (simp_all add: sim_inv_def sim_registry_ok_def)
  have ev: "sim_Evaluate m js = None \<longleftrightarrow>
      (\<exists>i cg. sm_clusters m i = Some cg \<and> fittingNodes m cg js False = None)"
    unfolding sim_Evaluate_def evaluate_order_None_iff evaluate_one_None_iff ok
    by (force simp: graph_of_def)
  have al: "sim_Allocate m js c \<noteq> None" if e: "sim_Evaluate m js \<noteq> None"
  proof (cases "sm_clusters m c")
    case (Some cg)
    then obtain s where s: "sm_allocated m c = Some s"
      using ok(2) by (metis domD domI)
    have "fittingNodes m cg js False \<noteq> None" using e Some by (auto simp: ev)
    then obtain free where "fittingNodes m cg js True = Some free"
      using fittingNodes_free_all by blast
    then show ?thesis using Some s by (simp add: sim_Allocate_def mint_def Let_def)
  qed (simp add: sim_Allocate_def)
  show ?thesis
    using al ev unfolding fittingNodes_all_None_iff by blast
qed

theorem Evaluate_returns_iff_witness:
  "sim_Evaluate (NewSim (Some [zero_cluster\<lparr>cg_Subsystems := [(''containment'',
     \<lparr>g_nodes = [v0 ''1'' ''node'' 1], g_edges = [e0 ''1'' ''1'']\<rparr>)]\<rparr>])) one_node_job = None"
proof -
  let ?g = "\<lparr>g_nodes = [v0 ''1'' ''node'' 1], g_edges = [e0 ''1'' ''1'']\<rparr>"
  let ?cg = "zero_cluster\<lparr>cg_Subsystems := [(''containment'', ?g)]\<rparr>"
  have "chain ?g ''1'' ([] @ [''1''])"
    by (simp add: children_def e0_def byID_def v0_def)
  then have "cycle_below ?g ''1''" unfolding cycle_below_def by blast
  moreover have "v0 ''1'' ''node'' 1 \<in> set (verticesOfType ?g ''node'')" "v_id (v0 ''1'' ''node'' 1) = ''1''"
    by (simp_all add: verticesOfType_def v0_def meta_def)
  moreover have "sm_clusters (NewSim (Some [?cg])) '''' = Some ?cg"
    by (simp add: NewSim_def sim_AddCluster_def zero_cluster_def Let_def empty_sim_def)
  moreover have "Containment_of ?cg = Some ?g"
    by (simp add: Containment_of_def ContainmentSubsystem_def)
  ultimately show ?thesis
    using Evaluate_returns_iff [OF reach_new, of "Some [?cg]" one_node_job] by metis
qed

end
