(* ===== verification/Score.thy ===== *)
theory Score
  imports Float64 Booking "HOL-Library.Multiset"
begin

text \<open>
  Package \<open>pkg/score\<close>: the scorers and \<open>RankWithTrace\<close>, which shuffles the feasible
  candidates, scores them, sorts them stably by descending score and records how the decision
  was reached. The random source is an argument: the index drawn at each step of the
  Fisher-Yates loop of \<open>rand.Shuffle\<close>.
\<close>

section \<open>Scorers\<close>

record scorer =
  sc_Type :: string
  sc_Name :: string
  sc_NeedsFullSet :: bool
  sc_Score :: "jobspec \<Rightarrow> candidate \<Rightarrow> rat"
  sc_Explain :: "(jobspec \<Rightarrow> candidate \<Rightarrow> (string \<times> rat) list) option"

definition surplus_of :: "jobspec \<Rightarrow> candidate \<Rightarrow> int" where
  "surplus_of js c = (let surplus = i64 (int (ca_FreeNodes c) - Nodes js) in
     if surplus < 0 then 0 else surplus)"

definition fit_of :: "jobspec \<Rightarrow> candidate \<Rightarrow> rat" where
  "fit_of js c = f64 (1 / f64 (of_int (i64 (1 + surplus_of js c))))"

definition free_of :: "candidate \<Rightarrow> rat" where
  "free_of c = (if ca_FreeNow c then 1 / 2 else 0)"

definition default_Score :: "jobspec \<Rightarrow> candidate \<Rightarrow> rat" where
  "default_Score js c =
     (if \<not> ca_Feasible c then -1
      else f64 (f64 (f64 (f64 (of_nat (length (ca_Matched c))) * 10) + fit_of js c) + free_of c))"

definition default_Explain :: "jobspec \<Rightarrow> candidate \<Rightarrow> (string \<times> rat) list" where
  "default_Explain js c =
     (if \<not> ca_Feasible c then [(''infeasible'', -1)]
      else [(''matched'', f64 (f64 (of_nat (length (ca_Matched c))) * 10)),
            (''fit'', fit_of js c), (''free_now'', free_of c),
            (''surplus'', f64 (of_int (surplus_of js c)))])"

definition DefaultScorer :: scorer where
  "DefaultScorer = \<lparr>sc_Type = ''score.Default'', sc_Name = ''default'', sc_NeedsFullSet = True,
     sc_Score = default_Score, sc_Explain = Some default_Explain\<rparr>"

definition FirstFeasible :: scorer where
  "FirstFeasible = \<lparr>sc_Type = ''score.FirstFeasible'', sc_Name = ''first-feasible'',
     sc_NeedsFullSet = False, sc_Score = (\<lambda>_ _. 0), sc_Explain = None\<rparr>"

section \<open>The trace of a decision\<close>

record ranking =
  rk_Cluster :: string
  rk_Score :: rat
  rk_Terms :: "(string \<times> rat) list"
  rk_Matched :: "string list"
  rk_FreeNow :: bool
  rk_FreeNodes :: nat

record rejection =
  rj_Cluster :: string
  rj_Missing :: "string list"
  rj_Matched :: "string list"
  rj_FreeNodes :: nat

record trace =
  tr_Considered :: nat
  tr_Feasible :: nat
  tr_Scorer :: string
  tr_Selected :: string
  tr_Ranked :: "ranking list"
  tr_Rejected :: "rejection list"
  tr_ShuffleSeed :: int
  tr_TiedAtTop :: "string list"
  tr_Unranked :: bool

definition zero_trace :: trace where
  "zero_trace = \<lparr>tr_Considered = 0, tr_Feasible = 0, tr_Scorer = '''', tr_Selected = '''',
     tr_Ranked = [], tr_Rejected = [], tr_ShuffleSeed = 0, tr_TiedAtTop = [], tr_Unranked = False\<rparr>"

definition rejection_of :: "candidate \<Rightarrow> rejection" where
  "rejection_of c = \<lparr>rj_Cluster = ca_Cluster c, rj_Missing = ca_Missing c,
     rj_Matched = ca_Matched c, rj_FreeNodes = ca_FreeNodes c\<rparr>"

definition ranking_of :: "scorer \<Rightarrow> jobspec \<Rightarrow> candidate \<Rightarrow> ranking" where
  "ranking_of s js c = \<lparr>rk_Cluster = ca_Cluster c, rk_Score = ca_Score c,
     rk_Terms = (case sc_Explain s of None \<Rightarrow> [] | Some f \<Rightarrow> f js c),
     rk_Matched = ca_Matched c, rk_FreeNow = ca_FreeNow c, rk_FreeNodes = ca_FreeNodes c\<rparr>"

section \<open>Ranking\<close>

definition swap_at :: "nat \<Rightarrow> nat \<Rightarrow> 'a list \<Rightarrow> 'a list" where
  "swap_at i j xs = xs[i := xs ! j, j := xs ! i]"

text \<open>\<open>rand.Shuffle\<close>: for i from the last index down to 1, swap i with an index drawn from 0..i.\<close>

fun shuffle_from :: "(nat \<Rightarrow> nat) \<Rightarrow> nat \<Rightarrow> 'a list \<Rightarrow> 'a list" where
  "shuffle_from draw 0 xs = xs"
| "shuffle_from draw (Suc i) xs =
     shuffle_from draw i (swap_at (Suc i) (draw (Suc i) mod Suc (Suc i)) xs)"

definition rand_shuffle :: "(nat \<Rightarrow> nat) \<Rightarrow> 'a list \<Rightarrow> 'a list" where
  "rand_shuffle draw xs = shuffle_from draw (length xs - 1) xs"

fun top_ties :: "candidate list \<Rightarrow> string list" where
  "top_ties [] = []"
| "top_ties (best # rest) =
     (let tied = map ca_Cluster (filter (\<lambda>c. ca_Score c = ca_Score best) rest)
      in if tied \<noteq> [] then ca_Cluster best # tied else [])"

definition RankWithTrace ::
  "(int \<Rightarrow> nat \<Rightarrow> nat) \<Rightarrow> int \<Rightarrow> scorer \<Rightarrow> jobspec \<Rightarrow> candidate list \<Rightarrow> candidate list \<times> trace" where
  "RankWithTrace source seed s js cands =
     (let feasible = filter ca_Feasible cands;
          shuffled = rand_shuffle (source seed) feasible;
          scored = map (\<lambda>c. c\<lparr>ca_Score := sc_Score s js c\<rparr>) shuffled;
          ranked = sort_key (\<lambda>c. - ca_Score c) scored
      in (ranked,
          \<lparr>tr_Considered = length cands, tr_Feasible = length feasible, tr_Scorer = sc_Type s,
           tr_Selected = (case ranked of [] \<Rightarrow> '''' | c # _ \<Rightarrow> ca_Cluster c),
           tr_Ranked = map (ranking_of s js) ranked,
           tr_Rejected = map rejection_of (filter (\<lambda>c. \<not> ca_Feasible c) cands),
           tr_ShuffleSeed = seed, tr_TiedAtTop = top_ties ranked, tr_Unranked = False\<rparr>))"

definition Rank :: "(int \<Rightarrow> nat \<Rightarrow> nat) \<Rightarrow> int \<Rightarrow> scorer \<Rightarrow> jobspec \<Rightarrow> candidate list \<Rightarrow> candidate list" where
  "Rank source seed s js cands = fst (RankWithTrace source seed s js cands)"

section \<open>The shuffle\<close>

lemma length_swap_at [simp]: "length (swap_at i j xs) = length xs"
  by (simp add: swap_at_def)

lemma mset_swap_at: "i < length xs \<Longrightarrow> j < length xs \<Longrightarrow> mset (swap_at i j xs) = mset xs"
  unfolding swap_at_def by (rule mset_swap)

lemma mset_shuffle_from: "i < length xs \<Longrightarrow> mset (shuffle_from draw i xs) = mset xs"
proof (induction draw i xs rule: shuffle_from.induct)
  case (2 draw i xs)
  have "draw (Suc i) mod Suc (Suc i) < length xs"
    using 2(2) mod_less_divisor [of "Suc (Suc i)" "draw (Suc i)"] by linarith
  then have "mset (swap_at (Suc i) (draw (Suc i) mod Suc (Suc i)) xs) = mset xs"
    using 2(2) by (rule mset_swap_at [rotated])
  moreover have "i < length (swap_at (Suc i) (draw (Suc i) mod Suc (Suc i)) xs)" using 2(2) by simp
  ultimately show ?case using 2(1) by (simp only: shuffle_from.simps)
qed simp

lemma mset_rand_shuffle [simp]: "mset (rand_shuffle draw xs) = mset xs"
  by (cases xs) (simp_all add: rand_shuffle_def mset_shuffle_from)

lemma set_rand_shuffle [simp]: "set (rand_shuffle draw xs) = set xs"
  by (rule mset_eq_setD) simp

lemma length_rand_shuffle [simp]: "length (rand_shuffle draw xs) = length xs"
  by (rule mset_eq_length) simp

lemma shuffle_from_cong: "(\<And>k. k \<le> i \<Longrightarrow> d k = d' k) \<Longrightarrow> shuffle_from d i xs = shuffle_from d' i xs"
  by (induction i arbitrary: xs) auto

text \<open>
  Every order of the list is the outcome of some draws.\<close>

lemma shuffle_from_onto:
  assumes "mset xs = mset ys" "i < length xs" "drop (Suc i) xs = drop (Suc i) ys"
  shows "\<exists>draw. shuffle_from draw i xs = ys"
  using assms
proof (induction i arbitrary: xs)
  case 0
  then have "length xs = length ys" using mset_eq_length by blast
  moreover have "xs = take 1 xs @ drop 1 xs" "ys = take 1 ys @ drop 1 ys" by simp_all
  ultimately have "mset (take 1 xs) = mset (take 1 ys)"
    using 0 by (metis One_nat_def add_right_cancel mset_append)
  then have "take 1 xs = take 1 ys"
    using 0 \<open>length xs = length ys\<close> by (cases xs; cases ys) auto
  then have "xs = ys" using 0(3) by (metis One_nat_def append_take_drop_id)
  then show ?case by simp
next
  case (Suc i)
  have len: "length xs = length ys" using Suc.prems(1) mset_eq_length by blast
  have "mset (take (Suc (Suc i)) xs) = mset (take (Suc (Suc i)) ys)"
    using Suc.prems(1,3) by (metis add_right_cancel append_take_drop_id mset_append)
  then have "ys ! Suc i \<in> set (take (Suc (Suc i)) xs)"
    using Suc.prems(2) len by (metis in_set_conv_nth length_take lessI min_less_iff_conj mset_eq_setD nth_take)
  then obtain j where j: "j < Suc (Suc i)" "xs ! j = ys ! Suc i"
    by (auto simp: in_set_conv_nth)
  let ?xs = "swap_at (Suc i) j xs"
  have j': "j < length xs" using j(1) Suc.prems(2) by simp
  have "mset ?xs = mset ys"
    using mset_swap_at [OF Suc.prems(2) j'] Suc.prems(1) by simp
  moreover have "drop (Suc i) ?xs = drop (Suc i) ys"
  proof (rule nth_equalityI)
    show "length (drop (Suc i) ?xs) = length (drop (Suc i) ys)" using len by simp
    fix k assume k: "k < length (drop (Suc i) ?xs)"
    show "drop (Suc i) ?xs ! k = drop (Suc i) ys ! k"
    proof (cases k)
      case 0
      then show ?thesis using j Suc.prems(2) len
        by (cases "j = Suc i") (simp_all add: swap_at_def)
    next
      case (Suc l)
      have "drop (Suc (Suc i)) xs ! l = drop (Suc (Suc i)) ys ! l" using Suc.prems(3) by simp
      then show ?thesis using k j Suc len by (simp add: swap_at_def)
    qed
  qed
  ultimately obtain draw where "shuffle_from draw i ?xs = ys"
    using Suc.IH [of ?xs] Suc.prems(2) by auto
  moreover have "shuffle_from (draw(Suc i := j)) i ?xs = shuffle_from draw i ?xs"
    by (rule shuffle_from_cong) simp
  ultimately have "shuffle_from (draw(Suc i := j)) (Suc i) xs = ys" using j(1) by simp
  then show ?case by (intro exI [of _ "draw(Suc i := j)"])
qed

lemma rand_shuffle_onto:
  assumes "mset xs = mset ys"
  shows "\<exists>draw. rand_shuffle draw xs = ys"
proof (cases "xs = []")
  case False
  have "drop (Suc (length xs - 1)) xs = drop (Suc (length xs - 1)) ys"
    using False mset_eq_length [OF assms] by simp
  then show ?thesis
    unfolding rand_shuffle_def using shuffle_from_onto [OF assms, of "length xs - 1"] False by simp
qed (use assms in \<open>simp add: rand_shuffle_def\<close>)

section \<open>The default score\<close>

text \<open>How many free nodes a candidate would have left over.\<close>

definition leftover :: "jobspec \<Rightarrow> candidate \<Rightarrow> int" where
  "leftover js c = max 0 (int (ca_FreeNodes c) - Nodes js)"

definition sizes_ok :: "candidate \<Rightarrow> bool" where
  "sizes_ok c \<longleftrightarrow> ca_FreeNodes c < 2 ^ 63 \<and> length (ca_Matched c) < 2 ^ 40"

lemma surplus_of_eq:
  assumes "sizes_ok c"
  shows "surplus_of js c = leftover js c" "i64 (1 + leftover js c) = 1 + leftover js c"
proof -
  have n: "1 \<le> Nodes js" "fits64 (Nodes js)" by (simp_all add: counts_fits)
  have "int (ca_FreeNodes c) < 2 ^ 63" using assms by (simp add: sizes_ok_def)
  then have "fits64 (int (ca_FreeNodes c) - Nodes js)" "fits64 (1 + leftover js c)"
    using n unfolding fits64_def leftover_def by linarith+
  then show "surplus_of js c = leftover js c" "i64 (1 + leftover js c) = 1 + leftover js c"
    by (simp_all add: surplus_of_def leftover_def i64_fits max_def Let_def)
qed

lemma leftover_nonneg [simp]: "0 \<le> leftover js c"
  by (simp add: leftover_def)

lemma fit_of_eq: "sizes_ok c \<Longrightarrow> fit_of js c = f64 (1 / f64 (of_int (1 + leftover js c)))"
  by (simp only: fit_of_def surplus_of_eq)

lemma f64_ge1: "1 \<le> x \<Longrightarrow> 1 \<le> f64 x"
  using f64_mono [of 1 x] f64_of_int [of 1] by simp

lemma fit_of_bounds:
  assumes "sizes_ok c"
  shows "0 \<le> fit_of js c" "fit_of js c \<le> 1"
proof -
  have f: "1 \<le> f64 (of_int (1 + leftover js c))" by (rule f64_ge1) simp
  then show "0 \<le> fit_of js c" unfolding fit_of_eq [OF assms] by (intro f64_nonneg) simp
  have "f64 (1 / f64 (of_int (1 + leftover js c))) \<le> f64 1" using f by (intro f64_mono) auto
  then show "fit_of js c \<le> 1" unfolding fit_of_eq [OF assms] using f64_of_int [of 1] by simp
qed

lemma fit_of_antimono:
  assumes "sizes_ok c" "sizes_ok d" "leftover js c \<le> leftover js d"
  shows "fit_of js d \<le> fit_of js c"
proof -
  have "f64 (of_int (1 + leftover js c)) \<le> f64 (of_int (1 + leftover js d))"
    using assms(3) leftover_nonneg [of js c] by (intro f64_mono) (simp_all only: of_int_0_le_iff of_int_le_iff add_left_mono add_nonneg_nonneg zero_le_one)
  moreover have "1 \<le> f64 (of_int (1 + leftover js c))" by (rule f64_ge1) simp
  ultimately have "0 \<le> 1 / f64 (of_int (1 + leftover js d))"
      "1 / f64 (of_int (1 + leftover js d)) \<le> 1 / f64 (of_int (1 + leftover js c))"
    by (simp_all add: frac_le del: of_int_add)
  then have "f64 (1 / f64 (of_int (1 + leftover js d))) \<le> f64 (1 / f64 (of_int (1 + leftover js c)))"
    by (rule f64_mono)
  then show ?thesis using assms by (simp only: fit_of_eq)
qed

lemma matched_term:
  assumes "int m < 2 ^ 40"
  shows "f64 (f64 (of_nat m) * 10) = of_int (10 * int m)"
proof -
  have "f64 (of_int (int m)) = of_int (int m)" using assms by (intro f64_of_int) auto
  moreover have "f64 (of_int (10 * int m)) = of_int (10 * int m)" using assms by (intro f64_of_int) auto
  ultimately show ?thesis by (simp add: mult.commute)
qed

lemma default_Score_eq:
  assumes "ca_Feasible c" "sizes_ok c"
  shows "default_Score js c =
    f64 (f64 (of_int (10 * int (length (ca_Matched c))) + fit_of js c) + free_of c)"
  using assms matched_term [of "length (ca_Matched c)"] by (simp add: default_Score_def sizes_ok_def)

lemma f64_eighths:
  assumes "0 \<le> k" "k < 2 ^ 53"
  shows "f64 (of_int k / 8) = of_int k / 8"
  using assms by (intro f64_exact [where e = "-3" and k = k]) (auto simp: power_int_minus)

text \<open>
  Bounds of the score from bounds of the fit, in eighths of a point.\<close>

lemma default_Score_bounds:
  assumes c: "ca_Feasible c" "sizes_ok c" "m = int (length (ca_Matched c))"
    and fit: "of_int a / 8 \<le> fit_of js c" "fit_of js c \<le> of_int b / 8" "0 \<le> a" "b \<le> 8"
    and free: "of_int d / 8 \<le> free_of c" "free_of c \<le> of_int e / 8" "0 \<le> d" "e \<le> 4"
  shows "of_int (80 * m + a + d) / 8 \<le> default_Score js c" "default_Score js c \<le> of_int (80 * m + b + e) / 8"
proof -
  have m: "0 \<le> m" "m < 2 ^ 40"
    using c by (simp_all add: sizes_ok_def)
  have "rat_of_int a / 8 \<le> of_int b / 8" "rat_of_int d / 8 \<le> of_int e / 8"
    using fit(1,2) free(1,2) by linarith+
  then have pos: "a \<le> b" "d \<le> e" by (simp_all add: divide_le_cancel)
  have "b \<ge> 0" "e \<ge> 0" using pos fit(3) free(3) by auto
  note ex = f64_eighths [of "80 * m + a"] f64_eighths [of "80 * m + b"]
    f64_eighths [of "80 * m + a + d"] f64_eighths [of "80 * m + b + e"]
  have "f64 (of_int (80 * m + a) / 8) \<le> f64 (of_int (10 * m) + fit_of js c)"
    using m fit by (intro f64_mono) auto
  then have lo: "of_int (80 * m + a) / 8 \<le> f64 (of_int (10 * m) + fit_of js c)"
    using ex(1) m fit pos by simp
  have "f64 (of_int (10 * m) + fit_of js c) \<le> f64 (of_int (80 * m + b) / 8)"
    using m fit fit_of_bounds [OF c(2), of js] by (intro f64_mono) auto
  then have hi: "f64 (of_int (10 * m) + fit_of js c) \<le> of_int (80 * m + b) / 8"
    using ex(2) m fit pos by simp
  have s: "default_Score js c = f64 (f64 (of_int (10 * m) + fit_of js c) + free_of c)"
    using default_Score_eq [OF c(1,2)] c(3) by simp
  have "f64 (of_int (80 * m + a + d) / 8) \<le> default_Score js c"
    unfolding s using lo free m fit by (intro f64_mono) (auto simp: add_divide_distrib)
  then show "of_int (80 * m + a + d) / 8 \<le> default_Score js c"
    using ex(3) m fit free pos by simp
  have "default_Score js c \<le> f64 (of_int (80 * m + b + e) / 8)"
    unfolding s using hi lo free m fit by (intro f64_mono) (auto simp: add_divide_distrib)
  then show "default_Score js c \<le> of_int (80 * m + b + e) / 8"
    using ex(4) m fit free pos by simp
qed

section \<open>Ranking\<close>

lemma mset_ranked:
  "mset (fst (RankWithTrace source seed s js cands)) =
   mset (map (\<lambda>c. c\<lparr>ca_Score := sc_Score s js c\<rparr>) (filter ca_Feasible cands))"
  by (simp add: RankWithTrace_def Let_def)

lemma sorted_ranked:
  "sorted_wrt (\<lambda>c d. ca_Score d \<le> ca_Score c) (fst (RankWithTrace source seed s js cands))"
proof -
  have "sorted (map (\<lambda>c. - ca_Score c) (fst (RankWithTrace source seed s js cands)))"
    by (simp add: RankWithTrace_def Let_def)
  then show ?thesis by (simp add: sorted_map)
qed

lemma stable_equal:
  assumes "\<And>x y. x \<in> set xs \<Longrightarrow> y \<in> set xs \<Longrightarrow> f x = f y"
  shows "sort_key f xs = xs"
proof (rule sort_key_id_if_sorted)
  have "f (xs ! i) \<le> f (xs ! j)" if "i < j" "j < length xs" for i j
    using assms [of "xs ! i" "xs ! j"] that by simp
  then show "sorted (map f xs)" by (simp add: sorted_map sorted_wrt_iff_nth_less)
qed

lemma top_ties_nonempty_iff:
  "top_ties (c # cs) \<noteq> [] \<longleftrightarrow> (\<exists>d \<in> set cs. ca_Score d = ca_Score c)"
  by (auto simp: Let_def filter_empty_conv)

lemma top_ties_eq:
  "top_ties (c # cs) \<noteq> [] \<Longrightarrow>
   top_ties (c # cs) = map ca_Cluster (filter (\<lambda>d. ca_Score d = ca_Score c) (c # cs))"
  by (auto simp: Let_def split: if_splits)

section \<open>Properties\<close>

text \<open>
  C26. A ranking is a reordering of exactly the feasible candidates, each with its own score,
  best score first; the trace counts what it considered, lists every infeasible candidate with
  what it lacked, in order, and carries the ranking itself with the seed that replays it.
\<close>

theorem RankWithTrace_correct:
  "mset (fst (RankWithTrace source seed s js cands)) =
     mset (map (\<lambda>c. c\<lparr>ca_Score := sc_Score s js c\<rparr>) (filter ca_Feasible cands)) \<and>
   sorted_wrt (\<lambda>c d. ca_Score d \<le> ca_Score c) (fst (RankWithTrace source seed s js cands)) \<and>
   tr_Considered (snd (RankWithTrace source seed s js cands)) = length cands \<and>
   tr_Feasible (snd (RankWithTrace source seed s js cands)) + length (tr_Rejected (snd (RankWithTrace source seed s js cands))) =
     length cands \<and>
   map (\<lambda>r. (rj_Cluster r, rj_Missing r)) (tr_Rejected (snd (RankWithTrace source seed s js cands))) =
     map (\<lambda>c. (ca_Cluster c, ca_Missing c)) (filter (\<lambda>c. \<not> ca_Feasible c) cands) \<and>
   map (\<lambda>r. (rk_Cluster r, rk_Score r)) (tr_Ranked (snd (RankWithTrace source seed s js cands))) =
     map (\<lambda>c. (ca_Cluster c, ca_Score c)) (fst (RankWithTrace source seed s js cands)) \<and>
   tr_ShuffleSeed (snd (RankWithTrace source seed s js cands)) = seed"
proof -
  have len: "length (filter ca_Feasible cands) + length (filter (\<lambda>c. \<not> ca_Feasible c) cands) = length cands"
    by (induction cands) auto
  show ?thesis
    using mset_ranked [of source seed s js cands] sorted_ranked [of source seed s js cands] len
    by (simp add: RankWithTrace_def Let_def comp_def rejection_of_def ranking_of_def)
qed

text \<open>
  The selected cluster has the best score, and the trace reports a tie exactly when another
  candidate has the same score: then it lists the selected cluster first and all clusters of
  that score.
\<close>

theorem Selected_is_best:
  assumes "fst (RankWithTrace source seed s js cands) = best # rest"
  shows "tr_Selected (snd (RankWithTrace source seed s js cands)) = ca_Cluster best \<and>
    (\<forall>c \<in> set cands. ca_Feasible c \<longrightarrow> sc_Score s js c \<le> ca_Score best) \<and>
    (tr_TiedAtTop (snd (RankWithTrace source seed s js cands)) \<noteq> []) =
      (\<exists>d \<in> set rest. ca_Score d = ca_Score best) \<and>
    (tr_TiedAtTop (snd (RankWithTrace source seed s js cands)) \<noteq> [] \<longrightarrow>
      tr_TiedAtTop (snd (RankWithTrace source seed s js cands)) =
        ca_Cluster best # map ca_Cluster (filter (\<lambda>d. ca_Score d = ca_Score best) rest))"
proof -
  have snd: "tr_Selected (snd (RankWithTrace source seed s js cands)) = ca_Cluster best"
    "tr_TiedAtTop (snd (RankWithTrace source seed s js cands)) = top_ties (best # rest)"
    using assms by (simp_all add: RankWithTrace_def Let_def)
  have "sc_Score s js c \<le> ca_Score best" if "c \<in> set cands" "ca_Feasible c" for c
  proof -
    have "c\<lparr>ca_Score := sc_Score s js c\<rparr> \<in> set (fst (RankWithTrace source seed s js cands))"
      using that mset_eq_setD [OF mset_ranked] by auto
    then show ?thesis
      using sorted_ranked [of source seed s js cands] unfolding assms by auto
  qed
  then show ?thesis
    unfolding snd using top_ties_nonempty_iff [of best rest] top_ties_eq [of best rest] by auto
qed

definition cand :: "string \<Rightarrow> nat \<Rightarrow> bool \<Rightarrow> candidate" where
  "cand i free now = \<lparr>ca_Cluster = i, ca_Feasible = True, ca_FreeNow = now, ca_FreeNodes = free,
     ca_Matched = [], ca_Missing = [], ca_Score = 0\<rparr>"

theorem Selected_is_best_witness:
  "tr_TiedAtTop (snd (RankWithTrace (\<lambda>_ _. 0) 7 FirstFeasible one_node_job [cand ''a'' 1 True, cand ''b'' 1 True]))
     = [''b'', ''a'']"
proof -
  have r: "fst (RankWithTrace (\<lambda>_ _. 0) 7 FirstFeasible one_node_job [cand ''a'' 1 True, cand ''b'' 1 True]) =
      cand ''b'' 1 True # [cand ''a'' 1 True]"
    by (simp add: RankWithTrace_def rand_shuffle_def cand_def swap_at_def FirstFeasible_def)
  show ?thesis using Selected_is_best [OF r] by (simp add: cand_def)
qed

text \<open>
  The tie-break favours nobody: when all feasible candidates score alike, every order of
  them is the ranking of some sequence of draws of the random source.
\<close>

theorem ties_reach_every_order:
  assumes "\<And>c d. c \<in> set cands \<Longrightarrow> d \<in> set cands \<Longrightarrow> sc_Score s js c = sc_Score s js d"
    and "mset order = mset (filter ca_Feasible cands)"
  shows "\<exists>draw. Rank (\<lambda>_. draw) seed s js cands = map (\<lambda>c. c\<lparr>ca_Score := sc_Score s js c\<rparr>) order"
proof -
  obtain draw where draw: "rand_shuffle draw (filter ca_Feasible cands) = order"
    using rand_shuffle_onto [OF assms(2) [symmetric]] by blast
  have sub: "set order \<subseteq> set cands" using mset_eq_setD [OF assms(2)] by auto
  have "sort_key (\<lambda>c. - ca_Score c) (map (\<lambda>c. c\<lparr>ca_Score := sc_Score s js c\<rparr>) order) =
      map (\<lambda>c. c\<lparr>ca_Score := sc_Score s js c\<rparr>) order"
  proof (rule stable_equal)
    fix x y
    assume "x \<in> set (map (\<lambda>c. c\<lparr>ca_Score := sc_Score s js c\<rparr>) order)"
      and "y \<in> set (map (\<lambda>c. c\<lparr>ca_Score := sc_Score s js c\<rparr>) order)"
    then obtain c d where "c \<in> set cands" "ca_Score x = sc_Score s js c"
        "d \<in> set cands" "ca_Score y = sc_Score s js d"
      using sub by force
    then show "- ca_Score x = - ca_Score y" using assms(1) [of c d] by simp
  qed
  then have "Rank (\<lambda>_. draw) seed s js cands = map (\<lambda>c. c\<lparr>ca_Score := sc_Score s js c\<rparr>) order"
    using draw by (simp add: Rank_def RankWithTrace_def Let_def)
  then show ?thesis by (intro exI [of _ draw])
qed

theorem ties_reach_every_order_witness:
  "\<exists>draw. Rank (\<lambda>_. draw) 0 FirstFeasible one_node_job [cand ''a'' 1 True, cand ''b'' 2 True, cand ''c'' 3 True] =
     [cand ''c'' 3 True, cand ''a'' 1 True, cand ''b'' 2 True]"
  using ties_reach_every_order [of "[cand ''a'' 1 True, cand ''b'' 2 True, cand ''c'' 3 True]"
      FirstFeasible one_node_job "[cand ''c'' 3 True, cand ''a'' 1 True, cand ''b'' 2 True]" 0]
  by (simp add: FirstFeasible_def cand_def)

text \<open>
  The default score, rounding included, puts subsystem matches first: a candidate that
  matched more requested subsystems scores strictly higher whatever its fit; between candidates
  with as many matches and the same availability, the one with fewer nodes left over never
  scores lower. Every feasible candidate scores above every infeasible one.
\<close>

theorem default_Score_order:
  assumes "ca_Feasible c" "ca_Feasible d" "sizes_ok c" "sizes_ok d"
  shows "(length (ca_Matched d) < length (ca_Matched c) \<longrightarrow> default_Score js d < default_Score js c) \<and>
    (length (ca_Matched d) = length (ca_Matched c) \<and> ca_FreeNow d = ca_FreeNow c \<and>
      leftover js c \<le> leftover js d \<longrightarrow> default_Score js d \<le> default_Score js c) \<and>
    (\<not> ca_Feasible x \<longrightarrow> default_Score js x < default_Score js c)"
proof -
  have b: "of_int (80 * int (length (ca_Matched e))) / 8 \<le> default_Score js e \<and>
      default_Score js e \<le> of_int (80 * int (length (ca_Matched e)) + 12) / 8"
    if "ca_Feasible e" "sizes_ok e" for e
  proof -
    have "of_int 0 / 8 \<le> fit_of js e" "fit_of js e \<le> of_int 8 / 8"
      "of_int 0 / 8 \<le> free_of e" "free_of e \<le> of_int 4 / 8"
      using fit_of_bounds [OF that(2), of js] by (simp_all add: free_of_def)
    from default_Score_bounds [OF that refl this(1,2) _ _ this(3,4)] show ?thesis by simp
  qed
  have first: "default_Score js d < default_Score js c" if "length (ca_Matched d) < length (ca_Matched c)"
  proof -
    have "80 * int (length (ca_Matched d)) + 12 < 80 * int (length (ca_Matched c))" using that by linarith
    then have "rat_of_int (80 * int (length (ca_Matched d)) + 12) / 8 < of_int (80 * int (length (ca_Matched c))) / 8"
      by (simp only: divide_less_cancel of_int_less_iff) simp
    then show ?thesis using b [OF assms(1,3)] b [OF assms(2,4)] by linarith
  qed
  have second: "default_Score js d \<le> default_Score js c"
    if same: "length (ca_Matched d) = length (ca_Matched c)" "ca_FreeNow d = ca_FreeNow c"
      and le: "leftover js c \<le> leftover js d"
    unfolding default_Score_eq [OF assms(1,3)] default_Score_eq [OF assms(2,4)] same
    using fit_of_antimono [OF assms(3,4) le] fit_of_bounds [OF assms(4), of js] fit_of_bounds [OF assms(3), of js] same
    by (intro f64_mono) (auto simp: free_of_def intro!: f64_mono f64_nonneg add_nonneg_nonneg)
  have "0 \<le> rat_of_int (80 * int (length (ca_Matched c))) / 8" by simp
  then have third: "\<not> ca_Feasible x \<Longrightarrow> default_Score js x < default_Score js c"
    using b [OF assms(1,3)] by (simp add: default_Score_def)
  show ?thesis using first second third by blast
qed

theorem default_Score_order_witness:
  "default_Score one_node_job (cand ''b'' 9 True) \<le> default_Score one_node_job (cand ''a'' 2 True)"
  using default_Score_order [of "cand ''a'' 2 True" "cand ''b'' 9 True" one_node_job]
  by (simp add: cand_def sizes_ok_def leftover_def)

text \<open>
  Being runnable now does not win: with equal matches, a feasible cluster that is full
  outscores every cluster that is free now and would keep two or more nodes over, because the
  fit of a full cluster counts as exact.
\<close>

theorem full_outranks_free:
  assumes "ca_Feasible c" "ca_Feasible d" "sizes_ok c" "sizes_ok d"
    and "length (ca_Matched c) = length (ca_Matched d)"
    and "ca_FreeNow c" "2 \<le> leftover js c" "\<not> ca_FreeNow d" "int (ca_FreeNodes d) < Nodes js"
  shows "default_Score js c < default_Score js d"
proof -
  have "f64 (of_int 3) \<le> f64 (of_int (1 + leftover js c))"
    using assms(7) by (intro f64_mono) (simp_all del: of_int_add add: of_int_le_iff [of 3, simplified])
  then have "3 \<le> f64 (of_int (1 + leftover js c))" using f64_of_int [of 3] by simp
  then have "1 / f64 (of_int (1 + leftover js c)) \<le> 3 / 8" "0 \<le> 1 / f64 (of_int (1 + leftover js c))"
    by (simp_all add: field_simps)
  then have "fit_of js c \<le> f64 (of_int 3 / 8)"
    unfolding fit_of_eq [OF assms(3)] by (intro f64_mono) simp_all
  then have "fit_of js c \<le> of_int 3 / 8" using f64_eighths [of 3] by simp
  then have c: "default_Score js c \<le> of_int (80 * int (length (ca_Matched c)) + 7) / 8"
    using default_Score_bounds [OF assms(1,3) refl, of 0 js 3 4 4] fit_of_bounds [OF assms(3), of js] assms(6)
    by (simp add: free_of_def)
  have "leftover js d = 0" using assms(9) by (simp add: leftover_def)
  then have "fit_of js d = 1"
    unfolding fit_of_eq [OF assms(4)] using f64_of_int [of 1] by simp
  then have d: "of_int (80 * int (length (ca_Matched d)) + 8) / 8 \<le> default_Score js d"
    using default_Score_bounds [OF assms(2,4) refl, of 8 js 8 0 0] assms(8) by (simp add: free_of_def)
  have "rat_of_int (80 * int (length (ca_Matched c)) + 7) / 8 < of_int (80 * int (length (ca_Matched d)) + 8) / 8"
    using assms(5) by simp
  with c d show ?thesis by linarith
qed

theorem full_outranks_free_witness:
  "default_Score one_node_job (cand ''idle'' 3 True) < default_Score one_node_job (cand ''full'' 0 False)"
  using full_outranks_free [of "cand ''idle'' 3 True" "cand ''full'' 0 False" one_node_job]
  by (simp add: cand_def sizes_ok_def leftover_def)

end
