(* ===== verification/Queue.thy ===== *)
theory Queue
  imports Score
begin

text \<open>
  Packages \<open>pkg/queue\<close> (\<open>queue.go\<close>: the job record, its lifecycle and the in-memory
  store) and \<open>pkg/policy\<close> (the order in which jobs are tried). Instants are nanoseconds;
  the clock reading of a call is an argument.
\<close>

section \<open>Jobs\<close>

datatype state = Submitted | Matched | Dispatching | Running | Completed | Failed

definition Terminal :: "state \<Rightarrow> bool" where
  "Terminal s \<longleftrightarrow> s = Completed \<or> s = Failed"

record job =
  jb_ID :: string
  jb_Spec :: jobspec
  jb_State :: state
  jb_SubmittedAt :: int
  jb_AllocID :: string
  jb_ClusterID :: string
  jb_RemoteHandle :: string
  jb_Note :: string
  jb_Artifact :: string
  jb_Decision :: "trace option"
  jb_Suggestion :: string
  jb_SuggestedSpec :: "jobspec option"
  jb_Reschedules :: nat
  jb_UpdatedAt :: int

section \<open>The in-memory queue\<close>

text \<open>
  \<open>jobs\<close> is a Go map, here the association list in the order a run ranges over it.
  \<open>sort.Slice\<close> is a sort by submission time; jobs submitted at the same instant may come
  out in any order, which the order of the list stands for.
\<close>

type_synonym memory = "(string \<times> job) list"

definition NewMemory :: memory where
  "NewMemory = []"

definition store :: "job \<Rightarrow> memory \<Rightarrow> memory" where
  "store j q = AList.update (jb_ID j) j q"

definition Enqueue :: "int \<Rightarrow> job \<Rightarrow> memory \<Rightarrow> memory" where
  "Enqueue now j q = store (j\<lparr>jb_UpdatedAt := now\<rparr>) q"

definition q_Get :: "memory \<Rightarrow> string \<Rightarrow> job option" where
  "q_Get q i = map_of q i"

definition Update :: "int \<Rightarrow> job \<Rightarrow> memory \<Rightarrow> memory" where
  "Update now j q = store (j\<lparr>jb_UpdatedAt := now\<rparr>) q"

definition q_filter :: "(job \<Rightarrow> bool) \<Rightarrow> memory \<Rightarrow> job list" where
  "q_filter pred q = sort_key jb_SubmittedAt (filter pred (map snd q))"

definition Provisional :: "memory \<Rightarrow> job list" where
  "Provisional q = q_filter (\<lambda>j. jb_State j = Submitted) q"

definition Active :: "memory \<Rightarrow> job list" where
  "Active q = q_filter (\<lambda>j. jb_State j = Matched \<or> jb_State j = Dispatching \<or> jb_State j = Running) q"

definition All :: "memory \<Rightarrow> job list" where
  "All q = q_filter (\<lambda>_. True) q"

section \<open>Policies\<close>

record policy =
  po_Name :: string
  po_Order :: "job list \<Rightarrow> job list"
  po_HeadOfLineBlock :: bool

definition FCFS :: policy where
  "FCFS = \<lparr>po_Name = ''fcfs'', po_Order = (\<lambda>p. p), po_HeadOfLineBlock = True\<rparr>"

definition Backfill :: policy where
  "Backfill = \<lparr>po_Name = ''backfill'', po_Order = (\<lambda>p. p), po_HeadOfLineBlock = False\<rparr>"

section \<open>The queue as a keyed store\<close>

definition queue_inv :: "memory \<Rightarrow> bool" where
  "queue_inv q \<longleftrightarrow> wf_map q \<and> (\<forall>i j. map_of q i = Some j \<longrightarrow> jb_ID j = i)"

lemma queue_inv_new [simp]: "queue_inv NewMemory"
  by (simp add: queue_inv_def NewMemory_def)

lemma queue_inv_store [inv_intros]: "queue_inv q \<Longrightarrow> queue_inv (store j q)"
  by (simp add: queue_inv_def store_def)

lemma queue_inv_Enqueue [inv_intros]: "queue_inv q \<Longrightarrow> queue_inv (Enqueue now j q)"
  by (simp add: Enqueue_def queue_inv_store)

lemma queue_inv_Update [inv_intros]: "queue_inv q \<Longrightarrow> queue_inv (Update now j q)"
  by (simp add: Update_def queue_inv_store)

interpretation jobs: keyed_store q_Get store jb_ID queue_inv
  by unfold_locales (auto simp: q_Get_def store_def queue_inv_def)

lemma Get_Update: "queue_inv q \<Longrightarrow>
  q_Get (Update now j q) i = (if i = jb_ID j then Some (j\<lparr>jb_UpdatedAt := now\<rparr>) else q_Get q i)"
  by (simp add: Update_def jobs.get_put)

lemma Get_Enqueue: "queue_inv q \<Longrightarrow>
  q_Get (Enqueue now j q) i = (if i = jb_ID j then Some (j\<lparr>jb_UpdatedAt := now\<rparr>) else q_Get q i)"
  by (simp add: Enqueue_def jobs.get_put)

lemma Get_ID: "queue_inv q \<Longrightarrow> q_Get q i = Some j \<Longrightarrow> jb_ID j = i"
  by (rule jobs.get_key)

lemma in_q_filter:
  assumes "queue_inv q"
  shows "j \<in> set (q_filter P q) \<longleftrightarrow> q_Get q (jb_ID j) = Some j \<and> P j"
proof -
  have "j \<in> snd ` set q \<longleftrightarrow> (\<exists>i. (i, j) \<in> set q)" by force
  also have "\<dots> \<longleftrightarrow> (\<exists>i. q_Get q i = Some j)"
    using assms by (simp add: queue_inv_def wf_map_in_iff q_Get_def)
  also have "\<dots> \<longleftrightarrow> q_Get q (jb_ID j) = Some j"
    using Get_ID [OF assms] by auto
  finally show ?thesis by (simp add: q_filter_def conj_commute)
qed

lemma distinct_q_filter:
  assumes "queue_inv q"
  shows "distinct (map jb_ID (q_filter P q))"
proof -
  have "map jb_ID (map snd q) = map fst q"
    using assms by (auto simp: queue_inv_def wf_map_in_iff)
  then have "distinct (map jb_ID (map snd q))"
    using assms by (simp only: queue_inv_def wf_map_def)
  then have d: "distinct (map jb_ID (filter P (map snd q)))" by (rule distinct_map_filter)
  have "mset (map jb_ID (q_filter P q)) = mset (map jb_ID (filter P (map snd q)))"
    by (simp add: q_filter_def)
  from mset_eq_imp_distinct_iff [OF this] d show ?thesis by blast
qed

lemma sorted_q_filter: "sorted (map jb_SubmittedAt (q_filter P q))"
  by (simp add: q_filter_def)

section \<open>Property\<close>

text \<open>
  The views of the queue are exact. A job is found under its id with what was last stored,
  whatever was stored under other ids; each view is ordered by submission time and names each
  job once; and at any moment every job is in exactly one of \<open>Provisional\<close>, \<open>Active\<close> and the
  finished jobs, which together make up \<open>All\<close>.
\<close>

theorem queue_views:
  assumes "queue_inv q"
  shows "queue_inv (Update now j q) \<and>
    q_Get (Update now j q) i = (if i = jb_ID j then Some (j\<lparr>jb_UpdatedAt := now\<rparr>) else q_Get q i) \<and>
    mset (All q) = mset (Provisional q) + mset (Active q) + mset (q_filter (\<lambda>j. Terminal (jb_State j)) q) \<and>
    (x \<in> set (Provisional q)) = (q_Get q (jb_ID x) = Some x \<and> jb_State x = Submitted) \<and>
    distinct (map jb_ID (All q)) \<and> sorted (map jb_SubmittedAt (Provisional q)) \<and>
    sorted (map jb_SubmittedAt (Active q)) \<and> sorted (map jb_SubmittedAt (All q))"
proof -
  have three: "mset (filter (\<lambda>_. True) xs) = mset (filter (\<lambda>j. jb_State j = Submitted) xs) +
      mset (filter (\<lambda>j. jb_State j = Matched \<or> jb_State j = Dispatching \<or> jb_State j = Running) xs) +
      mset (filter (\<lambda>j. Terminal (jb_State j)) xs)" for xs
  proof (induction xs)
    case (Cons x xs)
    then show ?case by (cases "jb_State x") (simp_all add: Terminal_def)
  qed simp
  then have "mset (All q) = mset (Provisional q) + mset (Active q) + mset (q_filter (\<lambda>j. Terminal (jb_State j)) q)"
    unfolding All_def Provisional_def Active_def q_filter_def mset_sort by blast
  moreover have "distinct (map jb_ID (All q))"
    unfolding All_def using assms by (rule distinct_q_filter)
  moreover have "sorted (map jb_SubmittedAt (Provisional q))" "sorted (map jb_SubmittedAt (Active q))"
      "sorted (map jb_SubmittedAt (All q))"
    unfolding All_def Provisional_def Active_def by (rule sorted_q_filter)+
  moreover have "(x \<in> set (Provisional q)) = (q_Get q (jb_ID x) = Some x \<and> jb_State x = Submitted)"
    unfolding Provisional_def by (rule in_q_filter [OF assms])
  ultimately show ?thesis
    by (simp only: queue_inv_Update [OF assms] Get_Update [OF assms] simp_thms)
qed

definition fresh_job :: "string \<Rightarrow> jobspec \<Rightarrow> int \<Rightarrow> job" where
  "fresh_job i js now = \<lparr>jb_ID = i, jb_Spec = js, jb_State = Submitted, jb_SubmittedAt = now,
     jb_AllocID = '''', jb_ClusterID = '''', jb_RemoteHandle = '''', jb_Note = '''', jb_Artifact = '''',
     jb_Decision = None, jb_Suggestion = '''', jb_SuggestedSpec = None, jb_Reschedules = 0,
     jb_UpdatedAt = 0\<rparr>"

theorem queue_views_witness:
  "mset (All (Enqueue 2 (fresh_job ''b'' one_node_job 2) (Enqueue 1 (fresh_job ''a'' one_node_job 1) NewMemory))) =
   mset (Provisional (Enqueue 2 (fresh_job ''b'' one_node_job 2) (Enqueue 1 (fresh_job ''a'' one_node_job 1) NewMemory)))"
  (is "mset (All ?q) = _")
proof -
  have "queue_inv ?q" by (intro inv_intros queue_inv_new)
  from queue_views [OF this] show ?thesis
    by (simp add: Active_def q_filter_def Terminal_def Enqueue_def store_def NewMemory_def fresh_job_def)
qed

end
