(* ===== verification/Driver.thy ===== *)
theory Driver
  imports Queue
begin

text \<open>
  Package \<open>pkg/cluster\<close>, file \<open>driver.go\<close>: the content handed to a cluster, the driver
  interface as a record of operations over the state \<open>'w\<close> of the outside world, and the
  registry that resolves a driver by manager type.
\<close>

record content =
  ct_Kind :: string
  ct_Payload :: string

text \<open>
  \<open>dr_Types\<close> is the optional capability \<open>MultiTypeDriver\<close>. A call may change the world: a
  submission starts a job, and a backend advances between two status polls.
\<close>

record 'w driver =
  dr_Type :: string
  dr_Types :: "string list option"
  dr_Submit :: "'w \<Rightarrow> cluster_graph \<Rightarrow> content \<Rightarrow> 'w \<times> (string + string)"
  dr_Status :: "'w \<Rightarrow> cluster_graph \<Rightarrow> string \<Rightarrow> 'w \<times> (string + state \<times> string)"
  dr_Cancel :: "'w \<Rightarrow> cluster_graph \<Rightarrow> string \<Rightarrow> 'w \<times> string option"
  dr_Logs :: "'w \<Rightarrow> cluster_graph \<Rightarrow> string \<Rightarrow> string + string"

type_synonym 'w registry = "string \<rightharpoonup> 'w driver"

definition serves :: "'w driver \<Rightarrow> string list" where
  "serves d = (case dr_Types d of Some ts \<Rightarrow> ts | None \<Rightarrow> [dr_Type d])"

definition assign :: "'w registry \<Rightarrow> 'w driver \<Rightarrow> 'w registry" where
  "assign r d = foldl (\<lambda>r t. r(t \<mapsto> d)) r (serves d)"

definition NewRegistry :: "'w driver list \<Rightarrow> 'w registry" where
  "NewRegistry ds = foldl assign Map.empty ds"

definition reg_For :: "'w registry \<Rightarrow> string \<Rightarrow> string + 'w driver" where
  "reg_For r t = (case r t of
     None \<Rightarrow> Inl (''no dispatch driver registered for manager '' @ go_quote t)
   | Some d \<Rightarrow> Inr d)"

definition reg_Has :: "'w registry option \<Rightarrow> string \<Rightarrow> bool" where
  "reg_Has r t = (case r of None \<Rightarrow> False | Some r \<Rightarrow> r t \<noteq> None)"

lemma foldl_assign: "foldl (\<lambda>r t. r(t \<mapsto> d)) r ts t = (if t \<in> set ts then Some d else r t)"
  by (induction ts arbitrary: r) auto

lemma assign_apply: "assign r d t = (if t \<in> set (serves d) then Some d else r t)"
  unfolding assign_def by (rule foldl_assign)

lemma find_snoc:
  "List.find P (xs @ [d]) = (case List.find P xs of None \<Rightarrow> if P d then Some d else None | Some e \<Rightarrow> Some e)"
  by (induction xs) auto

lemma NewRegistry_fold:
  "foldl assign r ds t =
     (case List.find (\<lambda>d. t \<in> set (serves d)) (rev ds) of None \<Rightarrow> r t | Some d \<Rightarrow> Some d)"
proof (induction ds arbitrary: r)
  case (Cons d ds)
  show ?case
    unfolding foldl_Cons Cons.IH rev.simps find_snoc
    by (cases "List.find (\<lambda>d. t \<in> set (serves d)) (rev ds)") (simp_all add: assign_apply)
qed simp

lemma NewRegistry_find: "NewRegistry ds t = List.find (\<lambda>d. t \<in> set (serves d)) (rev ds)"
  by (simp add: NewRegistry_def NewRegistry_fold split: option.split)

lemma reg_For_Has: "(\<exists>d. reg_For r t = Inr d) \<longleftrightarrow> reg_Has (Some r) t"
  by (auto simp: reg_For_def reg_Has_def split: option.split)

text \<open>
  A registry resolves each manager type to the last driver given that serves it, a driver
  of several types under every one of them, and to an error naming the type when none does.
\<close>

theorem NewRegistry_last_wins:
  "reg_For (NewRegistry ds) t =
     (case List.find (\<lambda>d. t \<in> set (serves d)) (rev ds) of
        None \<Rightarrow> Inl (''no dispatch driver registered for manager '' @ go_quote t)
      | Some d \<Rightarrow> Inr d)"
  by (simp add: reg_For_def NewRegistry_find)

end
