(* ===== verification/Validate.thy ===== *)
theory Validate
  imports Driver "HOL-Library.Sublist"
begin

text \<open>
  Package \<open>pkg/manager\<close>, file \<open>validate.go\<close>: the deterministic gate an artifact passes
  before the credentialed submit. Text is ASCII, one character per byte. \<open>json_error\<close> stands
  for \<open>json.Unmarshal\<close>: the error text for a payload that is not JSON, \<open>None\<close> otherwise.
\<close>

section \<open>Package strings\<close>

definition is_space :: "char \<Rightarrow> bool" where
  "is_space c \<longleftrightarrow> (of_char c :: nat) = 32 \<or> (9 \<le> (of_char c :: nat) \<and> (of_char c :: nat) \<le> 13)"

definition TrimSpace :: "string \<Rightarrow> string" where
  "TrimSpace s = rev (dropWhile is_space (rev (dropWhile is_space s)))"

definition newline :: char where
  "newline = char_of (10 :: nat)"

fun split_lines :: "string \<Rightarrow> string list" where
  "split_lines [] = [[]]"
| "split_lines (c # cs) =
     (if c = newline then [] # split_lines cs
      else (case split_lines cs of [] \<Rightarrow> [[c]] | l # ls \<Rightarrow> (c # l) # ls))"

definition HasPrefix :: "string \<Rightarrow> string \<Rightarrow> bool" where
  "HasPrefix s p \<longleftrightarrow> take (length p) s = p"

definition TrimPrefix :: "string \<Rightarrow> string \<Rightarrow> string" where
  "TrimPrefix s p = (if HasPrefix s p then drop (length p) s else s)"

fun Contains :: "string \<Rightarrow> string \<Rightarrow> bool" where
  "Contains [] p = (p = [])"
| "Contains (c # cs) p = (HasPrefix (c # cs) p \<or> Contains cs p)"

definition lower :: "char \<Rightarrow> char" where
  "lower c = (let n = of_char c :: nat in if 65 \<le> n \<and> n \<le> 90 then char_of (n + 32) else c)"

definition EqualFold :: "string \<Rightarrow> string \<Rightarrow> bool" where
  "EqualFold s t \<longleftrightarrow> map lower s = map lower t"

section \<open>The gate\<close>

datatype verdict = verdictValid | verdictRepairable | verdictWrongTarget

definition topField :: "string \<Rightarrow> string \<Rightarrow> string option" where
  "topField line key = (if \<not> HasPrefix line key then None else Some (TrimSpace (TrimPrefix line key)))"

definition scan_line :: "string \<Rightarrow> string \<times> string \<Rightarrow> string \<times> string" where
  "scan_line line acc =
     (if line = [] \<or> hd line = CHR '' '' \<or> hd line = char_of (9 :: nat) \<or> hd line = CHR ''#'' then acc
      else (case acc of (apiVersion, kind) \<Rightarrow>
        ((case topField line ''apiVersion:'' of Some v \<Rightarrow> v | None \<Rightarrow> apiVersion),
         (case topField line ''kind:'' of Some v \<Rightarrow> v | None \<Rightarrow> kind))))"

definition scanManifestHeader :: "string \<Rightarrow> string \<times> string" where
  "scanManifestHeader y = foldl (\<lambda>acc line. scan_line line acc) ('''', '''') (split_lines y)"

definition banned :: "string list" where
  "banned = [''hostPath'', ''hostNetwork: true'', ''hostPID: true'', ''hostIPC: true'', ''privileged: true'']"

definition policyScan :: "string \<Rightarrow> string" where
  "policyScan y = (case List.find (Contains y) banned of None \<Rightarrow> '''' | Some bad \<Rightarrow> bad)"

definition expectedKind :: "string \<Rightarrow> string" where
  "expectedKind m =
     (if m = K8sJob then ''Job''
      else if m = FluxOperator then ''MiniCluster''
      else if m = SlurmOperator then ''SlurmJob''
      else '''')"

definition defaultValidate ::
  "(string \<Rightarrow> string option) \<Rightarrow> cluster_graph \<Rightarrow> content \<Rightarrow> verdict \<times> string" where
  "defaultValidate json_error target c =
     (let payload = TrimSpace (ct_Payload c) in
      if payload = '''' then (verdictRepairable, ''empty artifact'')
      else if ct_Kind c = ''jobspec'' then
        (case json_error payload of
           Some e \<Rightarrow> (verdictRepairable, ''jobspec is not valid JSON: '' @ e)
         | None \<Rightarrow> (verdictValid, ''''))
      else if ct_Kind c = ''manifest'' then
        (case scanManifestHeader payload of (apiVersion, kind) \<Rightarrow>
          (if apiVersion = '''' \<or> kind = '''' then
             (verdictRepairable, ''manifest missing top-level apiVersion/kind'')
           else if policyScan payload \<noteq> '''' then
             (verdictRepairable, ''policy violation: '' @ policyScan payload)
           else if expectedKind (cg_Manager target) \<noteq> '''' \<and>
                   \<not> EqualFold kind (expectedKind (cg_Manager target)) then
             (verdictWrongTarget, ''cluster '' @ go_quote (cg_ID target) @ '' ('' @ cg_Manager target @
                '') hosts '' @ expectedKind (cg_Manager target) @ '', not '' @ kind)
           else (verdictValid, '''')))
      else (verdictRepairable, ''unknown content kind '' @ ct_Kind c))"

section \<open>What the helpers compute\<close>

text \<open>
  The prefix test character by character, which is also how a proof evaluates it.\<close>

lemma HasPrefix_code [code]:
  "HasPrefix s [] = True" "HasPrefix [] (p # ps) = False" "HasPrefix (c # s) (p # ps) = (c = p \<and> HasPrefix s ps)"
  by (auto simp: HasPrefix_def)

lemma HasPrefix_prefix: "HasPrefix s p \<longleftrightarrow> prefix p s"
  by (metis HasPrefix_def append_eq_conv_conj prefix_def)

lemma Contains_sublist: "Contains s p \<longleftrightarrow> sublist p s"
  by (induction s p rule: Contains.induct) (auto simp: HasPrefix_prefix sublist_Cons_right)

lemma policyScan_clean: "policyScan y = '''' \<longleftrightarrow> (\<forall>bad \<in> set banned. \<not> sublist bad y)"
proof (cases "List.find (Contains y) banned")
  case None
  then have "\<forall>bad \<in> set banned. \<not> sublist bad y"
    by (simp add: find_None_iff Contains_sublist)
  then show ?thesis using None by (simp add: policyScan_def)
next
  case (Some bad)
  then have "bad \<in> set banned" "Contains y bad" by (auto simp: find_Some_iff)
  moreover from this(1) have "bad \<noteq> ''''" by (auto simp: banned_def)
  ultimately show ?thesis using Some by (auto simp: policyScan_def Contains_sublist)
qed

lemma split_lines_nonempty [simp]: "split_lines s \<noteq> []"
  by (induction s) (auto split: list.split)

lemma split_lines_append:
  "split_lines (s @ newline # t) = split_lines s @ split_lines t"
proof (induction s)
  case (Cons c s)
  then show ?case by (cases "split_lines s") (auto split: list.split)
qed simp

text \<open>
  A later line only overrides what an earlier one found.\<close>

lemma scan_fold_later:
  fixes acc acc' :: "string \<times> string"
  defines "f \<equiv> foldl (\<lambda>acc line. scan_line line acc)"
  shows "(fst (f acc ls) = fst (f acc' ls) \<or> fst (f acc ls) = fst acc \<and> fst (f acc' ls) = fst acc') \<and>
    (snd (f acc ls) = snd (f acc' ls) \<or> snd (f acc ls) = snd acc \<and> snd (f acc' ls) = snd acc')"
  unfolding f_def
proof (induction ls arbitrary: acc acc')
  case (Cons l ls)
  have "(fst (scan_line l acc) = fst (scan_line l acc') \<or>
      fst (scan_line l acc) = fst acc \<and> fst (scan_line l acc') = fst acc') \<and>
    (snd (scan_line l acc) = snd (scan_line l acc') \<or>
      snd (scan_line l acc) = snd acc \<and> snd (scan_line l acc') = snd acc')"
    by (auto simp: scan_line_def split: prod.splits option.splits)
  then show ?case using Cons [of "scan_line l acc" "scan_line l acc'"] by (auto simp del: fst_conv snd_conv)
qed simp

lemma scan_last_document:
  assumes "fst (scanManifestHeader b) \<noteq> ''''" "snd (scanManifestHeader b) \<noteq> ''''"
  shows "scanManifestHeader (a @ newline # b) = scanManifestHeader b"
proof -
  have "scanManifestHeader (a @ newline # b) =
      foldl (\<lambda>acc line. scan_line line acc) (scanManifestHeader a) (split_lines b)"
    by (simp add: scanManifestHeader_def split_lines_append)
  moreover note scan_fold_later [of "scanManifestHeader a" "split_lines b" "('''', '''')"]
  ultimately show ?thesis
    using assms by (auto simp: scanManifestHeader_def [of b] intro: prod_eqI)
qed

lemma sublist_across:
  assumes "sublist p (a @ c # b)" "c \<notin> set p"
  shows "sublist p a \<or> sublist p b"
proof -
  consider "sublist p a" | "sublist p (c # b)"
    | xs ys where "p = xs @ ys" "suffix xs a" "prefix ys (c # b)"
    using assms(1) by (auto simp: sublist_append)
  then show ?thesis
  proof cases
    case 2
    then show ?thesis using assms(2) by (auto simp: sublist_Cons_right prefix_Cons)
  next
    case 3
    then have "ys = []" using assms(2) by (auto simp: prefix_Cons)
    then show ?thesis using 3 by (auto dest: suffix_imp_sublist)
  qed simp
qed

lemma TrimSpace_join:
  assumes "a \<noteq> []" "\<not> is_space (hd a)" "TrimSpace b = b" "b \<noteq> []"
  shows "TrimSpace (a @ c # b) = a @ c # b"
proof -
  let ?r = "dropWhile is_space (rev (dropWhile is_space b))"
  have r: "rev ?r = b" using assms(3) by (simp add: TrimSpace_def)
  then have "?r \<noteq> []" using assms(4) by (metis rev.simps(1))
  then have "\<not> is_space (hd ?r)" by (rule hd_dropWhile)
  moreover have "last b = hd ?r" using \<open>?r \<noteq> []\<close> by (subst r [symmetric]) (rule last_rev)
  moreover obtain z zs where b: "b = zs @ [z]" using assms(4) by (metis append_butlast_last_id)
  ultimately have "\<not> is_space z" by simp
  then show ?thesis using assms(1,2) by (cases a) (simp_all add: TrimSpace_def b)
qed

section \<open>Trimmed texts\<close>

lemma TrimSpace_id: "s \<noteq> '''' \<Longrightarrow> \<not> is_space (hd s) \<Longrightarrow> \<not> is_space (last s) \<Longrightarrow> TrimSpace s = s"
proof -
  assume s: "s \<noteq> ''''" "\<not> is_space (hd s)" "\<not> is_space (last s)"
  then have "dropWhile is_space s = s" by (cases s) auto
  moreover have "dropWhile is_space (rev s) = rev s" using s by (cases s rule: rev_cases) auto
  ultimately show ?thesis by (simp add: TrimSpace_def)
qed

lemma TrimSpace_ends:
  assumes "TrimSpace s \<noteq> ''''"
  shows "\<not> is_space (hd (TrimSpace s))" "\<not> is_space (last (TrimSpace s))"
proof -
  let ?t = "dropWhile is_space s" and ?r = "dropWhile is_space (rev (dropWhile is_space s))"
  have ne: "?r \<noteq> []" using assms by (simp add: TrimSpace_def)
  have "\<not> is_space (hd ?r)" using ne by (rule hd_dropWhile)
  then show "\<not> is_space (last (TrimSpace s))" using ne by (simp add: TrimSpace_def last_rev)
  have t: "?t \<noteq> []"
  proof
    assume "?t = []"
    then have "?r = []" by (simp only: rev.simps dropWhile.simps)
    with ne show False by contradiction
  qed
  obtain k where "?r = drop k (rev ?t)" using dropWhile_eq_drop by blast
  then have pre: "TrimSpace s = take (length ?t - k) ?t" by (simp add: TrimSpace_def rev_drop)
  then have "hd (TrimSpace s) = hd ?t" using assms t by (cases ?t; cases "length ?t - k") auto
  then show "\<not> is_space (hd (TrimSpace s))" using hd_dropWhile [OF t] by simp
qed

lemma TrimSpace_idem: "TrimSpace (TrimSpace s) = TrimSpace s"
proof (cases "TrimSpace s = ''''")
  case False
  then show ?thesis using TrimSpace_ends [OF False] by (intro TrimSpace_id) auto
next
  case True
  have "TrimSpace '''' = ''''" by (simp add: TrimSpace_def)
  then show ?thesis using True by (simp only:)
qed

lemma dropWhile_all: "list_all P ws \<Longrightarrow> dropWhile P (ws @ s) = dropWhile P s"
  by (induction ws) auto

lemma TrimSpace_pad: "list_all is_space ws \<Longrightarrow> list_all is_space vs \<Longrightarrow> TrimSpace (ws @ s @ vs) = TrimSpace s"
proof -
  assume w: "list_all is_space ws" and v: "list_all is_space vs"
  have r: "list_all is_space (rev vs)" using v by (simp add: list_all_iff)
  show ?thesis
  proof (cases "dropWhile is_space s = []")
    case True
    then have "dropWhile is_space (s @ vs) = []" using v by (simp add: list_all_iff)
    then have "TrimSpace (ws @ s @ vs) = ''''" using w
      by (simp only: TrimSpace_def dropWhile_all rev.simps dropWhile.simps)
    moreover have "TrimSpace s = ''''" using True
      by (simp only: TrimSpace_def rev.simps dropWhile.simps)
    ultimately show ?thesis by simp
  next
    case False
    then have "dropWhile is_space (s @ vs) = dropWhile is_space s @ vs" by (induction s) auto
    then show ?thesis using w r by (simp add: TrimSpace_def dropWhile_all)
  qed
qed

section \<open>Properties\<close>

text \<open>
  What passes the gate: a valid manifest is not blank, names a top-level apiVersion and
  kind, holds none of the banned fields anywhere in its text, and is of the kind the target's
  manager hosts when that is known. Only a manifest with a clean text can be sent to another
  target, and the gate never returns a reason for a valid artifact.
\<close>

theorem defaultValidate_sound:
  assumes "defaultValidate json_error target c = (v, why)" "ct_Kind c = ''manifest''" "v \<noteq> verdictRepairable"
  shows "TrimSpace (ct_Payload c) \<noteq> '''' \<and>
    fst (scanManifestHeader (TrimSpace (ct_Payload c))) \<noteq> '''' \<and>
    snd (scanManifestHeader (TrimSpace (ct_Payload c))) \<noteq> '''' \<and>
    (\<forall>bad \<in> set banned. \<not> sublist bad (TrimSpace (ct_Payload c))) \<and>
    (v = verdictValid) = (expectedKind (cg_Manager target) = '''' \<or>
       EqualFold (snd (scanManifestHeader (TrimSpace (ct_Payload c)))) (expectedKind (cg_Manager target))) \<and>
    (v = verdictValid \<longrightarrow> why = '''')"
  using assms policyScan_clean [of "TrimSpace (ct_Payload c)"]
  by (auto simp: defaultValidate_def Let_def split: prod.splits if_splits)

definition k8s_target :: cluster_graph where
  "k8s_target = zero_cluster\<lparr>cg_ID := ''k1'', cg_Manager := ''k8s-job''\<rparr>"

definition sneaky_manifest :: string where
  "sneaky_manifest = ''apiVersion: batch/v1'' @ [newline] @ ''kind: Job'' @ [newline] @
     ''spec: {hostNetwork:  true}''"

theorem defaultValidate_sound_witness:
  "fst (defaultValidate (\<lambda>_. None) k8s_target \<lparr>ct_Kind = ''manifest'', ct_Payload = sneaky_manifest\<rparr>) = verdictValid \<and>
   \<not> sublist ''hostPath'' (TrimSpace sneaky_manifest)"
proof -
  have v: "defaultValidate (\<lambda>_. None) k8s_target \<lparr>ct_Kind = ''manifest'', ct_Payload = sneaky_manifest\<rparr> =
      (verdictValid, '''')"
    by code_simp
  show ?thesis using v defaultValidate_sound [OF v] by (auto simp: banned_def)
qed

text \<open>
  The gate looks at the last document only: whatever precedes a valid manifest in the same
  text, of any kind and for any purpose, is valid with it as long as it spells out none of the
  banned fields, although the driver applies every document of the text.
\<close>

theorem earlier_documents_unchecked:
  assumes "fst (defaultValidate json_error target \<lparr>ct_Kind = ''manifest'', ct_Payload = b\<rparr>) = verdictValid"
    and "TrimSpace b = b" "a \<noteq> []" "\<not> is_space (hd a)" "policyScan a = ''''"
  shows "fst (defaultValidate json_error target \<lparr>ct_Kind = ''manifest'', ct_Payload = a @ newline # b\<rparr>) = verdictValid"
proof -
  have b: "b \<noteq> []" "fst (scanManifestHeader b) \<noteq> ''''" "snd (scanManifestHeader b) \<noteq> ''''" "policyScan b = ''''"
    "expectedKind (cg_Manager target) = '''' \<or>
       EqualFold (snd (scanManifestHeader b)) (expectedKind (cg_Manager target))"
    using assms(1,2) by (auto simp: defaultValidate_def Let_def split: prod.splits if_splits)
  have "list_all (\<lambda>bad. newline \<notin> set bad) banned" by code_simp
  then have "newline \<notin> set bad" if "bad \<in> set banned" for bad
    using that by (simp add: list_all_iff)
  then have "policyScan (a @ newline # b) = ''''"
    using b(4) assms(5) unfolding policyScan_clean by (meson sublist_across)
  then show ?thesis
    using b scan_last_document [OF b(2,3), of a] TrimSpace_join [OF assms(3,4,2) b(1)]
    by (auto simp: defaultValidate_def Let_def split: prod.split)
qed

theorem earlier_documents_unchecked_witness:
  "fst (defaultValidate (\<lambda>_. None) k8s_target \<lparr>ct_Kind = ''manifest'',
     ct_Payload = (''kind: ClusterRoleBinding'' @ [newline] @ ''---'') @ newline # sneaky_manifest\<rparr>) = verdictValid"
proof (rule earlier_documents_unchecked)
  show "fst (defaultValidate (\<lambda>_. None) k8s_target \<lparr>ct_Kind = ''manifest'', ct_Payload = sneaky_manifest\<rparr>) = verdictValid"
    by code_simp
  show "TrimSpace sneaky_manifest = sneaky_manifest" by code_simp
  show "\<not> is_space (hd (''kind: ClusterRoleBinding'' @ [newline] @ ''---''))" by code_simp
  show "policyScan (''kind: ClusterRoleBinding'' @ [newline] @ ''---'') = ''''" by code_simp
qed simp

end
