(* ===== verification/Reconcile.thy ===== *)
theory Reconcile
  imports Booking
begin

text \<open>
  Package \<open>pkg/reconcile\<close>: the fleet summarized as node shapes and capabilities, and the
  reconciler that repacks a job's cores onto a shape the fleet has. The lemmas show that the
  summary cnt the nodes exactly, that repacking finds the fewest nodes that divide the cores
  evenly, and that a proposal fits the cluster it names.
\<close>

section \<open>The summary of the fleet\<close>

record nodeShape =
  sh_Cores :: int
  sh_GPUs :: int
  sh_MemGB :: int
  sh_Count :: nat

record clusterView =
  cv_ID :: string
  cv_Caps :: "(string \<times> bool) list"
  cv_Shapes :: "nodeShape list"

definition view_satisfies :: "clusterView \<Rightarrow> jobspec \<Rightarrow> bool" where
  "view_satisfies cv js = list_all (\<lambda>t. map_of (cv_Caps cv) t = Some True) (RequiredTypes js)"

definition add_caps :: "vertex \<Rightarrow> (string \<times> bool) list \<Rightarrow> (string \<times> bool) list" where
  "add_caps v caps =
     (let caps = (if v_type v \<noteq> '''' then AList.update (v_type v) True caps else caps)
      in if vm_name (v_meta v) \<noteq> '''' then AList.update (vm_name (v_meta v)) True caps else caps)"

definition caps_of :: "cluster_graph \<Rightarrow> (string \<times> bool) list" where
  "caps_of cg = fold (\<lambda>(name, g) caps.
       if name = ContainmentSubsystem then caps else fold (\<lambda>(i, v). add_caps v) (byID g) caps)
     (cg_Subsystems cg) []"

type_synonym shape_key = "int \<times> int \<times> int"

text \<open>A missing key of a Go map reads as zero.\<close>

definition tally_of :: "(shape_key \<rightharpoonup> nat) \<Rightarrow> shape_key \<Rightarrow> nat" where
  "tally_of cnt k = (case cnt k of None \<Rightarrow> 0 | Some m \<Rightarrow> m)"

fun count_shapes ::
  "jgf \<Rightarrow> vertex list \<Rightarrow> (shape_key \<rightharpoonup> nat) \<Rightarrow> shape_key list \<Rightarrow> ((shape_key \<rightharpoonup> nat) \<times> shape_key list) option" where
  "count_shapes g [] cnt order = Some (cnt, order)"
| "count_shapes g (n # ns) cnt order =
     (case nodeCapacity g (v_id n) of
        None \<Rightarrow> None
      | Some k \<Rightarrow>
          count_shapes g ns
            (cnt(k \<mapsto> tally_of cnt k + 1))
            (if cnt k = None then order @ [k] else order))"

definition shapesOf :: "jgf option \<Rightarrow> nodeShape list option" where
  "shapesOf cont = (case cont of None \<Rightarrow> Some []
     | Some g \<Rightarrow>
         (case count_shapes g (verticesOfType g ''node'') Map.empty [] of
            None \<Rightarrow> None
          | Some (cnt, order) \<Rightarrow>
              Some (map (\<lambda>k. case k of (c, gp, mem) \<Rightarrow>
                \<lparr>sh_Cores = c, sh_GPUs = gp, sh_MemGB = mem,
                 sh_Count = tally_of cnt k\<rparr>) order)))"

fun BuildFleetView :: "fleet \<Rightarrow> clusterView list option" where
  "BuildFleetView [] = Some []"
| "BuildFleetView (cg # cgs) =
     (case shapesOf (Containment_of cg) of
        None \<Rightarrow> None
      | Some shapes \<Rightarrow>
          (case BuildFleetView cgs of
             None \<Rightarrow> None
           | Some fv \<Rightarrow> Some (\<lparr>cv_ID = cg_ID cg, cv_Caps = caps_of cg, cv_Shapes = shapes\<rparr> # fv)))"

section \<open>Repacking\<close>

record proposal =
  pr_Jobspec :: jobspec
  pr_Rationale :: string
  pr_Relaxations :: "string list"

definition max1 :: "int \<Rightarrow> int" where
  "max1 v = (if v < 1 then 1 else v)"

text \<open>The loop over n = 1, ..., hi; all operands are positive, where Go's / and % are div and mod.\<close>

function repack_loop :: "int \<Rightarrow> int \<Rightarrow> int \<Rightarrow> int \<Rightarrow> (int \<times> int) option" where
  "repack_loop tot cores n hi =
     (if n > hi then None
      else if tot mod n \<noteq> 0 then repack_loop tot cores (n + 1) hi
      else if tot div n \<le> cores then Some (n, tot div n)
      else repack_loop tot cores (n + 1) hi)"
  by pat_completeness auto
termination
  by (relation "measure (\<lambda>(tot, cores, n, hi). nat (hi + 1 - n))") auto

declare repack_loop.simps [simp del]

definition repackOntoShape :: "int \<Rightarrow> nodeShape \<Rightarrow> (int \<times> int) option" where
  "repackOntoShape totalCores s =
     (if totalCores < 1 \<or> sh_Cores s < 1 then None
      else (let hi = int (sh_Count s);
                hi = (if totalCores < hi then totalCores else hi)
            in repack_loop totalCores (sh_Cores s) 1 hi))"

definition repack_note :: "int \<Rightarrow> int \<Rightarrow> int \<Rightarrow> int \<Rightarrow> string \<Rightarrow> int \<Rightarrow> string" where
  "repack_note tot origN n cpn i cores =
     ''repacked '' @ itoa (nat tot) @ '' cores from '' @ itoa (nat origN) @ '' nodes into '' @
     itoa (nat n) @ '' nodes x '' @ itoa (nat cpn) @ '' cores/node to fit '' @ go_quote i @
     '' ('' @ itoa (nat cores) @ '' cores/node); work preserved''"

fun propose_shapes :: "jobspec \<Rightarrow> int \<Rightarrow> string \<Rightarrow> nodeShape list \<Rightarrow> proposal option" where
  "propose_shapes js tot i [] = None"
| "propose_shapes js tot i (s # ss) =
     (if GPUsPerNode js > 0 \<and> sh_GPUs s < GPUsPerNode js then propose_shapes js tot i ss
      else if sh_MemGB s < MemGBPerNode js then propose_shapes js tot i ss
      else (case repackOntoShape tot s of
              None \<Rightarrow> propose_shapes js tot i ss
            | Some (n, cpn) \<Rightarrow>
                Some \<lparr>pr_Jobspec = js\<lparr>js_resources := Containment n cpn (GPUsPerNode js) (MemGBPerNode js)\<rparr>,
                      pr_Rationale = repack_note tot (Nodes js) n cpn i (sh_Cores s),
                      pr_Relaxations = []\<rparr>))"

definition total_cores :: "jobspec \<Rightarrow> int" where
  "total_cores js = i64 (Nodes js * max1 (CoresPerNode js))"

fun Propose :: "jobspec \<Rightarrow> clusterView list \<Rightarrow> proposal option" where
  "Propose js [] = None"
| "Propose js (cv # cvs) =
     (if \<not> view_satisfies cv js then Propose js cvs
      else (case propose_shapes js (total_cores js) (cv_ID cv) (cv_Shapes cv) of
              None \<Rightarrow> Propose js cvs
            | Some p \<Rightarrow> Some p))"

definition AgentPropose :: "jobspec \<Rightarrow> clusterView list \<Rightarrow> proposal option" where
  "AgentPropose js view = None"

section \<open>The shapes count the nodes\<close>

definition with_capacity :: "jgf \<Rightarrow> shape_key \<Rightarrow> vertex \<Rightarrow> bool" where
  "with_capacity g k n \<longleftrightarrow> nodeCapacity g (v_id n) = Some k"

lemma count_shapes_tally:
  "count_shapes g ns cnt order = Some (cnt', order') \<Longrightarrow>
   tally_of cnt' k = tally_of cnt k + length (filter (with_capacity g k) ns)"
proof (induction ns arbitrary: cnt order)
  case (Cons n ns)
  then obtain k' where k': "nodeCapacity g (v_id n) = Some k'" by (auto split: option.splits)
  have rest: "count_shapes g ns (cnt(k' \<mapsto> tally_of cnt k' + 1)) (if cnt k' = None then order @ [k'] else order) =
      Some (cnt', order')"
    using Cons.prems k' by simp
  have upd: "tally_of (cnt(k' \<mapsto> tally_of cnt k' + 1)) k = tally_of cnt k + (if with_capacity g k n then 1 else 0)"
    using k' by (auto simp: tally_of_def with_capacity_def)
  show ?case using Cons.IH [OF rest] unfolding upd by simp
qed simp

lemma shapesOf_counts:
  assumes "shapesOf (Some g) = Some shapes" "s \<in> set shapes"
  shows "sh_Count s = length (filter (with_capacity g (sh_Cores s, sh_GPUs s, sh_MemGB s)) (verticesOfType g ''node''))"
proof -
  obtain cnt order where c: "count_shapes g (verticesOfType g ''node'') Map.empty [] = Some (cnt, order)"
    using assms(1) by (auto simp: shapesOf_def split: option.splits)
  then obtain k where "s = \<lparr>sh_Cores = fst k, sh_GPUs = fst (snd k), sh_MemGB = snd (snd k), sh_Count = tally_of cnt k\<rparr>"
    using assms by (auto simp: shapesOf_def tally_of_def split: prod.splits)
  then show ?thesis using count_shapes_tally [OF c, of k] by (simp add: tally_of_def [of Map.empty])
qed

lemma BuildFleetView_Some:
  "BuildFleetView f = Some fv \<Longrightarrow> cv \<in> set fv \<Longrightarrow>
   \<exists>cg \<in> set f. cv_ID cv = cg_ID cg \<and> shapesOf (Containment_of cg) = Some (cv_Shapes cv) \<and> cv_Caps cv = caps_of cg"
proof (induction f arbitrary: fv)
  case (Cons cg cgs)
  then obtain shapes fv' where s: "shapesOf (Containment_of cg) = Some shapes" "BuildFleetView cgs = Some fv'"
      "fv = \<lparr>cv_ID = cg_ID cg, cv_Caps = caps_of cg, cv_Shapes = shapes\<rparr> # fv'"
    by (auto split: option.splits)
  show ?case
  proof (cases "cv \<in> set fv'")
    case True
    then show ?thesis using Cons.IH [OF s(2)] by auto
  next
    case False
    then have "cv = \<lparr>cv_ID = cg_ID cg, cv_Caps = caps_of cg, cv_Shapes = shapes\<rparr>"
      using Cons.prems(2) s(3) by simp
    then show ?thesis using s(1) by simp
  qed
qed simp

section \<open>Repacking is exact and minimal\<close>

lemma repack_loop_Some:
  "repack_loop tot cores n hi = Some (m, c) \<Longrightarrow>
   n \<le> m \<and> m \<le> hi \<and> tot mod m = 0 \<and> c = tot div m \<and> c \<le> cores \<and>
   (\<forall>k. n \<le> k \<and> k < m \<longrightarrow> tot mod k \<noteq> 0 \<or> cores < tot div k)"
proof (induction tot cores n hi rule: repack_loop.induct)
  case (1 tot cores n hi)
  show ?case
  proof (cases "n > hi \<or> (tot mod n = 0 \<and> tot div n \<le> cores)")
    case True
    then show ?thesis using 1(3) by (subst (asm) repack_loop.simps) (auto split: if_splits)
  next
    case False
    then have "repack_loop tot cores (n + 1) hi = Some (m, c)"
      using 1(3) by (subst (asm) repack_loop.simps) (auto split: if_splits)
    then have ih: "n + 1 \<le> m \<and> m \<le> hi \<and> tot mod m = 0 \<and> c = tot div m \<and> c \<le> cores \<and>
        (\<forall>k. n + 1 \<le> k \<and> k < m \<longrightarrow> tot mod k \<noteq> 0 \<or> cores < tot div k)"
      using 1(1,2) False by (cases "tot mod n = 0") auto
    have "tot mod k \<noteq> 0 \<or> cores < tot div k" if "n \<le> k \<and> k < m" for k
      using that ih False by (cases "k = n") auto
    with ih show ?thesis by auto
  qed
qed

lemma repack_loop_None:
  "repack_loop tot cores n hi = None \<Longrightarrow> n \<le> k \<Longrightarrow> k \<le> hi \<Longrightarrow> tot mod k \<noteq> 0 \<or> cores < tot div k"
proof (induction tot cores n hi rule: repack_loop.induct)
  case (1 tot cores n hi)
  then have step: "\<not> (tot mod n = 0 \<and> tot div n \<le> cores)" "repack_loop tot cores (n + 1) hi = None"
    by (auto simp: repack_loop.simps [of tot cores n hi] split: if_splits)
  show ?case
  proof (cases "k = n")
    case True
    then show ?thesis using step(1) by auto
  next
    case False
    then show ?thesis using 1 step by (cases "tot mod n = 0") auto
  qed
qed

lemma repackOntoShape_Some:
  assumes "repackOntoShape tot s = Some (n, c)"
  shows "n * c = tot" "1 \<le> n" "n \<le> int (sh_Count s)" "1 \<le> c" "c \<le> sh_Cores s" "n \<le> tot"
    "1 \<le> k \<Longrightarrow> k < n \<Longrightarrow> tot mod k \<noteq> 0 \<or> sh_Cores s < tot div k"
proof -
  define hi where "hi = (if tot < int (sh_Count s) then tot else int (sh_Count s))"
  have pos: "1 \<le> tot" "1 \<le> sh_Cores s" and loop: "repack_loop tot (sh_Cores s) 1 hi = Some (n, c)"
    using assms by (auto simp: repackOntoShape_def hi_def Let_def split: if_splits)
  note l = repack_loop_Some [OF loop]
  show "n * c = tot" using l by (metis mod_0_imp_dvd dvd_mult_div_cancel)
  then show "1 \<le> c" using l pos by (smt (verit) mult_nonneg_nonpos)
  show "1 \<le> n" "c \<le> sh_Cores s" using l by auto
  show "n \<le> int (sh_Count s)" "n \<le> tot" using l by (auto simp: hi_def split: if_splits)
  show "1 \<le> k \<Longrightarrow> k < n \<Longrightarrow> tot mod k \<noteq> 0 \<or> sh_Cores s < tot div k" using l by auto
qed

lemma repackOntoShape_None:
  assumes "repackOntoShape tot s = None" "1 \<le> n" "n \<le> int (sh_Count s)" "n * c = tot" "1 \<le> c"
  shows "sh_Cores s < c"
proof (rule ccontr)
  assume "\<not> sh_Cores s < c"
  have "n * 1 \<le> n * c" using assms(2,5) by (intro mult_left_mono) auto
  then have n: "n \<le> tot" using assms(4) by simp
  then have "repack_loop tot (sh_Cores s) 1 (if tot < int (sh_Count s) then tot else int (sh_Count s)) = None"
    using assms \<open>\<not> sh_Cores s < c\<close> by (auto simp: repackOntoShape_def Let_def split: if_splits)
  from repack_loop_None [OF this assms(2)] have "tot mod n \<noteq> 0 \<or> sh_Cores s < tot div n"
    using n assms(3) by simp
  then show False using assms \<open>\<not> sh_Cores s < c\<close> by auto
qed

lemma propose_shapes_Some:
  "propose_shapes js tot i ss = Some p \<Longrightarrow>
   \<exists>s n c. s \<in> set ss \<and> repackOntoShape tot s = Some (n, c) \<and>
     (GPUsPerNode js > 0 \<longrightarrow> GPUsPerNode js \<le> sh_GPUs s) \<and> MemGBPerNode js \<le> sh_MemGB s \<and>
     pr_Jobspec p = js\<lparr>js_resources := Containment n c (GPUsPerNode js) (MemGBPerNode js)\<rparr> \<and>
     pr_Relaxations p = []"
proof (induction ss)
  case (Cons s ss)
  show ?case
  proof (cases "propose_shapes js tot i ss = Some p")
    case True
    then show ?thesis using Cons.IH by auto
  next
    case False
    then have ok: "\<not> (GPUsPerNode js > 0 \<and> sh_GPUs s < GPUsPerNode js)" "\<not> sh_MemGB s < MemGBPerNode js"
      using Cons.prems by (auto split: if_splits)
    then obtain n c where r: "repackOntoShape tot s = Some (n, c)"
      using Cons.prems False by (auto split: option.splits)
    then have "pr_Jobspec p = js\<lparr>js_resources := Containment n c (GPUsPerNode js) (MemGBPerNode js)\<rparr> \<and>
        pr_Relaxations p = []"
      using Cons.prems ok by auto
    then show ?thesis using r ok by (intro exI [of _ s] exI [of _ n] exI [of _ c]) auto
  qed
qed simp

lemma Propose_Some:
  "Propose js view = Some p \<Longrightarrow>
   \<exists>cv. cv \<in> set view \<and> view_satisfies cv js \<and> propose_shapes js (total_cores js) (cv_ID cv) (cv_Shapes cv) = Some p"
  by (induction view) (auto split: if_splits option.splits)

lemma Propose_counts:
  assumes "Propose js view = Some p"
  obtains cv s n c where "cv \<in> set view" "s \<in> set (cv_Shapes cv)" "n * c = total_cores js"
    "1 \<le> n" "n \<le> int (sh_Count s)" "1 \<le> c" "c \<le> sh_Cores s"
    "GPUsPerNode js > 0 \<longrightarrow> GPUsPerNode js \<le> sh_GPUs s" "MemGBPerNode js \<le> sh_MemGB s"
    "pr_Jobspec p = js\<lparr>js_resources := Containment n c (GPUsPerNode js) (MemGBPerNode js)\<rparr>"
    "pr_Relaxations p = []" "Nodes (pr_Jobspec p) = n" "CoresPerNode (pr_Jobspec p) = c"
    "GPUsPerNode (pr_Jobspec p) = max 0 (GPUsPerNode js)"
    "MemGBPerNode (pr_Jobspec p) = max 0 (MemGBPerNode js)"
proof -
  obtain cv where cv: "cv \<in> set view" "propose_shapes js (total_cores js) (cv_ID cv) (cv_Shapes cv) = Some p"
    using Propose_Some [OF assms] by blast
  obtain s n c where s: "s \<in> set (cv_Shapes cv)" "repackOntoShape (total_cores js) s = Some (n, c)"
      "GPUsPerNode js > 0 \<longrightarrow> GPUsPerNode js \<le> sh_GPUs s" "MemGBPerNode js \<le> sh_MemGB s"
      "pr_Jobspec p = js\<lparr>js_resources := Containment n c (GPUsPerNode js) (MemGBPerNode js)\<rparr>"
      "pr_Relaxations p = []"
    using propose_shapes_Some [OF cv(2)] by blast
  note r = repackOntoShape_Some [OF s(2)]
  have fit: "fits64 (total_cores js)" by (simp add: total_cores_def)
  have "1 * c \<le> n * c" using r(2,4) by (intro mult_right_mono) auto
  then have le: "c \<le> total_cores js" using r(1) by simp
  have fits: "fits64 n" "fits64 c"
    using fits64_between [OF fit _ r(6)] fits64_between [OF fit _ le] r(2,4) by auto
  have "js_resources (pr_Jobspec p) = Containment n c (GPUsPerNode js) (MemGBPerNode js)"
    using s(5) by simp
  from counts_Containment [OF this fits counts_fits(3,4)]
  have cnt: "counts (pr_Jobspec p) = (n, c, max 0 (GPUsPerNode js), max 0 (MemGBPerNode js))"
    using r(2,4) by simp
  have "Nodes (pr_Jobspec p) = n" "CoresPerNode (pr_Jobspec p) = c"
    by (simp_all add: Nodes_def [of "pr_Jobspec p"] CoresPerNode_def [of "pr_Jobspec p"] cnt)
  moreover have "GPUsPerNode (pr_Jobspec p) = max 0 (GPUsPerNode js)"
      "MemGBPerNode (pr_Jobspec p) = max 0 (MemGBPerNode js)"
    by (simp_all add: GPUsPerNode_def [of "pr_Jobspec p"] MemGBPerNode_def [of "pr_Jobspec p"] cnt)
  ultimately show ?thesis using that cv(1) s r by blast
qed

text \<open>No running total of a node's cores, gpus or memory left the range of Go's int.\<close>

definition sound_capacities :: "jgf \<Rightarrow> bool" where
  "sound_capacities g = list_all (\<lambda>n. case nodeCapacity g (v_id n) of None \<Rightarrow> False
     | Some (c, gp, mem) \<Rightarrow> 0 \<le> c \<and> 0 \<le> gp \<and> 0 \<le> mem) (verticesOfType g ''node'')"

section \<open>Properties\<close>

text \<open>
  C30. Repacking loses no work and is optimal: it succeeds exactly when some number of nodes, at
  most as many as the shape has, splits the cores evenly into shares the shape can hold, and
  then it returns the smallest such number with the share.
\<close>

theorem repackOntoShape_optimal:
  assumes "1 \<le> tot"
  shows "(case repackOntoShape tot s of
      None \<Rightarrow> \<not> (\<exists>n c. 1 \<le> n \<and> n \<le> int (sh_Count s) \<and> 1 \<le> c \<and> c \<le> sh_Cores s \<and> n * c = tot)
    | Some (n, c) \<Rightarrow> 1 \<le> n \<and> n \<le> int (sh_Count s) \<and> 1 \<le> c \<and> c \<le> sh_Cores s \<and> n * c = tot \<and>
        \<not> (\<exists>m d. 1 \<le> m \<and> m < n \<and> d \<le> sh_Cores s \<and> m * d = tot))"
proof (cases "repackOntoShape tot s")
  case None
  then show ?thesis using repackOntoShape_None [OF None] by fastforce
next
  case (Some nc)
  obtain n c where nc: "nc = (n, c)" by (cases nc)
  note r = repackOntoShape_Some [OF Some [unfolded nc]]
  have "\<not> (1 \<le> m \<and> m < n \<and> d \<le> sh_Cores s \<and> m * d = tot)" for m d
    using r(7) [of m] by auto
  then show ?thesis using Some nc r by simp
qed

theorem repackOntoShape_optimal_witness:
  "repackOntoShape 24 \<lparr>sh_Cores = 10, sh_GPUs = 0, sh_MemGB = 0, sh_Count = 6\<rparr> = Some (3, 8)"
proof -
  have "repackOntoShape 24 \<lparr>sh_Cores = 10, sh_GPUs = 0, sh_MemGB = 0, sh_Count = 6\<rparr> = Some (3, 8)"
    by (simp add: repackOntoShape_def repack_loop.simps)
  then show ?thesis
    using repackOntoShape_optimal [of 24 "\<lparr>sh_Cores = 10, sh_GPUs = 0, sh_MemGB = 0, sh_Count = 6\<rparr>"]
    by simp
qed

text \<open>
  A proposal fits the fleet it was made for: when the reconciler, given the summary of the
  fleet, proposes a jobspec, some registered cluster has as many containment nodes as it asks
  for that can each hold one node's share; it keeps the total number of cores and leaves every
  other part of the jobspec alone.
\<close>

theorem Propose_fits:
  assumes "BuildFleetView f = Some view" "Propose js view = Some p"
    and "\<And>cg g. cg \<in> set f \<Longrightarrow> Containment_of cg = Some g \<Longrightarrow> sound_capacities g"
  shows "(\<exists>cg g. cg \<in> set f \<and> Containment_of cg = Some g \<and>
      Nodes (pr_Jobspec p) \<le> int (length (filter (\<lambda>n. adequate g (pr_Jobspec p) (v_id n)) (verticesOfType g ''node'')))) \<and>
    Nodes (pr_Jobspec p) * CoresPerNode (pr_Jobspec p) = total_cores js \<and>
    pr_Jobspec p = js\<lparr>js_resources := js_resources (pr_Jobspec p)\<rparr> \<and> pr_Relaxations p = []"
proof -
  obtain cv s n c where p: "cv \<in> set view" "s \<in> set (cv_Shapes cv)" "n * c = total_cores js"
    "1 \<le> n" "n \<le> int (sh_Count s)" "1 \<le> c" "c \<le> sh_Cores s"
    "GPUsPerNode js > 0 \<longrightarrow> GPUsPerNode js \<le> sh_GPUs s" "MemGBPerNode js \<le> sh_MemGB s"
    "pr_Jobspec p = js\<lparr>js_resources := Containment n c (GPUsPerNode js) (MemGBPerNode js)\<rparr>"
    "pr_Relaxations p = []" "Nodes (pr_Jobspec p) = n" "CoresPerNode (pr_Jobspec p) = c"
    "GPUsPerNode (pr_Jobspec p) = max 0 (GPUsPerNode js)"
    "MemGBPerNode (pr_Jobspec p) = max 0 (MemGBPerNode js)"
    by (rule Propose_counts [OF assms(2)])
  obtain cg where cg: "cg \<in> set f" "shapesOf (Containment_of cg) = Some (cv_Shapes cv)"
    using BuildFleetView_Some [OF assms(1) p(1)] by blast
  obtain g where g: "Containment_of cg = Some g"
    using cg(2) p(2) by (cases "Containment_of cg") (auto simp: shapesOf_def)
  let ?k = "(sh_Cores s, sh_GPUs s, sh_MemGB s)"
  let ?ok = "\<lambda>v. adequate g (pr_Jobspec p) (v_id v)"
  have "?ok v" if "v \<in> set (verticesOfType g ''node'')" "with_capacity g ?k v" for v
  proof -
    have "0 \<le> sh_GPUs s" "0 \<le> sh_MemGB s"
      using assms(3) [OF cg(1) g] that by (auto simp: sound_capacities_def list_all_iff with_capacity_def)
    then show ?thesis
      using that(2) p by (auto simp: adequate_def with_capacity_def fits_node_def)
  qed
  then have "filter (with_capacity g ?k) (verticesOfType g ''node'') =
      filter (with_capacity g ?k) (filter ?ok (verticesOfType g ''node''))"
    unfolding filter_filter by (intro filter_cong) auto
  then have "length (filter (with_capacity g ?k) (verticesOfType g ''node'')) \<le>
      length (filter ?ok (verticesOfType g ''node''))"
    by (metis length_filter_le)
  moreover have "n \<le> int (length (filter (with_capacity g ?k) (verticesOfType g ''node'')))"
    using p(5) shapesOf_counts [OF cg(2) [unfolded g] p(2)] by simp
  ultimately have "Nodes (pr_Jobspec p) \<le> int (length (filter ?ok (verticesOfType g ''node'')))"
    unfolding p(12) by linarith
  then show ?thesis
    using cg(1) g p(3,10-13) by auto
qed

definition two_node_job :: jobspec where
  "two_node_job = New ''j'' '''' [''true''] 2 4 0 []"

lemma two_node_counts: "counts two_node_job = (2, 4, 0, 0)"
  using counts_Containment [of two_node_job 2 4 0 0] by (simp add: two_node_job_def New_def)

lemma two_node_needs:
  "Nodes two_node_job = 2" "CoresPerNode two_node_job = 4" "GPUsPerNode two_node_job = 0"
  "MemGBPerNode two_node_job = 0" "total_cores two_node_job = 8"
  by (simp_all add: Nodes_def CoresPerNode_def GPUsPerNode_def MemGBPerNode_def two_node_counts
      total_cores_def max1_def i64_def)

lemma demo_capacity:
  "nodeCapacity \<lparr>g_nodes = [v0 ''0'' ''cluster'' 1, v0 ''1'' ''node'' 1, v0 ''2'' ''core'' 8],
     g_edges = [e0 ''0'' ''1'', e0 ''1'' ''2'']\<rparr> ''1'' = Some (8, 0, 0)"
  by (simp add: v0_def meta_def nodeCapacity_def below_def depth_bound_def byID_def children_def e0_def
      add_capacity_def vsize_def i64_def eval_nat_numeral)

lemma demo_nodes:
  "verticesOfType \<lparr>g_nodes = [v0 ''0'' ''cluster'' 1, v0 ''1'' ''node'' 1, v0 ''2'' ''core'' 8],
     g_edges = [e0 ''0'' ''1'', e0 ''1'' ''2'']\<rparr> ''node'' = [v0 ''1'' ''node'' 1]"
  by (simp add: verticesOfType_def v0_def meta_def)

definition demo_view :: "clusterView list" where
  "demo_view = [\<lparr>cv_ID = ''c1'', cv_Caps = [],
     cv_Shapes = [\<lparr>sh_Cores = 8, sh_GPUs = 0, sh_MemGB = 0, sh_Count = 1\<rparr>]\<rparr>]"

lemma demo_BuildFleetView: "BuildFleetView [one_node ''c1'' []] = Some demo_view"
proof -
  have "v_id (v0 ''1'' ''node'' 1) = ''1''" by (simp add: v0_def)
  then have "shapesOf (Containment_of (one_node ''c1'' [])) =
      Some [\<lparr>sh_Cores = 8, sh_GPUs = 0, sh_MemGB = 0, sh_Count = 1\<rparr>]"
    by (simp add: shapesOf_def demo_Containment demo_nodes demo_capacity tally_of_def)
  then show ?thesis
    by (simp add: demo_view_def caps_of_def one_node_def ContainmentSubsystem_def)
qed

lemma demo_Propose: "Propose two_node_job demo_view = Some
  \<lparr>pr_Jobspec = two_node_job\<lparr>js_resources := Containment 1 8 0 0\<rparr>,
   pr_Rationale = repack_note 8 2 1 8 ''c1'' 8, pr_Relaxations = []\<rparr>"
  by (simp add: demo_view_def view_satisfies_def RequiredTypes_def two_node_needs repackOntoShape_def
      repack_loop.simps) (simp add: two_node_job_def New_def)

theorem Propose_fits_witness:
  "\<exists>p. Propose two_node_job demo_view = Some p \<and> Nodes (pr_Jobspec p) * CoresPerNode (pr_Jobspec p) = 8"
proof -
  have "sound_capacities g" if "cg \<in> set [one_node ''c1'' []]" "Containment_of cg = Some g" for cg g
    using that demo_capacity
    by (auto simp: demo_Containment sound_capacities_def demo_nodes) (simp_all add: v0_def)
  from Propose_fits [OF demo_BuildFleetView demo_Propose this] show ?thesis
    using demo_Propose two_node_needs(5) by auto
qed

text \<open>
  Repacking does not preserve everything its documentation names: a job that states its
  tasks per slot has, after a proposal, as many tasks per slot on the new number of nodes, and
  the gpus needed per node are asked for on every new node, so the total number of tasks and
  the total gpu need scale with the node count.
\<close>

theorem Propose_rescales:
  assumes "Propose js view = Some p" "js_tasks js = t # ts"
    and "map_of (t_count t) ''total'' = None" "map_of (t_count t) ''per_slot'' = Some ps" "0 < ps"
  shows "TasksTotal js = i64 (Nodes js * ps) \<and> TasksTotal (pr_Jobspec p) = i64 (Nodes (pr_Jobspec p) * ps) \<and>
    GPUsPerNode (pr_Jobspec p) = max 0 (GPUsPerNode js)"
proof -
  obtain r where r: "pr_Jobspec p = js\<lparr>js_resources := r\<rparr>" "GPUsPerNode (pr_Jobspec p) = max 0 (GPUsPerNode js)"
    using Propose_counts [OF assms(1)] by metis
  then show ?thesis using assms(2-5) by (simp add: TasksTotal_def Let_def)
qed

theorem Propose_rescales_witness:
  "\<exists>p. Propose two_node_job demo_view = Some p \<and> TasksTotal two_node_job = 2 \<and> TasksTotal (pr_Jobspec p) = 1"
proof -
  have t: "js_tasks two_node_job = \<lparr>t_command = [''true''], t_slot = ''default'', t_count = [(''per_slot'', 1)]\<rparr> # []"
    by (simp add: two_node_job_def New_def)
  have "Nodes (two_node_job\<lparr>js_resources := Containment 1 8 0 0\<rparr>) = 1"
    using counts_Containment [of "two_node_job\<lparr>js_resources := Containment 1 8 0 0\<rparr>" 1 8 0 0]
    by (simp add: Nodes_def)
  then show ?thesis
    using Propose_rescales [OF demo_Propose t, of 1] demo_Propose two_node_needs(1) by (auto simp: i64_def)
qed

end
