(* ===== verification/Manager.thy ===== *)
theory Manager
  imports Validate Reconcile
begin

text \<open>
  Package \<open>pkg/manager\<close>, file \<open>manager.go\<close>: submission, registration, the schedule pass,
  the inline dispatcher, the inline monitor and cancellation. The manager's collaborators are
  the fields of an environment record: the matcher, the policy, the scorer, the transformer,
  the driver registries and the reconciler. \<open>'m\<close> is the state of the matcher, \<open>'w\<close> that of
  the clusters and the agent outside. The queue is the in-memory one, whose operations do not
  fail. A schedule pass is an option because the matcher's \<open>Evaluate\<close> is.
\<close>

section \<open>State and environment\<close>

datatype stage = StDispatch | StRepair string | StMonitor

record ('m, 'w) mgr =
  mg_Fleet :: fleet
  mg_Queue :: memory
  mg_Matcher :: 'm
  mg_World :: 'w
  mg_seq :: nat
  mg_now :: int
  mg_draws :: nat
  mg_Stages :: "(stage \<times> string) list"

text \<open>
  \<open>ev_staged\<close> is the choice of dispatcher: inline, or the staged one that inserts a durable
  job for the dispatch stage and owns monitoring. \<open>ev_seed\<close> gives the shuffle seeds in the
  order they are drawn, \<open>ev_source\<close> the draws of a seed.
\<close>

record ('m, 'w) env =
  ev_Matcher :: "'m matcher"
  ev_Policy :: policy
  ev_Scorer :: scorer
  ev_Transform :: "'w \<Rightarrow> jobspec \<Rightarrow> cluster_graph \<Rightarrow> 'w \<times> (string + content)"
  ev_Repair :: "('w \<Rightarrow> jobspec \<Rightarrow> cluster_graph \<Rightarrow> string \<Rightarrow> string \<Rightarrow> 'w \<times> (string + content)) option"
  ev_Drivers :: "'w registry"
  ev_RealDrivers :: "'w registry option"
  ev_Reconciler :: "(jobspec \<Rightarrow> clusterView list \<Rightarrow> proposal option) option"
  ev_AutoResubmit :: bool
  ev_validate :: "cluster_graph \<Rightarrow> content \<Rightarrow> verdict \<times> string"
  ev_staged :: bool
  ev_source :: "int \<Rightarrow> nat \<Rightarrow> nat"
  ev_seed :: "nat \<Rightarrow> int"

definition q_Update :: "job \<Rightarrow> ('m, 'w) mgr \<Rightarrow> ('m, 'w) mgr" where
  "q_Update j s = s\<lparr>mg_Queue := Update (mg_now s) j (mg_Queue s)\<rparr>"

section \<open>Submission\<close>

text \<open>\<open>pad\<close> fills four decimal places from the right and drops the digits beyond them.\<close>

fun pad_loop :: "nat \<Rightarrow> nat \<Rightarrow> string \<Rightarrow> string" where
  "pad_loop 0 n s = s"
| "pad_loop (Suc i) n s =
     (if n > 0 then pad_loop i (n div 10) (s[i := char_of (48 + n mod 10)]) else s)"

definition pad :: "nat \<Rightarrow> string" where
  "pad n = pad_loop 4 n ''0000''"

definition jobID :: "nat \<Rightarrow> string" where
  "jobID n = ''job-'' @ pad n"

definition Submit :: "jobspec \<Rightarrow> ('m, 'w) mgr \<Rightarrow> ('m, 'w) mgr \<times> string" where
  "Submit js s =
     (let n = mg_seq s + 1;
          i = jobID n;
          j = fresh_job i js (mg_now s)
      in (s\<lparr>mg_seq := n, mg_Queue := Enqueue (mg_now s) j (mg_Queue s)\<rparr>, i))"

definition setNote :: "job \<Rightarrow> string \<Rightarrow> ('m, 'w) mgr \<Rightarrow> ('m, 'w) mgr" where
  "setNote j note s = (if jb_Note j \<noteq> note then q_Update (j\<lparr>jb_Note := note\<rparr>) s else s)"

section \<open>Registration\<close>

text \<open>The three bytes of the dash the messages hold.\<close>

definition dash :: string where
  "dash = map char_of [226, 128, 148 :: nat]"

definition not_implemented :: "string \<Rightarrow> string" where
  "not_implemented m = ''not implemented: no real driver for manager '' @ go_quote m @
     '' yet '' @ dash @ '' register with --config emulate=true to simulate it''"

definition RegisterCluster ::
  "('m, 'w) env \<Rightarrow> cluster_graph \<Rightarrow> ('m, 'w) mgr \<Rightarrow> ('m, 'w) mgr \<times> string option" where
  "RegisterCluster e cg s =
     (if \<not> Emulated cg \<and> (case ev_RealDrivers e of None \<Rightarrow> False
           | Some r \<Rightarrow> (case reg_For r (cg_Manager cg) of Inl _ \<Rightarrow> True | Inr _ \<Rightarrow> False))
      then (s, Some (not_implemented (cg_Manager cg)))
      else
        (let fleet = fl_Add cg (mg_Fleet s);
             (m', err) = mt_AddCluster (ev_Matcher e) (mg_Matcher s) cg
         in case err of
              Some e \<Rightarrow> (s\<lparr>mg_Fleet := snd (fl_Remove (cg_ID cg) fleet), mg_Matcher := m'\<rparr>, Some e)
            | None \<Rightarrow> (s\<lparr>mg_Fleet := fleet, mg_Matcher := m'\<rparr>, None)))"

definition UnregisterCluster ::
  "('m, 'w) env \<Rightarrow> string \<Rightarrow> ('m, 'w) mgr \<Rightarrow> ('m, 'w) mgr \<times> bool" where
  "UnregisterCluster e i s =
     (let (m', err) = mt_RemoveCluster (ev_Matcher e) (mg_Matcher s) i;
          (ok, fleet) = fl_Remove i (mg_Fleet s)
      in (s\<lparr>mg_Fleet := fleet, mg_Matcher := m'\<rparr>, ok))"

definition RegisterSubsystem ::
  "('m, 'w) env \<Rightarrow> string \<Rightarrow> string \<Rightarrow> jgf \<Rightarrow> bool \<Rightarrow> ('m, 'w) mgr \<Rightarrow> ('m, 'w) mgr \<times> string option" where
  "RegisterSubsystem e clusterID name g descriptive s =
     (case fl_Get (mg_Fleet s) clusterID of
        None \<Rightarrow> (s, Some (not_registered clusterID))
      | Some cg \<Rightarrow>
          (case mt_AddSubsystem (ev_Matcher e) (mg_Matcher s) clusterID name g descriptive of
             (m', Some err) \<Rightarrow> (s\<lparr>mg_Matcher := m'\<rparr>, Some err)
           | (m', None) \<Rightarrow>
               (s\<lparr>mg_Matcher := m', mg_Fleet := fl_Add (AttachSubsystem name g descriptive cg) (mg_Fleet s)\<rparr>,
                None)))"

definition UnregisterSubsystem ::
  "('m, 'w) env \<Rightarrow> string \<Rightarrow> string \<Rightarrow> ('m, 'w) mgr \<Rightarrow> ('m, 'w) mgr \<times> string option" where
  "UnregisterSubsystem e clusterID name s =
     (case mt_RemoveSubsystem (ev_Matcher e) (mg_Matcher s) clusterID name of
        (m', Some err) \<Rightarrow> (s\<lparr>mg_Matcher := m'\<rparr>, Some err)
      | (m', None) \<Rightarrow>
          (let s' = s\<lparr>mg_Matcher := m'\<rparr> in
           case fl_Get (mg_Fleet s') clusterID of
             None \<Rightarrow> (s', None)
           | Some cg \<Rightarrow> (s'\<lparr>mg_Fleet := fl_Add (snd (DetachSubsystem name cg)) (mg_Fleet s')\<rparr>, None)))"

section \<open>Drivers\<close>

definition driverFor :: "('m, 'w) env \<Rightarrow> cluster_graph \<Rightarrow> string + 'w driver" where
  "driverFor e c =
     (if Emulated c then reg_For (ev_Drivers e) (cg_Manager c)
      else (case ev_RealDrivers e of
              None \<Rightarrow> reg_For (ev_Drivers e) (cg_Manager c)
            | Some r \<Rightarrow> (case reg_For r (cg_Manager c) of
                Inl _ \<Rightarrow> Inl (not_implemented (cg_Manager c)) | Inr d \<Rightarrow> Inr d)))"

definition DispatchMode :: "('m, 'w) env \<Rightarrow> cluster_graph \<Rightarrow> string" where
  "DispatchMode e c =
     (if Emulated c then ''emulated''
      else (case ev_RealDrivers e of
              None \<Rightarrow> ''emulated''
            | Some r \<Rightarrow> (case reg_For r (cg_Manager c) of Inr _ \<Rightarrow> ''real'' | Inl _ \<Rightarrow> ''not-implemented'')))"

definition SupportedManagers :: "('m, 'w) env \<Rightarrow> (string \<times> bool \<times> bool) list" where
  "SupportedManagers e = map (\<lambda>mt. (mt, reg_Has (ev_RealDrivers e) mt, reg_Has (Some (ev_Drivers e)) mt)) KnownManagers"

section \<open>Dispatch\<close>

definition failJob :: "('m, 'w) env \<Rightarrow> job \<Rightarrow> string \<Rightarrow> ('m, 'w) mgr \<Rightarrow> ('m, 'w) mgr" where
  "failJob e j note s =
     (let s = (if jb_AllocID j \<noteq> ''''
               then s\<lparr>mg_Matcher := fst (mt_Free (ev_Matcher e) (mg_Matcher s) (jb_AllocID j))\<rparr> else s)
      in q_Update (j\<lparr>jb_State := Failed, jb_Note := note\<rparr>) s)"

text \<open>\<open>dispatchNow\<close>, its part after the transform first.\<close>

definition submit_to :: "('m, 'w) env \<Rightarrow> cluster_graph \<Rightarrow> content \<Rightarrow> job \<Rightarrow> ('m, 'w) mgr \<Rightarrow> ('m, 'w) mgr" where
  "submit_to e c content j s =
     (case driverFor e c of
        Inl err \<Rightarrow> failJob e j err s
      | Inr drv \<Rightarrow>
          (case dr_Submit drv (mg_World s) c content of
             (w, Inl err) \<Rightarrow> failJob e j (''submit: '' @ err) (s\<lparr>mg_World := w\<rparr>)
           | (w, Inr handle) \<Rightarrow>
               q_Update (j\<lparr>jb_RemoteHandle := handle, jb_State := Running, jb_Note := ''dispatched''\<rparr>)
                 (s\<lparr>mg_World := w\<rparr>)))"

definition dispatchNow :: "('m, 'w) env \<Rightarrow> string \<Rightarrow> ('m, 'w) mgr \<Rightarrow> ('m, 'w) mgr" where
  "dispatchNow e i s =
     (case q_Get (mg_Queue s) i of
        None \<Rightarrow> s
      | Some j \<Rightarrow>
          (case fl_Get (mg_Fleet s) (jb_ClusterID j) of
             None \<Rightarrow> failJob e j ''assigned cluster not found'' s
           | Some c \<Rightarrow>
               (let j = j\<lparr>jb_State := Dispatching\<rparr>;
                    s = q_Update j s
                in case ev_Transform e (mg_World s) (WithJobID (jb_Spec j) (jb_ID j)) c of
                     (w, Inl err) \<Rightarrow> failJob e j (''transform: '' @ err) (s\<lparr>mg_World := w\<rparr>)
                   | (w, Inr content) \<Rightarrow> submit_to e c content j (s\<lparr>mg_World := w\<rparr>))))"

definition Dispatch :: "('m, 'w) env \<Rightarrow> job \<Rightarrow> ('m, 'w) mgr \<Rightarrow> ('m, 'w) mgr" where
  "Dispatch e j s =
     (if ev_staged e then s\<lparr>mg_Stages := mg_Stages s @ [(StDispatch, jb_ID j)]\<rparr>
      else dispatchNow e (jb_ID j) s)"

section \<open>The schedule pass\<close>

definition dispatchable :: "('m, 'w) mgr \<Rightarrow> candidate list \<Rightarrow> candidate list" where
  "dispatchable s cands = filter (\<lambda>c. case fl_Get (mg_Fleet s) (ca_Cluster c) of
     None \<Rightarrow> False | Some cg \<Rightarrow> \<not> Emulated cg) cands"

definition feasibleOnly :: "candidate list \<Rightarrow> candidate list" where
  "feasibleOnly cands = filter ca_Feasible cands"

text \<open>Rank a job's candidates, or keep the matcher's order for a scorer that does not compare.\<close>

definition decide ::
  "('m, 'w) env \<Rightarrow> jobspec \<Rightarrow> candidate list \<Rightarrow> ('m, 'w) mgr \<Rightarrow> candidate list \<times> trace \<times> ('m, 'w) mgr" where
  "decide e js cands s =
     (if sc_NeedsFullSet (ev_Scorer e)
      then (case RankWithTrace (ev_source e) (ev_seed e (mg_draws s)) (ev_Scorer e) js cands of
              (scored, decision) \<Rightarrow> (scored, decision, s\<lparr>mg_draws := mg_draws s + 1\<rparr>))
      else (feasibleOnly cands,
            zero_trace\<lparr>tr_Considered := length cands, tr_Feasible := length (feasibleOnly cands),
              tr_Scorer := sc_Type (ev_Scorer e), tr_Unranked := True,
              tr_Rejected := map rejection_of (filter (\<lambda>c. \<not> ca_Feasible c) cands)\<rparr>, s))"

fun try_place ::
  "('m, 'w) env \<Rightarrow> job \<Rightarrow> trace \<Rightarrow> candidate list \<Rightarrow> ('m, 'w) mgr \<Rightarrow> (('m, 'w) mgr \<times> bool) option" where
  "try_place e j decision [] s = Some (s, False)"
| "try_place e j decision (c # cs) s =
     (case mt_Allocate (ev_Matcher e) (mg_Matcher s) (jb_Spec j) (ca_Cluster c) of
        None \<Rightarrow> None
      | Some (m', Inl err) \<Rightarrow> try_place e j decision cs (s\<lparr>mg_Matcher := m'\<rparr>)
      | Some (m', Inr None) \<Rightarrow> try_place e j decision cs (s\<lparr>mg_Matcher := m'\<rparr>)
      | Some (m', Inr (Some alloc)) \<Rightarrow>
          (let j = j\<lparr>jb_State := Matched, jb_AllocID := al_ID alloc, jb_ClusterID := al_ClusterID alloc,
                    jb_Note := '''', jb_Decision := Some (decision\<lparr>tr_Selected := al_ClusterID alloc\<rparr>)\<rparr>
           in Some (Dispatch e j (q_Update j (s\<lparr>mg_Matcher := m'\<rparr>)), True)))"

definition anyFeasible :: "('m, 'w) env \<Rightarrow> jobspec \<Rightarrow> ('m, 'w) mgr \<Rightarrow> bool option" where
  "anyFeasible e js s = map_option (list_ex ca_Feasible) (mt_Evaluate (ev_Matcher e) (mg_Matcher s) js)"

definition impossible :: string where
  "impossible = ''impossible: no cluster can ever satisfy this job (subsystems or capacity)''"

definition fail_with :: "job \<Rightarrow> string \<Rightarrow> ('m, 'w) mgr \<Rightarrow> ('m, 'w) mgr" where
  "fail_with j note s = q_Update (j\<lparr>jb_State := Failed, jb_Note := note\<rparr>) s"

definition failInfeasible :: "('m, 'w) env \<Rightarrow> job \<Rightarrow> ('m, 'w) mgr \<Rightarrow> ('m, 'w) mgr option" where
  "failInfeasible e j s =
     (case ev_Reconciler e of
        None \<Rightarrow> Some (fail_with j impossible s)
      | Some propose \<Rightarrow>
          (case BuildFleetView (mg_Fleet s) of
             None \<Rightarrow> None
           | Some view \<Rightarrow>
               (case propose (jb_Spec j) view of
                  None \<Rightarrow> Some (fail_with j impossible s)
                | Some prop \<Rightarrow>
                    (case anyFeasible e (pr_Jobspec prop) s of
                       None \<Rightarrow> None
                     | Some False \<Rightarrow> Some (fail_with j impossible s)
                     | Some True \<Rightarrow>
                         (let j = j\<lparr>jb_SuggestedSpec := Some (pr_Jobspec prop), jb_Suggestion := pr_Rationale prop\<rparr>;
                              note = ''impossible as submitted; suggested: '' @ pr_Rationale prop
                          in if ev_AutoResubmit e
                             then (case Submit (pr_Jobspec prop) s of (s, nid) \<Rightarrow>
                                     Some (fail_with j (note @ '' (auto-resubmitted as '' @ nid @ '')'') s))
                             else Some (fail_with j note s))))))"

definition emulated_note :: "nat \<Rightarrow> string" where
  "emulated_note n = ''waiting: feasible only on '' @ itoa n @
     '' emulated (satisfy-only) cluster(s) '' @ dash @ '' register a real dispatch target''"

definition full_note :: "nat \<Rightarrow> string" where
  "full_note n = ''waiting: '' @ itoa n @ '' feasible cluster(s), none with free capacity''"

text \<open>One iteration of the pass: the new state, and whether a blocked job stops the pass.\<close>

definition schedule_job ::
  "('m, 'w) env \<Rightarrow> string \<Rightarrow> ('m, 'w) mgr \<Rightarrow> (('m, 'w) mgr \<times> bool) option" where
  "schedule_job e i s =
     (case q_Get (mg_Queue s) i of
        None \<Rightarrow> Some (s, False)
      | Some j \<Rightarrow>
          (if jb_State j \<noteq> Submitted then Some (s, False)
           else (case mt_Evaluate (ev_Matcher e) (mg_Matcher s) (jb_Spec j) of
             None \<Rightarrow> None
           | Some cands \<Rightarrow>
               (if feasibleOnly cands = [] then map_option (\<lambda>s. (s, False)) (failInfeasible e j s)
                else (case decide e (jb_Spec j) cands s of (scored, decision, s) \<Rightarrow>
                  (let ranked = dispatchable s scored;
                       block = po_HeadOfLineBlock (ev_Policy e);
                       n = length (feasibleOnly cands)
                   in if ranked = [] then Some (setNote j (emulated_note n) s, block)
                      else (case try_place e j decision ranked s of
                              None \<Rightarrow> None
                            | Some (s, True) \<Rightarrow> Some (s, False)
                            | Some (s, False) \<Rightarrow> Some (setNote j (full_note n) s, block))))))))"

fun schedule_loop :: "('m, 'w) env \<Rightarrow> job list \<Rightarrow> ('m, 'w) mgr \<Rightarrow> ('m, 'w) mgr option" where
  "schedule_loop e [] s = Some s"
| "schedule_loop e (ordered # rest) s =
     (case schedule_job e (jb_ID ordered) s of
        None \<Rightarrow> None
      | Some (s, True) \<Rightarrow> Some s
      | Some (s, False) \<Rightarrow> schedule_loop e rest s)"

definition scheduleOnce :: "('m, 'w) env \<Rightarrow> ('m, 'w) mgr \<Rightarrow> ('m, 'w) mgr option" where
  "scheduleOnce e s =
     (let prov = Provisional (mg_Queue s) in
      if fl_Len (mg_Fleet s) = 0
      then Some (fold (\<lambda>j. setNote j ''waiting: no clusters registered'') prov s)
      else schedule_loop e (po_Order (ev_Policy e) prov) s)"

definition Satisfy :: "('m, 'w) env \<Rightarrow> jobspec \<Rightarrow> ('m, 'w) mgr \<Rightarrow> ((candidate list \<times> trace) \<times> ('m, 'w) mgr) option" where
  "Satisfy e js s =
     (case mt_Evaluate (ev_Matcher e) (mg_Matcher s) js of
        None \<Rightarrow> None
      | Some cands \<Rightarrow>
          Some (RankWithTrace (ev_source e) (ev_seed e (mg_draws s)) (ev_Scorer e) js cands,
                s\<lparr>mg_draws := mg_draws s + 1\<rparr>))"

section \<open>The inline monitor\<close>

definition monitor_job :: "('m, 'w) env \<Rightarrow> job \<Rightarrow> ('m, 'w) mgr \<Rightarrow> ('m, 'w) mgr" where
  "monitor_job e j s =
     (if jb_RemoteHandle j = '''' then s
      else (case fl_Get (mg_Fleet s) (jb_ClusterID j) of
        None \<Rightarrow> s
      | Some c \<Rightarrow>
          (case driverFor e c of
             Inl _ \<Rightarrow> s
           | Inr drv \<Rightarrow>
               (case dr_Status drv (mg_World s) c (jb_RemoteHandle j) of
                  (w, Inl err) \<Rightarrow> s\<lparr>mg_World := w\<rparr>
                | (w, Inr (st, note)) \<Rightarrow>
                    (let s = s\<lparr>mg_World := w\<rparr>;
                         s = (if st \<noteq> jb_State j \<or> note \<noteq> jb_Note j
                              then q_Update (j\<lparr>jb_State := st, jb_Note := note\<rparr>) s else s)
                     in if Terminal st
                        then s\<lparr>mg_Matcher := fst (mt_Free (ev_Matcher e) (mg_Matcher s) (jb_AllocID j))\<rparr>
                        else s)))))"

definition monitorOnce :: "('m, 'w) env \<Rightarrow> ('m, 'w) mgr \<Rightarrow> ('m, 'w) mgr" where
  "monitorOnce e s = fold (monitor_job e) (Active (mg_Queue s)) s"

definition Step :: "('m, 'w) env \<Rightarrow> ('m, 'w) mgr \<Rightarrow> ('m, 'w) mgr option" where
  "Step e s = (case scheduleOnce e s of None \<Rightarrow> None
     | Some s \<Rightarrow> Some (if ev_staged e then s else monitorOnce e s))"

section \<open>Cancellation\<close>

definition freeLocked :: "('m, 'w) env \<Rightarrow> job \<Rightarrow> ('m, 'w) mgr \<Rightarrow> job \<times> ('m, 'w) mgr" where
  "freeLocked e j s =
     (if jb_AllocID j = '''' then (j, s)
      else (j\<lparr>jb_AllocID := ''''\<rparr>,
            s\<lparr>mg_Matcher := fst (mt_Free (ev_Matcher e) (mg_Matcher s) (jb_AllocID j))\<rparr>))"

definition failByID :: "('m, 'w) env \<Rightarrow> string \<Rightarrow> string \<Rightarrow> ('m, 'w) mgr \<Rightarrow> ('m, 'w) mgr" where
  "failByID e i note s =
     (case q_Get (mg_Queue s) i of
        None \<Rightarrow> s
      | Some j \<Rightarrow> (case freeLocked e j s of (j, s) \<Rightarrow>
          q_Update (j\<lparr>jb_State := Failed, jb_Note := note\<rparr>) s))"

definition Cancel :: "('m, 'w) env \<Rightarrow> string \<Rightarrow> ('m, 'w) mgr \<Rightarrow> ('m, 'w) mgr \<times> string option" where
  "Cancel e i s =
     (case q_Get (mg_Queue s) i of
        None \<Rightarrow> (s, Some (''job '' @ go_quote i @ '' not found''))
      | Some j \<Rightarrow>
          (if Terminal (jb_State j) then (s, None)
           else
             (let (w, cancelErr) =
                (if jb_RemoteHandle j \<noteq> '''' \<and> jb_ClusterID j \<noteq> ''''
                 then (case fl_Get (mg_Fleet s) (jb_ClusterID j) of
                         None \<Rightarrow> (mg_World s, None)
                       | Some c \<Rightarrow>
                           (case driverFor e c of
                              Inl _ \<Rightarrow> (mg_World s, None)
                            | Inr drv \<Rightarrow> dr_Cancel drv (mg_World s) c (jb_RemoteHandle j)))
                 else (mg_World s, None));
                  note = (case cancelErr of None \<Rightarrow> ''cancelled'' | Some err \<Rightarrow> ''cancelled (remote: '' @ err @ '')'')
              in (failByID e i note (s\<lparr>mg_World := w\<rparr>), None))))"

definition CancelAll :: "('m, 'w) env \<Rightarrow> ('m, 'w) mgr \<Rightarrow> ('m, 'w) mgr \<times> string list" where
  "CancelAll e s =
     (let ids = map jb_ID (filter (\<lambda>j. \<not> Terminal (jb_State j)) (All (mg_Queue s)))
      in (fold (\<lambda>i s. fst (Cancel e i s)) ids s, ids))"

definition Logs :: "('m, 'w) env \<Rightarrow> string \<Rightarrow> ('m, 'w) mgr \<Rightarrow> string + string" where
  "Logs e i s =
     (case q_Get (mg_Queue s) i of
        None \<Rightarrow> Inl (''job '' @ i @ '' not found'')
      | Some j \<Rightarrow>
          (case fl_Get (mg_Fleet s) (jb_ClusterID j) of
             None \<Rightarrow> Inl (''cluster '' @ jb_ClusterID j @ '' not found'')
           | Some c \<Rightarrow>
               (case driverFor e c of
                  Inl err \<Rightarrow> Inl err
                | Inr drv \<Rightarrow> dr_Logs drv (mg_World s) c (jb_RemoteHandle j))))"

section \<open>Job ids\<close>

lemma char_of_48: "char_of (48 :: nat) = CHR ''0''"
  by code_simp

lemma pad_loop_zero [simp]: "pad_loop i 0 s = s"
  by (cases i) simp_all

definition digit :: "nat \<Rightarrow> char" where
  "digit d = char_of (48 + d)"

lemma pad_step:
  "s ! i = digit 0 \<Longrightarrow> pad_loop (Suc i) n s = pad_loop i (n div 10) (s[i := digit (n mod 10)])"
proof (cases "n = 0")
  case True
  assume "s ! i = digit 0"
  then have "s[i := digit 0] = s" by (metis list_update_id)
  then show ?thesis using True by simp
qed (simp add: digit_def)

lemma pad_eq: "pad n = [digit (n div 1000 mod 10), digit (n div 100 mod 10), digit (n div 10 mod 10), digit (n mod 10)]"
proof -
  have d: "n div 10 div 10 = n div 100" "n div 100 div 10 = n div 1000"
    by (simp_all add: div_mult2_eq [symmetric])
  have 4: "(4::nat) = Suc (Suc (Suc (Suc 0)))" by simp
  have "''0000'' = [digit 0, digit 0, digit 0, digit 0]" by (simp add: digit_def char_of_48)
  then have "pad n = pad_loop (Suc (Suc (Suc (Suc 0)))) n [digit 0, digit 0, digit 0, digit 0]"
    unfolding pad_def 4 by (rule arg_cong)
  also have "\<dots> = [digit (n div 10 div 10 div 10 mod 10), digit (n div 10 div 10 mod 10), digit (n div 10 mod 10), digit (n mod 10)]"
    by (simp add: pad_step del: pad_loop.simps(2))
  finally show ?thesis unfolding d .
qed

lemma digit_inject: "x < 10 \<Longrightarrow> y < 10 \<Longrightarrow> digit x = digit y \<longleftrightarrow> x = y"
proof -
  assume xy: "x < 10" "y < 10"
  have "of_char (digit x) = 48 + x" "of_char (digit y) = 48 + y"
    using xy by (simp_all add: digit_def)
  then show ?thesis by (metis add_left_cancel)
qed

lemma jobID_eq_iff: "jobID m = jobID n \<longleftrightarrow> m mod 10000 = n mod 10000"
proof -
  have split: "k mod 10000 = 1000 * (k div 1000 mod 10) + 100 * (k div 100 mod 10) + 10 * (k div 10 mod 10) + k mod 10"
    for k :: nat
    using mod_mult2_eq [of k 10 1000] mod_mult2_eq [of "k div 10" 10 100] mod_mult2_eq [of "k div 100" 10 10]
    by (simp add: div_mult2_eq [symmetric])
  have inj: "digit (m div k mod 10) = digit (n div k mod 10) \<longleftrightarrow> m div k mod 10 = n div k mod 10" for k
    by (rule digit_inject) simp_all
  have inj0: "digit (m mod 10) = digit (n mod 10) \<longleftrightarrow> m mod 10 = n mod 10"
    by (rule digit_inject) simp_all
  have thousands: "k div 1000 mod 10 = k mod 10000 div 1000" for k :: nat
    using mod_mult2_eq [of k 1000 10] by simp
  have hundreds: "k div 100 mod 10 = k mod 10000 div 100 mod 10" for k :: nat
    using mod_mult2_eq [of k 100 100] by (simp add: mod_mod_cancel)
  have tens: "k div 10 mod 10 = k mod 10000 div 10 mod 10" for k :: nat
    using mod_mult2_eq [of k 10 1000] by (simp add: mod_mod_cancel)
  have unit: "k mod 10 = k mod 10000 mod 10" for k :: nat by (simp add: mod_mod_cancel)
  show ?thesis
  proof
    assume "jobID m = jobID n"
    then have "m div 1000 mod 10 = n div 1000 mod 10" "m div 100 mod 10 = n div 100 mod 10"
      "m div 10 mod 10 = n div 10 mod 10" "m mod 10 = n mod 10"
      by (simp_all add: jobID_def pad_eq inj inj0)
    then show "m mod 10000 = n mod 10000" unfolding split [of m] split [of n] by simp
  next
    assume "m mod 10000 = n mod 10000"
    then show "jobID m = jobID n"
      unfolding jobID_def pad_eq thousands [of m] thousands [of n] hundreds [of m] hundreds [of n]
        tens [of m] tens [of n] unit [of m] unit [of n] by simp
  qed
qed

lemma jobID_inject: "m < 10000 \<Longrightarrow> n < 10000 \<Longrightarrow> jobID m = jobID n \<longleftrightarrow> m = n"
  by (simp add: jobID_eq_iff)

end
