(* ===== verification/Ledger.thy ===== *)
theory Ledger
  imports Manager
begin

text \<open>
  What the manager owes the matcher. The locale \<open>fleet_matcher\<close> extends the booking contract
  by the registration operations; under it every operation of \<open>manager.go\<close> keeps the books:
  an allocation belongs to at most one job, a live one to a job that is not finished, and a
  submitted job holds none.
\<close>

section \<open>The contract of a fleet matcher\<close>

definition shrinks :: "('m \<Rightarrow> string \<Rightarrow> 'u set) \<Rightarrow> ('m \<Rightarrow> string set) \<Rightarrow> 'm \<Rightarrow> 'm \<Rightarrow> bool" where
  "shrinks owns issued m m' \<longleftrightarrow> issued m' = issued m \<and> (\<forall>a. owns m' a \<subseteq> owns m a)"

locale fleet_matcher =
  booking "\<lambda>m (js, c). mt_Allocate M m js c" "\<lambda>m i. fst (mt_Free M m i)" minv owns issued
  for M :: "'m matcher" and minv owns issued +
  assumes issued_nonempty: "minv m \<Longrightarrow> '''' \<notin> issued m"
    and add_cluster: "minv m \<Longrightarrow> minv (fst (mt_AddCluster M m cg)) \<and> shrinks owns issued m (fst (mt_AddCluster M m cg))"
    and remove_cluster: "minv m \<Longrightarrow> minv (fst (mt_RemoveCluster M m i)) \<and> shrinks owns issued m (fst (mt_RemoveCluster M m i))"
    and add_subsystem: "minv m \<Longrightarrow> minv (fst (mt_AddSubsystem M m i n g d)) \<and>
      shrinks owns issued m (fst (mt_AddSubsystem M m i n g d))"
    and remove_subsystem: "minv m \<Longrightarrow> minv (fst (mt_RemoveSubsystem M m i n)) \<and>
      shrinks owns issued m (fst (mt_RemoveSubsystem M m i n))"

lemma sim_same_owns:
  "sm_live m' = sm_live m \<Longrightarrow> sm_nextID m' = sm_nextID m \<Longrightarrow> shrinks sim_owns sim_issued m m'"
  by (simp add: shrinks_def sim_owns_def sim_issued_def)

lemma sim_shrinks:
  "shrinks sim_owns sim_issued m (fst (sim_AddCluster m cg))"
  "shrinks sim_owns sim_issued m (fst (sim_RemoveCluster m i))"
  "shrinks sim_owns sim_issued m (fst (sim_AddSubsystem m i n g d))"
  "shrinks sim_owns sim_issued m (fst (sim_RemoveSubsystem m i n))"
proof -
  show "shrinks sim_owns sim_issued m (fst (sim_AddCluster m cg))"
    by (rule sim_same_owns) (simp_all add: sim_AddCluster_def Let_def)
  have "sim_issued (fst (sim_RemoveCluster m i)) = sim_issued m"
    by (simp add: sim_issued_def sim_RemoveCluster_def)
  then show "shrinks sim_owns sim_issued m (fst (sim_RemoveCluster m i))"
    by (auto simp: shrinks_def sim_owns_RemoveCluster)
  show "shrinks sim_owns sim_issued m (fst (sim_AddSubsystem m i n g d))"
    by (rule sim_same_owns) (simp_all add: sim_AddSubsystem_def split: option.split)
  show "shrinks sim_owns sim_issued m (fst (sim_RemoveSubsystem m i n))"
    by (rule sim_same_owns) (simp_all add: sim_RemoveSubsystem_def split: option.split prod.split bool.split)
qed

lemma alloc_id_nonempty: "'''' \<notin> sim_issued m"
  by (auto simp: sim_issued_def alloc_id_def)

interpretation sims: fleet_matcher SimMatcher sim_inv sim_owns sim_issued
proof -
  have "booking (\<lambda>m (js, c). mt_Allocate SimMatcher m js c) (\<lambda>m i. fst (mt_Free SimMatcher m i))
      sim_inv sim_owns sim_issued"
    using sim.booking_axioms by (simp add: SimMatcher_def)
  moreover have "fleet_matcher_axioms SimMatcher sim_inv sim_owns sim_issued"
    by unfold_locales (auto simp: SimMatcher_def alloc_id_nonempty sim_shrinks intro: inv_intros)
  ultimately show "fleet_matcher SimMatcher sim_inv sim_owns sim_issued"
    by (rule fleet_matcher.intro)
qed

section \<open>The books\<close>

abbreviation job_at :: "('m, 'w) mgr \<Rightarrow> string \<Rightarrow> job option" where
  "job_at s i \<equiv> q_Get (mg_Queue s) i"

definition books ::
  "('m \<Rightarrow> bool) \<Rightarrow> ('m \<Rightarrow> string \<Rightarrow> 'u set) \<Rightarrow> ('m \<Rightarrow> string set) \<Rightarrow> memory \<Rightarrow> 'm \<Rightarrow> bool" where
  "books minv owns issued q m \<longleftrightarrow>
     queue_inv q \<and> minv m \<and>
     (\<forall>i j. q_Get q i = Some j \<longrightarrow> jb_AllocID j \<noteq> '''' \<longrightarrow> jb_AllocID j \<in> issued m) \<and>
     (\<forall>i j. q_Get q i = Some j \<longrightarrow> jb_State j = Submitted \<longrightarrow> jb_AllocID j = '''') \<and>
     (\<forall>i j i' j'. q_Get q i = Some j \<longrightarrow> q_Get q i' = Some j' \<longrightarrow> i \<noteq> i' \<longrightarrow>
        jb_AllocID j \<noteq> '''' \<longrightarrow> jb_AllocID j \<noteq> jb_AllocID j') \<and>
     (\<forall>a. owns m a \<noteq> {} \<longrightarrow> (\<exists>i j. q_Get q i = Some j \<and> jb_AllocID j = a \<and> \<not> Terminal (jb_State j)))"

definition ids_ok :: "memory \<Rightarrow> nat \<Rightarrow> bool" where
  "ids_ok q n \<longleftrightarrow> (\<forall>i. q_Get q i \<noteq> None \<longrightarrow> (\<exists>k. 1 \<le> k \<and> k \<le> n \<and> i = jobID k))"

text \<open>
  One transition of the books: the matcher goes from \<open>m\<close> to \<open>m'\<close> and one job is stored.
  Whatever is live afterwards belongs to that job or was live before and belongs to another.
\<close>

lemma books_store:
  assumes b: "books minv owns issued q m" and m': "minv m'" "issued m \<subseteq> issued m'"
    and live: "\<And>a. owns m' a \<noteq> {} \<Longrightarrow> (a = jb_AllocID j \<and> \<not> Terminal (jb_State j)) \<or>
      (owns m a \<noteq> {} \<and> (\<forall>old. q_Get q (jb_ID j) = Some old \<longrightarrow> jb_AllocID old \<noteq> a))"
    and alloc: "jb_AllocID j \<noteq> '''' \<Longrightarrow> jb_AllocID j \<in> issued m'"
    and own: "\<And>i j2. jb_AllocID j \<noteq> '''' \<Longrightarrow> i \<noteq> jb_ID j \<Longrightarrow> q_Get q i = Some j2 \<Longrightarrow> jb_AllocID j2 \<noteq> jb_AllocID j"
    and sub: "jb_State j = Submitted \<Longrightarrow> jb_AllocID j = ''''"
  shows "books minv owns issued (Update now j q) m'"
proof -
  have q: "queue_inv q" using b by (simp add: books_def)
  note get = Get_Update [OF q, of now j]
  show ?thesis unfolding books_def
  proof (intro conjI allI impI)
    show "queue_inv (Update now j q)" using q by (rule queue_inv_Update)
    show "minv m'" by fact
  next
    fix i x assume "q_Get (Update now j q) i = Some x" "jb_AllocID x \<noteq> ''''"
    then show "jb_AllocID x \<in> issued m'"
      using b m'(2) alloc by (auto simp: get books_def split: if_splits)
  next
    fix i x assume "q_Get (Update now j q) i = Some x" "jb_State x = Submitted"
    then show "jb_AllocID x = ''''"
      using b sub by (auto simp: get books_def split: if_splits)
  next
    fix i x i' x' assume x: "q_Get (Update now j q) i = Some x" "q_Get (Update now j q) i' = Some x'" "i \<noteq> i'"
      "jb_AllocID x \<noteq> ''''"
    have uniq: "\<And>i j i' j'. q_Get q i = Some j \<Longrightarrow> q_Get q i' = Some j' \<Longrightarrow> i \<noteq> i' \<Longrightarrow>
        jb_AllocID j \<noteq> '''' \<Longrightarrow> jb_AllocID j \<noteq> jb_AllocID j'"
      using b unfolding books_def by blast
    show "jb_AllocID x \<noteq> jb_AllocID x'"
    proof (cases "i = jb_ID j")
      case True
      then show ?thesis using x own [of i' x'] by (auto simp: get)
    next
      case False
      show ?thesis
      proof (cases "i' = jb_ID j")
        case True
        then show ?thesis using x False own [of i x] by (auto simp: get)
      next
        case False
        then show ?thesis using x \<open>i \<noteq> jb_ID j\<close> uniq [of i x i' x'] by (auto simp: get)
      qed
    qed
  next
    fix a assume a: "owns m' a \<noteq> {}"
    show "\<exists>i x. q_Get (Update now j q) i = Some x \<and> jb_AllocID x = a \<and> \<not> Terminal (jb_State x)"
    proof (cases "a = jb_AllocID j \<and> \<not> Terminal (jb_State j)")
      case True
      then show ?thesis by (intro exI [of _ "jb_ID j"]) (simp add: get)
    next
      case False
      then have old: "owns m a \<noteq> {}" "\<And>old. q_Get q (jb_ID j) = Some old \<Longrightarrow> jb_AllocID old \<noteq> a"
        using live [OF a] by auto
      then obtain i x where "q_Get q i = Some x" "jb_AllocID x = a" "\<not> Terminal (jb_State x)"
        using b unfolding books_def by blast
      moreover from this have "i \<noteq> jb_ID j" using old(2) by auto
      ultimately show ?thesis by (intro exI [of _ i] exI [of _ x]) (simp add: get)
    qed
  qed
qed

lemma ids_ok_store: "queue_inv q \<Longrightarrow> ids_ok q n \<Longrightarrow> q_Get q (jb_ID j) \<noteq> None \<Longrightarrow> ids_ok (Update now j q) n"
  by (auto simp: ids_ok_def Get_Update)

context fleet_matcher begin

abbreviation B :: "memory \<Rightarrow> 'm \<Rightarrow> bool" where
  "B \<equiv> books minv owns issued"

lemma free_laws:
  assumes "minv m"
  shows "minv (fst (mt_Free M m i))" "owns (fst (mt_Free M m i)) = (owns m)(i := {})"
    "issued (fst (mt_Free M m i)) = issued m"
  using rel_inv [OF assms] rel_owns [OF assms] rel_issued [OF assms] by auto

lemma grant_laws:
  assumes "minv m" "mt_Allocate M m js c = Some (m', Inr (Some a))"
  shows "minv m'" "al_ID a \<notin> issued m" "issued m' = insert (al_ID a) (issued m)"
    "owns m' = (owns m)(al_ID a := units_of a)"
  using book_inv [OF assms(1), of "(js, c)"] book_grant [OF assms(1), of "(js, c)"] assms(2) by auto

lemma refuse_laws:
  "minv m \<Longrightarrow> mt_Allocate M m js c = Some (m', r) \<Longrightarrow> \<forall>a. r \<noteq> Inr (Some a) \<Longrightarrow> m' = m"
  using book_refuse [of m "(js, c)"] by auto

lemma owns_nonempty: "minv m \<Longrightarrow> owns m a \<noteq> {} \<Longrightarrow> a \<noteq> ''''"
  using owns_issued issued_nonempty by blast

lemma B_facts:
  assumes "B q m"
  shows "queue_inv q" "minv m" "q_Get q i = Some j \<Longrightarrow> jb_AllocID j \<noteq> '''' \<Longrightarrow> jb_AllocID j \<in> issued m"
    "q_Get q i = Some j \<Longrightarrow> jb_State j = Submitted \<Longrightarrow> jb_AllocID j = ''''"
    "q_Get q i = Some j \<Longrightarrow> q_Get q i' = Some j' \<Longrightarrow> i \<noteq> i' \<Longrightarrow> jb_AllocID j \<noteq> '''' \<Longrightarrow>
       jb_AllocID j \<noteq> jb_AllocID j'"
    "owns m a \<noteq> {} \<Longrightarrow> \<exists>i j. q_Get q i = Some j \<and> jb_AllocID j = a \<and> \<not> Terminal (jb_State j)"
  using assms unfolding books_def by blast+

text \<open>
  Storing a job with its allocation as it was.\<close>

lemma B_keep:
  assumes b: "B q m" and j: "q_Get q (jb_ID j) = Some old" "jb_AllocID j = jb_AllocID old"
    and st: "Terminal (jb_State j) \<Longrightarrow> Terminal (jb_State old)"
      "jb_State j = Submitted \<Longrightarrow> jb_AllocID j = ''''"
  shows "B (Update now j q) m"
proof (rule books_store [OF b B_facts(2) [OF b] order_refl])
  fix a assume a: "owns m a \<noteq> {}"
  show "(a = jb_AllocID j \<and> \<not> Terminal (jb_State j)) \<or>
      (owns m a \<noteq> {} \<and> (\<forall>old. q_Get q (jb_ID j) = Some old \<longrightarrow> jb_AllocID old \<noteq> a))"
  proof (cases "a = jb_AllocID j \<and> Terminal (jb_State j)")
    case True
    obtain i x where x: "q_Get q i = Some x" "jb_AllocID x = a" "\<not> Terminal (jb_State x)"
      using B_facts(6) [OF b a] by blast
    then have "i \<noteq> jb_ID j" using True st(1) j(1) by auto
    then have False using B_facts(5) [OF b x(1) j(1)] x(2) True j(2) owns_nonempty [OF B_facts(2) [OF b] a] by auto
    then show ?thesis ..
  next
    case False
    then show ?thesis using a j by auto
  qed
next
  show "jb_AllocID j \<noteq> '''' \<Longrightarrow> jb_AllocID j \<in> issued m"
    using B_facts(3) [OF b j(1)] j(2) by simp
next
  fix i j2 assume "jb_AllocID j \<noteq> ''''" "i \<noteq> jb_ID j" "q_Get q i = Some j2"
  then show "jb_AllocID j2 \<noteq> jb_AllocID j"
    using B_facts(5) [OF b j(1), of i j2] j(2) by auto
qed (use st in auto)

text \<open>
  Storing a job whose allocation, if any, is given back.\<close>

lemma B_release:
  assumes b: "B q m" and j: "q_Get q (jb_ID j) = Some old" "jb_AllocID j = jb_AllocID old \<or> jb_AllocID j = ''''"
    and m': "m' = (if jb_AllocID old = '''' then m else fst (mt_Free M m (jb_AllocID old)))"
    and st: "jb_State j = Submitted \<Longrightarrow> jb_AllocID j = ''''"
  shows "B (Update now j q) m'"
proof (rule books_store [OF b])
  note inv = B_facts(2) [OF b]
  have free: "minv m'" "issued m' = issued m" "owns m' a \<noteq> {} \<Longrightarrow> owns m a \<noteq> {} \<and> a \<noteq> jb_AllocID old" for a
    using inv owns_nonempty [OF inv, of a] by (auto simp: m' free_laws split: if_splits)
  show "minv m'" "issued m \<subseteq> issued m'" using free by auto
  show "(a = jb_AllocID j \<and> \<not> Terminal (jb_State j)) \<or>
      (owns m a \<noteq> {} \<and> (\<forall>old. q_Get q (jb_ID j) = Some old \<longrightarrow> jb_AllocID old \<noteq> a))"
    if "owns m' a \<noteq> {}" for a
    using free(3) [OF that] j(1) by auto
  show "jb_AllocID j \<noteq> '''' \<Longrightarrow> jb_AllocID j \<in> issued m'"
    using B_facts(3) [OF b j(1)] j(2) free(2) by auto
  show "jb_AllocID j2 \<noteq> jb_AllocID j"
    if "jb_AllocID j \<noteq> ''''" "i \<noteq> jb_ID j" "q_Get q i = Some j2" for i j2
    using B_facts(5) [OF b j(1) that(3)] j(2) that by auto
qed (use st in auto)

text \<open>
  Storing a job with an allocation just granted.\<close>

lemma B_grant:
  assumes b: "B q m" and g: "mt_Allocate M m js c = Some (m', Inr (Some a))"
    and j: "q_Get q (jb_ID j) = Some old" "jb_AllocID old = ''''" "jb_AllocID j = al_ID a"
      "\<not> Terminal (jb_State j)" "jb_State j \<noteq> Submitted"
  shows "B (Update now j q) m'"
proof (rule books_store [OF b])
  note inv = B_facts(2) [OF b]
  note l = grant_laws [OF inv g]
  show "minv m'" "issued m \<subseteq> issued m'" using l by auto
  show "(x = jb_AllocID j \<and> \<not> Terminal (jb_State j)) \<or>
      (owns m x \<noteq> {} \<and> (\<forall>old. q_Get q (jb_ID j) = Some old \<longrightarrow> jb_AllocID old \<noteq> x))"
    if "owns m' x \<noteq> {}" for x
    using that j owns_nonempty [OF inv, of x] by (auto simp: l(4) split: if_splits)
  show "jb_AllocID j \<in> issued m'" using l j by simp
  show "jb_AllocID j2 \<noteq> jb_AllocID j"
    if "jb_AllocID j \<noteq> ''''" "q_Get q i = Some j2" for i j2
    using B_facts(3) [OF b that(2)] l(2) j(3) that(1) by auto
qed (use j in auto)

text \<open>
  A registration change of the matcher.\<close>

lemma B_shrink:
  assumes "B q m" "minv m' \<and> shrinks owns issued m m'"
  shows "B q m'"
proof -
  have live: "\<And>a. owns m' a \<noteq> {} \<Longrightarrow> owns m a \<noteq> {}" and iss: "issued m' = issued m"
    using assms(2) by (auto simp: shrinks_def)
  have "\<forall>a. owns m' a \<noteq> {} \<longrightarrow> (\<exists>i j. q_Get q i = Some j \<and> jb_AllocID j = a \<and> \<not> Terminal (jb_State j))"
    using B_facts(6) [OF assms(1)] live by presburger
  then show ?thesis using assms unfolding books_def iss by simp
qed

section \<open>The operations of the manager\<close>

abbreviation ok :: "('m, 'w) mgr \<Rightarrow> bool" where
  "ok s \<equiv> B (mg_Queue s) (mg_Matcher s) \<and> ids_ok (mg_Queue s) (mg_seq s)"

lemma ok_get_ID: "ok s \<Longrightarrow> job_at s i = Some j \<Longrightarrow> jb_ID j = i"
  using Get_ID B_facts(1) by blast

lemma ok_keep:
  assumes "ok s" "job_at s (jb_ID j) = Some old" "jb_AllocID j = jb_AllocID old"
    "Terminal (jb_State j) \<Longrightarrow> Terminal (jb_State old)" "jb_State j = Submitted \<Longrightarrow> jb_AllocID j = ''''"
  shows "ok (q_Update j s)"
  using assms B_keep [of "mg_Queue s" "mg_Matcher s" j old] ids_ok_store [of "mg_Queue s" "mg_seq s" j]
    B_facts(1) [of "mg_Queue s" "mg_Matcher s"]
  by (simp add: q_Update_def)

lemma job_at_q_Update:
  "ok s \<Longrightarrow> job_at (q_Update j s) i = (if i = jb_ID j then Some (j\<lparr>jb_UpdatedAt := mg_now s\<rparr>) else job_at s i)"
  using B_facts(1) [of "mg_Queue s" "mg_Matcher s"] by (simp add: q_Update_def Get_Update)

lemma q_Update_same [simp]:
  "mg_seq (q_Update j s) = mg_seq s" "mg_Fleet (q_Update j s) = mg_Fleet s" "mg_now (q_Update j s) = mg_now s"
  "mg_Matcher (q_Update j s) = mg_Matcher s" "mg_World (q_Update j s) = mg_World s"
  by (simp_all add: q_Update_def)

lemma ok_release:
  assumes "ok s" "job_at s (jb_ID j) = Some old" "jb_AllocID j = jb_AllocID old \<or> jb_AllocID j = ''''"
    "jb_State j = Submitted \<Longrightarrow> jb_AllocID j = ''''"
    "mg_Queue s' = Update now j (mg_Queue s)" "mg_seq s' = mg_seq s"
    "mg_Matcher s' = (if jb_AllocID old = '''' then mg_Matcher s else fst (mt_Free M (mg_Matcher s) (jb_AllocID old)))"
  shows "ok s'"
  using assms B_release [of "mg_Queue s" "mg_Matcher s" j old "mg_Matcher s'" now]
    ids_ok_store [of "mg_Queue s" "mg_seq s" j now] B_facts(1) [of "mg_Queue s" "mg_Matcher s"]
  by simp

lemma ok_failJob:
  assumes "ev_Matcher e = M" "ok s" "job_at s (jb_ID j) = Some old" "jb_AllocID j = jb_AllocID old"
  shows "ok (failJob e j note s)"
  by (rule ok_release [where j = "j\<lparr>jb_State := Failed, jb_Note := note\<rparr>" and old = old and now = "mg_now s", OF assms(2)])
    (use assms in \<open>auto simp: failJob_def q_Update_def Let_def\<close>)

lemma ok_setNote:
  "ok s \<Longrightarrow> job_at s (jb_ID j) = Some j \<Longrightarrow> ok (setNote j note s)"
  using ok_keep [of s "j\<lparr>jb_Note := note\<rparr>" j] B_facts(4) [of "mg_Queue s" "mg_Matcher s" "jb_ID j" j]
  by (auto simp: setNote_def)

text \<open>
  Steps that touch neither the queue, the matcher nor the sequence number.\<close>

lemma ok_frame:
  "ok s \<Longrightarrow> mg_Queue s' = mg_Queue s \<Longrightarrow> mg_Matcher s' = mg_Matcher s \<Longrightarrow> mg_seq s' = mg_seq s \<Longrightarrow> ok s'"
  by simp

lemma ok_submit_to:
  assumes e: "ev_Matcher e = M" and s: "ok s" "job_at s (jb_ID j) = Some old" "jb_AllocID j = jb_AllocID old"
  shows "ok (submit_to e c content j s)"
proof (cases "driverFor e c")
  case (Inl err)
  then show ?thesis using ok_failJob [OF e s] by (simp add: submit_to_def)
next
  case (Inr drv)
  obtain w res where r: "dr_Submit drv (mg_World s) c content = (w, res)"
    by (cases "dr_Submit drv (mg_World s) c content")
  let ?s = "s\<lparr>mg_World := w\<rparr>"
  have s': "ok ?s" "job_at ?s (jb_ID j) = Some old" using s by simp_all
  have "ok (q_Update (j\<lparr>jb_RemoteHandle := h, jb_State := Running, jb_Note := n\<rparr>) ?s)" for h n
    by (rule ok_keep [where old = old]) (use s' s(3) in \<open>auto simp: Terminal_def\<close>)
  then show ?thesis
    using Inr r ok_failJob [OF e s' s(3)] by (cases res) (simp_all add: submit_to_def)
qed

lemma ok_dispatchNow:
  assumes e: "ev_Matcher e = M" and s: "ok s"
  shows "ok (dispatchNow e i s)"
proof (cases "job_at s i")
  case None
  then show ?thesis using s by (simp add: dispatchNow_def)
next
  case (Some j)
  have j: "job_at s (jb_ID j) = Some j" using ok_get_ID [OF s Some] Some by simp
  show ?thesis
  proof (cases "fl_Get (mg_Fleet s) (jb_ClusterID j)")
    case None
    then show ?thesis
      using ok_failJob [OF e s j refl] Some by (simp add: dispatchNow_def)
  next
    case (Some c)
    let ?j = "j\<lparr>jb_State := Dispatching\<rparr>"
    obtain w content where t: "ev_Transform e (mg_World s) (WithJobID (jb_Spec j) (jb_ID j)) c = (w, content)"
      by (cases "ev_Transform e (mg_World s) (WithJobID (jb_Spec j) (jb_ID j)) c")
    let ?s = "(q_Update ?j s)\<lparr>mg_World := w\<rparr>"
    have "ok (q_Update ?j s)"
      by (rule ok_keep [where old = j]) (use s j in \<open>auto simp: Terminal_def\<close>)
    then have s': "ok ?s" by simp
    have j': "job_at ?s (jb_ID ?j) = Some (?j\<lparr>jb_UpdatedAt := mg_now s\<rparr>)"
      using job_at_q_Update [OF s, of ?j "jb_ID ?j"] by simp
    have a: "jb_AllocID ?j = jb_AllocID (?j\<lparr>jb_UpdatedAt := mg_now s\<rparr>)" by simp
    show ?thesis
      using \<open>job_at s i = Some j\<close> Some t ok_failJob [OF e s' j' a] ok_submit_to [OF e s' j' a]
      by (cases content) (simp_all add: dispatchNow_def Let_def)
  qed
qed

end

lemma failInfeasible_cases:
  assumes "failInfeasible e j s = Some s'"
  obtains (failed) k msg where "s' = fail_with k msg s" "jb_ID k = jb_ID j" "jb_AllocID k = jb_AllocID j"
  | (resubmitted) k msg js where "s' = fail_with k msg (fst (Submit js s))" "jb_ID k = jb_ID j"
      "jb_AllocID k = jb_AllocID j"
proof (cases "ev_Reconciler e")
  case None
  then show ?thesis using assms failed [of j impossible] by (simp add: failInfeasible_def)
next
  case (Some propose)
  obtain view where view: "BuildFleetView (mg_Fleet s) = Some view"
    using assms Some by (auto simp: failInfeasible_def split: option.splits)
  show ?thesis
  proof (cases "propose (jb_Spec j) view")
    case None
    then show ?thesis using assms Some view failed [of j impossible] by (simp add: failInfeasible_def)
  next
    case p: (Some p)
    let ?k = "j\<lparr>jb_SuggestedSpec := Some (pr_Jobspec p), jb_Suggestion := pr_Rationale p\<rparr>"
    obtain b where b: "anyFeasible e (pr_Jobspec p) s = Some b"
      using assms Some view p by (auto simp: failInfeasible_def split: option.splits)
    show ?thesis
      using assms Some view p b failed [of j impossible] failed [of ?k] resubmitted [of ?k]
      by (cases b) (auto simp: failInfeasible_def Let_def case_prod_unfold split: if_splits)
  qed
qed

context fleet_matcher begin

lemma ok_Dispatch: "ev_Matcher e = M \<Longrightarrow> ok s \<Longrightarrow> ok (Dispatch e j s)"
  using ok_dispatchNow [of e s "jb_ID j"] by (simp add: Dispatch_def)

lemma refused_same:
  assumes "ok s" "mt_Allocate M (mg_Matcher s) js c = Some (m', r)" "\<forall>a. r \<noteq> Inr (Some a)"
  shows "s\<lparr>mg_Matcher := m'\<rparr> = s"
  using refuse_laws [OF _ assms(2,3)] B_facts(2) assms(1) by auto

lemma ok_try_place:
  assumes "ev_Matcher e = M" "ok s" "job_at s (jb_ID j) = Some j" "jb_State j = Submitted"
    and "try_place e j d cs s = Some (s', b)"
  shows "ok s' \<and> (\<not> b \<longrightarrow> s' = s)"
  using assms(5)
proof (induction cs)
  case (Cons c cs)
  obtain m' r where a: "mt_Allocate M (mg_Matcher s) (jb_Spec j) (ca_Cluster c) = Some (m', r)"
    using Cons.prems assms(1) by (auto split: option.splits)
  show ?case
  proof (cases "\<exists>al. r = Inr (Some al)")
    case True
    then obtain al where al: "r = Inr (Some al)" ..
    define j' where "j' = j\<lparr>jb_State := Matched, jb_AllocID := al_ID al, jb_ClusterID := al_ClusterID al,
      jb_Note := '''', jb_Decision := Some (d\<lparr>tr_Selected := al_ClusterID al\<rparr>)\<rparr>"
    have s': "s' = Dispatch e j' (q_Update j' (s\<lparr>mg_Matcher := m'\<rparr>))" "b"
      using Cons.prems a al assms(1) by (auto simp: j'_def Let_def)
    have "jb_AllocID j = ''''" using B_facts(4) assms(2-4) by blast
    then have "B (Update (mg_now s) j' (mg_Queue s)) m'"
      using B_grant [of "mg_Queue s" "mg_Matcher s" "jb_Spec j" "ca_Cluster c" m' al j' j "mg_now s"] a al assms(2,3)
      by (simp add: j'_def Terminal_def)
    moreover have "ids_ok (Update (mg_now s) j' (mg_Queue s)) (mg_seq s)"
      using assms(2,3) B_facts(1) by (intro ids_ok_store) (auto simp: j'_def)
    ultimately have "ok (q_Update j' (s\<lparr>mg_Matcher := m'\<rparr>))" by (simp add: q_Update_def)
    then show ?thesis using s' ok_Dispatch [OF assms(1)] by simp
  next
    case False
    then have "s\<lparr>mg_Matcher := m'\<rparr> = s" using refused_same [OF assms(2) a] by blast
    then have "try_place e j d cs s = Some (s', b)"
      using Cons.prems a False assms(1) by (auto split: sum.splits option.splits)
    then show ?thesis by (rule Cons.IH)
  qed
qed (use assms in auto)

lemma Submit_simps [simp]:
  "mg_seq (fst (Submit js s)) = mg_seq s + 1" "mg_Matcher (fst (Submit js s)) = mg_Matcher s"
  "mg_Fleet (fst (Submit js s)) = mg_Fleet s" "mg_now (fst (Submit js s)) = mg_now s"
  "mg_Queue (fst (Submit js s)) = Update (mg_now s) (fresh_job (jobID (mg_seq s + 1)) js (mg_now s)) (mg_Queue s)"
  "snd (Submit js s) = jobID (mg_seq s + 1)"
  by (simp_all add: Submit_def Let_def Enqueue_def Update_def)

lemma fresh_job_simps [simp]:
  "jb_ID (fresh_job i js t) = i" "jb_AllocID (fresh_job i js t) = ''''" "jb_State (fresh_job i js t) = Submitted"
  by (simp_all add: fresh_job_def)

lemma ids_fresh: "ids_ok q n \<Longrightarrow> n + 1 < 10000 \<Longrightarrow> q_Get q (jobID (n + 1)) = None"
proof (rule ccontr)
  assume "ids_ok q n" "n + 1 < 10000" "q_Get q (jobID (n + 1)) \<noteq> None"
  then obtain k where "1 \<le> k" "k \<le> n" "jobID (n + 1) = jobID k" unfolding ids_ok_def by blast
  then show False using jobID_inject [of "n + 1" k] \<open>n + 1 < 10000\<close> by simp
qed

lemma ok_Submit:
  assumes "ok s" "mg_seq s + 1 < 10000"
  shows "ok (fst (Submit js s))"
proof -
  have fresh: "job_at s (jobID (mg_seq s + 1)) = None" using assms ids_fresh by blast
  note q = B_facts(1) [of "mg_Queue s" "mg_Matcher s"]
  have "B (mg_Queue (fst (Submit js s))) (mg_Matcher s)"
    unfolding Submit_simps
    by (rule books_store [of _ _ _ "mg_Queue s" "mg_Matcher s"])
      (use assms fresh B_facts(2) [of "mg_Queue s" "mg_Matcher s"] in auto)
  moreover have "ids_ok (mg_Queue (fst (Submit js s))) (mg_seq s + 1)"
    using assms q by (auto simp: ids_ok_def Get_Update) (metis le_Suc_eq)
  ultimately show ?thesis by simp
qed

lemma ok_fail_with:
  assumes "ok s" "job_at s (jb_ID j) = Some old" "jb_AllocID j = ''''" "jb_AllocID old = ''''"
  shows "ok (fail_with j note s)"
  by (rule ok_release [where j = "j\<lparr>jb_State := Failed, jb_Note := note\<rparr>" and old = old and now = "mg_now s"])
    (use assms in \<open>auto simp: fail_with_def q_Update_def\<close>)

lemma ok_failInfeasible:
  assumes "ev_Matcher e = M" "ok s" "job_at s (jb_ID j) = Some j" "jb_State j = Submitted"
    and "failInfeasible e j s = Some s'" "mg_seq s' < 10000"
  shows "ok s'"
proof -
  have a: "jb_AllocID j = ''''" using B_facts(4) assms(2-4) by blast
  have failed: "ok (fail_with k msg s)" if "jb_ID k = jb_ID j" "jb_AllocID k = ''''" for k msg
    using ok_fail_with [OF assms(2), of k j] that assms(3) a by simp
  have sub: "ok (fail_with k msg (fst (Submit js s)))"
    if k: "jb_ID k = jb_ID j" "jb_AllocID k = ''''" and lt: "mg_seq s + 1 < 10000" for k msg js
  proof -
    have "jobID (mg_seq s + 1) \<noteq> jb_ID j" using ids_fresh [of "mg_Queue s" "mg_seq s"] assms(2,3) lt by auto
    then have "job_at (fst (Submit js s)) (jb_ID k) = Some j"
      using assms(2,3) k B_facts(1) [of "mg_Queue s" "mg_Matcher s"] by (simp add: Get_Update)
    then show ?thesis using ok_fail_with [OF ok_Submit [OF assms(2) lt]] k a by blast
  qed
  show ?thesis
    using assms(5)
  proof (cases rule: failInfeasible_cases)
    case (failed k msg)
    then show ?thesis using \<open>\<And>k msg. jb_ID k = jb_ID j \<Longrightarrow> jb_AllocID k = '''' \<Longrightarrow> ok (fail_with k msg s)\<close> a
      by simp
  next
    case (resubmitted k msg js)
    have "mg_seq s + 1 < 10000" using assms(6) resubmitted(1) by (simp add: fail_with_def q_Update_def)
    then show ?thesis using sub [of k msg js] resubmitted a by simp
  qed
qed

end

section \<open>The sequence number never goes back\<close>

lemma seq_same [simp]:
  "mg_seq (failJob e j note s) = mg_seq s" "mg_seq (setNote j note s) = mg_seq s"
  "mg_seq (fail_with j note s) = mg_seq s" "mg_seq (snd (freeLocked e j s)) = mg_seq s"
  by (simp_all add: failJob_def setNote_def fail_with_def freeLocked_def q_Update_def Let_def)

lemma seq_submit_to [simp]: "mg_seq (submit_to e c content j s) = mg_seq s"
  by (auto simp: submit_to_def split: sum.split prod.split)

lemma seq_dispatchNow [simp]: "mg_seq (dispatchNow e i s) = mg_seq s"
  by (auto simp: dispatchNow_def Let_def split: option.split sum.split prod.split)

lemma seq_Dispatch [simp]: "mg_seq (Dispatch e j s) = mg_seq s"
  by (simp add: Dispatch_def)

lemma seq_try_place: "try_place e j d cs s = Some (s', b) \<Longrightarrow> mg_seq s' = mg_seq s"
proof (induction cs arbitrary: s)
  case (Cons c cs)
  then show ?case by (auto simp: Let_def q_Update_def split: option.splits prod.splits sum.splits)
qed simp

lemma seq_decide: "mg_seq (snd (snd (decide e js cands s))) = mg_seq s"
  by (simp add: decide_def case_prod_unfold)

lemma seq_failInfeasible: "failInfeasible e j s = Some s' \<Longrightarrow> mg_seq s \<le> mg_seq s'"
  by (erule failInfeasible_cases) simp_all

lemma seq_schedule_job:
  assumes "schedule_job e i s = Some (s', b)"
  shows "mg_seq s \<le> mg_seq s'"
proof (cases "job_at s i")
  case (Some j)
  show ?thesis
  proof (cases "mt_Evaluate (ev_Matcher e) (mg_Matcher s) (jb_Spec j)")
    case None
    then show ?thesis using assms Some by (simp add: schedule_job_def split: if_splits)
  next
    case cands: (Some cands)
    obtain scored decision s1 where d: "decide e (jb_Spec j) cands s = (scored, decision, s1)"
      by (cases "decide e (jb_Spec j) cands s")
    then have "mg_seq s1 = mg_seq s" using seq_decide [of e "jb_Spec j" cands s] by simp
    then show ?thesis
      using assms Some cands d seq_failInfeasible [of e j s] seq_try_place [of e j decision]
      by (fastforce simp: schedule_job_def Let_def split: if_splits option.splits prod.splits bool.splits)
  qed
qed (use assms in \<open>simp add: schedule_job_def\<close>)

lemma seq_schedule_loop: "schedule_loop e js s = Some s' \<Longrightarrow> mg_seq s \<le> mg_seq s'"
proof (induction js arbitrary: s)
  case (Cons j js)
  then show ?case
    using seq_schedule_job [of e "jb_ID j" s] by (fastforce split: option.splits prod.splits bool.splits)
qed simp

context fleet_matcher begin

lemma ok_decide: "ok s \<Longrightarrow> decide e js cands s = (scored, d, s') \<Longrightarrow> ok s' \<and> mg_Queue s' = mg_Queue s"
  by (auto simp: decide_def split: if_splits prod.splits)

lemma ok_schedule_job:
  assumes e: "ev_Matcher e = M" and s: "ok s" and r: "schedule_job e i s = Some (s', b)" and n: "mg_seq s' < 10000"
  shows "ok s'"
proof (cases "job_at s i")
  case (Some j)
  then have j: "job_at s (jb_ID j) = Some j" using ok_get_ID [OF s] by simp
  show ?thesis
  proof (cases "jb_State j = Submitted \<and> mt_Evaluate M (mg_Matcher s) (jb_Spec j) \<noteq> None")
    case False
    then show ?thesis using r e s Some by (auto simp: schedule_job_def split: if_splits)
  next
    case True
    then obtain cands where c: "mt_Evaluate M (mg_Matcher s) (jb_Spec j) = Some cands" and st: "jb_State j = Submitted"
      by blast
    show ?thesis
    proof (cases "feasibleOnly cands = []")
      case True
      then have "failInfeasible e j s = Some s'"
        using r e s Some c st by (auto simp: schedule_job_def)
      then show ?thesis by (rule ok_failInfeasible [OF e s j st _ n])
    next
      case False
      obtain scored d s1 where d: "decide e (jb_Spec j) cands s = (scored, d, s1)"
        by (cases "decide e (jb_Spec j) cands s")
      have s1: "ok s1" "job_at s1 (jb_ID j) = Some j" using ok_decide [OF s d] j by auto
      show ?thesis
      proof (cases "dispatchable s1 scored = []")
        case True
        then show ?thesis
          using r e Some c st False d ok_setNote [OF s1] by (auto simp: schedule_job_def Let_def)
      next
        case ranked: False
        then obtain s2 p where p: "try_place e j d (dispatchable s1 scored) s1 = Some (s2, p)"
          using r e Some c st False d by (auto simp: schedule_job_def Let_def split: option.splits)
        have s2: "ok s2 \<and> (\<not> p \<longrightarrow> s2 = s1)" by (rule ok_try_place [OF e s1 st p])
        show ?thesis
          using r e Some c st False d ranked p s2 ok_setNote [OF s1]
          by (cases p) (auto simp: schedule_job_def Let_def)
      qed
    qed
  qed
qed (use r s in \<open>simp add: schedule_job_def\<close>)

lemma ok_schedule_loop:
  assumes e: "ev_Matcher e = M"
  shows "ok s \<Longrightarrow> schedule_loop e js s = Some s' \<Longrightarrow> mg_seq s' < 10000 \<Longrightarrow> ok s'"
proof (induction js arbitrary: s)
  case (Cons j js)
  obtain s1 b where r: "schedule_job e (jb_ID j) s = Some (s1, b)"
    using Cons.prems(2) by (auto split: option.splits)
  have rest: "b \<or> schedule_loop e js s1 = Some s'" "b \<longrightarrow> s1 = s'"
    using Cons.prems(2) r by (auto split: bool.splits)
  then have "mg_seq s1 \<le> mg_seq s'" using seq_schedule_loop [of e js s1 s'] by auto
  then have "ok s1" using ok_schedule_job [OF e Cons.prems(1) r] Cons.prems(3) by simp
  then show ?case using rest Cons.IH [of s1] Cons.prems(3) by auto
qed simp

text \<open>
  A pass over a snapshot of the queue: each job is still the stored one when its turn comes.\<close>

lemma ok_fold_snapshot:
  assumes "distinct (map jb_ID js)" "\<And>j. j \<in> set js \<Longrightarrow> job_at s (jb_ID j) = Some j \<and> P j" "ok s"
    and step: "\<And>j s. ok s \<Longrightarrow> job_at s (jb_ID j) = Some j \<Longrightarrow> P j \<Longrightarrow> ok (f j s)"
    and frame: "\<And>j s i. ok s \<Longrightarrow> job_at s (jb_ID j) = Some j \<Longrightarrow> P j \<Longrightarrow> i \<noteq> jb_ID j \<Longrightarrow> job_at (f j s) i = job_at s i"
  shows "ok (fold f js s) \<and> (\<forall>i. i \<notin> jb_ID ` set js \<longrightarrow> job_at (fold f js s) i = job_at s i)"
  using assms(1-3)
proof (induction js arbitrary: s)
  case (Cons j js)
  have "jb_ID x \<noteq> jb_ID j" if "x \<in> set js" for x
    using Cons.prems(1) imageI [OF that, of jb_ID] by auto
  then have "\<And>x. x \<in> set js \<Longrightarrow> job_at (f j s) (jb_ID x) = Some x \<and> P x"
    using frame [OF Cons.prems(3), of j] Cons.prems(2) by simp
  then show ?case
    using Cons.IH [of "f j s"] step [OF Cons.prems(3), of j] frame [OF Cons.prems(3), of j] Cons.prems(1,2) by simp
qed simp

lemma job_at_setNote: "ok s \<Longrightarrow> i \<noteq> jb_ID j \<Longrightarrow> job_at (setNote j note s) i = job_at s i"
  using job_at_q_Update [of s "j\<lparr>jb_Note := note\<rparr>" i] by (simp add: setNote_def)

lemma waiting_pass:
  assumes s: "ok (s :: ('m, 'w) mgr)"
  shows "ok (fold (\<lambda>j. setNote j msg) (Provisional (mg_Queue s)) s) \<and>
    (\<forall>i. i \<notin> jb_ID ` set (Provisional (mg_Queue s)) \<longrightarrow>
       job_at (fold (\<lambda>j. setNote j msg) (Provisional (mg_Queue s)) s) i = job_at s i)"
proof (rule ok_fold_snapshot [where P = "\<lambda>_. True"])
  have q: "queue_inv (mg_Queue s)" using s B_facts(1) by blast
  show "distinct (map jb_ID (Provisional (mg_Queue s)))"
    unfolding Provisional_def by (rule distinct_q_filter [OF q])
  show "job_at s (jb_ID j) = Some j \<and> True" if "j \<in> set (Provisional (mg_Queue s))" for j
    using that q by (simp add: Provisional_def in_q_filter)
next
  fix j i and s :: "('m, 'w) mgr" assume s: "ok s" "job_at s (jb_ID j) = Some j"
  show "ok (setNote j msg s)" by (rule ok_setNote [OF s])
  show "job_at (setNote j msg s) i = job_at s i" if "i \<noteq> jb_ID j"
    by (rule job_at_setNote [OF s(1) that])
qed (rule s)

lemma ok_scheduleOnce:
  assumes e: "ev_Matcher e = M" and s: "ok s" and r: "scheduleOnce e s = Some s'" and n: "mg_seq s' < 10000"
  shows "ok s'"
proof (cases "fl_Len (mg_Fleet s) = 0")
  case True
  then have "s' = fold (\<lambda>j. setNote j ''waiting: no clusters registered'') (Provisional (mg_Queue s)) s"
    using r by (simp add: scheduleOnce_def Let_def)
  then show ?thesis using conjunct1 [OF waiting_pass [OF s]] by blast
next
  case False
  then show ?thesis using r ok_schedule_loop [OF e s _ n] by (simp add: scheduleOnce_def Let_def)
qed

end

text \<open>
  What the drivers under \<open>pkg/cluster\<close> promise: the state they report is never the provisional
  one, which is the queue's own.
\<close>

definition drivers_report :: "('m, 'w) env \<Rightarrow> bool" where
  "drivers_report e \<longleftrightarrow> (\<forall>c drv w h w' st note.
     driverFor e c = Inr drv \<longrightarrow> dr_Status drv w c h = (w', Inr (st, note)) \<longrightarrow> st \<noteq> Submitted)"

context fleet_matcher begin

lemma ok_failByID:
  assumes e: "ev_Matcher e = M" and s: "ok s"
  shows "ok (failByID e i note s)"
proof (cases "job_at s i")
  case (Some j)
  have j: "job_at s (jb_ID j) = Some j" using ok_get_ID [OF s Some] Some by simp
  show ?thesis
  proof (cases "jb_AllocID j = ''''")
    case True
    show ?thesis
      by (rule ok_release [where j = "j\<lparr>jb_State := Failed, jb_Note := note\<rparr>" and old = j and now = "mg_now s", OF s])
        (use True Some e j in \<open>auto simp: failByID_def freeLocked_def q_Update_def\<close>)
  next
    case False
    show ?thesis
      by (rule ok_release [where j = "j\<lparr>jb_AllocID := '''', jb_State := Failed, jb_Note := note\<rparr>" and old = j
          and now = "mg_now s", OF s])
        (use False Some e j in \<open>auto simp: failByID_def freeLocked_def q_Update_def\<close>)
  qed
qed (use s in \<open>simp add: failByID_def\<close>)

lemma ok_world: "ok s \<Longrightarrow> ok (s\<lparr>mg_World := w\<rparr>)"
  by simp

lemma ok_Cancel:
  assumes e: "ev_Matcher e = M" and s: "ok s"
  shows "ok (fst (Cancel e i s))"
  using s ok_failByID [OF e, of "s\<lparr>mg_World := w\<rparr>" for w]
  by (simp add: Cancel_def Let_def case_prod_unfold split: option.split)

lemma ok_CancelAll:
  assumes e: "ev_Matcher e = M"
  shows "ok s \<Longrightarrow> ok (fst (CancelAll e s))"
proof -
  have "ok s \<Longrightarrow> ok (fold (\<lambda>i s. fst (Cancel e i s)) ids s)" for ids
    by (induction ids arbitrary: s) (simp_all add: ok_Cancel [OF e])
  then show "ok s \<Longrightarrow> ok (fst (CancelAll e s))" by (simp add: CancelAll_def Let_def)
qed

lemma ok_monitor_job:
  assumes e: "ev_Matcher e = M" and d: "drivers_report e" and s: "ok s" and j: "job_at s (jb_ID j) = Some j"
    and act: "\<not> Terminal (jb_State j)"
  shows "ok (monitor_job e j s) \<and> (i \<noteq> jb_ID j \<longrightarrow> job_at (monitor_job e j s) i = job_at s i)"
proof (cases "\<exists>c drv w st txt1. jb_RemoteHandle j \<noteq> '''' \<and> fl_Get (mg_Fleet s) (jb_ClusterID j) = Some c \<and>
    driverFor e c = Inr drv \<and> dr_Status drv (mg_World s) c (jb_RemoteHandle j) = (w, Inr (st, txt1))")
  case False
  then show ?thesis using s by (auto simp: monitor_job_def split: option.split sum.split prod.split)
next
  case True
  then obtain c drv w st txt1 where c: "jb_RemoteHandle j \<noteq> ''''" "fl_Get (mg_Fleet s) (jb_ClusterID j) = Some c"
    "driverFor e c = Inr drv" "dr_Status drv (mg_World s) c (jb_RemoteHandle j) = (w, Inr (st, txt1))" by blast
  then have st: "st \<noteq> Submitted" using d unfolding drivers_report_def by blast
  let ?s = "s\<lparr>mg_World := w\<rparr>" and ?j = "j\<lparr>jb_State := st, jb_Note := txt1\<rparr>"
  have s': "ok ?s" "job_at ?s (jb_ID ?j) = Some j" using s j by simp_all
  have inv: "minv (mg_Matcher s)" using s B_facts(2) by blast
  show ?thesis
  proof (cases "Terminal st")
    case False
    have "ok (q_Update ?j ?s)"
      by (rule ok_keep [where old = j]) (use s' False st in auto)
    then show ?thesis using c s' False job_at_q_Update [OF s'(1), of ?j i] by (simp add: monitor_job_def Let_def)
  next
    case True
    let ?r = "(q_Update ?j ?s)\<lparr>mg_Matcher := fst (mt_Free M (mg_Matcher s) (jb_AllocID j))\<rparr>"
    have r: "monitor_job e j s = ?r"
      using c e True act by (auto simp: monitor_job_def Let_def)
    have "B (Update (mg_now s) ?j (mg_Queue s)) (fst (mt_Free M (mg_Matcher s) (jb_AllocID j)))"
    proof (rule books_store)
      show "books minv owns issued (mg_Queue s) (mg_Matcher s)" using s by simp
    next
      fix a assume "owns (fst (mt_Free M (mg_Matcher s) (jb_AllocID j))) a \<noteq> {}"
      then show "(a = jb_AllocID ?j \<and> \<not> Terminal (jb_State ?j)) \<or> (owns (mg_Matcher s) a \<noteq> {} \<and>
          (\<forall>old. q_Get (mg_Queue s) (jb_ID ?j) = Some old \<longrightarrow> jb_AllocID old \<noteq> a))"
        using j free_laws(2) [OF inv, of "jb_AllocID j"] by (auto split: if_splits)
    next
      show "jb_AllocID ?j \<noteq> '''' \<Longrightarrow> jb_AllocID ?j \<in> issued (fst (mt_Free M (mg_Matcher s) (jb_AllocID j)))"
        using B_facts(3) [of "mg_Queue s" "mg_Matcher s" "jb_ID j" j] s j free_laws(3) [OF inv] by simp
    next
      show "jb_AllocID j2 \<noteq> jb_AllocID ?j"
        if "jb_AllocID ?j \<noteq> ''''" "i \<noteq> jb_ID ?j" "q_Get (mg_Queue s) i = Some j2" for i j2
        using B_facts(5) [of "mg_Queue s" "mg_Matcher s" "jb_ID j" j i j2] s j that by auto
    qed (use st free_laws [OF inv] in auto)
    moreover have "ids_ok (Update (mg_now s) ?j (mg_Queue s)) (mg_seq s)"
      using s j B_facts(1) by (intro ids_ok_store) auto
    ultimately show ?thesis
      using job_at_q_Update [OF s'(1), of ?j i] unfolding r by (simp add: q_Update_def)
  qed
qed

lemma ok_monitorOnce:
  assumes e: "ev_Matcher (e :: ('m, 'w) env) = M" and d: "drivers_report e" and s: "ok s"
  shows "ok (monitorOnce e s) \<and>
    (\<forall>i. i \<notin> jb_ID ` set (Active (mg_Queue s)) \<longrightarrow> job_at (monitorOnce e s) i = job_at s i)"
  unfolding monitorOnce_def
proof (rule ok_fold_snapshot [where P = "\<lambda>j. \<not> Terminal (jb_State j)"])
  have q: "queue_inv (mg_Queue s)" using s B_facts(1) by blast
  show "distinct (map jb_ID (Active (mg_Queue s)))"
    unfolding Active_def by (rule distinct_q_filter [OF q])
  show "job_at s (jb_ID j) = Some j \<and> \<not> Terminal (jb_State j)" if "j \<in> set (Active (mg_Queue s))" for j
    using that q by (auto simp: Active_def in_q_filter Terminal_def)
next
  fix j i and s :: "('m, 'w) mgr" assume a: "ok s" "job_at s (jb_ID j) = Some j" "\<not> Terminal (jb_State j)"
  show "ok (monitor_job e j s)" "i \<noteq> jb_ID j \<Longrightarrow> job_at (monitor_job e j s) i = job_at s i"
    using ok_monitor_job [OF e d a, of i] by simp_all
qed (rule s)

lemma seq_monitorOnce: "mg_seq (monitorOnce e s) = mg_seq s"
proof -
  have "mg_seq (fold (monitor_job e) js s) = mg_seq s" for js
  proof (induction js arbitrary: s)
    case (Cons j js)
    have "mg_seq (monitor_job e j s) = mg_seq s"
      by (auto simp: monitor_job_def Let_def split: option.split sum.split prod.split)
    then show ?case using Cons by simp
  qed simp
  then show ?thesis by (simp add: monitorOnce_def)
qed

lemma ok_Step:
  assumes e: "ev_Matcher e = M" and d: "drivers_report e" and s: "ok s" and r: "Step e s = Some s'"
    and n: "mg_seq s' < 10000"
  shows "ok s'"
proof -
  obtain s1 where s1: "scheduleOnce e s = Some s1" "s' = (if ev_staged e then s1 else monitorOnce e s1)"
    using r by (auto simp: Step_def split: option.splits)
  have "mg_seq s1 < 10000" using n s1(2) seq_monitorOnce [of e s1] by (simp split: if_splits)
  then have "ok s1" using ok_scheduleOnce [OF e s s1(1)] by simp
  then show ?thesis using s1(2) conjunct1 [OF ok_monitorOnce [OF e d]] by simp
qed

end

section \<open>Reachable managers\<close>

text \<open>
  One step of the manager: a request, a tick of the loops, or a change outside. The durable
  stage queue and the draws of the shuffle carry no obligation and change with the environment.
\<close>

inductive mgr_step :: "('m, 'w) env \<Rightarrow> ('m, 'w) mgr \<Rightarrow> ('m, 'w) mgr \<Rightarrow> bool" for e where
  submit: "mgr_step e s (fst (Submit js s))"
| reg_cluster: "mgr_step e s (fst (RegisterCluster e cg s))"
| unreg_cluster: "mgr_step e s (fst (UnregisterCluster e i s))"
| reg_subsystem: "mgr_step e s (fst (RegisterSubsystem e i n g d s))"
| unreg_subsystem: "mgr_step e s (fst (UnregisterSubsystem e i n s))"
| tick: "Step e s = Some s' \<Longrightarrow> mgr_step e s s'"
| cancel: "mgr_step e s (fst (Cancel e i s))"
| cancel_all: "mgr_step e s (fst (CancelAll e s))"
| outside: "mgr_step e s (s\<lparr>mg_now := t, mg_World := w, mg_Stages := st, mg_draws := k\<rparr>)"

inductive mgr_reach :: "('m, 'w) env \<Rightarrow> ('m, 'w) mgr \<Rightarrow> ('m, 'w) mgr \<Rightarrow> bool" for e s0 where
  start: "mgr_reach e s0 s0"
| step: "mgr_reach e s0 s \<Longrightarrow> mgr_step e s s' \<Longrightarrow> mg_seq s' < 10000 \<Longrightarrow> mgr_reach e s0 s'"

text \<open>A manager as it starts: nothing queued, no cluster, no allocation.\<close>

definition NewManager :: "'m \<Rightarrow> 'w \<Rightarrow> ('m, 'w) mgr" where
  "NewManager m w = \<lparr>mg_Fleet = [], mg_Queue = NewMemory, mg_Matcher = m, mg_World = w, mg_seq = 0,
     mg_now = 0, mg_draws = 0, mg_Stages = []\<rparr>"

context fleet_matcher begin

lemma ok_RegisterCluster:
  assumes e: "ev_Matcher e = M" and s: "ok s"
  shows "ok (fst (RegisterCluster e cg s))"
proof -
  have "B (mg_Queue s) (fst (mt_AddCluster M (mg_Matcher s) cg))"
    using s B_facts(2) by (intro B_shrink [OF _ add_cluster]) auto
  then show ?thesis using s e by (auto simp: RegisterCluster_def Let_def case_prod_unfold split: option.split)
qed

lemma ok_UnregisterCluster:
  assumes e: "ev_Matcher e = M" and s: "ok s"
  shows "ok (fst (UnregisterCluster e i s))"
proof -
  have "B (mg_Queue s) (fst (mt_RemoveCluster M (mg_Matcher s) i))"
    using s B_facts(2) by (intro B_shrink [OF _ remove_cluster]) auto
  then show ?thesis using s e by (simp add: UnregisterCluster_def case_prod_unfold Let_def)
qed

lemma ok_RegisterSubsystem:
  assumes e: "ev_Matcher e = M" and s: "ok s"
  shows "ok (fst (RegisterSubsystem e i n g d s))"
proof -
  have "B (mg_Queue s) (fst (mt_AddSubsystem M (mg_Matcher s) i n g d))"
    using s B_facts(2) by (intro B_shrink [OF _ add_subsystem]) auto
  then show ?thesis
    using s e by (auto simp: RegisterSubsystem_def split: option.split prod.split)
qed

lemma ok_UnregisterSubsystem:
  assumes e: "ev_Matcher e = M" and s: "ok s"
  shows "ok (fst (UnregisterSubsystem e i n s))"
proof -
  have "B (mg_Queue s) (fst (mt_RemoveSubsystem M (mg_Matcher s) i n))"
    using s B_facts(2) by (intro B_shrink [OF _ remove_subsystem]) auto
  then show ?thesis
    using s e by (auto simp: UnregisterSubsystem_def Let_def split: option.split prod.split)
qed

lemma ok_mgr_step:
  assumes e: "ev_Matcher e = M" "drivers_report e" and s: "ok s" and n: "mg_seq s' < 10000"
    and st: "mgr_step e s s'"
  shows "ok s'"
  using st
proof cases
  case (submit js)
  then show ?thesis using ok_Submit [OF s, of js] n by simp
next
  case tick
  then show ?thesis using ok_Step [OF e s] n by simp
qed (use s e in \<open>simp_all add: ok_RegisterCluster ok_UnregisterCluster ok_RegisterSubsystem
  ok_UnregisterSubsystem ok_Cancel ok_CancelAll\<close>)

lemma ok_new:
  assumes "minv m" "\<And>a. owns m a = {}"
  shows "ok (NewManager m w)"
proof -
  have "q_Get NewMemory i = None" for i by (simp add: q_Get_def NewMemory_def)
  then show ?thesis using assms by (simp add: NewManager_def books_def ids_ok_def)
qed

lemma ok_reach:
  assumes e: "ev_Matcher e = M" "drivers_report e" and m: "minv m" "\<And>a. owns m a = {}"
    and r: "mgr_reach e (NewManager m w) s"
  shows "ok s"
  using r
proof (induction rule: mgr_reach.induct)
  case start
  show ?case by (rule ok_new [OF m])
next
  case (step s s')
  show ?case by (rule ok_mgr_step [OF e step.IH step.hyps(3,2)])
qed

end

section \<open>Properties\<close>

text \<open>
  What the books say about the nodes held.\<close>

lemma books_account:
  assumes ok: "sims.ok s"
  shows "(\<forall>c v. v \<in> held (mg_Matcher s) c \<longrightarrow> (\<exists>!i. \<exists>j. job_at s i = Some j \<and>
      (c, v) \<in> sim_owns (mg_Matcher s) (jb_AllocID j) \<and> \<not> Terminal (jb_State j))) \<and>
    (\<forall>i j. job_at s i = Some j \<longrightarrow> Terminal (jb_State j) \<longrightarrow> sim_owns (mg_Matcher s) (jb_AllocID j) = {}) \<and>
    (\<forall>i j. job_at s i = Some j \<longrightarrow> jb_State j = Submitted \<longrightarrow> jb_AllocID j = '''')"
proof -
  have b: "sims.B (mg_Queue s) (mg_Matcher s)" using ok by blast
  note inv = sims.B_facts(2) [OF b]
  have same: "i = i'"
    if "job_at s i = Some j" "job_at s i' = Some j'" "x \<in> sim_owns (mg_Matcher s) (jb_AllocID j)"
      "x \<in> sim_owns (mg_Matcher s) (jb_AllocID j')" for i i' j j' x
  proof (rule ccontr)
    assume "i \<noteq> i'"
    moreover have "jb_AllocID j \<noteq> ''''" using sims.owns_nonempty [OF inv] that(3) by blast
    ultimately have "jb_AllocID j \<noteq> jb_AllocID j'" using sims.B_facts(5) [OF b that(1,2)] by blast
    then show False using sim_owns_apart [OF inv] that(3,4) by blast
  qed
  have live: "\<exists>i j. job_at s i = Some j \<and> jb_AllocID j = a \<and> \<not> Terminal (jb_State j)"
    if "x \<in> sim_owns (mg_Matcher s) a" for a x
    using that by (intro sims.B_facts(6) [OF b]) blast
  have "\<exists>!i. \<exists>j. job_at s i = Some j \<and> (c, v) \<in> sim_owns (mg_Matcher s) (jb_AllocID j) \<and> \<not> Terminal (jb_State j)"
    if held: "v \<in> held (mg_Matcher s) c" for c v
  proof -
    obtain a where a: "(c, v) \<in> sim_owns (mg_Matcher s) a" using held held_owns [OF inv] by auto
    obtain i j where "job_at s i = Some j" "jb_AllocID j = a" "\<not> Terminal (jb_State j)"
      using live [OF a] by blast
    then show ?thesis using a same by (intro ex1I [of _ i]) blast+
  qed
  moreover have "sim_owns (mg_Matcher s) (jb_AllocID j) = {}"
    if "job_at s i = Some j" "Terminal (jb_State j)" for i j
  proof (rule ccontr)
    assume "sim_owns (mg_Matcher s) (jb_AllocID j) \<noteq> {}"
    then obtain x where x: "x \<in> sim_owns (mg_Matcher s) (jb_AllocID j)" by blast
    then obtain i' j' where j': "job_at s i' = Some j'" "jb_AllocID j' = jb_AllocID j" "\<not> Terminal (jb_State j')"
      using live by blast
    then have "i' = i" using same [OF j'(1) that(1), of x] x by simp
    then show False using j' that by simp
  qed
  moreover have "\<forall>i j. job_at s i = Some j \<longrightarrow> jb_State j = Submitted \<longrightarrow> jb_AllocID j = ''''"
    using sims.B_facts(4) [OF b] by blast
  ultimately show ?thesis by blast
qed


text \<open>
  C1. Every reserved node is accounted for. Whatever sequence of submissions, registrations,
  ticks and cancellations led to a state over the in-process matcher, and whatever the agent
  and the clusters answered, each node the matcher holds belongs to exactly one job, which is
  not finished; a finished job holds nothing and a waiting job has no allocation. So no
  operation leaks or double-spends capacity, while fewer than 10000 jobs have been submitted.
\<close>

theorem allocations_accounted:
  assumes "ev_Matcher e = SimMatcher" "drivers_report e" "mgr_reach e (NewManager empty_sim w) s"
  shows "(\<forall>c v. v \<in> held (mg_Matcher s) c \<longrightarrow> (\<exists>!i. \<exists>j. job_at s i = Some j \<and>
      (c, v) \<in> sim_owns (mg_Matcher s) (jb_AllocID j) \<and> \<not> Terminal (jb_State j))) \<and>
    (\<forall>i j. job_at s i = Some j \<longrightarrow> Terminal (jb_State j) \<longrightarrow> sim_owns (mg_Matcher s) (jb_AllocID j) = {}) \<and>
    (\<forall>i j. job_at s i = Some j \<longrightarrow> jb_State j = Submitted \<longrightarrow> jb_AllocID j = '''')"
  using assms by (intro books_account sims.ok_reach [OF _ _ sim_inv_empty]) (simp_all add: sim_owns_def empty_sim_def)

text \<open>A manager with one cluster and one job, run for one tick.\<close>

definition demo_driver :: "unit driver" where
  "demo_driver = \<lparr>dr_Type = ''flux-uri'', dr_Types = None, dr_Submit = (\<lambda>w c ct. (w, Inr ''f1'')),
     dr_Status = (\<lambda>w c h. (w, Inr (Running, ''running''))), dr_Cancel = (\<lambda>w c h. (w, None)),
     dr_Logs = (\<lambda>w c h. Inr ''hello'')\<rparr>"

definition demo_env :: "scorer \<Rightarrow> bool \<Rightarrow> (sim, unit) env" where
  "demo_env sc staged = \<lparr>ev_Matcher = SimMatcher, ev_Policy = FCFS, ev_Scorer = sc,
     ev_Transform = (\<lambda>w js c. (w, Inr \<lparr>ct_Kind = ''flux'', ct_Payload = ''run''\<rparr>)), ev_Repair = None,
     ev_Drivers = [''flux-uri'' \<mapsto> demo_driver], ev_RealDrivers = None, ev_Reconciler = None,
     ev_AutoResubmit = False, ev_validate = defaultValidate (\<lambda>_. None), ev_staged = staged,
     ev_source = (\<lambda>_ _. 0), ev_seed = (\<lambda>_. 0)\<rparr>"

definition demo_mgr :: "(sim, unit) mgr" where
  "demo_mgr = (NewManager demo_sim ())\<lparr>mg_Fleet := [one_node ''c1'' []], mg_seq := 1,
     mg_Queue := [(''job-0001'', fresh_job ''job-0001'' one_node_job 0)]\<rparr>"

definition placed_mgr :: "(sim, unit) mgr" where
  "placed_mgr = demo_mgr\<lparr>mg_Matcher := booked_sim,
     mg_Queue := [(''job-0001'', (fresh_job ''job-0001'' one_node_job 0)\<lparr>jb_State := Running, jb_AllocID := ''alloc-1'',
       jb_ClusterID := ''c1'', jb_RemoteHandle := ''f1'', jb_Note := ''running'',
       jb_Decision := Some (zero_trace\<lparr>tr_Considered := 1, tr_Feasible := 1, tr_Scorer := sc_Type FirstFeasible,
         tr_Unranked := True, tr_Selected := ''c1''\<rparr>)\<rparr>)]\<rparr>"

lemma jobID_1: "jobID (Suc 0) = ''job-0001''"
  by code_simp

lemma demo_env_simps [simp]:
  "ev_Matcher (demo_env sc b) = SimMatcher" "ev_Scorer (demo_env sc b) = sc" "ev_staged (demo_env sc b) = b"
  "ev_Policy (demo_env sc b) = FCFS" "ev_RealDrivers (demo_env sc b) = None"
  "ev_Drivers (demo_env sc b) = [''flux-uri'' \<mapsto> demo_driver]" "ev_Reconciler (demo_env sc b) = None"
  "ev_Transform (demo_env sc b) = (\<lambda>w js c. (w, Inr \<lparr>ct_Kind = ''flux'', ct_Payload = ''run''\<rparr>))"
  by (simp_all add: demo_env_def)

lemma demo_driver_simps [simp]:
  "dr_Submit demo_driver w c ct = (w, Inr ''f1'')" "dr_Status demo_driver w c h = (w, Inr (Running, ''running''))"
  by (simp_all add: demo_driver_def)

lemma demo_cluster [simp]:
  "cg_ID (one_node i config) = i" "cg_Manager (one_node i config) = ''flux-uri''"
  "Emulated (one_node i []) = False" "Reserves (one_node i [])"
  by (simp_all add: one_node_def Emulated_def Reserves_def Cfg_def)

lemma demo_driverFor [simp]: "driverFor (demo_env sc b) (one_node i []) = Inr demo_driver"
  by (simp add: driverFor_def reg_For_def)

lemma demo_reports: "drivers_report (demo_env sc b)"
  by (auto simp: drivers_report_def driverFor_def reg_For_def split: option.splits if_splits)

lemma snd_AddCluster [simp]: "snd (sim_AddCluster m cg) = None"
  by (simp add: sim_AddCluster_def Let_def)

lemma demo_setup:
  "fst (Submit one_node_job (fst (RegisterCluster (demo_env sc b) (one_node ''c1'' []) (NewManager empty_sim ())))) = demo_mgr"
  by (simp add: RegisterCluster_def Submit_def Let_def SimMatcher_def NewManager_def demo_mgr_def demo_sim_def
      NewSim_def jobID_1 Enqueue_def store_def NewMemory_def fresh_job_def case_prod_unfold)

lemma demo_mgr_reach: "mgr_reach (demo_env sc b) (NewManager empty_sim ()) demo_mgr"
proof -
  let ?s = "fst (RegisterCluster (demo_env sc b) (one_node ''c1'' []) (NewManager empty_sim ()))"
  have "mgr_reach (demo_env sc b) (NewManager empty_sim ()) ?s"
    by (rule mgr_reach.step [OF mgr_reach.start mgr_step.reg_cluster])
      (simp add: RegisterCluster_def NewManager_def Let_def case_prod_unfold split: option.split)
  then have "mgr_reach (demo_env sc b) (NewManager empty_sim ()) (fst (Submit one_node_job ?s))"
    by (rule mgr_reach.step [OF _ mgr_step.submit])
      (simp add: RegisterCluster_def NewManager_def Let_def case_prod_unfold split: option.split)
  then show ?thesis unfolding demo_setup .
qed

lemma demo_job: "job_at demo_mgr ''job-0001'' = Some (fresh_job ''job-0001'' one_node_job 0)"
  by (simp add: demo_mgr_def q_Get_def)

lemma demo_mgr_simps [simp]:
  "mg_Fleet demo_mgr = [one_node ''c1'' []]" "mg_Matcher demo_mgr = demo_sim" "mg_seq demo_mgr = 1"
  "mg_now demo_mgr = 0" "mg_World demo_mgr = ()"
  "mg_Queue demo_mgr = [(''job-0001'', fresh_job ''job-0001'' one_node_job 0)]"
  by (simp_all add: demo_mgr_def NewManager_def)

lemma demo_matcher: "mt_Evaluate SimMatcher = sim_Evaluate" "mt_Allocate SimMatcher = sim_Allocate"
  "mt_Free SimMatcher = sim_Free"
  by (simp_all add: SimMatcher_def)

lemma demo_spec [simp]: "jb_Spec (fresh_job i js t) = js" "jb_Note (fresh_job i js t) = ''''"
  by (simp_all add: fresh_job_def)

definition dispatched_mgr :: "(sim, unit) mgr" where
  "dispatched_mgr = placed_mgr\<lparr>mg_Queue := map (\<lambda>(i, j). (i, j\<lparr>jb_Note := ''dispatched''\<rparr>)) (mg_Queue placed_mgr)\<rparr>"

lemma demo_Step: "Step (demo_env FirstFeasible False) demo_mgr = Some placed_mgr"
proof -
  have "scheduleOnce (demo_env FirstFeasible False) demo_mgr = Some dispatched_mgr"
    by (simp add: scheduleOnce_def fl_Len_def FCFS_def Provisional_def q_filter_def schedule_job_def Let_def
      q_Get_def demo_matcher demo_spec demo_Evaluate demo_Allocate feasibleOnly_def decide_def FirstFeasible_def
      dispatchable_def Dispatch_def dispatchNow_def submit_to_def q_Update_def Update_def store_def
      WithJobID_def dispatched_mgr_def) (simp add: demo_mgr_def NewManager_def placed_mgr_def fresh_job_def
        FirstFeasible_def zero_trace_def)
  then show ?thesis
    by (simp add: Step_def monitorOnce_def Active_def q_filter_def monitor_job_def q_Update_def Update_def store_def
      Let_def Terminal_def dispatched_mgr_def placed_mgr_def
        NewManager_def demo_mgr_def fresh_job_def)
qed

lemma placed_reach: "mgr_reach (demo_env FirstFeasible False) (NewManager empty_sim ()) placed_mgr"
  by (rule mgr_reach.step [OF demo_mgr_reach mgr_step.tick [OF demo_Step]]) (simp add: placed_mgr_def)

lemma placed_simps [simp]: "mg_Matcher placed_mgr = booked_sim" "mg_seq placed_mgr = 1"
  by (simp_all add: placed_mgr_def)

theorem allocations_accounted_witness:
  "\<exists>!i. \<exists>j. job_at placed_mgr i = Some j \<and> (''c1'', ''1'') \<in> sim_owns booked_sim (jb_AllocID j) \<and>
     \<not> Terminal (jb_State j)"
proof -
  have "''1'' \<in> held (mg_Matcher placed_mgr) ''c1''" by (simp add: held_def booked_sim_def)
  then show ?thesis
    using allocations_accounted [OF demo_env_simps(1) demo_reports placed_reach] by simp
qed

text \<open>
  While fewer than 10000 jobs have been submitted, \<open>Submit\<close> hands out an id no job has,
  queues the job under it as \<open>Submitted\<close> with the given spec and no allocation, and leaves
  every other job and the matcher as they were.
\<close>

theorem Submit_registers:
  assumes "ev_Matcher e = SimMatcher" "drivers_report e" "mgr_reach e (NewManager empty_sim w) s"
    and "mg_seq s + 1 < 10000" "Submit js s = (s', i)"
  shows "job_at s i = None \<and> job_at s' i = Some ((fresh_job i js (mg_now s))\<lparr>jb_UpdatedAt := mg_now s\<rparr>) \<and>
    (\<forall>i'. i' \<noteq> i \<longrightarrow> job_at s' i' = job_at s i') \<and> mg_Matcher s' = mg_Matcher s \<and>
    length (All (mg_Queue s')) = Suc (length (All (mg_Queue s)))"
proof -
  have ok: "sims.ok s"
    by (rule sims.ok_reach [OF assms(1,2) sim_inv_empty _ assms(3)]) (simp add: sim_owns_def empty_sim_def)
  have s': "s' = fst (Submit js s)" "i = jobID (mg_seq s + 1)" using assms(5) sims.Submit_simps(6) [of js s] by simp_all
  have q: "queue_inv (mg_Queue s)" using ok sims.B_facts(1) by blast
  have new: "job_at s i = None" unfolding s' using ok assms(4) sims.ids_fresh by blast
  have "length (Update t j q) = Suc (length q)" if "q_Get q (jb_ID j) = None" for t j and q :: memory
    using that by (induction q) (auto simp: Update_def store_def q_Get_def split: if_splits)
  then have "length (mg_Queue s') = Suc (length (mg_Queue s))" using new by (simp add: s')
  then show ?thesis using new q by (simp add: s' Get_Update All_def q_filter_def)
qed

theorem Submit_registers_witness:
  "job_at (fst (Submit one_node_job placed_mgr)) (jobID 2) = Some (fresh_job (jobID 2) one_node_job 0)"
  using Submit_registers [OF demo_env_simps(1) demo_reports placed_reach, of one_node_job
      "fst (Submit one_node_job placed_mgr)" "jobID 2"]
  by (simp add: Submit_def Let_def placed_mgr_def fresh_job_def eval_nat_numeral)

text \<open>
  C27. Job ids repeat. \<open>pad\<close> keeps four decimal digits and the sequence starts again at zero
  with the process, so a submission whose number agrees with that of a stored job modulo 10000
  gets that job's id and overwrites it: the old job is gone, and when it held an allocation
  the matcher still holds its nodes while no job names that allocation any more, so nothing
  will release it.
\<close>

theorem Submit_can_overwrite:
  assumes "books sim_inv sim_owns sim_issued (mg_Queue s) (mg_Matcher s)"
    and "job_at s (jobID k) = Some old" "jb_AllocID old \<noteq> ''''" "k mod 10000 = (mg_seq s + 1) mod 10000"
  shows "snd (Submit js s) = jobID k \<and>
    job_at (fst (Submit js s)) (jobID k) = Some ((fresh_job (jobID k) js (mg_now s))\<lparr>jb_UpdatedAt := mg_now s\<rparr>) \<and>
    sim_owns (mg_Matcher (fst (Submit js s))) (jb_AllocID old) = sim_owns (mg_Matcher s) (jb_AllocID old) \<and>
    (\<forall>i j. job_at (fst (Submit js s)) i = Some j \<longrightarrow> jb_AllocID j \<noteq> jb_AllocID old)"
proof -
  note q = sims.B_facts(1) [OF assms(1)]
  have id: "jobID (mg_seq s + 1) = jobID k" using assms(4) jobID_eq_iff by metis
  have "jb_AllocID j \<noteq> jb_AllocID old" if "job_at (fst (Submit js s)) i = Some j" for i j
  proof (cases "i = jobID k")
    case True
    then show ?thesis using that assms(3) q id by (auto simp: Get_Update)
  next
    case False
    then have "job_at s i = Some j" using that q id by (auto simp: Get_Update)
    then show ?thesis using sims.B_facts(5) [OF assms(1) assms(2) _ _ assms(3)] False by fastforce
  qed
  moreover have "snd (Submit js s) = jobID k \<and>
      job_at (fst (Submit js s)) (jobID k) = Some ((fresh_job (jobID k) js (mg_now s))\<lparr>jb_UpdatedAt := mg_now s\<rparr>) \<and>
      sim_owns (mg_Matcher (fst (Submit js s))) (jb_AllocID old) = sim_owns (mg_Matcher s) (jb_AllocID old)"
    using q id by (simp add: Get_Update)
  ultimately show ?thesis by blast
qed

theorem Submit_can_overwrite_witness:
  "sim_owns (mg_Matcher (fst (Submit one_node_job (placed_mgr\<lparr>mg_seq := 10000\<rparr>)))) ''alloc-1'' = {(''c1'', ''1'')} \<and>
   (\<nexists>i j. job_at (fst (Submit one_node_job (placed_mgr\<lparr>mg_seq := 10000\<rparr>))) i = Some j \<and> jb_AllocID j = ''alloc-1'')"
proof -
  have "sims.ok placed_mgr"
    by (rule sims.ok_reach [OF demo_env_simps(1) demo_reports sim_inv_empty _ placed_reach])
      (simp add: sim_owns_def empty_sim_def)
  then have b: "books sim_inv sim_owns sim_issued (mg_Queue (placed_mgr\<lparr>mg_seq := 10000\<rparr>))
      (mg_Matcher (placed_mgr\<lparr>mg_seq := 10000\<rparr>))" by simp
  obtain old where old: "job_at (placed_mgr\<lparr>mg_seq := 10000\<rparr>) (jobID 1) = Some old" "jb_AllocID old = ''alloc-1''"
    by (simp add: placed_mgr_def q_Get_def jobID_1)
  have "sim_owns booked_sim ''alloc-1'' = {(''c1'', ''1'')}" by (simp add: sim_owns_def booked_sim_def)
  then show ?thesis
    using Submit_can_overwrite [OF b old(1), of one_node_job] old(2) by auto
qed

end
