(* ===== verification/Schedule.thy ===== *)
theory Schedule
  imports Ledger
begin

text \<open>
  What a schedule pass decides: which cluster a job goes to, which jobs a pass leaves alone,
  and that a finished job is never touched again by the operations of \<open>manager.go\<close>.
\<close>

section \<open>What each operation touches\<close>

text \<open>Only the job of id \<open>i\<close> may change among those already queued.\<close>

definition touches :: "string \<Rightarrow> ('m, 'w) mgr \<Rightarrow> ('m, 'w) mgr \<Rightarrow> bool" where
  "touches i s s' \<longleftrightarrow> queue_inv (mg_Queue s') \<and>
     (\<forall>i'. i' \<noteq> i \<longrightarrow> job_at s i' \<noteq> None \<longrightarrow> job_at s' i' = job_at s i')"

text \<open>The job \<open>j\<close> came to an end of its dispatch: it runs or it failed, on the cluster it had.\<close>

definition settles :: "job \<Rightarrow> ('m, 'w) mgr \<Rightarrow> ('m, 'w) mgr \<Rightarrow> bool" where
  "settles j s s' \<longleftrightarrow> touches (jb_ID j) s s' \<and> (\<exists>k. job_at s' (jb_ID j) = Some k \<and>
     jb_ClusterID k = jb_ClusterID j \<and> jb_AllocID k = jb_AllocID j \<and> jb_Spec k = jb_Spec j \<and>
     (jb_State k = Running \<or> jb_State k = Failed))"

lemma touches_refl: "queue_inv (mg_Queue s) \<Longrightarrow> touches i s s"
  by (simp add: touches_def)

lemma touches_trans: "touches i s s' \<Longrightarrow> touches i s' s'' \<Longrightarrow> touches i s s''"
  by (simp add: touches_def)

lemma touches_inv: "touches i s s' \<Longrightarrow> queue_inv (mg_Queue s')"
  by (simp add: touches_def)

lemma touches_q_Update: "queue_inv (mg_Queue s) \<Longrightarrow> touches (jb_ID j) s (q_Update j s)"
  by (simp add: touches_def q_Update_def Get_Update queue_inv_Update)

lemma touches_same_queue: "mg_Queue s'' = mg_Queue s' \<Longrightarrow> touches i s s' \<Longrightarrow> touches i s s''"
  by (simp add: touches_def)

lemma job_at_q: "queue_inv (mg_Queue s) \<Longrightarrow>
  job_at (q_Update j s) i = (if i = jb_ID j then Some (j\<lparr>jb_UpdatedAt := mg_now s\<rparr>) else job_at s i)"
  by (simp add: q_Update_def Get_Update)

lemma settles_failJob: "queue_inv (mg_Queue s) \<Longrightarrow> settles j s (failJob e j msg s)"
  using touches_q_Update [of "s\<lparr>mg_Matcher := m\<rparr>" "j\<lparr>jb_State := Failed, jb_Note := msg\<rparr>" for m]
  by (auto simp: settles_def failJob_def Let_def q_Update_def Get_Update touches_def queue_inv_Update)

lemma settles_submit_to: "queue_inv (mg_Queue s) \<Longrightarrow> settles j s (submit_to e c content j s)"
proof -
  assume q: "queue_inv (mg_Queue s)"
  show ?thesis
  proof (cases "driverFor e c")
    case (Inl err)
    then show ?thesis using settles_failJob [OF q] by (simp add: submit_to_def)
  next
    case (Inr drv)
    obtain w res where r: "dr_Submit drv (mg_World s) c content = (w, res)"
      by (cases "dr_Submit drv (mg_World s) c content")
    have fail: "settles j s (failJob e j msg (s\<lparr>mg_World := w\<rparr>))" for msg
      using settles_failJob [of "s\<lparr>mg_World := w\<rparr>" j e msg] q by (simp add: settles_def touches_def)
    have "settles j s (q_Update (j\<lparr>jb_RemoteHandle := h, jb_State := Running, jb_Note := msg\<rparr>) (s\<lparr>mg_World := w\<rparr>))"
      for h msg
      using q by (auto simp: settles_def touches_def q_Update_def Get_Update queue_inv_Update)
    then show ?thesis using Inr r fail by (cases res) (simp_all add: submit_to_def)
  qed
qed

lemma settles_dispatchNow:
  assumes q: "queue_inv (mg_Queue s)" and j: "job_at s i = Some j"
  shows "settles j s (dispatchNow e i s)"
proof -
  have i: "jb_ID j = i" using Get_ID [OF q j] .
  show ?thesis
  proof (cases "fl_Get (mg_Fleet s) (jb_ClusterID j)")
    case None
    then show ?thesis using settles_failJob [OF q] j by (simp add: dispatchNow_def)
  next
    case (Some c)
    let ?j = "j\<lparr>jb_State := Dispatching\<rparr>"
    obtain w content where t: "ev_Transform e (mg_World s) (WithJobID (jb_Spec j) (jb_ID j)) c = (w, content)"
      by (cases "ev_Transform e (mg_World s) (WithJobID (jb_Spec j) (jb_ID j)) c")
    let ?s = "(q_Update ?j s)\<lparr>mg_World := w\<rparr>"
    have q': "queue_inv (mg_Queue ?s)" using q by (simp add: q_Update_def queue_inv_Update)
    have t1: "touches i s ?s" using touches_q_Update [OF q, of ?j] i by (simp add: touches_def)
    have st: "settles ?j ?s s' \<Longrightarrow> settles j s s'" for s'
      using touches_trans [OF t1, of s'] i by (simp add: settles_def)
    show ?thesis
      using j Some t st [OF settles_failJob [OF q']] st [OF settles_submit_to [OF q']]
      by (cases content) (simp_all add: dispatchNow_def Let_def)
  qed
qed

lemma touches_setNote: "queue_inv (mg_Queue s) \<Longrightarrow> touches (jb_ID j) s (setNote j msg s)"
  using touches_q_Update [of s "j\<lparr>jb_Note := msg\<rparr>"] by (simp add: setNote_def touches_refl)

lemma touches_fail_with: "queue_inv (mg_Queue s) \<Longrightarrow> touches (jb_ID j) s (fail_with j msg s)"
  using touches_q_Update [of s "j\<lparr>jb_State := Failed, jb_Note := msg\<rparr>"] by (simp add: fail_with_def)

lemma touches_Dispatch:
  assumes "queue_inv (mg_Queue s)" "job_at s (jb_ID j) = Some old"
  shows "touches (jb_ID j) s (Dispatch e j s)"
proof -
  have "jb_ID old = jb_ID j" using assms Get_ID by blast
  then show ?thesis
    using assms settles_dispatchNow [OF assms, of e] by (simp add: Dispatch_def settles_def touches_def)
qed

text \<open>A placed job: on cluster \<open>c\<close>, with an allocation, no longer waiting.\<close>

definition placed_on :: "string \<Rightarrow> string \<Rightarrow> job option \<Rightarrow> bool" where
  "placed_on c a j \<longleftrightarrow> (\<exists>k. j = Some k \<and> jb_ClusterID k = c \<and> jb_AllocID k = a \<and>
     (jb_State k = Matched \<or> jb_State k = Running \<or> jb_State k = Failed))"

lemma placed_on_Dispatch:
  assumes q: "queue_inv (mg_Queue s)" and st: "jb_State j = Matched"
  shows "placed_on (jb_ClusterID j) (jb_AllocID j) (job_at (Dispatch e j (q_Update j s)) (jb_ID j))"
proof -
  have q': "queue_inv (mg_Queue (q_Update j s))" using q by (simp add: q_Update_def queue_inv_Update)
  have j: "job_at (q_Update j s) (jb_ID j) = Some (j\<lparr>jb_UpdatedAt := mg_now s\<rparr>)" using q by (simp add: job_at_q)
  show ?thesis
    using settles_dispatchNow [OF q' j, of e] j st by (auto simp: Dispatch_def settles_def placed_on_def)
qed

section \<open>Placement\<close>

definition is_target :: "('m, 'w) mgr \<Rightarrow> candidate \<Rightarrow> bool" where
  "is_target s c \<longleftrightarrow> (case fl_Get (mg_Fleet s) (ca_Cluster c) of None \<Rightarrow> False | Some cg \<Rightarrow> \<not> Emulated cg)"

lemma dispatchable_eq: "dispatchable s cands = filter (is_target s) cands"
  unfolding dispatchable_def by (rule filter_cong [OF refl]) (simp add: is_target_def)

text \<open>A candidate the matcher reported correctly: allocating it succeeds if and only if it is free.\<close>

definition answers :: "'m matcher \<Rightarrow> 'm \<Rightarrow> jobspec \<Rightarrow> candidate \<Rightarrow> bool" where
  "answers M m js c \<longleftrightarrow> (\<exists>m' r. mt_Allocate M m js (ca_Cluster c) = Some (m', Inr r) \<and>
     (r \<noteq> None) = ca_FreeNow c \<and> (r = None \<longrightarrow> m' = m) \<and> (\<forall>a. r = Some a \<longrightarrow> al_ClusterID a = ca_Cluster c))"

lemma try_place_first_free:
  assumes "\<forall>c \<in> set cs. answers (ev_Matcher e) (mg_Matcher s) (jb_Spec j) c" "queue_inv (mg_Queue s)"
  shows "case List.find ca_FreeNow cs of
      None \<Rightarrow> try_place e j d cs s = Some (s, False)
    | Some c \<Rightarrow> \<exists>s' a. try_place e j d cs s = Some (s', True) \<and> placed_on (ca_Cluster c) a (job_at s' (jb_ID j))"
  using assms(1)
proof (induction cs)
  case (Cons c cs)
  then obtain m' r where a: "mt_Allocate (ev_Matcher e) (mg_Matcher s) (jb_Spec j) (ca_Cluster c) = Some (m', Inr r)"
      "(r \<noteq> None) = ca_FreeNow c" "r = None \<longrightarrow> m' = mg_Matcher s" "\<forall>a. r = Some a \<longrightarrow> al_ClusterID a = ca_Cluster c"
    by (auto simp: answers_def)
  show ?case
  proof (cases r)
    case None
    then have "s\<lparr>mg_Matcher := m'\<rparr> = s" using a(3) by simp
    then have skip: "try_place e j d (c # cs) s = try_place e j d cs s" using a(1) None by simp
    show ?thesis using Cons a(2) None unfolding skip by simp
  next
    case (Some al)
    let ?j = "j\<lparr>jb_State := Matched, jb_AllocID := al_ID al, jb_ClusterID := al_ClusterID al,
      jb_Note := '''', jb_Decision := Some (d\<lparr>tr_Selected := al_ClusterID al\<rparr>)\<rparr>"
    have "placed_on (jb_ClusterID ?j) (jb_AllocID ?j)
        (job_at (Dispatch e ?j (q_Update ?j (s\<lparr>mg_Matcher := m'\<rparr>))) (jb_ID ?j))"
      by (rule placed_on_Dispatch) (use assms(2) in simp_all)
    then show ?thesis using a Some by (auto simp: Let_def)
  qed
qed simp

lemma find_first_best:
  assumes "sorted_wrt R xs" "List.find P xs = Some x" "\<And>x. R x x"
  shows "x \<in> set xs \<and> P x \<and> (\<forall>y \<in> set xs. P y \<longrightarrow> R x y)"
  using assms(1,2)
proof (induction xs)
  case (Cons a xs)
  then show ?case using assms(3) by (cases "P a") auto
qed simp

text \<open>
  The ranked candidates of a decision: the feasible ones with their scores, best first.\<close>

lemma decided:
  assumes "sc_NeedsFullSet (ev_Scorer e)" "decide e js cands s = (scored, d, s1)"
  shows "set scored = (\<lambda>c. c\<lparr>ca_Score := sc_Score (ev_Scorer e) js c\<rparr>) ` {c \<in> set cands. ca_Feasible c}"
    "sorted_wrt (\<lambda>c d. ca_Score d \<le> ca_Score c) scored"
    "mg_Queue s1 = mg_Queue s" "mg_Matcher s1 = mg_Matcher s" "mg_Fleet s1 = mg_Fleet s"
proof -
  have s: "scored = fst (RankWithTrace (ev_source e) (ev_seed e (mg_draws s)) (ev_Scorer e) js cands)"
    "s1 = s\<lparr>mg_draws := mg_draws s + 1\<rparr>"
    using assms by (auto simp: decide_def split: prod.splits)
  have "set scored = set (map (\<lambda>c. c\<lparr>ca_Score := sc_Score (ev_Scorer e) js c\<rparr>) (filter ca_Feasible cands))"
    unfolding s by (rule mset_eq_setD [OF mset_ranked])
  then show "set scored = (\<lambda>c. c\<lparr>ca_Score := sc_Score (ev_Scorer e) js c\<rparr>) ` {c \<in> set cands. ca_Feasible c}" by simp
  show "sorted_wrt (\<lambda>c d. ca_Score d \<le> ca_Score c) scored" unfolding s by (rule sorted_ranked)
qed (use assms in \<open>auto simp: decide_def split: prod.splits\<close>)

lemma sim_answers:
  assumes "sim_inv m" "sim_Evaluate m js = Some cs" "c \<in> set cs" "ca_Feasible c" "Reserves (graph_of m (ca_Cluster c))"
  shows "answers SimMatcher m js c"
proof -
  obtain m' r where a: "sim_Allocate m js (ca_Cluster c) = Some (m', Inr r)" "(r \<noteq> None) = ca_FreeNow c"
      "r = None \<longrightarrow> m' = m"
    using Allocate_candidate [OF assms] by (auto split: option.splits)
  have "al_ClusterID al = ca_Cluster c" if "r = Some al" for al
    using a(1) unfolding that by (cases rule: sim_Allocate_cases) simp_all
  then show ?thesis using a by (simp add: answers_def demo_matcher)
qed

text \<open>
  The targets of a job in the order they are tried, and what the pass does with them.\<close>

lemma ranked_targets:
  assumes "ev_Matcher e = SimMatcher" "sc_NeedsFullSet (ev_Scorer e)" "sim_inv (mg_Matcher s)"
    and "sim_Evaluate (mg_Matcher s) js = Some cands" "list_all (\<lambda>c. Reserves (graph_of (mg_Matcher s) (ca_Cluster c))) cands"
    and dec: "decide e js cands s = (scored, d, s1)"
  shows "set (filter (is_target s) scored) =
      (\<lambda>c. c\<lparr>ca_Score := sc_Score (ev_Scorer e) js c\<rparr>) ` {c \<in> set cands. ca_Feasible c \<and> is_target s c}"
    "sorted_wrt (\<lambda>c d. ca_Score d \<le> ca_Score c) (filter (is_target s) scored)"
    "\<forall>c \<in> set (filter (is_target s) scored). answers (ev_Matcher e) (mg_Matcher s1) js c"
proof -
  note ranked = decided [OF assms(2) dec]
  show set: "set (filter (is_target s) scored) =
      (\<lambda>c. c\<lparr>ca_Score := sc_Score (ev_Scorer e) js c\<rparr>) ` {c \<in> set cands. ca_Feasible c \<and> is_target s c}"
    by (auto simp: ranked(1) is_target_def)
  show "sorted_wrt (\<lambda>c d. ca_Score d \<le> ca_Score c) (filter (is_target s) scored)"
    using ranked(2) by (rule sorted_wrt_filter)
  show "\<forall>c \<in> set (filter (is_target s) scored). answers (ev_Matcher e) (mg_Matcher s1) js c"
  proof
    fix c assume "c \<in> set (filter (is_target s) scored)"
    then obtain c0 where c0: "c = c0\<lparr>ca_Score := sc_Score (ev_Scorer e) js c0\<rparr>" "c0 \<in> set cands" "ca_Feasible c0" by (auto simp: ranked(1))
    have "Reserves (graph_of (mg_Matcher s) (ca_Cluster c0))" using assms(5) c0(2) by (simp add: list_all_iff)
    then show "answers (ev_Matcher e) (mg_Matcher s1) js c"
      using sim_answers [OF assms(3,4) c0(2,3)] c0(1) assms(1) ranked(4) by (simp add: answers_def)
  qed
qed

lemma schedule_job_targets:
  assumes "ev_Matcher e = SimMatcher" "sc_NeedsFullSet (ev_Scorer e)" "job_at s i = Some j" "jb_State j = Submitted"
    and "sim_Evaluate (mg_Matcher s) (jb_Spec j) = Some cands" "list_ex ca_Feasible cands"
    and dec: "decide e (jb_Spec j) cands s = (scored, d, s1)"
  shows "schedule_job e i s =
     (if filter (is_target s) scored = []
      then Some (setNote j (emulated_note (length (feasibleOnly cands))) s1, po_HeadOfLineBlock (ev_Policy e))
      else (case try_place e j d (filter (is_target s) scored) s1 of
              None \<Rightarrow> None
            | Some (s, True) \<Rightarrow> Some (s, False)
            | Some (s, False) \<Rightarrow> Some (setNote j (full_note (length (feasibleOnly cands))) s, po_HeadOfLineBlock (ev_Policy e))))"
proof -
  have "feasibleOnly cands \<noteq> []" using assms(6) by (auto simp: feasibleOnly_def list_ex_iff filter_empty_conv)
  moreover have "is_target s1 = is_target s" by (simp add: is_target_def fun_eq_iff decided(5) [OF assms(2) dec])
  ultimately show ?thesis
    using assms(1,3-5) dec by (simp add: schedule_job_def Let_def demo_matcher dispatchable_eq)
qed

text \<open>
  C9. A job goes to the best place there is. When every feasible cluster reserves its nodes, the
  pass handles a waiting job that some cluster could ever run by one of two outcomes. If some
  candidate is free now and registered as a real (not emulated) target, the job is placed on one
  whose score no other such candidate exceeds, and the pass goes on. Otherwise the job stays
  \<open>Submitted\<close>, the matcher is as before, and the pass stops exactly under a head-of-line
  policy.
\<close>

theorem schedule_picks_best:
  assumes "ev_Matcher e = SimMatcher" "sc_NeedsFullSet (ev_Scorer e)" "sim_reach (mg_Matcher s)"
    and "queue_inv (mg_Queue s)" "job_at s i = Some j" "jb_State j = Submitted"
    and "sim_Evaluate (mg_Matcher s) (jb_Spec j) = Some cands" "list_ex ca_Feasible cands"
    and "list_all (\<lambda>c. Reserves (graph_of (mg_Matcher s) (ca_Cluster c))) cands"
  shows "\<exists>s' b. schedule_job e i s = Some (s', b) \<and>
    (if list_ex (\<lambda>c. ca_FreeNow c \<and> is_target s c) cands
     then \<not> b \<and> (\<exists>c a. c \<in> set cands \<and> ca_FreeNow c \<and> is_target s c \<and> placed_on (ca_Cluster c) a (job_at s' i) \<and>
       list_all (\<lambda>c'. ca_FreeNow c' \<and> is_target s c' \<longrightarrow>
         sc_Score (ev_Scorer e) (jb_Spec j) c' \<le> sc_Score (ev_Scorer e) (jb_Spec j) c) cands)
     else b = po_HeadOfLineBlock (ev_Policy e) \<and> mg_Matcher s' = mg_Matcher s \<and>
       (\<exists>k. job_at s' i = Some k \<and> jb_State k = Submitted \<and> jb_AllocID k = jb_AllocID j))"
proof -
  let ?up = "\<lambda>c. c\<lparr>ca_Score := sc_Score (ev_Scorer e) (jb_Spec j) c\<rparr>"
  obtain scored d s1 where dec: "decide e (jb_Spec j) cands s = (scored, d, s1)"
    by (cases "decide e (jb_Spec j) cands s")
  note ranked = decided [OF assms(2) dec]
  define targets where "targets = filter (is_target s) scored"
  have inv: "sim_inv (mg_Matcher s)" by (rule sim_reach_inv [OF assms(3)])
  have tg: "set targets = ?up ` {c \<in> set cands. ca_Feasible c \<and> is_target s c}"
    "sorted_wrt (\<lambda>c d. ca_Score d \<le> ca_Score c) targets"
    "\<forall>c \<in> set targets. answers (ev_Matcher e) (mg_Matcher s1) (jb_Spec j) c"
    unfolding targets_def by (rule ranked_targets [OF assms(1,2) inv assms(7,9) dec])+
  note set = tg(1)
  have free: "ca_FreeNow c \<Longrightarrow> ca_Feasible c" if "c \<in> set cands" for c
    using evaluated(2) [OF assms(7) that] by (auto elim: evaluate_one_Some)
  have q: "queue_inv (mg_Queue s1)" using assms(4) ranked(3) by simp
  have id: "jb_ID j = i" by (rule Get_ID [OF assms(4,5)])
  note run = schedule_job_targets [OF assms(1,2,5-8) dec, folded targets_def]
  have any: "list_ex (\<lambda>c. ca_FreeNow c \<and> is_target s c) cands \<longleftrightarrow> List.find ca_FreeNow targets \<noteq> None"
    using free by (auto simp: find_None_iff set list_ex_iff)
  show ?thesis
  proof (cases "List.find ca_FreeNow targets")
    case None
    have wait: "\<exists>s' b. schedule_job e i s = Some (s', b) \<and> b = po_HeadOfLineBlock (ev_Policy e) \<and>
        (\<exists>msg. s' = setNote j msg s1)"
      using try_place_first_free [OF tg(3) q, of d] None unfolding run by auto
    have kept: "mg_Matcher (setNote j msg s1) = mg_Matcher s \<and> (\<exists>k. job_at (setNote j msg s1) i = Some k \<and>
        jb_State k = Submitted \<and> jb_AllocID k = jb_AllocID j)" for msg
      using assms(5,6) q id ranked(3,4) by (simp add: setNote_def job_at_q)
    show ?thesis using wait kept any None by auto
  next
    case (Some c)
    have best: "c \<in> set targets \<and> ca_FreeNow c \<and> (\<forall>y \<in> set targets. ca_FreeNow y \<longrightarrow> ca_Score y \<le> ca_Score c)"
      by (rule find_first_best [OF tg(2) Some]) simp
    then obtain c0 where c0: "c = ?up c0" "c0 \<in> set cands" "ca_FreeNow c0" "is_target s c0" by (auto simp: set)
    have "sc_Score (ev_Scorer e) (jb_Spec j) y \<le> sc_Score (ev_Scorer e) (jb_Spec j) c0"
      if "y \<in> set cands" "ca_FreeNow y" "is_target s y" for y
    proof -
      have "?up y \<in> set targets" using that free by (auto simp: set)
      then show ?thesis using best that(2) c0(1) by fastforce
    qed
    then have scores: "list_all (\<lambda>c'. ca_FreeNow c' \<and> is_target s c' \<longrightarrow>
         sc_Score (ev_Scorer e) (jb_Spec j) c' \<le> sc_Score (ev_Scorer e) (jb_Spec j) c0) cands"
      by (simp add: list_all_iff)
    obtain s' a where s': "try_place e j d targets s1 = Some (s', True)" "placed_on (ca_Cluster c) a (job_at s' (jb_ID j))"
      using try_place_first_free [OF tg(3) q, of d] Some by auto
    have "targets \<noteq> []" using best by auto
    then have "schedule_job e i s = Some (s', False)" using s' unfolding run by simp
    moreover have "placed_on (ca_Cluster c0) a (job_at s' i)" using s'(2) id c0(1) by simp
    ultimately show ?thesis using c0 scores any Some by auto
  qed
qed

theorem schedule_picks_best_witness:
  "\<exists>s' a. schedule_job (demo_env DefaultScorer False) ''job-0001'' demo_mgr = Some (s', False) \<and>
     placed_on ''c1'' a (job_at s' ''job-0001'')"
proof -
  have 1: "sim_Evaluate (mg_Matcher demo_mgr) (jb_Spec (fresh_job ''job-0001'' one_node_job 0)) =
      Some [\<lparr>ca_Cluster = ''c1'', ca_Feasible = True, ca_FreeNow = True, ca_FreeNodes = 1, ca_Matched = [],
        ca_Missing = [], ca_Score = 0\<rparr>]"
    by (simp add: demo_Evaluate)
  have 2: "sc_NeedsFullSet (ev_Scorer (demo_env DefaultScorer False))" by (simp add: DefaultScorer_def)
  have 3: "sim_reach (mg_Matcher demo_mgr)" using demo_reach by simp
  have 4: "queue_inv (mg_Queue demo_mgr)"
    by (simp add: queue_inv_def wf_map_def fresh_job_def)
  have 5: "jb_State (fresh_job ''job-0001'' one_node_job 0) = Submitted" by (simp add: fresh_job_def)
  show ?thesis
    using schedule_picks_best [OF demo_env_simps(1) 2 3 4 demo_job 5 1]
    by (auto simp: graph_of_def is_target_def)
qed

section \<open>Finished jobs\<close>

context fleet_matcher begin

lemma fresh_id:
  assumes "ok s" "mg_seq s + 1 < 10000"
  shows "job_at s (jobID (mg_seq s + 1)) = None"
  using assms ids_fresh by blast

lemma touches_Submit:
  assumes "ok s" "mg_seq s + 1 < 10000"
  shows "touches i s (fst (Submit js s))"
  using B_facts(1) [of "mg_Queue s" "mg_Matcher s"] assms(1) fresh_id [OF assms]
  by (auto simp: touches_def Get_Update queue_inv_Update)

lemma touches_failInfeasible:
  assumes s: "ok s" and r: "failInfeasible e j s = Some s'" and n: "mg_seq s' < 10000"
  shows "touches (jb_ID j) s s'"
proof -
  have q: "queue_inv (mg_Queue s)" using B_facts(1) s by blast
  show ?thesis
    using r
  proof (cases rule: failInfeasible_cases)
    case (failed k msg)
    then show ?thesis using touches_fail_with [OF q, of k msg] by simp
  next
    case (resubmitted k msg js)
    have "mg_seq s + 1 < 10000" using n resubmitted(1) by (simp add: fail_with_def)
    then have t: "touches (jb_ID j) s (fst (Submit js s))" by (rule touches_Submit [OF s])
    show ?thesis
      using touches_trans [OF t] touches_fail_with [OF touches_inv [OF t], of k msg] resubmitted by simp
  qed
qed

lemma touches_try_place:
  assumes "ev_Matcher e = M" "ok s" "job_at s (jb_ID j) = Some j" "try_place e j d cs s = Some (s', b)"
  shows "touches (jb_ID j) s s'"
  using assms(4)
proof (induction cs)
  case Nil
  then show ?case using touches_refl [of s "jb_ID j"] B_facts(1) [of "mg_Queue s" "mg_Matcher s"] assms(2) by simp
next
  case (Cons c cs)
  obtain m' r where a: "mt_Allocate M (mg_Matcher s) (jb_Spec j) (ca_Cluster c) = Some (m', r)"
    using Cons.prems assms(1) by (auto split: option.splits)
  show ?case
  proof (cases "\<exists>al. r = Inr (Some al)")
    case True
    then obtain al where al: "r = Inr (Some al)" ..
    let ?j = "j\<lparr>jb_State := Matched, jb_AllocID := al_ID al, jb_ClusterID := al_ClusterID al,
      jb_Note := '''', jb_Decision := Some (d\<lparr>tr_Selected := al_ClusterID al\<rparr>)\<rparr>"
    let ?s = "s\<lparr>mg_Matcher := m'\<rparr>"
    have q: "queue_inv (mg_Queue ?s)" using B_facts(1) assms(2) by auto
    have t: "touches (jb_ID j) s (q_Update ?j ?s)"
      using touches_q_Update [OF q, of ?j] by (simp add: touches_def)
    have "touches (jb_ID ?j) (q_Update ?j ?s) (Dispatch e ?j (q_Update ?j ?s))"
      by (rule touches_Dispatch [where old = "?j\<lparr>jb_UpdatedAt := mg_now ?s\<rparr>"]) (use touches_inv [OF t] q in \<open>auto simp: job_at_q\<close>)
    then show ?thesis
      using touches_trans [OF t] Cons.prems a al assms(1) by (auto simp: Let_def)
  next
    case False
    then have "s\<lparr>mg_Matcher := m'\<rparr> = s" using refused_same [OF assms(2) a] by blast
    then have "try_place e j d cs s = Some (s', b)"
      using Cons.prems a False assms(1) by (auto split: sum.splits option.splits)
    then show ?thesis by (rule Cons.IH)
  qed
qed

lemma touches_schedule_job:
  assumes e: "ev_Matcher e = M" and s: "ok s" and r: "schedule_job e i s = Some (s', b)" and n: "mg_seq s' < 10000"
  shows "touches i s s' \<and> (\<forall>j. job_at s i = Some j \<longrightarrow> jb_State j \<noteq> Submitted \<longrightarrow> s' = s)"
proof (cases "\<exists>j. job_at s i = Some j \<and> jb_State j = Submitted")
  case False
  have q: "queue_inv (mg_Queue s)" using s B_facts(1) by blast
  show ?thesis using False r touches_refl [OF q] by (auto simp: schedule_job_def split: option.splits)
next
  case True
  have q: "queue_inv (mg_Queue s)" using s B_facts(1) by blast
  obtain j where j: "job_at s i = Some j" "jb_State j = Submitted" using True by blast
  have id: "jb_ID j = i" using ok_get_ID [OF s j(1)] .
  obtain cands where c: "mt_Evaluate M (mg_Matcher s) (jb_Spec j) = Some cands"
    using r e j by (auto simp: schedule_job_def split: option.splits)
  show ?thesis
  proof (cases "feasibleOnly cands = []")
    case True
    then have "failInfeasible e j s = Some s'" using r e j c by (auto simp: schedule_job_def)
    then show ?thesis using touches_failInfeasible [OF s _ n] id j by auto
  next
    case False
    obtain scored d s1 where d: "decide e (jb_Spec j) cands s = (scored, d, s1)"
      by (cases "decide e (jb_Spec j) cands s")
    have s1: "ok s1" "job_at s1 (jb_ID j) = Some j" "mg_Queue s1 = mg_Queue s" using ok_decide [OF s d] j id by auto
    have q1: "queue_inv (mg_Queue s1)" using q s1(3) by simp
    have noted: "touches i s (setNote j msg s1)" for msg
      using touches_setNote [OF q1, of j msg] id s1(3) by (simp add: touches_def)
    show ?thesis
    proof (cases "dispatchable s1 scored = []")
      case True
      then show ?thesis using r e j c False d noted by (auto simp: schedule_job_def Let_def)
    next
      case ranked: False
      then obtain s2 p where p: "try_place e j d (dispatchable s1 scored) s1 = Some (s2, p)"
        using r e j c False d by (auto simp: schedule_job_def Let_def split: option.splits)
      have t: "touches i s s2" using touches_try_place [OF e s1(1,2) p] id s1(3) by (simp add: touches_def)
      have "\<not> p \<Longrightarrow> s2 = s1" using ok_try_place [OF e s1(1,2) j(2) p] by blast
      then show ?thesis
        using r e j c False d ranked p t noted by (cases p) (auto simp: schedule_job_def Let_def)
    qed
  qed
qed

end

context fleet_matcher begin

lemma schedule_loop_keeps:
  assumes e: "ev_Matcher e = M"
  shows "ok s \<Longrightarrow> schedule_loop e js s = Some s' \<Longrightarrow> mg_seq s' < 10000 \<Longrightarrow> job_at s i = Some j \<Longrightarrow>
    jb_State j \<noteq> Submitted \<Longrightarrow> job_at s' i = Some j"
proof (induction js arbitrary: s)
  case (Cons x js)
  obtain s1 b where r: "schedule_job e (jb_ID x) s = Some (s1, b)"
    using Cons.prems(2) by (auto split: option.splits)
  have rest: "b \<or> schedule_loop e js s1 = Some s'" "b \<longrightarrow> s1 = s'"
    using Cons.prems(2) r by (auto split: bool.splits)
  then have n: "mg_seq s1 < 10000" using seq_schedule_loop [of e js s1 s'] Cons.prems(3) by fastforce
  have ok1: "ok s1" by (rule ok_schedule_job [OF e Cons.prems(1) r n])
  have t: "touches (jb_ID x) s s1 \<and> (\<forall>j. job_at s (jb_ID x) = Some j \<longrightarrow> jb_State j \<noteq> Submitted \<longrightarrow> s1 = s)"
    by (rule touches_schedule_job [OF e Cons.prems(1) r n])
  have "job_at s1 i = Some j"
    using t Cons.prems(4,5) by (cases "i = jb_ID x") (auto simp: touches_def)
  then show ?case using rest Cons.IH [OF ok1 _ Cons.prems(3)] Cons.prems(5) by auto
qed simp

lemma scheduleOnce_keeps:
  assumes e: "ev_Matcher e = M" and s: "ok s" and r: "scheduleOnce e s = Some s'" and n: "mg_seq s' < 10000"
    and j: "job_at s i = Some j" "jb_State j \<noteq> Submitted"
  shows "job_at s' i = Some j"
proof (cases "fl_Len (mg_Fleet s) = 0")
  case True
  have q: "queue_inv (mg_Queue s)" using s B_facts(1) by blast
  have "i \<notin> jb_ID ` set (Provisional (mg_Queue s))"
    using j q by (auto simp: Provisional_def in_q_filter)
  moreover have "s' = fold (\<lambda>j. setNote j ''waiting: no clusters registered'') (Provisional (mg_Queue s)) s"
    using r True by (simp add: scheduleOnce_def Let_def)
  ultimately show ?thesis using conjunct2 [OF waiting_pass [OF s]] j(1) by simp
next
  case False
  then show ?thesis using r schedule_loop_keeps [OF e s _ n j] by (simp add: scheduleOnce_def Let_def)
qed

lemma monitorOnce_keeps:
  assumes e: "ev_Matcher e = M" "drivers_report e" and s: "ok s"
    and j: "job_at s i = Some j" "Terminal (jb_State j)"
  shows "job_at (monitorOnce e s) i = Some j"
proof -
  have q: "queue_inv (mg_Queue s)" using s B_facts(1) by blast
  have "i \<notin> jb_ID ` set (Active (mg_Queue s))"
    using j q by (auto simp: Active_def in_q_filter Terminal_def)
  then show ?thesis using conjunct2 [OF ok_monitorOnce [OF e s]] j(1) by simp
qed

lemma touches_failByID: "ok s \<Longrightarrow> touches i s (failByID e i msg s)"
proof -
  assume s: "ok s"
  then have q: "queue_inv (mg_Queue s)" using B_facts(1) by blast
  show ?thesis
  proof (cases "job_at s i")
    case (Some j)
    have "jb_ID j = i" using ok_get_ID [OF s Some] .
    then show ?thesis
      using Some q by (auto simp: failByID_def freeLocked_def touches_def q_Update_def Get_Update queue_inv_Update)
  qed (use q in \<open>simp add: failByID_def touches_refl\<close>)
qed

lemma Cancel_keeps:
  assumes s: "ok s" and j: "job_at s i = Some j" "Terminal (jb_State j)"
  shows "job_at (fst (Cancel e i' s)) i = Some j"
proof (cases "i' = i")
  case True
  then show ?thesis using j by (simp add: Cancel_def)
next
  case False
  have "touches i' (s\<lparr>mg_World := w\<rparr>) (failByID e i' msg (s\<lparr>mg_World := w\<rparr>))" for w msg
    by (rule touches_failByID) (use s in simp)
  then have "job_at (failByID e i' msg (s\<lparr>mg_World := w\<rparr>)) i = Some j" for w msg
    using False j(1) by (simp add: touches_def)
  then show ?thesis using j(1) by (simp add: Cancel_def Let_def case_prod_unfold split: option.split)
qed

lemma CancelAll_keeps:
  assumes e: "ev_Matcher e = M" and s: "ok s" and j: "job_at s i = Some j" "Terminal (jb_State j)"
  shows "job_at (fst (CancelAll e s)) i = Some j"
proof -
  have "ok s \<Longrightarrow> job_at s i = Some j \<Longrightarrow> job_at (fold (\<lambda>i s. fst (Cancel e i s)) ids s) i = Some j" for ids s
  proof (induction ids arbitrary: s)
    case (Cons x ids)
    show ?case
      using Cons.IH [OF ok_Cancel [OF e Cons.prems(1)] Cancel_keeps [OF Cons.prems j(2)]] by simp
  qed simp
  then show ?thesis using s j(1) by (simp add: CancelAll_def Let_def)
qed

lemma queue_registration:
  "mg_Queue (fst (RegisterCluster e cg s)) = mg_Queue s" "mg_Queue (fst (UnregisterCluster e i s)) = mg_Queue s"
  "mg_Queue (fst (RegisterSubsystem e i n g d s)) = mg_Queue s" "mg_Queue (fst (UnregisterSubsystem e i n s)) = mg_Queue s"
  by (auto simp: RegisterCluster_def UnregisterCluster_def RegisterSubsystem_def UnregisterSubsystem_def Let_def
      case_prod_unfold split: option.split prod.split)

lemma mgr_step_keeps:
  assumes e: "ev_Matcher e = M" "drivers_report e" and s: "ok s" and n: "mg_seq s' < 10000"
    and j: "job_at s i = Some j" "Terminal (jb_State j)" and st: "mgr_step e s s'"
  shows "job_at s' i = Some j"
  using st
proof cases
  case (submit js)
  have "mg_seq s + 1 < 10000" using n submit by simp
  then have "touches (jobID (mg_seq s + 1)) s s'" "job_at s (jobID (mg_seq s + 1)) = None"
    unfolding submit using touches_Submit [OF s] fresh_id [OF s] by blast+
  then show ?thesis using j(1) by (cases "i = jobID (mg_seq s + 1)") (auto simp: touches_def)
next
  case tick
  have st: "jb_State j \<noteq> Submitted" using j(2) by (auto simp: Terminal_def)
  obtain s1 where s1: "scheduleOnce e s = Some s1" "s' = (if ev_staged e then s1 else monitorOnce e s1)"
    using tick by (auto simp: Step_def split: option.splits)
  have "mg_seq s1 < 10000" using n s1(2) seq_monitorOnce [of e s1] by (simp split: if_splits)
  then show ?thesis
    using ok_scheduleOnce [OF e(1) s s1(1)] scheduleOnce_keeps [OF e(1) s s1(1) _ j(1) st]
      monitorOnce_keeps [OF e, of s1, OF _ _ j(2)] s1(2) by simp
qed (use e s j in \<open>simp_all add: queue_registration Cancel_keeps CancelAll_keeps\<close>)

end


definition cancelled_mgr :: "(sim, unit) mgr" where
  "cancelled_mgr = fst (Cancel (demo_env FirstFeasible False) ''job-0001'' placed_mgr)"

lemma cancelled_reach: "mgr_reach (demo_env FirstFeasible False) (NewManager empty_sim ()) cancelled_mgr"
  unfolding cancelled_mgr_def
  by (rule mgr_reach.step [OF placed_reach mgr_step.cancel])
    (simp add: Cancel_def Let_def case_prod_unfold failByID_def freeLocked_def q_Update_def split: option.split)

lemma cancelled_job: "map_option jb_State (job_at cancelled_mgr ''job-0001'') = Some Failed"
  by (simp add: cancelled_mgr_def Cancel_def placed_mgr_def q_Get_def fresh_job_def Terminal_def failByID_def
      freeLocked_def q_Update_def Update_def store_def Let_def case_prod_unfold)


section \<open>The queueing discipline\<close>

lemma before_cons: "sublist [x, y] xs \<Longrightarrow> True" by simp

section \<open>The queueing discipline\<close>

context fleet_matcher begin

lemma try_place_places:
  assumes "ev_Matcher e = M" "ok s" "try_place e j d cs s = Some (s', True)"
  shows "\<exists>c a. placed_on c a (job_at s' (jb_ID j))"
  using assms(3)
proof (induction cs)
  case (Cons c cs)
  obtain m' r where a: "mt_Allocate M (mg_Matcher s) (jb_Spec j) (ca_Cluster c) = Some (m', r)"
    using Cons.prems assms(1) by (auto split: option.splits)
  show ?case
  proof (cases "\<exists>al. r = Inr (Some al)")
    case True
    then obtain al where al: "r = Inr (Some al)" ..
    let ?j = "j\<lparr>jb_State := Matched, jb_AllocID := al_ID al, jb_ClusterID := al_ClusterID al,
      jb_Note := '''', jb_Decision := Some (d\<lparr>tr_Selected := al_ClusterID al\<rparr>)\<rparr>"
    have "queue_inv (mg_Queue (s\<lparr>mg_Matcher := m'\<rparr>))" using B_facts(1) assms(2) by auto
    from placed_on_Dispatch [OF this, of ?j e] show ?thesis
      using Cons.prems a al assms(1) by (auto simp: Let_def)
  next
    case False
    then have "s\<lparr>mg_Matcher := m'\<rparr> = s" using refused_same [OF assms(2) a] by blast
    then have "try_place e j d cs s = Some (s', True)"
      using Cons.prems a False assms(1) by (auto split: sum.splits option.splits)
    then show ?thesis by (rule Cons.IH)
  qed
qed simp

text \<open>
  Under a head-of-line policy the pass goes past a waiting job only when it settled it.\<close>

lemma passed_is_settled:
  assumes e: "ev_Matcher e = M" and b: "po_HeadOfLineBlock (ev_Policy e)" and s: "ok s"
    and r: "schedule_job e i s = Some (s', False)" and j: "job_at s i = Some j" "jb_State j = Submitted"
  shows "\<exists>k. job_at s' i = Some k \<and> jb_State k \<noteq> Submitted"
proof -
  have q: "queue_inv (mg_Queue s)" using s B_facts(1) by blast
  have id: "jb_ID j = i" by (rule ok_get_ID [OF s j(1)])
  obtain cands where c: "mt_Evaluate M (mg_Matcher s) (jb_Spec j) = Some cands"
    using r e j by (auto simp: schedule_job_def split: option.splits)
  have failed: "\<exists>k. job_at (fail_with k0 msg s0) i = Some k \<and> jb_State k \<noteq> Submitted"
    if "queue_inv (mg_Queue s0)" "jb_ID k0 = i" for k0 msg and s0 :: "('m, 'b) mgr"
    using that by (simp add: fail_with_def job_at_q)
  show ?thesis
  proof (cases "feasibleOnly cands = []")
    case True
    then have "failInfeasible e j s = Some s'" using r e j c by (auto simp: schedule_job_def)
    then show ?thesis
    proof (cases rule: failInfeasible_cases)
      case (failed k msg)
      then show ?thesis using id q by (simp add: fail_with_def job_at_q)
    next
      case (resubmitted k msg js)
      have "queue_inv (mg_Queue (fst (Submit js s)))" using q by (simp add: queue_inv_Update)
      then show ?thesis using id resubmitted by (simp add: fail_with_def job_at_q)
    qed
  next
    case False
    obtain scored d s1 where d: "decide e (jb_Spec j) cands s = (scored, d, s1)"
      by (cases "decide e (jb_Spec j) cands s")
    have s1: "ok s1" using ok_decide [OF s d] by blast
    have "try_place e j d (dispatchable s1 scored) s1 = Some (s', True)"
      using r e j c False d b by (auto simp: schedule_job_def Let_def split: if_splits option.splits bool.splits)
    then show ?thesis using try_place_places [OF e s1] id by (fastforce simp: placed_on_def)
  qed
qed

lemma schedule_loop_untouched:
  assumes e: "ev_Matcher e = M"
  shows "ok s \<Longrightarrow> schedule_loop e js s = Some s' \<Longrightarrow> mg_seq s' < 10000 \<Longrightarrow> i \<notin> jb_ID ` set js \<Longrightarrow>
    job_at s i \<noteq> None \<Longrightarrow> job_at s' i = job_at s i"
proof (induction js arbitrary: s)
  case (Cons x js)
  obtain s1 b where r: "schedule_job e (jb_ID x) s = Some (s1, b)"
    using Cons.prems(2) by (auto split: option.splits)
  have rest: "b \<or> schedule_loop e js s1 = Some s'" "b \<longrightarrow> s1 = s'"
    using Cons.prems(2) r by (auto split: bool.splits)
  then have n: "mg_seq s1 < 10000" using seq_schedule_loop [of e js s1 s'] Cons.prems(3) by fastforce
  have ok1: "ok s1" by (rule ok_schedule_job [OF e Cons.prems(1) r n])
  have "job_at s1 i = job_at s i"
    using touches_schedule_job [OF e Cons.prems(1) r n] Cons.prems(4,5) by (simp add: touches_def)
  then show ?case using rest Cons.IH [OF ok1 _ Cons.prems(3)] Cons.prems(4,5) by auto
qed simp

lemma no_overtaking:
  assumes e: "ev_Matcher e = M" and b: "po_HeadOfLineBlock (ev_Policy e)"
  shows "ok s \<Longrightarrow> schedule_loop e (pre @ x # post) s = Some s' \<Longrightarrow> mg_seq s' < 10000 \<Longrightarrow>
    distinct (map jb_ID (pre @ x # post)) \<Longrightarrow>
    \<forall>z \<in> set (x # post). \<exists>k. job_at s (jb_ID z) = Some k \<and> jb_State k = Submitted \<Longrightarrow>
    job_at s' (jb_ID x) = Some k \<Longrightarrow> jb_State k = Submitted \<Longrightarrow> y \<in> set post \<Longrightarrow>
    job_at s' (jb_ID y) = job_at s (jb_ID y)"
proof (induction pre arbitrary: s)
  case Nil
  obtain s1 stop where r: "schedule_job e (jb_ID x) s = Some (s1, stop)"
    using Nil.prems(2) by (auto split: option.splits)
  have rest: "stop \<or> schedule_loop e post s1 = Some s'" "stop \<longrightarrow> s1 = s'"
    using Nil.prems(2) r by (auto split: bool.splits)
  then have n: "mg_seq s1 < 10000" using seq_schedule_loop [of e post s1 s'] Nil.prems(3) by fastforce
  have ok1: "ok s1" by (rule ok_schedule_job [OF e Nil.prems(1) r n])
  have stop: stop
  proof (rule ccontr)
    assume "\<not> stop"
    obtain k0 where k0: "job_at s (jb_ID x) = Some k0" "jb_State k0 = Submitted" using Nil.prems(5) by auto
    obtain k1 where k1: "job_at s1 (jb_ID x) = Some k1" "jb_State k1 \<noteq> Submitted"
      using passed_is_settled [OF e b Nil.prems(1) _ k0] r \<open>\<not> stop\<close> by auto
    have "schedule_loop e post s1 = Some s'" using rest(1) \<open>\<not> stop\<close> by simp
    from schedule_loop_keeps [OF e ok1 this Nil.prems(3) k1] k1(2) Nil.prems(6,7) show False by simp
  qed
  have "jb_ID y \<noteq> jb_ID x" using Nil.prems(4) imageI [OF Nil.prems(8), of jb_ID] by auto
  moreover have "job_at s (jb_ID y) \<noteq> None" using Nil.prems(5,8) by auto
  ultimately show ?case
    using touches_schedule_job [OF e Nil.prems(1) r n] rest(2) stop by (simp add: touches_def)
next
  case (Cons z pre)
  obtain s1 stop where r: "schedule_job e (jb_ID z) s = Some (s1, stop)"
    using Cons.prems(2) by (auto split: option.splits)
  have rest: "stop \<or> schedule_loop e (pre @ x # post) s1 = Some s'" "stop \<longrightarrow> s1 = s'"
    using Cons.prems(2) r by (auto split: bool.splits)
  then have n: "mg_seq s1 < 10000" using seq_schedule_loop [of e "pre @ x # post" s1 s'] Cons.prems(3) by fastforce
  have ok1: "ok s1" by (rule ok_schedule_job [OF e Cons.prems(1) r n])
  have same: "job_at s1 (jb_ID w) = job_at s (jb_ID w)" if "w \<in> set (x # post)" for w
  proof -
    have "jb_ID w \<in> jb_ID ` set (pre @ x # post)" using that by (intro imageI) auto
    moreover have "jb_ID z \<notin> jb_ID ` set (pre @ x # post)"
      using Cons.prems(4) by (simp only: append_Cons list.map distinct.simps set_map) blast
    ultimately have "jb_ID w \<noteq> jb_ID z" by metis
    moreover have "job_at s (jb_ID w) \<noteq> None" using Cons.prems(5) that by auto
    ultimately show ?thesis using touches_schedule_job [OF e Cons.prems(1) r n] by (simp add: touches_def)
  qed
  show ?case
  proof (cases stop)
    case True
    then show ?thesis using rest(2) same Cons.prems(8) by simp
  next
    case False
    have "schedule_loop e (pre @ x # post) s1 = Some s'" using rest(1) False by simp
    moreover have "distinct (map jb_ID (pre @ x # post))" using Cons.prems(4) by simp
    moreover have "\<forall>z \<in> set (x # post). \<exists>k. job_at s1 (jb_ID z) = Some k \<and> jb_State k = Submitted"
      using Cons.prems(5) same by simp
    ultimately have "job_at s' (jb_ID y) = job_at s1 (jb_ID y)"
      by (rule Cons.IH [OF ok1 _ Cons.prems(3) _ _ Cons.prems(6-8)])
    then show ?thesis using same Cons.prems(8) by simp
  qed
qed

end

text \<open>
  C11. First come, first served, strictly. Under \<open>FCFS\<close> no job overtakes another: when a job is
  still waiting after a pass over a non-empty fleet, every job submitted behind it is exactly as
  it was before the pass. The pass orders jobs by submission time.
\<close>

theorem fcfs_no_overtaking:
  assumes "ev_Matcher e = SimMatcher" "drivers_report e" "mgr_reach e (NewManager empty_sim w) s"
    and "ev_Policy e = FCFS" "mg_Fleet s \<noteq> []" "scheduleOnce e s = Some s'" "mg_seq s' < 10000"
    and "Provisional (mg_Queue s) = pre @ x # post" "y \<in> set post"
    and "job_at s' (jb_ID x) = Some k" "jb_State k = Submitted"
  shows "jb_SubmittedAt x \<le> jb_SubmittedAt y \<and> job_at s' (jb_ID y) = job_at s (jb_ID y)"
proof -
  have ok: "sims.ok s"
    by (rule sims.ok_reach [OF assms(1,2) sim_inv_empty _ assms(3)]) (simp add: sim_owns_def empty_sim_def)
  then have q: "queue_inv (mg_Queue s)" using sims.B_facts(1) by blast
  have "schedule_loop e (pre @ x # post) s = Some s'"
    using assms(4-6,8) by (simp add: scheduleOnce_def FCFS_def fl_Len_def Let_def)
  moreover have "distinct (map jb_ID (pre @ x # post))"
    unfolding assms(8) [symmetric] Provisional_def by (rule distinct_q_filter [OF q])
  moreover have "\<forall>z \<in> set (x # post). \<exists>k. job_at s (jb_ID z) = Some k \<and> jb_State k = Submitted"
  proof
    fix z assume "z \<in> set (x # post)"
    then have "z \<in> set (Provisional (mg_Queue s))" unfolding assms(8) by auto
    then show "\<exists>k. job_at s (jb_ID z) = Some k \<and> jb_State k = Submitted"
      using q by (auto simp: Provisional_def in_q_filter)
  qed
  moreover have "po_HeadOfLineBlock (ev_Policy e)" using assms(4) by (simp add: FCFS_def)
  ultimately have "job_at s' (jb_ID y) = job_at s (jb_ID y)"
    using sims.no_overtaking [OF assms(1) _ ok _ assms(7) _ _ assms(10,11,9)] by blast
  moreover have "sorted (map jb_SubmittedAt (pre @ x # post))"
    unfolding assms(8) [symmetric] Provisional_def by (rule sorted_q_filter)
  ultimately show ?thesis using assms(9) by (auto simp: sorted_append)
qed

text \<open>Two more jobs behind a full cluster.\<close>

definition full_mgr :: "(sim, unit) mgr" where
  "full_mgr = fst (Submit one_node_job (fst (Submit one_node_job placed_mgr)))"

lemma jobID_23: "jobID (Suc (Suc 0)) = ''job-0002''" "jobID (Suc (Suc (Suc 0))) = ''job-0003''"
  by code_simp+

lemma full_mgr_eq:
  "full_mgr = placed_mgr\<lparr>mg_seq := 3, mg_Queue := mg_Queue placed_mgr @
     [(''job-0002'', fresh_job ''job-0002'' one_node_job 0), (''job-0003'', fresh_job ''job-0003'' one_node_job 0)]\<rparr>"
  by (simp add: full_mgr_def Submit_def Let_def placed_mgr_def Enqueue_def store_def jobID_23
      fresh_job_def eval_nat_numeral)

lemma full_reach: "mgr_reach (demo_env FirstFeasible False) (NewManager empty_sim ()) full_mgr"
  unfolding full_mgr_def
  by (intro mgr_reach.step [OF _ mgr_step.submit] placed_reach) simp_all

lemma booked_Evaluate:
  "sim_Evaluate booked_sim one_node_job = Some [\<lparr>ca_Cluster = ''c1'', ca_Feasible = True, ca_FreeNow = False,
     ca_FreeNodes = 0, ca_Matched = [], ca_Missing = [], ca_Score = 0\<rparr>]"
  by (simp add: sim_Evaluate_def evaluate_one_def demo_fitting held_def requires_report_def demo_subsystems
      Let_def booked_sim_def)

lemma booked_Allocate: "sim_Allocate booked_sim one_node_job ''c1'' = Some (booked_sim, Inr None)"
  by (simp add: sim_Allocate_def demo_fitting held_def booked_sim_def)

definition blocked_mgr :: "(sim, unit) mgr" where
  "blocked_mgr = setNote (fresh_job ''job-0002'' one_node_job 0) (full_note 1) full_mgr"

lemma full_scheduleOnce: "scheduleOnce (demo_env FirstFeasible False) full_mgr = Some blocked_mgr"
proof -
  have prov: "Provisional (mg_Queue full_mgr) = [fresh_job ''job-0002'' one_node_job 0, fresh_job ''job-0003'' one_node_job 0]"
    by (simp add: full_mgr_eq placed_mgr_def Provisional_def q_filter_def) (simp add: fresh_job_def)
  have get: "job_at full_mgr ''job-0002'' = Some (fresh_job ''job-0002'' one_node_job 0)"
    by (simp add: full_mgr_eq placed_mgr_def q_Get_def)
  have simps: "mg_Matcher full_mgr = booked_sim" "mg_Fleet full_mgr = [one_node ''c1'' []]"
    by (simp_all add: full_mgr_eq placed_mgr_def)
  have j: "schedule_job (demo_env FirstFeasible False) ''job-0002'' full_mgr = Some (blocked_mgr, True)"
    by (simp add: schedule_job_def get simps demo_matcher booked_Evaluate booked_Allocate feasibleOnly_def decide_def
        FirstFeasible_def dispatchable_def Let_def FCFS_def blocked_mgr_def)
      (simp add: full_mgr_eq placed_mgr_def demo_mgr_def NewManager_def)
  show ?thesis by (simp add: scheduleOnce_def prov simps fl_Len_def FCFS_def j)
qed

theorem fcfs_no_overtaking_witness:
  "job_at blocked_mgr ''job-0003'' = job_at full_mgr ''job-0003'' \<and> job_at blocked_mgr ''job-0002'' \<noteq> job_at full_mgr ''job-0002''"
proof -
  have prov: "Provisional (mg_Queue full_mgr) = [] @ fresh_job ''job-0002'' one_node_job 0 # [fresh_job ''job-0003'' one_node_job 0]"
    by (simp add: full_mgr_eq placed_mgr_def Provisional_def q_filter_def) (simp add: fresh_job_def)
  have k: "job_at blocked_mgr (jb_ID (fresh_job ''job-0002'' one_node_job 0)) =
      Some ((fresh_job ''job-0002'' one_node_job 0)\<lparr>jb_Note := full_note 1, jb_UpdatedAt := 0\<rparr>)"
    by (simp add: blocked_mgr_def setNote_def full_note_def full_mgr_eq placed_mgr_def q_Update_def Update_def
        store_def q_Get_def)
  have "job_at full_mgr ''job-0002'' = Some (fresh_job ''job-0002'' one_node_job 0)"
    by (simp add: full_mgr_eq placed_mgr_def q_Get_def)
  moreover have "job_at blocked_mgr ''job-0003'' = job_at full_mgr ''job-0003''"
    using fcfs_no_overtaking [OF demo_env_simps(1) demo_reports full_reach demo_env_simps(4) _ full_scheduleOnce _ prov _ k,
        of "fresh_job ''job-0003'' one_node_job 0"]
    by (simp add: blocked_mgr_def setNote_def full_mgr_eq placed_mgr_def q_Update_def)
  ultimately show ?thesis using k by (simp add: fresh_job_def full_note_def)
qed

end
