(* ===== verification/Pipeline.thy ===== *)
theory Pipeline
  imports Schedule
begin

text \<open>
  Package \<open>pkg/manager\<close>, files \<open>pipeline.go\<close> and \<open>river.go\<close>: the staged pipeline. A
  handler runs its slow work (transform, submit, status, cancel) without the lock and changes
  the queue and the matcher in short locked segments, each of which reads the job again. The
  segments are functions of their own; the handlers compose them in the order of the code, and
  the step relation at the end lets the segments of any number of handlers interleave with each
  other and with the requests of \<open>manager.go\<close>.
\<close>

section \<open>Attempts\<close>

datatype dispatchOutcome =
  outcomeSuccess | outcomeRepairable | outcomeWrongTarget | outcomeTransient | outcomeHardFail

record attemptResult =
  at_outcome :: dispatchOutcome
  at_handle :: string
  at_note :: string
  at_artifact :: string

definition maxReschedules :: nat where
  "maxReschedules = 3"

text \<open>Two seconds, in nanoseconds.\<close>

definition monitorInterval :: int where
  "monitorInterval = 2 * 1000000000"

definition hard_fail :: "string \<Rightarrow> string \<Rightarrow> attemptResult" where
  "hard_fail msg artifact = \<lparr>at_outcome = outcomeHardFail, at_handle = '''', at_note = msg, at_artifact = artifact\<rparr>"

definition validateThenSubmit ::
  "('m, 'w) env \<Rightarrow> cluster_graph \<Rightarrow> content \<Rightarrow> 'w \<Rightarrow> 'w \<times> attemptResult" where
  "validateThenSubmit e c content w =
     (case ev_validate e c content of
        (verdictWrongTarget, detail) \<Rightarrow>
          (w, \<lparr>at_outcome = outcomeWrongTarget, at_handle = '''', at_note = detail, at_artifact = ct_Payload content\<rparr>)
      | (verdictRepairable, detail) \<Rightarrow>
          (w, \<lparr>at_outcome = outcomeRepairable, at_handle = '''', at_note = detail, at_artifact = ct_Payload content\<rparr>)
      | (verdictValid, detail) \<Rightarrow>
          (case driverFor e c of
             Inl err \<Rightarrow> (w, hard_fail err (ct_Payload content))
           | Inr drv \<Rightarrow>
               (case dr_Submit drv w c content of
                  (w, Inl err) \<Rightarrow> (w, hard_fail (''submit: '' @ err) (ct_Payload content))
                | (w, Inr handle) \<Rightarrow>
                    (w, \<lparr>at_outcome = outcomeSuccess, at_handle = handle, at_note = ''dispatched'',
                         at_artifact = ct_Payload content\<rparr>))))"

definition runAttempt :: "('m, 'w) env \<Rightarrow> job \<Rightarrow> ('m, 'w) mgr \<Rightarrow> 'w \<times> attemptResult" where
  "runAttempt e j s =
     (case fl_Get (mg_Fleet s) (jb_ClusterID j) of
        None \<Rightarrow> (mg_World s, hard_fail ''assigned cluster not found'' '''')
      | Some c \<Rightarrow>
          (case ev_Transform e (mg_World s) (WithJobID (jb_Spec j) (jb_ID j)) c of
             (w, Inl err) \<Rightarrow> (w, hard_fail (''transform: '' @ err) '''')
           | (w, Inr content) \<Rightarrow> validateThenSubmit e c content w))"

definition runRepair :: "('m, 'w) env \<Rightarrow> job \<Rightarrow> string \<Rightarrow> ('m, 'w) mgr \<Rightarrow> 'w \<times> attemptResult" where
  "runRepair e j lastErr s =
     (case ev_Repair e of
        None \<Rightarrow> (mg_World s, hard_fail ''no repair agent configured'' '''')
      | Some repair \<Rightarrow>
          (case fl_Get (mg_Fleet s) (jb_ClusterID j) of
             None \<Rightarrow> (mg_World s, hard_fail ''assigned cluster not found'' '''')
           | Some c \<Rightarrow>
               (case repair (mg_World s) (jb_Spec j) c (jb_Artifact j) lastErr of
                  (w, Inl err) \<Rightarrow> (w, hard_fail (''repair: '' @ err) '''')
                | (w, Inr content) \<Rightarrow> validateThenSubmit e c content w)))"

definition status :: "('m, 'w) env \<Rightarrow> cluster_graph \<Rightarrow> string \<Rightarrow> 'w \<Rightarrow> 'w \<times> (string + state \<times> string)" where
  "status e c handle w = (case driverFor e c of Inl err \<Rightarrow> (w, Inl err) | Inr drv \<Rightarrow> dr_Status drv w c handle)"

definition cancelRemote :: "('m, 'w) env \<Rightarrow> cluster_graph \<Rightarrow> string \<Rightarrow> 'w \<Rightarrow> 'w \<times> string option" where
  "cancelRemote e c handle w = (case driverFor e c of Inl err \<Rightarrow> (w, Some err) | Inr drv \<Rightarrow> dr_Cancel drv w c handle)"

text \<open>\<open>c, _ := m.Fleet.Get(...)\<close>: the zero cluster when there is none.\<close>

definition cluster_or_zero :: "('m, 'w) mgr \<Rightarrow> string \<Rightarrow> cluster_graph" where
  "cluster_or_zero s i = (case fl_Get (mg_Fleet s) i of None \<Rightarrow> zero_cluster | Some c \<Rightarrow> c)"

section \<open>Locked segments\<close>

text \<open>Take a job for a stage: \<open>None\<close> when it is gone or finished.\<close>

definition take_open :: "string \<Rightarrow> ('m, 'w) mgr \<Rightarrow> job option" where
  "take_open i s = (case q_Get (mg_Queue s) i of
     None \<Rightarrow> None | Some j \<Rightarrow> if Terminal (jb_State j) then None else Some j)"

definition dispatch_begin :: "string \<Rightarrow> ('m, 'w) mgr \<Rightarrow> job option \<times> ('m, 'w) mgr" where
  "dispatch_begin i s =
     (case take_open i s of
        None \<Rightarrow> (None, s)
      | Some j \<Rightarrow> (let j = j\<lparr>jb_State := Dispatching\<rparr> in (Some j, q_Update j s)))"

definition commit_running :: "string \<Rightarrow> attemptResult \<Rightarrow> ('m, 'w) mgr \<Rightarrow> ('m, 'w) mgr" where
  "commit_running i res s =
     (case q_Get (mg_Queue s) i of
        None \<Rightarrow> s
      | Some j \<Rightarrow> q_Update (j\<lparr>jb_State := Running, jb_RemoteHandle := at_handle res, jb_Note := at_note res,
                            jb_Artifact := at_artifact res\<rparr>) s)"

definition commit_artifact :: "string \<Rightarrow> attemptResult \<Rightarrow> ('m, 'w) mgr \<Rightarrow> ('m, 'w) mgr" where
  "commit_artifact i res s =
     (case q_Get (mg_Queue s) i of
        None \<Rightarrow> s
      | Some j \<Rightarrow> q_Update (j\<lparr>jb_Note := at_note res, jb_Artifact := at_artifact res\<rparr>) s)"

text \<open>The record of a job handed back, its allocation already freed.\<close>

definition handed_back :: "string \<Rightarrow> job \<Rightarrow> job" where
  "handed_back why j =
     (if jb_Reschedules j + 1 > maxReschedules
      then j\<lparr>jb_RemoteHandle := '''', jb_State := Failed,
             jb_Note := ''wrong-target; reschedule limit reached: '' @ why\<rparr>
      else j\<lparr>jb_RemoteHandle := '''', jb_Reschedules := jb_Reschedules j + 1, jb_ClusterID := '''',
             jb_State := Submitted, jb_Note := ''rescheduling ('' @ why @ '')''\<rparr>)"

definition reschedule_commit :: "('m, 'w) env \<Rightarrow> string \<Rightarrow> string \<Rightarrow> ('m, 'w) mgr \<Rightarrow> ('m, 'w) mgr" where
  "reschedule_commit e i why s =
     (case q_Get (mg_Queue s) i of
        None \<Rightarrow> s
      | Some j \<Rightarrow> (case freeLocked e j s of (j, s) \<Rightarrow> q_Update (handed_back why j) s))"

definition monitor_commit :: "('m, 'w) env \<Rightarrow> string \<Rightarrow> state \<Rightarrow> string \<Rightarrow> ('m, 'w) mgr \<Rightarrow> ('m, 'w) mgr" where
  "monitor_commit e i st msg s =
     (case q_Get (mg_Queue s) i of
        None \<Rightarrow> s
      | Some j \<Rightarrow>
          (let j = (if st \<noteq> jb_State j \<or> msg \<noteq> jb_Note j then j\<lparr>jb_State := st, jb_Note := msg\<rparr> else j);
               (j, s) = (if Terminal st then freeLocked e j s else (j, s))
           in q_Update j s))"

section \<open>Handlers\<close>

definition reschedule :: "('m, 'w) env \<Rightarrow> string \<Rightarrow> string \<Rightarrow> ('m, 'w) mgr \<Rightarrow> ('m, 'w) mgr" where
  "reschedule e i why s =
     (case q_Get (mg_Queue s) i of
        None \<Rightarrow> s
      | Some j \<Rightarrow>
          (let w = (if jb_RemoteHandle j \<noteq> ''''
                    then fst (cancelRemote e (cluster_or_zero s (jb_ClusterID j)) (jb_RemoteHandle j) (mg_World s))
                    else mg_World s)
           in reschedule_commit e i why (s\<lparr>mg_World := w\<rparr>)))"

text \<open>A handler returns the next stage (empty: none) and whether the transport should retry.\<close>

definition dispatch_route ::
  "('m, 'w) env \<Rightarrow> string \<Rightarrow> attemptResult \<Rightarrow> ('m, 'w) mgr \<Rightarrow> (string \<times> bool) \<times> ('m, 'w) mgr" where
  "dispatch_route e i res s =
     (case at_outcome res of
        outcomeSuccess \<Rightarrow> ((''monitor'', False), commit_running i res s)
      | outcomeRepairable \<Rightarrow> ((''repair'', False), commit_artifact i res s)
      | outcomeTransient \<Rightarrow> (('''', True), s)
      | outcomeWrongTarget \<Rightarrow> (('''', False), reschedule e i (at_note res) s)
      | outcomeHardFail \<Rightarrow> (('''', False), failByID e i (at_note res) s))"

definition handleDispatch :: "('m, 'w) env \<Rightarrow> string \<Rightarrow> ('m, 'w) mgr \<Rightarrow> (string \<times> bool) \<times> ('m, 'w) mgr" where
  "handleDispatch e i s =
     (case dispatch_begin i s of
        (None, s) \<Rightarrow> (('''', False), s)
      | (Some work, s) \<Rightarrow>
          (case runAttempt e work s of (w, res) \<Rightarrow> dispatch_route e i res (s\<lparr>mg_World := w\<rparr>)))"

definition repair_route ::
  "('m, 'w) env \<Rightarrow> string \<Rightarrow> nat \<Rightarrow> nat \<Rightarrow> attemptResult \<Rightarrow> ('m, 'w) mgr \<Rightarrow> (string \<times> bool) \<times> ('m, 'w) mgr" where
  "repair_route e i attempt maxAttempt res s =
     (case at_outcome res of
        outcomeSuccess \<Rightarrow> ((''monitor'', False), commit_running i res s)
      | outcomeWrongTarget \<Rightarrow> (('''', False), reschedule e i (at_note res) s)
      | outcomeRepairable \<Rightarrow>
          (if attempt < maxAttempt then (('''', True), commit_artifact i res s)
           else (('''', False), failByID e i (''repair exhausted: '' @ at_note res) s))
      | _ \<Rightarrow> (('''', False), failByID e i (''repair: '' @ at_note res) s))"

definition handleRepair ::
  "('m, 'w) env \<Rightarrow> string \<Rightarrow> string \<Rightarrow> nat \<Rightarrow> nat \<Rightarrow> ('m, 'w) mgr \<Rightarrow> (string \<times> bool) \<times> ('m, 'w) mgr" where
  "handleRepair e i lastErr attempt maxAttempt s =
     (case take_open i s of
        None \<Rightarrow> (('''', False), s)
      | Some work \<Rightarrow>
          (case runRepair e work lastErr s of (w, res) \<Rightarrow>
             repair_route e i attempt maxAttempt res (s\<lparr>mg_World := w\<rparr>)))"

text \<open>The monitor returns whether the job is done and how long to wait before the next poll.\<close>

definition handleMonitor :: "('m, 'w) env \<Rightarrow> string \<Rightarrow> ('m, 'w) mgr \<Rightarrow> (bool \<times> int) \<times> ('m, 'w) mgr" where
  "handleMonitor e i s =
     (case take_open i s of
        None \<Rightarrow> ((True, 0), s)
      | Some j \<Rightarrow>
          (if jb_RemoteHandle j = '''' then ((False, monitorInterval), s)
           else (case status e (cluster_or_zero s (jb_ClusterID j)) (jb_RemoteHandle j) (mg_World s) of
                   (w, Inl err) \<Rightarrow> ((False, monitorInterval), s\<lparr>mg_World := w\<rparr>)
                 | (w, Inr (st, msg)) \<Rightarrow>
                     ((Terminal st, monitorInterval), monitor_commit e i st msg (s\<lparr>mg_World := w\<rparr>)))))"

section \<open>The stage queues\<close>

definition repairMaxAttempts :: nat where
  "repairMaxAttempts = 3"

text \<open>
  Inserting into the next stage. The durable queue is \<open>mg_Stages\<close>; \<open>riverInsert\<close> is wired
  exactly with the staged dispatcher, and an insert into it succeeds.
\<close>

definition enqueueStage :: "('m, 'w) env \<Rightarrow> string \<Rightarrow> string \<Rightarrow> ('m, 'w) mgr \<Rightarrow> string option \<times> ('m, 'w) mgr" where
  "enqueueStage e next i s =
     (if next = '''' then (None, s)
      else if \<not> ev_staged e then (Some (''no river client wired for stage '' @ go_quote next), s)
      else if next = ''dispatch'' then (None, s\<lparr>mg_Stages := mg_Stages s @ [(StDispatch, i)]\<rparr>)
      else if next = ''monitor'' then (None, s\<lparr>mg_Stages := mg_Stages s @ [(StMonitor, i)]\<rparr>)
      else if next = ''repair''
      then (let msg = (case q_Get (mg_Queue s) i of None \<Rightarrow> '''' | Some j \<Rightarrow> jb_Note j)
            in (None, s\<lparr>mg_Stages := mg_Stages s @ [(StRepair msg, i)]\<rparr>))
      else (Some (''unknown stage '' @ go_quote next), s))"

text \<open>The workers: an error makes the transport run the same stage again, with the same arguments.\<close>

definition dispatchWorker :: "('m, 'w) env \<Rightarrow> string \<Rightarrow> ('m, 'w) mgr \<Rightarrow> string option \<times> ('m, 'w) mgr" where
  "dispatchWorker e i s =
     (case handleDispatch e i s of
        ((next, True), s) \<Rightarrow> (Some (''dispatch transient failure; retrying '' @ i), s)
      | ((next, False), s) \<Rightarrow> enqueueStage e next i s)"

definition repairWorker ::
  "('m, 'w) env \<Rightarrow> string \<Rightarrow> string \<Rightarrow> nat \<Rightarrow> nat \<Rightarrow> ('m, 'w) mgr \<Rightarrow> string option \<times> ('m, 'w) mgr" where
  "repairWorker e i lastErr attempt maxAttempts s =
     (case handleRepair e i lastErr attempt maxAttempts s of
        ((next, True), s) \<Rightarrow> (Some (''repair not yet resolved; retrying '' @ i), s)
      | ((next, False), s) \<Rightarrow> enqueueStage e next i s)"

definition monitorWorker :: "('m, 'w) env \<Rightarrow> string \<Rightarrow> ('m, 'w) mgr \<Rightarrow> string option \<times> ('m, 'w) mgr" where
  "monitorWorker e i s =
     (case handleMonitor e i s of
        ((True, _), s) \<Rightarrow> (None, s)
      | ((False, snooze), s) \<Rightarrow> (None, s\<lparr>mg_Stages := mg_Stages s @ [(StMonitor, i)]\<rparr>))"

section \<open>All interleavings\<close>

text \<open>
  A locked segment of some handler, for any job and any result of the unlocked work. What was
  read before the lock was taken does not matter to a segment beyond the result it commits, so
  every interleaving of any number of handlers, of any number of runs of the same stage, is a
  sequence of these steps and of the steps of \<open>manager.go\<close>.
\<close>

inductive segment :: "('m, 'w) env \<Rightarrow> ('m, 'w) mgr \<Rightarrow> ('m, 'w) mgr \<Rightarrow> bool" for e where
  begin_dispatch: "segment e s (snd (dispatch_begin i s))"
| running: "segment e s (commit_running i res s)"
| artifact: "segment e s (commit_artifact i res s)"
| fail: "segment e s (failByID e i msg s)"
| reschedule: "segment e s (reschedule_commit e i why s)"
| monitor: "st \<noteq> Submitted \<Longrightarrow> segment e s (monitor_commit e i st msg s)"
| world: "segment e s (s\<lparr>mg_World := w\<rparr>)"
| stages: "segment e s (s\<lparr>mg_Stages := q\<rparr>)"

inductive segments :: "('m, 'w) env \<Rightarrow> ('m, 'w) mgr \<Rightarrow> ('m, 'w) mgr \<Rightarrow> bool" for e where
  none: "segments e s s"
| more: "segments e s s' \<Longrightarrow> segment e s' s'' \<Longrightarrow> segments e s s''"

inductive staged_reach :: "('m, 'w) env \<Rightarrow> ('m, 'w) mgr \<Rightarrow> ('m, 'w) mgr \<Rightarrow> bool" for e s0 where
  start: "staged_reach e s0 s0"
| request: "staged_reach e s0 s \<Longrightarrow> mgr_step e s s' \<Longrightarrow> mg_seq s' < 10000 \<Longrightarrow> staged_reach e s0 s'"
| handler: "staged_reach e s0 s \<Longrightarrow> segment e s s' \<Longrightarrow> staged_reach e s0 s'"

lemma one_segment: "segment e s s' \<Longrightarrow> segments e s s'"
  by (rule segments.more [OF segments.none])

lemma segments_trans: "segments e s' s'' \<Longrightarrow> segments e s s' \<Longrightarrow> segments e s s''"
  by (induction rule: segments.induct) (auto intro: segments.more)

lemma staged_segments: "segments e s s' \<Longrightarrow> staged_reach e s0 s \<Longrightarrow> staged_reach e s0 s'"
  by (induction rule: segments.induct) (auto intro: staged_reach.handler)

text \<open>
  The handlers are runs of segments.\<close>

lemma segments_reschedule: "segments e s (reschedule e i why s)"
proof (cases "q_Get (mg_Queue s) i")
  case (Some j)
  have "segments e s (reschedule_commit e i why (s\<lparr>mg_World := w\<rparr>))" for w
    by (rule segments.more [OF one_segment [OF segment.world] segment.reschedule])
  then show ?thesis using Some by (simp add: reschedule_def Let_def)
qed (simp add: reschedule_def segments.none)

lemma segments_routes:
  "segments e s (snd (dispatch_route e i res s))" "segments e s (snd (repair_route e i k n res s))"
  by (cases "at_outcome res"; simp add: dispatch_route_def repair_route_def segments_reschedule segments.none
      one_segment segment.intros)+

lemma segments_world: "segments e (s\<lparr>mg_World := w\<rparr>) s' \<Longrightarrow> segments e s s'"
  using segments_trans [OF _ one_segment [OF segment.world]] .

lemma segments_handleDispatch: "segments e s (snd (handleDispatch e i s))"
proof (cases "dispatch_begin i s")
  case (Pair work s1)
  have b: "segments e s s1" using one_segment [OF segment.begin_dispatch, of e s i] Pair by simp
  show ?thesis
  proof (cases work)
    case (Some j)
    obtain w res where "runAttempt e j s1 = (w, res)" by (cases "runAttempt e j s1")
    then show ?thesis
      using Pair Some segments_trans [OF segments_world [OF segments_routes(1)] b] by (simp add: handleDispatch_def)
  qed (use Pair b in \<open>simp add: handleDispatch_def\<close>)
qed

lemma segments_handleRepair: "segments e s (snd (handleRepair e i lastErr k n s))"
proof (cases "take_open i s")
  case (Some j)
  obtain w res where "runRepair e j lastErr s = (w, res)" by (cases "runRepair e j lastErr s")
  then show ?thesis using Some segments_world [OF segments_routes(2)] by (simp add: handleRepair_def)
qed (simp add: handleRepair_def segments.none)

lemma segments_handleMonitor:
  assumes "drivers_report e"
  shows "segments e s (snd (handleMonitor e i s))"
proof (cases "\<exists>j. take_open i s = Some j \<and> jb_RemoteHandle j \<noteq> ''''")
  case True
  then obtain j where j: "take_open i s = Some j" "jb_RemoteHandle j \<noteq> ''''" by blast
  obtain w r where r: "status e (cluster_or_zero s (jb_ClusterID j)) (jb_RemoteHandle j) (mg_World s) = (w, r)"
    by (cases "status e (cluster_or_zero s (jb_ClusterID j)) (jb_RemoteHandle j) (mg_World s)")
  show ?thesis
  proof (cases r)
    case (Inr p)
    obtain st msg where p: "p = (st, msg)" by (cases p)
    have "st \<noteq> Submitted"
      using assms [unfolded drivers_report_def, rule_format] r Inr p by (auto simp: status_def split: sum.splits)
    then have "segments e s (monitor_commit e i st msg (s\<lparr>mg_World := w\<rparr>))"
      by (rule segments.more [OF one_segment [OF segment.world] segment.monitor])
    then show ?thesis using j r Inr p by (simp add: handleMonitor_def)
  qed (use j r in \<open>simp add: handleMonitor_def one_segment [OF segment.world]\<close>)
qed (auto simp: handleMonitor_def segments.none split: option.split)

lemma segments_enqueueStage: "segments e s (snd (enqueueStage e next i s))"
  by (simp add: enqueueStage_def Let_def segments.none one_segment [OF segment.stages])

text \<open>
  One run of a worker of the transport is such a run: the handler, then the insertion of the
  job into its next stage.
\<close>

lemma segments_workers:
  assumes "drivers_report e"
  shows "segments e s (snd (dispatchWorker e i s))" "segments e s (snd (repairWorker e i lastErr k n s))"
    "segments e s (snd (monitorWorker e i s))"
proof -
  obtain next1 retry1 s1 where d: "handleDispatch e i s = ((next1, retry1), s1)"
    by (cases "handleDispatch e i s") auto
  have "segments e s s1" using segments_handleDispatch [of e s i] d by simp
  then show "segments e s (snd (dispatchWorker e i s))"
    using d segments_trans [OF segments_enqueueStage, of e s s1 next1 i] by (cases retry1) (simp_all add: dispatchWorker_def)
  obtain next2 retry2 s2 where r: "handleRepair e i lastErr k n s = ((next2, retry2), s2)"
    by (cases "handleRepair e i lastErr k n s") auto
  have "segments e s s2" using segments_handleRepair [of e s i lastErr k n] r by simp
  then show "segments e s (snd (repairWorker e i lastErr k n s))"
    using r segments_trans [OF segments_enqueueStage, of e s s2 next2 i] by (cases retry2) (simp_all add: repairWorker_def)
  obtain fin snooze s3 where m: "handleMonitor e i s = ((fin, snooze), s3)"
    by (cases "handleMonitor e i s") auto
  have "segments e s s3" using segments_handleMonitor [OF assms, of s i] m by simp
  then show "segments e s (snd (monitorWorker e i s))"
    using m segments.more [OF _ segment.stages] by (cases fin) (simp_all add: monitorWorker_def)
qed

section \<open>The books under interleaving\<close>

context fleet_matcher begin

lemma ok_freed:
  assumes e: "ev_Matcher e = M" and s: "ok s" and j: "job_at s i = Some j"
    and k: "jb_ID k = i" "jb_AllocID k = ''''"
  shows "ok (q_Update k (snd (freeLocked e j s)))"
proof -
  have id: "jb_ID j = i" by (rule ok_get_ID [OF s j])
  show ?thesis
    by (rule ok_release [where j = k and old = j and now = "mg_now s", OF s])
      (use e j k in \<open>auto simp: freeLocked_def q_Update_def\<close>)
qed

lemma freeLocked_simps [simp]:
  "jb_AllocID (fst (freeLocked e j s)) = ''''" "jb_ID (fst (freeLocked e j s)) = jb_ID j"
  "jb_Reschedules (fst (freeLocked e j s)) = jb_Reschedules j"
  by (simp_all add: freeLocked_def)

lemma ok_segment:
  assumes e: "ev_Matcher e = M" and s: "ok s" and st: "segment e s s'"
  shows "ok s'"
  using st
proof cases
  case (begin_dispatch i)
  show ?thesis
  proof (cases "take_open i s")
    case (Some j)
    then have j: "job_at s i = Some j" "\<not> Terminal (jb_State j)" by (auto simp: take_open_def split: option.splits if_splits)
    have "ok (q_Update (j\<lparr>jb_State := Dispatching\<rparr>) s)"
      by (rule ok_keep [where old = j, OF s]) (use j ok_get_ID [OF s j(1)] in \<open>auto simp: Terminal_def\<close>)
    then show ?thesis using begin_dispatch Some by (simp add: dispatch_begin_def Let_def)
  qed (use begin_dispatch s in \<open>simp add: dispatch_begin_def\<close>)
next
  case (running i res)
  show ?thesis
  proof (cases "job_at s i")
    case (Some j)
    have "ok (q_Update (j\<lparr>jb_State := Running, jb_RemoteHandle := at_handle res, jb_Note := at_note res,
        jb_Artifact := at_artifact res\<rparr>) s)"
      by (rule ok_keep [where old = j, OF s]) (use Some ok_get_ID [OF s Some] in \<open>auto simp: Terminal_def\<close>)
    then show ?thesis using running Some by (simp add: commit_running_def)
  qed (use running s in \<open>simp add: commit_running_def\<close>)
next
  case (artifact i res)
  show ?thesis
  proof (cases "job_at s i")
    case (Some j)
    have "ok (q_Update (j\<lparr>jb_Note := at_note res, jb_Artifact := at_artifact res\<rparr>) s)"
      by (rule ok_keep [where old = j, OF s])
        (use Some ok_get_ID [OF s Some] B_facts(4) [of "mg_Queue s" "mg_Matcher s" i j] s in auto)
    then show ?thesis using artifact Some by (simp add: commit_artifact_def)
  qed (use artifact s in \<open>simp add: commit_artifact_def\<close>)
next
  case (fail i msg)
  then show ?thesis using ok_failByID [OF e s] by simp
next
  case (reschedule i why)
  show ?thesis
  proof (cases "job_at s i")
    case (Some j)
    have "jb_ID (handed_back why k) = jb_ID k" "jb_AllocID (handed_back why k) = jb_AllocID k" for k
      by (simp_all add: handed_back_def)
    then show ?thesis
      using ok_freed [OF e s Some, of "handed_back why (fst (freeLocked e j s))"] reschedule Some ok_get_ID [OF s Some]
      by (simp add: reschedule_commit_def case_prod_unfold)
  qed (use reschedule s in \<open>simp add: reschedule_commit_def\<close>)
next
  case (monitor st i msg)
  show ?thesis
  proof (cases "job_at s i")
    case (Some j)
    have id: "jb_ID j = i" by (rule ok_get_ID [OF s Some])
    let ?j = "if st \<noteq> jb_State j \<or> msg \<noteq> jb_Note j then j\<lparr>jb_State := st, jb_Note := msg\<rparr> else j"
    show ?thesis
    proof (cases "Terminal st")
      case True
      have "snd (freeLocked e ?j s) = snd (freeLocked e j s)" by (simp add: freeLocked_def)
      then have "s' = q_Update (fst (freeLocked e ?j s)) (snd (freeLocked e j s))"
        using monitor Some True by (simp add: monitor_commit_def Let_def case_prod_unfold)
      then show ?thesis using ok_freed [OF e s Some, of "fst (freeLocked e ?j s)"] id by simp
    next
      case False
      have "ok (q_Update ?j s)"
        by (rule ok_keep [where old = j, OF s])
          (use Some id False monitor(2) B_facts(4) [of "mg_Queue s" "mg_Matcher s" i j] s in \<open>auto split: if_splits\<close>)
      then show ?thesis using monitor Some False by (simp add: monitor_commit_def Let_def)
    qed
  qed (use monitor s in \<open>simp add: monitor_commit_def\<close>)
qed (use s in simp_all)

lemma ok_staged:
  assumes e: "ev_Matcher e = M" "drivers_report e" and m: "minv m" "\<And>a. owns m a = {}"
    and r: "staged_reach e (NewManager m w) s"
  shows "ok s"
  using r
proof (induction rule: staged_reach.induct)
  case start
  show ?case by (rule ok_new [OF m])
next
  case (request s s')
  show ?case by (rule ok_mgr_step [OF e request.IH request.hyps(3,2)])
next
  case (handler s s')
  show ?case by (rule ok_segment [OF e(1) handler.IH handler.hyps(2)])
qed

end

section \<open>The reschedule count\<close>

text \<open>
  No operation other than \<open>reschedule\<close> raises the count of a job: each stores a job made from
  a stored one, or a new one that starts at zero.
\<close>

definition few :: "job \<Rightarrow> bool" where
  "few j \<longleftrightarrow> jb_Reschedules j \<le> maxReschedules"

definition bounded :: "('m, 'w) mgr \<Rightarrow> bool" where
  "bounded s \<longleftrightarrow> queue_inv (mg_Queue s) \<and> (\<forall>i j. job_at s i = Some j \<longrightarrow> few j)"

lemma few_simps [simp]:
  "few (j\<lparr>jb_State := st\<rparr>) = few j" "few (j\<lparr>jb_Note := t\<rparr>) = few j" "few (j\<lparr>jb_AllocID := a\<rparr>) = few j"
  "few (j\<lparr>jb_ClusterID := c\<rparr>) = few j" "few (j\<lparr>jb_RemoteHandle := h\<rparr>) = few j" "few (j\<lparr>jb_Artifact := x\<rparr>) = few j"
  "few (j\<lparr>jb_Decision := d\<rparr>) = few j" "few (j\<lparr>jb_UpdatedAt := n\<rparr>) = few j" "few (j\<lparr>jb_Suggestion := g\<rparr>) = few j"
  "few (j\<lparr>jb_SuggestedSpec := p\<rparr>) = few j" "few (fresh_job i js n)"
  by (simp_all add: few_def fresh_job_def)

lemma few_handed_back: "few (handed_back why j)" if "few j"
  using that by (simp add: few_def handed_back_def)

lemma few_freeLocked [simp]: "few (fst (freeLocked e j s)) = few j"
  by (simp add: freeLocked_def)

lemma bounded_Update: "bounded s \<Longrightarrow> few j \<Longrightarrow> mg_Queue s' = Update now j (mg_Queue s) \<Longrightarrow> bounded s'"
  by (auto simp: bounded_def Get_Update queue_inv_Update split: if_splits)

lemma bounded_q [intro]: "bounded s \<Longrightarrow> few j \<Longrightarrow> bounded (q_Update j s)"
  by (rule bounded_Update) (simp_all add: q_Update_def)

lemma bounded_frame: "mg_Queue s' = mg_Queue s \<Longrightarrow> bounded s' = bounded s"
  by (simp add: bounded_def)

lemma bounded_frames [simp]:
  "bounded (s\<lparr>mg_Matcher := m\<rparr>) = bounded s" "bounded (s\<lparr>mg_World := w\<rparr>) = bounded s"
  "bounded (s\<lparr>mg_Stages := q\<rparr>) = bounded s" "bounded (s\<lparr>mg_draws := n\<rparr>) = bounded s"
  "bounded (s\<lparr>mg_now := t\<rparr>) = bounded s" "bounded (snd (freeLocked e j s)) = bounded s"
  by (simp_all add: bounded_def freeLocked_def)

lemma bounded_at: "bounded s \<Longrightarrow> job_at s i = Some j \<Longrightarrow> few j"
  by (simp add: bounded_def)

lemma bounded_failJob: "bounded s \<Longrightarrow> few j \<Longrightarrow> bounded (failJob e j msg s)"
  by (auto simp: failJob_def Let_def)

lemma bounded_submit_to: "bounded s \<Longrightarrow> few j \<Longrightarrow> bounded (submit_to e c ct j s)"
  by (auto simp: submit_to_def bounded_failJob split: sum.split prod.split)

lemma bounded_dispatchNow: "bounded s \<Longrightarrow> bounded (dispatchNow e i s)"
  using bounded_at [of s i]
  by (auto simp: dispatchNow_def Let_def bounded_failJob bounded_submit_to bounded_q split: option.split sum.split prod.split)

lemma bounded_Dispatch: "bounded s \<Longrightarrow> bounded (Dispatch e j s)"
  by (simp add: Dispatch_def bounded_dispatchNow)

lemma bounded_setNote: "bounded s \<Longrightarrow> few j \<Longrightarrow> bounded (setNote j msg s)"
  by (auto simp: setNote_def)

lemma bounded_try_place: "try_place e j d cs s = Some (s', b) \<Longrightarrow> bounded s \<Longrightarrow> few j \<Longrightarrow> bounded s'"
  by (induction cs arbitrary: s)
    (auto simp: Let_def bounded_q bounded_Dispatch split: option.splits prod.splits sum.splits)

lemma bounded_Submit: "bounded s \<Longrightarrow> bounded (fst (Submit js s))"
  by (rule bounded_Update [of s "fresh_job (jobID (mg_seq s + 1)) js (mg_now s)" _ "mg_now s"])
    (simp_all add: Submit_def Let_def Enqueue_def Update_def)

lemma bounded_failInfeasible:
  assumes "failInfeasible e j s = Some s'" "bounded s" "few j"
  shows "bounded s'"
proof -
  have f: "bounded s0 \<Longrightarrow> bounded (fail_with (k\<lparr>jb_SuggestedSpec := x, jb_Suggestion := y\<rparr>) msg s0)"
      "bounded s0 \<Longrightarrow> bounded (fail_with k msg s0)" if "few k" for k msg x y and s0 :: "('a, 'b) mgr"
    using that by (auto simp: fail_with_def)
  show ?thesis
    using assms f [OF assms(3)]
    by (auto simp: failInfeasible_def Let_def case_prod_unfold bounded_Submit split: option.splits bool.splits if_splits)
qed

lemma bounded_schedule_job:
  assumes "schedule_job e i s = Some (s', b)" "bounded s"
  shows "bounded s'"
proof (cases "job_at s i")
  case (Some j)
  note few = bounded_at [OF assms(2) Some]
  have "bounded s1" if "decide e js cands s = (scored, d, s1)" for js cands scored d s1
    using that assms(2) by (auto simp: decide_def split: if_splits prod.splits)
  then show ?thesis
    using assms Some few
    by (auto simp: schedule_job_def Let_def split: if_splits option.splits prod.splits bool.splits
        dest: bounded_failInfeasible bounded_try_place intro: bounded_setNote)
qed (use assms in \<open>simp add: schedule_job_def\<close>)

lemma bounded_schedule_loop: "schedule_loop e js s = Some s' \<Longrightarrow> bounded s \<Longrightarrow> bounded s'"
  by (induction js arbitrary: s) (auto split: option.splits prod.splits bool.splits dest: bounded_schedule_job)

lemma bounded_fold: "(\<And>x s. x \<in> set xs \<Longrightarrow> bounded s \<Longrightarrow> bounded (f x s)) \<Longrightarrow> bounded s \<Longrightarrow> bounded (fold f xs s)"
  by (induction xs arbitrary: s) simp_all

lemma bounded_view: "bounded s \<Longrightarrow> j \<in> set (q_filter P (mg_Queue s)) \<Longrightarrow> few j"
  by (auto simp: bounded_def in_q_filter)

lemma bounded_scheduleOnce: "scheduleOnce e s = Some s' \<Longrightarrow> bounded s \<Longrightarrow> bounded s'"
  by (auto simp: scheduleOnce_def Let_def Provisional_def bounded_schedule_loop split: if_splits
      intro!: bounded_fold bounded_setNote intro: bounded_view)

lemma bounded_monitor_job: "bounded s \<Longrightarrow> few j \<Longrightarrow> bounded (monitor_job e j s)"
  by (auto simp: monitor_job_def Let_def bounded_q split: option.split sum.split prod.split)

lemma bounded_monitorOnce: "bounded s \<Longrightarrow> bounded (monitorOnce e s)"
  unfolding monitorOnce_def Active_def by (auto intro!: bounded_fold bounded_monitor_job intro: bounded_view)

lemma bounded_failByID: "bounded s \<Longrightarrow> bounded (failByID e i msg s)"
  using bounded_at [of s i] by (auto simp: failByID_def case_prod_unfold bounded_q split: option.split)

lemma bounded_Cancel: "bounded s \<Longrightarrow> bounded (fst (Cancel e i s))"
  by (simp add: Cancel_def Let_def case_prod_unfold bounded_failByID split: option.split)

lemma bounded_mgr_step: "mgr_step e s s' \<Longrightarrow> bounded s \<Longrightarrow> bounded s'"
proof (induction rule: mgr_step.induct)
  case (tick s s')
  then show ?case
    by (auto simp: Step_def split: option.splits if_splits dest: bounded_scheduleOnce intro: bounded_monitorOnce)
next
  case (cancel_all s)
  then show ?case by (auto simp: CancelAll_def Let_def intro: bounded_fold bounded_Cancel)
next
  case (outside s t w st k)
  then show ?case by simp
qed (simp_all add: bounded_Submit bounded_Cancel bounded_frame [OF sims.queue_registration(1)]
    bounded_frame [OF sims.queue_registration(2)] bounded_frame [OF sims.queue_registration(3)]
    bounded_frame [OF sims.queue_registration(4)])

lemma bounded_segment: "segment e s s' \<Longrightarrow> bounded s \<Longrightarrow> bounded s'"
proof (induction rule: segment.induct)
  case (begin_dispatch s i)
  then show ?case using bounded_at [of s i]
    by (auto simp: dispatch_begin_def take_open_def Let_def bounded_q split: option.split)
next
  case (running s i res)
  then show ?case using bounded_at [of s i] by (auto simp: commit_running_def bounded_q split: option.split)
next
  case (artifact s i res)
  then show ?case using bounded_at [of s i] by (auto simp: commit_artifact_def bounded_q split: option.split)
next
  case (reschedule s i why)
  then show ?case using bounded_at [of s i]
    by (auto simp: reschedule_commit_def case_prod_unfold bounded_q few_handed_back split: option.split)
next
  case (monitor st s i msg)
  then show ?case using bounded_at [of s i]
    by (auto simp: monitor_commit_def Let_def case_prod_unfold bounded_q split: option.split)
qed (simp_all add: bounded_failByID)

lemma bounded_staged: "staged_reach e (NewManager m w) s \<Longrightarrow> bounded s"
proof (induction rule: staged_reach.induct)
  case start
  have "q_Get NewMemory i = None" for i by (simp add: q_Get_def NewMemory_def)
  then show ?case by (simp add: bounded_def NewManager_def)
qed (auto intro: bounded_mgr_step bounded_segment)

section \<open>Properties\<close>


text \<open>The demonstration manager in staged mode: matched, then dispatched by the worker.\<close>

definition matched_mgr :: "(sim, unit) mgr" where
  "matched_mgr = demo_mgr\<lparr>mg_Matcher := booked_sim, mg_Stages := [(StDispatch, ''job-0001'')],
     mg_Queue := [(''job-0001'', (fresh_job ''job-0001'' one_node_job 0)\<lparr>jb_State := Matched, jb_AllocID := ''alloc-1'',
       jb_ClusterID := ''c1'',
       jb_Decision := Some (zero_trace\<lparr>tr_Considered := 1, tr_Feasible := 1, tr_Scorer := sc_Type FirstFeasible,
         tr_Unranked := True, tr_Selected := ''c1''\<rparr>)\<rparr>)]\<rparr>"

lemma staged_Step: "Step (demo_env FirstFeasible True) demo_mgr = Some matched_mgr"
  by (simp add: Step_def scheduleOnce_def fl_Len_def FCFS_def Provisional_def q_filter_def schedule_job_def Let_def
      q_Get_def demo_matcher demo_Evaluate demo_Allocate feasibleOnly_def decide_def FirstFeasible_def
      dispatchable_def Dispatch_def q_Update_def Update_def store_def matched_mgr_def)
    (simp add: demo_mgr_def NewManager_def fresh_job_def FirstFeasible_def zero_trace_def)

lemma staged_of_mgr: "mgr_reach e s0 s \<Longrightarrow> staged_reach e s0 s"
  by (induction rule: mgr_reach.induct) (auto intro: staged_reach.intros)

lemma matched_reach: "staged_reach (demo_env FirstFeasible True) (NewManager empty_sim ()) matched_mgr"
  by (rule staged_reach.request [OF staged_of_mgr [OF demo_mgr_reach] mgr_step.tick [OF staged_Step]])
    (simp add: matched_mgr_def)


lemma at_failByID:
  assumes q: "queue_inv (mg_Queue s)" and j: "job_at s i = Some j"
  shows "\<exists>k. job_at (failByID e i msg s) i = Some k \<and> jb_Spec k = jb_Spec j \<and> jb_State k = Failed \<and> jb_Note k = msg \<and>
    jb_AllocID k = '''' \<and> mg_Matcher (failByID e i msg s) = mg_Matcher (snd (freeLocked e j s))"
  using q j Get_ID [OF q j] by (auto simp: failByID_def freeLocked_def q_Update_def Get_Update)

lemma at_reschedule:
  assumes q: "queue_inv (mg_Queue s)" and j: "job_at s i = Some j"
  shows "\<exists>k. job_at (reschedule e i why s) i = Some k \<and> jb_Spec k = jb_Spec j \<and> jb_RemoteHandle k = '''' \<and>
    jb_AllocID k = '''' \<and> mg_Matcher (reschedule e i why s) = mg_Matcher (snd (freeLocked e j s)) \<and>
    (if jb_Reschedules j < maxReschedules
     then jb_State k = Submitted \<and> jb_Reschedules k = jb_Reschedules j + 1 \<and> jb_ClusterID k = ''''
     else jb_State k = Failed)"
proof -
  define k where "k = handed_back why (if jb_AllocID j = '''' then j else j\<lparr>jb_AllocID := ''''\<rparr>)"
  have id: "jb_ID (handed_back why x) = jb_ID x" for x by (simp add: handed_back_def)
  have m: "mg_Matcher (reschedule e i why s) = mg_Matcher (snd (freeLocked e j s))"
    and k: "job_at (reschedule e i why s) i = Some (k\<lparr>jb_UpdatedAt := mg_now s\<rparr>)"
    using q j id Get_ID [OF q j] by (simp_all add: reschedule_def reschedule_commit_def freeLocked_def Let_def k_def q_Update_def Get_Update)
  show ?thesis unfolding m k by (simp add: k_def handed_back_def)
qed

text \<open>
  C13. What one run of the dispatch stage does with an open job, by the outcome of the attempt.
  Success moves it to the monitor stage, \<open>Running\<close> under the new handle; a repairable artifact
  moves it to the repair stage; a transient failure asks for a retry. These keep the allocation.
  A wrong target hands the job back for a fresh selection, or fails it once the limit is
  reached; a hard failure fails it. These release the allocation and enqueue no stage.
\<close>

theorem handleDispatch_routes:
  assumes "queue_inv (mg_Queue s)" "job_at s i = Some j" "\<not> Terminal (jb_State j)"
    and "runAttempt e (j\<lparr>jb_State := Dispatching\<rparr>) (q_Update (j\<lparr>jb_State := Dispatching\<rparr>) s) = (w, res)"
    and "handleDispatch e i s = ((next, retry), s')"
  shows "\<exists>k. job_at s' i = Some k \<and> jb_Spec k = jb_Spec j \<and> (case at_outcome res of
      outcomeSuccess \<Rightarrow> next = ''monitor'' \<and> \<not> retry \<and> jb_State k = Running \<and> jb_RemoteHandle k = at_handle res \<and>
        jb_AllocID k = jb_AllocID j \<and> mg_Matcher s' = mg_Matcher s
    | outcomeRepairable \<Rightarrow> next = ''repair'' \<and> \<not> retry \<and> jb_Artifact k = at_artifact res \<and> jb_Note k = at_note res \<and>
        jb_AllocID k = jb_AllocID j \<and> mg_Matcher s' = mg_Matcher s
    | outcomeTransient \<Rightarrow> next = '''' \<and> retry \<and> jb_State k = Dispatching \<and>
        jb_AllocID k = jb_AllocID j \<and> mg_Matcher s' = mg_Matcher s
    | outcomeWrongTarget \<Rightarrow> next = '''' \<and> \<not> retry \<and> jb_RemoteHandle k = '''' \<and>
        jb_AllocID k = '''' \<and> mg_Matcher s' = mg_Matcher (snd (freeLocked e j s)) \<and>
        (if jb_Reschedules j < maxReschedules
         then jb_State k = Submitted \<and> jb_Reschedules k = jb_Reschedules j + 1 \<and> jb_ClusterID k = ''''
         else jb_State k = Failed)
    | outcomeHardFail \<Rightarrow> next = '''' \<and> \<not> retry \<and> jb_State k = Failed \<and> jb_Note k = at_note res \<and>
        jb_AllocID k = '''' \<and> mg_Matcher s' = mg_Matcher (snd (freeLocked e j s)))"
proof -
  have id: "jb_ID j = i" by (rule Get_ID [OF assms(1,2)])
  let ?s = "(q_Update (j\<lparr>jb_State := Dispatching\<rparr>) s)\<lparr>mg_World := w\<rparr>"
  have q: "queue_inv (mg_Queue ?s)" using assms(1) by (simp add: q_Update_def queue_inv_Update)
  have at: "job_at ?s i = Some (j\<lparr>jb_State := Dispatching, jb_UpdatedAt := mg_now s\<rparr>)"
    using assms(1) id by (simp add: job_at_q)
  have "dispatch_begin i s = (Some (j\<lparr>jb_State := Dispatching\<rparr>), q_Update (j\<lparr>jb_State := Dispatching\<rparr>) s)"
    using assms(2,3) by (simp add: dispatch_begin_def take_open_def Let_def)
  then have run: "dispatch_route e i res ?s = ((next, retry), s')"
    using assms(4,5) by (simp add: handleDispatch_def)
  have same: "mg_Matcher (snd (freeLocked e (j\<lparr>jb_State := Dispatching, jb_UpdatedAt := mg_now s\<rparr>) ?s)) =
      mg_Matcher (snd (freeLocked e j s))"
    by (simp add: freeLocked_def q_Update_def)
  show ?thesis
  proof (cases "at_outcome res")
    case outcomeWrongTarget
    then show ?thesis
      using run at_reschedule [OF q at, of e "at_note res"] unfolding same by (auto simp: dispatch_route_def)
  next
    case outcomeHardFail
    then show ?thesis
      using run at_failByID [OF q at, of e "at_note res"] unfolding same by (auto simp: dispatch_route_def)
  qed (use run q at id in \<open>auto simp: dispatch_route_def commit_running_def commit_artifact_def q_Update_def Get_Update queue_inv_Update\<close>)
qed

lemma demo_verdict: "ev_validate (demo_env sc b) c \<lparr>ct_Kind = ''flux'', ct_Payload = ''run''\<rparr> =
    (verdictRepairable, ''unknown content kind flux'')"
proof -
  have "TrimSpace ''run'' = ''run''" by code_simp
  then show ?thesis by (simp add: demo_env_def defaultValidate_def)
qed

theorem handleDispatch_routes_witness:
  "fst (handleDispatch (demo_env FirstFeasible True) ''job-0001'' matched_mgr) = (''repair'', False)"
proof -
  let ?e = "demo_env FirstFeasible True"
  obtain j where j: "job_at matched_mgr ''job-0001'' = Some j" "\<not> Terminal (jb_State j)" "jb_ClusterID j = ''c1''"
    by (simp add: matched_mgr_def q_Get_def Terminal_def)
  let ?j = "j\<lparr>jb_State := Dispatching\<rparr>"
  have fleet: "mg_Fleet matched_mgr = [one_node ''c1'' []]" by (simp add: matched_mgr_def)
  have a: "runAttempt ?e ?j (q_Update ?j matched_mgr) = ((), \<lparr>at_outcome = outcomeRepairable, at_handle = '''',
      at_note = ''unknown content kind flux'', at_artifact = ''run''\<rparr>)"
    by (simp add: runAttempt_def fleet j(3) validateThenSubmit_def demo_verdict)
  have q: "queue_inv (mg_Queue matched_mgr)"
    by (simp add: matched_mgr_def queue_inv_def wf_map_def fresh_job_def)
  obtain nx retry s' where h: "handleDispatch ?e ''job-0001'' matched_mgr = ((nx, retry), s')"
    by (cases "handleDispatch ?e ''job-0001'' matched_mgr") auto
  show ?thesis using handleDispatch_routes [OF q j(1,2) a h] h by auto
qed



text \<open>
  The inline dispatcher has no such gate: it submits whatever the transformer produced. For
  any content, the validator's verdict included, the inline dispatch of a matched job calls
  \<open>Submit\<close> of the resolved driver with that content, and a handle it returns makes the job
  \<open>Running\<close>.
\<close>

theorem inline_dispatch_unvalidated:
  assumes "queue_inv (mg_Queue s)" "job_at s i = Some j" "fl_Get (mg_Fleet s) (jb_ClusterID j) = Some c"
    and "ev_Transform e (mg_World s) (WithJobID (jb_Spec j) (jb_ID j)) c = (w, Inr content)"
    and "driverFor e c = Inr drv" "dr_Submit drv w c content = (w', Inr h)"
  shows "mg_World (dispatchNow e i s) = w' \<and>
    (\<exists>k. job_at (dispatchNow e i s) i = Some k \<and> jb_State k = Running \<and> jb_RemoteHandle k = h) \<and>
    dispatchNow (e\<lparr>ev_validate := v\<rparr>) i s = dispatchNow e i s"
proof -
  have id: "jb_ID j = i" by (rule Get_ID [OF assms(1,2)])
  have drv: "driverFor (e\<lparr>ev_validate := v\<rparr>) c = Inr drv" using assms(5) by (auto simp: driverFor_def split: if_splits option.splits)
  show ?thesis
    using assms id drv by (simp add: dispatchNow_def Let_def submit_to_def q_Update_def Get_Update queue_inv_Update)
qed

theorem inline_dispatch_unvalidated_witness:
  "\<exists>k. job_at (dispatchNow (demo_env FirstFeasible False) ''job-0001'' matched_mgr) ''job-0001'' = Some k \<and>
     jb_State k = Running \<and> jb_RemoteHandle k = ''f1'' \<and>
     fst (ev_validate (demo_env FirstFeasible False) (one_node ''c1'' []) \<lparr>ct_Kind = ''flux'', ct_Payload = ''run''\<rparr>) \<noteq> verdictValid"
proof -
  let ?e = "demo_env FirstFeasible False"
  obtain j where j: "job_at matched_mgr ''job-0001'' = Some j" "jb_ClusterID j = ''c1''"
    by (simp add: matched_mgr_def q_Get_def)
  have q: "queue_inv (mg_Queue matched_mgr)"
    by (simp add: matched_mgr_def queue_inv_def wf_map_def fresh_job_def)
  have c: "fl_Get (mg_Fleet matched_mgr) (jb_ClusterID j) = Some (one_node ''c1'' [])"
    using j(2) by (simp add: matched_mgr_def)
  have t: "ev_Transform ?e (mg_World matched_mgr) (WithJobID (jb_Spec j) (jb_ID j)) (one_node ''c1'' []) =
      ((), Inr \<lparr>ct_Kind = ''flux'', ct_Payload = ''run''\<rparr>)" by simp
  show ?thesis
    using inline_dispatch_unvalidated [OF q j(1) c t demo_driverFor demo_driver_simps(1)] by (simp add: demo_verdict)
qed

text \<open>
  C28. A cancelled job can come back. When a cancellation falls between the two locked segments
  of a dispatch, the first leaves the job \<open>Failed\<close> without an allocation, and the second,
  which does not look at the state, makes it \<open>Running\<close> again under the handle just submitted:
  the remote job runs on, with nothing reserved for it and no cancellation sent to it.
\<close>

theorem cancelled_job_comes_back:
  assumes "queue_inv (mg_Queue s)" "job_at s i = Some j" "\<not> Terminal (jb_State j)" "jb_RemoteHandle j = ''''"
    and "dispatch_begin i s = (work, s1)" "s2 = fst (Cancel e i s1)" "s3 = commit_running i res s2"
  shows "\<exists>k2 k3. job_at s2 i = Some k2 \<and> jb_State k2 = Failed \<and> jb_AllocID k2 = '''' \<and>
    job_at s3 i = Some k3 \<and> jb_State k3 = Running \<and> jb_AllocID k3 = '''' \<and> jb_RemoteHandle k3 = at_handle res \<and>
    mg_World s3 = mg_World s1 \<and> mg_Matcher s3 = mg_Matcher (snd (freeLocked e j s))"
proof -
  have id: "jb_ID j = i" by (rule Get_ID [OF assms(1,2)])
  let ?j = "j\<lparr>jb_State := Dispatching\<rparr>"
  have s1: "s1 = q_Update ?j s" using assms(2,3,5) by (simp add: dispatch_begin_def take_open_def Let_def)
  have q1: "queue_inv (mg_Queue s1)" using assms(1) by (simp add: s1 q_Update_def queue_inv_Update)
  have j1: "job_at s1 i = Some (?j\<lparr>jb_UpdatedAt := mg_now s\<rparr>)" using assms(1) id by (simp add: s1 job_at_q)
  have s2: "s2 = failByID e i ''cancelled'' s1"
    using j1 assms(4) unfolding assms(6) by (simp add: Cancel_def Terminal_def)
  obtain k where k: "job_at s2 i = Some k" "jb_State k = Failed" "jb_AllocID k = ''''"
      "mg_Matcher s2 = mg_Matcher (snd (freeLocked e (?j\<lparr>jb_UpdatedAt := mg_now s\<rparr>) s1))"
    using at_failByID [OF q1 j1, of e "''cancelled''"] s2 by auto
  have m: "mg_Matcher s2 = mg_Matcher (snd (freeLocked e j s))"
    unfolding k(4) by (simp add: freeLocked_def s1)
  have w: "mg_World s2 = mg_World s1"
    using j1 by (simp add: s2 failByID_def freeLocked_def q_Update_def)
  have q2: "queue_inv (mg_Queue s2)"
    using q1 j1 by (simp add: s2 failByID_def freeLocked_def q_Update_def queue_inv_Update)
  have "jb_ID k = i" by (rule Get_ID [OF q2 k(1)])
  then show ?thesis
    using k q2 m w by (simp add: assms(7) commit_running_def job_at_q)
qed

theorem cancelled_job_comes_back_witness:
  "\<exists>k. job_at (commit_running ''job-0001'' \<lparr>at_outcome = outcomeSuccess, at_handle = ''f1'', at_note = ''dispatched'', at_artifact = ''run''\<rparr>
       (fst (Cancel (demo_env FirstFeasible True) ''job-0001'' (snd (dispatch_begin ''job-0001'' matched_mgr))))) ''job-0001'' = Some k \<and>
     jb_State k = Running \<and> jb_AllocID k = ''''"
proof -
  obtain j where j: "job_at matched_mgr ''job-0001'' = Some j" "\<not> Terminal (jb_State j)" "jb_RemoteHandle j = ''''"
    by (simp add: matched_mgr_def q_Get_def Terminal_def fresh_job_def)
  have q: "queue_inv (mg_Queue matched_mgr)"
    by (simp add: matched_mgr_def queue_inv_def wf_map_def fresh_job_def)
  have d: "dispatch_begin ''job-0001'' matched_mgr =
      (fst (dispatch_begin ''job-0001'' matched_mgr), snd (dispatch_begin ''job-0001'' matched_mgr))" by simp
  show ?thesis using cancelled_job_comes_back [OF q j d refl refl] by blast
qed

end
