(* ===== verification/Vocabulary.thy ===== *)
theory Vocabulary
  imports Validate "HOL-Library.List_Lexorder" "HOL-Library.Char_ord"
begin

text \<open>
  Package \<open>pkg/vocabulary\<close>: the labels of the memory buckets with the \<open>Sscanf\<close> patterns
  that read them back, and the label set derived from the fleet. A Go map of seen strings that
  is sorted into a slice is a sorted list without repetition.
\<close>

section \<open>Package fmt: the two scan patterns\<close>

text \<open>
  The verb \<open>%d\<close> skips blanks but not a line break, takes an optional sign and at least one
  digit, and fails on a value outside 64 bits. A literal of the pattern must match the input
  byte for byte; what follows the pattern is not read.
\<close>

fun skip_blanks :: "string \<Rightarrow> string option" where
  "skip_blanks [] = Some []"
| "skip_blanks (c # cs) =
     (if c = newline then None else if is_space c then skip_blanks cs else Some (c # cs))"

definition scan_digits :: "bool \<Rightarrow> string \<Rightarrow> (int \<times> string) option" where
  "scan_digits neg t =
     (let ds = takeWhile is_digit t;
          v = (if neg then - int (digits_val ds) else int (digits_val ds))
      in if ds = [] \<or> \<not> fits64 v then None else Some (v, dropWhile is_digit t))"

definition scan_int :: "string \<Rightarrow> (int \<times> string) option" where
  "scan_int s = (case skip_blanks s of
     None \<Rightarrow> None
   | Some t \<Rightarrow>
       if t \<noteq> [] \<and> hd t = CHR ''-'' then scan_digits True (tl t)
       else if t \<noteq> [] \<and> hd t = CHR ''+'' then scan_digits False (tl t)
       else scan_digits False t)"

definition scan_lit :: "string \<Rightarrow> string \<Rightarrow> string option" where
  "scan_lit p s = (if HasPrefix s p then Some (drop (length p) s) else None)"

definition scan_range :: "string \<Rightarrow> (int \<times> int) option" where
  "scan_range l = do {
     (lo, s) \<leftarrow> scan_int l;
     s \<leftarrow> scan_lit ''-'' s;
     (hi, s) \<leftarrow> scan_int s;
     _ \<leftarrow> scan_lit ''GB'' s;
     Some (lo, hi) }"

definition scan_open :: "string \<Rightarrow> int option" where
  "scan_open l = do {
     (lo, s) \<leftarrow> scan_int l;
     _ \<leftarrow> scan_lit ''GB+'' s;
     Some lo }"

section \<open>Memory buckets\<close>

definition StandardMemoryBuckets :: "string list" where
  "StandardMemoryBuckets = [''0-16GB'', ''16-64GB'', ''64-192GB'', ''192GB+'']"

fun RangeFor :: "int \<Rightarrow> string list \<Rightarrow> string" where
  "RangeFor gb [] = ''''"
| "RangeFor gb (l # ls) =
     (case scan_range l of
        Some (lo, hi) \<Rightarrow> if gb \<ge> lo \<and> gb < hi then l else RangeFor gb ls
      | None \<Rightarrow>
          (case scan_open l of
             Some lo \<Rightarrow> if gb \<ge> lo then l else RangeFor gb ls
           | None \<Rightarrow> RangeFor gb ls))"

definition StandardRangeFor :: "int \<Rightarrow> string" where
  "StandardRangeFor gb = RangeFor gb StandardMemoryBuckets"

section \<open>The vocabulary of the fleet\<close>

record dimension =
  dm_Name :: string
  dm_Mechanism :: string
  dm_Values :: "string list"

definition Values :: "jgf option \<Rightarrow> string list" where
  "Values g = (case g of
     None \<Rightarrow> []
   | Some g \<Rightarrow> sort (remdups (filter (\<lambda>t. \<not> (t = '''' \<or> t = ''cluster'')) (map v_type (g_nodes g)))))"

definition distinctTypes :: "cluster_graph list \<Rightarrow> string \<Rightarrow> string list" where
  "distinctTypes clusters sub =
     sort (remdups (concat (map (\<lambda>cg. Values (map_of (cg_Subsystems cg) sub)) clusters)))"

definition dim :: "cluster_graph list \<Rightarrow> string \<Rightarrow> nat \<Rightarrow> dimension list" where
  "dim clusters sub least =
     (let v = distinctTypes clusters sub in
      if length v > least then [\<lparr>dm_Name = sub, dm_Mechanism = ''subsystem'', dm_Values = v\<rparr>] else [])"

definition Derive :: "cluster_graph list \<Rightarrow> dimension list" where
  "Derive clusters =
     dim clusters ''architecture'' 0 @ dim clusters ''network'' 0 @ dim clusters ''gpu'' 1 @
     dim clusters ''memory'' 0"

section \<open>Reading a label back\<close>

text \<open>How a bucket is written: both bounds, or the lower one alone for the last bucket.\<close>

definition range_label :: "nat \<Rightarrow> nat \<Rightarrow> string" where
  "range_label lo hi = itoa lo @ ''-'' @ itoa hi @ ''GB''"

definition open_label :: "nat \<Rightarrow> string" where
  "open_label lo = itoa lo @ ''GB+''"

fun labels_from :: "nat \<Rightarrow> nat list \<Rightarrow> string list" where
  "labels_from lo [] = [open_label lo]"
| "labels_from lo (hi # his) = range_label lo hi # labels_from hi his"

lemma digit_facts: "is_digit c \<Longrightarrow> c \<noteq> newline \<and> \<not> is_space c \<and> c \<noteq> CHR ''-'' \<and> c \<noteq> CHR ''+''"
  by (auto simp: is_digit_def is_space_def newline_def)

lemma scan_int_itoa:
  assumes "n < 2 ^ 63" "rest \<noteq> []" "\<not> is_digit (hd rest)"
  shows "scan_int (itoa n @ rest) = Some (int n, rest)"
proof -
  obtain c cs where c: "itoa n = c # cs" "is_digit c"
    using itoa_digits [of n] by (cases "itoa n") auto
  have "skip_blanks (itoa n @ rest) = Some (itoa n @ rest)" using c digit_facts [OF c(2)] by simp
  moreover have "takeWhile is_digit (itoa n @ rest) = itoa n" "dropWhile is_digit (itoa n @ rest) = rest"
    using itoa_digits [of n] assms(2,3) by (cases rest; simp add: list_all_iff takeWhile_append2 dropWhile_append2)+
  moreover have "fits64 (int n)" using assms(1) by (simp add: fits64_def)
  ultimately show ?thesis
    using c digit_facts [OF c(2)] digits_val_itoa [of n] by (simp add: scan_int_def scan_digits_def Let_def)
qed

lemma scan_range_label: "lo < 2 ^ 63 \<Longrightarrow> hi < 2 ^ 63 \<Longrightarrow> scan_range (range_label lo hi) = Some (int lo, int hi)"
  by (simp add: scan_range_def range_label_def scan_int_itoa is_digit_def scan_lit_def HasPrefix_def)

lemma scan_open_label: "lo < 2 ^ 63 \<Longrightarrow> scan_open (open_label lo) = Some (int lo)"
  by (simp add: scan_open_def open_label_def scan_int_itoa is_digit_def scan_lit_def HasPrefix_def)

lemma scan_range_open: "lo < 2 ^ 63 \<Longrightarrow> scan_range (open_label lo) = None"
  by (simp add: scan_range_def open_label_def scan_int_itoa is_digit_def scan_lit_def HasPrefix_def)

lemma standard_labels: "StandardMemoryBuckets = labels_from 0 [16, 64, 192]"
  by code_simp

lemma length_labels [simp]: "length (labels_from lo his) = Suc (length his)"
  by (induction lo his rule: labels_from.induct) auto

lemma RangeFor_below:
  "sorted_wrt (<) (lo # his) \<Longrightarrow> \<forall>b \<in> set (lo # his). b < 2 ^ 63 \<Longrightarrow> gb < int lo \<Longrightarrow>
   RangeFor gb (labels_from lo his) = ''''"
  by (induction lo his rule: labels_from.induct) (auto simp: scan_range_label scan_open_label scan_range_open)

lemma RangeFor_at:
  "sorted_wrt (<) (lo # his) \<Longrightarrow> \<forall>b \<in> set (lo # his). b < 2 ^ 63 \<Longrightarrow> i \<le> length his \<Longrightarrow>
   int ((lo # his) ! i) \<le> gb \<Longrightarrow> (i < length his \<Longrightarrow> gb < int (his ! i)) \<Longrightarrow>
   RangeFor gb (labels_from lo his) = labels_from lo his ! i"
proof (induction lo his arbitrary: i rule: labels_from.induct)
  case (1 lo)
  then show ?case by (simp add: scan_open_label scan_range_open)
next
  case (2 lo hi his)
  show ?case
  proof (cases i)
    case 0
    then show ?thesis using 2(2-6) by (simp add: scan_range_label)
  next
    case (Suc k)
    have "hi \<le> (hi # his) ! k" using 2(2,4) Suc by (cases k) (auto simp: less_imp_le)
    then have "int hi \<le> gb" using 2(5) Suc by simp
    then show ?thesis using 2 Suc by (simp add: scan_range_label)
  qed
qed

lemma bucket_exists:
  "sorted_wrt (<) (lo # his) \<Longrightarrow> int lo \<le> gb \<Longrightarrow>
   \<exists>!i. i \<le> length his \<and> int ((lo # his) ! i) \<le> gb \<and> (i < length his \<longrightarrow> gb < int (his ! i))"
proof (induction his arbitrary: lo)
  case (Cons hi his)
  show ?case
  proof (cases "gb < int hi")
    case True
    have "i = 0" if "i \<le> length (hi # his)" "int ((lo # hi # his) ! i) \<le> gb" for i
    proof (rule ccontr)
      assume "i \<noteq> 0"
      then obtain k where k: "i = Suc k" by (cases i) auto
      have "hi \<le> (hi # his) ! k" using Cons.prems(1) that(1) k by (cases k) (auto simp: less_imp_le)
      then show False using that(2) k True by simp
    qed
    then show ?thesis using Cons.prems(2) True by (intro ex1I [of _ 0]) auto
  next
    case False
    then obtain i where i: "i \<le> length his" "int ((hi # his) ! i) \<le> gb" "i < length his \<longrightarrow> gb < int (his ! i)"
      "\<And>k. k \<le> length his \<and> int ((hi # his) ! k) \<le> gb \<and> (k < length his \<longrightarrow> gb < int (his ! k)) \<Longrightarrow> k = i"
      using Cons.IH [of hi] Cons.prems(1) by auto
    show ?thesis
    proof (rule ex1I [of _ "Suc i"])
      fix k assume k: "k \<le> length (hi # his) \<and> int ((lo # hi # his) ! k) \<le> gb \<and>
        (k < length (hi # his) \<longrightarrow> gb < int ((hi # his) ! k))"
      show "k = Suc i"
      proof (cases k)
        case 0
        then show ?thesis using k False by simp
      next
        case (Suc m)
        then show ?thesis using i(4) [of m] k by auto
      qed
    qed (use i(1-3) in auto)
  qed
qed auto

lemma StandardRangeFor_nonempty:
  assumes "0 \<le> gb"
  shows "StandardRangeFor gb \<noteq> ''''"
proof -
  have b: "sorted_wrt (<) [0, 16, 64, 192 :: nat]" "\<forall>b \<in> set [0, 16, 64, 192 :: nat]. b < 2 ^ 63" by simp_all
  have all: "'''' \<notin> set (labels_from 0 [16, 64, 192])" by (simp add: range_label_def open_label_def)
  from bucket_exists [OF b(1), of gb] assms obtain i where i: "i \<le> length [16, 64, 192 :: nat]"
    "int ([0, 16, 64, 192] ! i) \<le> gb" "i < length [16, 64, 192 :: nat] \<Longrightarrow> gb < int ([16, 64, 192] ! i)" by auto
  have "StandardRangeFor gb = labels_from 0 [16, 64, 192] ! i"
    unfolding StandardRangeFor_def standard_labels by (rule RangeFor_at [OF b i])
  moreover have "labels_from 0 [16, 64, 192] ! i \<in> set (labels_from 0 [16, 64, 192])"
    by (rule nth_mem) (use i(1) in simp)
  ultimately show ?thesis using all by metis
qed

section \<open>Properties\<close>

text \<open>
  Buckets cover the line once. For labels written from any ascending boundaries below 2^63,
  the standard ones among them, reading the labels back with the scan patterns puts every size
  from the first boundary on in exactly one bucket, the one whose bounds hold it, and a size
  below the first boundary in none.
\<close>

theorem RangeFor_partition:
  assumes "sorted_wrt (<) (lo # his)" "\<forall>b \<in> set (lo # his). b < 2 ^ 63"
  shows "(if gb < int lo then RangeFor gb (labels_from lo his) = ''''
     else \<exists>!i. i \<le> length his \<and> int ((lo # his) ! i) \<le> gb \<and> (i < length his \<longrightarrow> gb < int (his ! i)) \<and>
       RangeFor gb (labels_from lo his) = labels_from lo his ! i) \<and>
    StandardRangeFor gb = RangeFor gb (labels_from 0 [16, 64, 192])"
proof (cases "gb < int lo")
  case True
  then show ?thesis using RangeFor_below [OF assms] by (simp add: StandardRangeFor_def standard_labels)
next
  case False
  define holds where "holds i \<longleftrightarrow> i \<le> length his \<and> int ((lo # his) ! i) \<le> gb \<and> (i < length his \<longrightarrow> gb < int (his ! i))" for i
  have "\<exists>!i. holds i" unfolding holds_def by (rule bucket_exists [OF assms(1)]) (use False in simp)
  moreover have "holds i \<Longrightarrow> RangeFor gb (labels_from lo his) = labels_from lo his ! i" for i
    using RangeFor_at [OF assms, of i gb] unfolding holds_def by blast
  ultimately have "\<exists>!i. holds i \<and> RangeFor gb (labels_from lo his) = labels_from lo his ! i" by blast
  then have "\<exists>!i. i \<le> length his \<and> int ((lo # his) ! i) \<le> gb \<and> (i < length his \<longrightarrow> gb < int (his ! i)) \<and>
       RangeFor gb (labels_from lo his) = labels_from lo his ! i"
    by (simp add: holds_def)
  then show ?thesis using False by (simp add: StandardRangeFor_def standard_labels)
qed

theorem RangeFor_partition_witness:
  "StandardRangeFor 16 = ''16-64GB'' \<and> StandardRangeFor 191 = ''64-192GB'' \<and> StandardRangeFor (-1) = ''''"
proof -
  have "StandardRangeFor (-1) = ''''"
    using RangeFor_partition [of 0 "[16, 64, 192]" "-1"] by simp
  moreover have "StandardRangeFor 16 = ''16-64GB''" "StandardRangeFor 191 = ''64-192GB''" by code_simp+
  ultimately show ?thesis by simp
qed

lemma in_Values: "v \<in> set (Values g) \<longleftrightarrow> v \<noteq> '''' \<and> v \<noteq> ''cluster'' \<and>
    (\<exists>h. g = Some h \<and> list_ex (\<lambda>u. v_type u = v) (g_nodes h))"
  by (auto simp: Values_def list_ex_iff split: option.split)

lemma in_distinctTypes: "v \<in> set (distinctTypes cs sub) \<longleftrightarrow> v \<noteq> '''' \<and> v \<noteq> ''cluster'' \<and>
    (\<exists>c \<in> set cs. SubsystemHas c sub v)"
  by (auto simp: distinctTypes_def in_Values SubsystemHas_def split: option.splits)

lemma distinctTypes_sorted: "sorted (distinctTypes cs sub)" "distinct (distinctTypes cs sub)"
  by (simp_all add: distinctTypes_def)

lemma two_elements: "distinct xs \<Longrightarrow> 1 < length xs \<longleftrightarrow> (\<exists>x \<in> set xs. \<exists>y \<in> set xs. x \<noteq> y)"
  by (cases xs; cases "tl xs") auto

lemma offered_by_dim: "(\<exists>d \<in> set (dim cs s k). dm_Name d = sub \<and> v \<in> set (dm_Values d)) \<longleftrightarrow>
    s = sub \<and> k < length (distinctTypes cs sub) \<and> v \<in> set (distinctTypes cs sub)"
  by (auto simp: dim_def Let_def)

lemma offered: "(\<exists>d \<in> set (Derive cs). dm_Name d = sub \<and> v \<in> set (dm_Values d)) \<longleftrightarrow>
    sub \<in> {''architecture'', ''network'', ''gpu'', ''memory''} \<and> v \<in> set (distinctTypes cs sub) \<and>
    (if sub = ''gpu'' then 1 else 0) < length (distinctTypes cs sub)"
  unfolding Derive_def set_append bex_Un offered_by_dim by auto

text \<open>
  The vocabulary never disagrees with the matcher. A value is offered under a dimension
  exactly when it is a proper value, one of the four categories, and some registered cluster has
  a vertex of that type in its subsystem graph, which is what a requirement is matched against;
  the vendor of a gpu is offered only when the fleet has two. The values of a dimension ascend
  strictly.
\<close>

theorem Derive_offers:
  "((\<exists>d \<in> set (Derive cs). dm_Name d = sub \<and> v \<in> set (dm_Values d)) =
     (sub \<in> {''architecture'', ''network'', ''gpu'', ''memory''} \<and> v \<noteq> '''' \<and> v \<noteq> ''cluster'' \<and>
      list_ex (\<lambda>c. SubsystemHas c sub v) cs \<and>
      (if sub = ''gpu'' then \<exists>u. u \<noteq> v \<and> u \<noteq> '''' \<and> u \<noteq> ''cluster'' \<and> list_ex (\<lambda>c. SubsystemHas c sub u) cs else True))) \<and>
   list_all (\<lambda>d. sorted_wrt (<) (dm_Values d)) (Derive cs)"
proof (rule conjI)
  have one: "v \<in> set (distinctTypes cs s) \<Longrightarrow> 0 < length (distinctTypes cs s)" for s
    by (cases "distinctTypes cs s") auto
  have gpu: "v \<in> set (distinctTypes cs s) \<Longrightarrow> 1 < length (distinctTypes cs s) \<longleftrightarrow> (\<exists>u. u \<noteq> v \<and> u \<in> set (distinctTypes cs s))" for s
    unfolding two_elements [OF distinctTypes_sorted(2)] by metis
  show "(\<exists>d \<in> set (Derive cs). dm_Name d = sub \<and> v \<in> set (dm_Values d)) =
     (sub \<in> {''architecture'', ''network'', ''gpu'', ''memory''} \<and> v \<noteq> '''' \<and> v \<noteq> ''cluster'' \<and>
      list_ex (\<lambda>c. SubsystemHas c sub v) cs \<and>
      (if sub = ''gpu'' then \<exists>u. u \<noteq> v \<and> u \<noteq> '''' \<and> u \<noteq> ''cluster'' \<and> list_ex (\<lambda>c. SubsystemHas c sub u) cs else True))"
  proof (cases "v \<in> set (distinctTypes cs sub)")
    case True
    have "(\<exists>u. u \<noteq> v \<and> u \<in> set (distinctTypes cs sub)) \<longleftrightarrow>
        (\<exists>u. u \<noteq> v \<and> u \<noteq> '''' \<and> u \<noteq> ''cluster'' \<and> list_ex (\<lambda>c. SubsystemHas c sub u) cs)"
      by (simp add: in_distinctTypes list_ex_iff)
    then show ?thesis
      unfolding offered using True one [of sub] gpu [of sub] in_distinctTypes [of v cs sub]
      by (cases "sub = ''gpu''") (simp_all add: list_ex_iff)
  next
    case False
    then show ?thesis unfolding offered by (auto simp: in_distinctTypes list_ex_iff)
  qed
next
  have "sorted_wrt (<) (distinctTypes cs s)" for s
    using distinctTypes_sorted [of cs s] by (simp add: strict_sorted_iff)
  then show "list_all (\<lambda>d. sorted_wrt (<) (dm_Values d)) (Derive cs)"
    by (simp add: Derive_def dim_def Let_def)
qed

end
