(* ===== verification/Json.thy ===== *)
theory Json
  imports Jobspec Vocabulary
begin

text \<open>
  Package \<open>encoding/json\<close> as far as fluxq relies on it: the byte-at-a-time scanner that decides
  which texts \<open>Unmarshal\<close> accepts, the names of the top-level fields it finds, and the compact
  encoder behind \<open>Marshal\<close> for the documents of \<open>pkg/jobspec\<close>. Text is ASCII. The shortest
  decimal of a float is the argument \<open>ft\<close>.
\<close>

section \<open>The scanner\<close>

text \<open>
  One constructor per step function of the scanner; \<open>InEscU n\<close> waits for \<open>n\<close> hexadecimal
  digits, \<open>Lit\<close> for the rest of \<open>true\<close>, \<open>false\<close> or \<open>null\<close>. The stack holds what each open
  composite is in the middle of.
\<close>

datatype jstate = BeginValueOrEmpty | BeginValue | BeginStringOrEmpty | BeginString | EndValue | EndTop
  | InString | InStringEsc | InEscU nat | Neg | Num1 | Num0 | Dot | Dot0 | Exp | ExpSign | Exp0 | Lit string

datatype jparse = ObjKey | ObjValue | ArrValue

definition maxNestingDepth :: nat where
  "maxNestingDepth = 10000"

definition is_jspace :: "char \<Rightarrow> bool" where
  "is_jspace c \<longleftrightarrow> c = CHR '' '' \<or> (of_char c :: nat) \<in> {9, 10, 13}"

definition is_hex :: "char \<Rightarrow> bool" where
  "is_hex c \<longleftrightarrow> is_digit c \<or> (65 \<le> (of_char c :: nat) \<and> (of_char c :: nat) \<le> 70) \<or>
     (97 \<le> (of_char c :: nat) \<and> (of_char c :: nat) \<le> 102)"

abbreviation dquote :: char where "dquote \<equiv> CHR 0x22"
abbreviation backslash :: char where "backslash \<equiv> CHR 0x5C"

definition pop_state :: "jparse list \<Rightarrow> (jstate \<times> jparse list) option" where
  "pop_state r = Some (if r = [] then EndTop else EndValue, r)"

definition push_state :: "jstate \<Rightarrow> jparse \<Rightarrow> jparse list \<Rightarrow> (jstate \<times> jparse list) option" where
  "push_state s p stk = (if length stk < maxNestingDepth then Some (s, p # stk) else None)"

definition end_value :: "jparse list \<Rightarrow> char \<Rightarrow> (jstate \<times> jparse list) option" where
  "end_value stk c = (case stk of
     [] \<Rightarrow> if is_jspace c then Some (EndTop, []) else None
   | p # r \<Rightarrow>
       if is_jspace c then Some (EndValue, stk)
       else (case p of
          ObjKey \<Rightarrow> if c = CHR '':'' then Some (BeginValue, ObjValue # r) else None
        | ObjValue \<Rightarrow> if c = CHR '','' then Some (BeginString, ObjKey # r)
                     else if c = CHR ''}'' then pop_state r else None
        | ArrValue \<Rightarrow> if c = CHR '','' then Some (BeginValue, stk)
                     else if c = CHR '']'' then pop_state r else None))"

definition begin_value :: "jparse list \<Rightarrow> char \<Rightarrow> (jstate \<times> jparse list) option" where
  "begin_value stk c =
     (if is_jspace c then Some (BeginValue, stk)
      else if c = CHR ''{'' then push_state BeginStringOrEmpty ObjKey stk
      else if c = CHR ''['' then push_state BeginValueOrEmpty ArrValue stk
      else if c = dquote then Some (InString, stk)
      else if c = CHR ''-'' then Some (Neg, stk)
      else if c = CHR ''0'' then Some (Num0, stk)
      else if c = CHR ''t'' then Some (Lit ''rue'', stk)
      else if c = CHR ''f'' then Some (Lit ''alse'', stk)
      else if c = CHR ''n'' then Some (Lit ''ull'', stk)
      else if is_digit c then Some (Num1, stk)
      else None)"

definition begin_string :: "jparse list \<Rightarrow> char \<Rightarrow> (jstate \<times> jparse list) option" where
  "begin_string stk c =
     (if is_jspace c then Some (BeginString, stk) else if c = dquote then Some (InString, stk) else None)"

fun jstep :: "jstate \<Rightarrow> jparse list \<Rightarrow> char \<Rightarrow> (jstate \<times> jparse list) option" where
  "jstep BeginValueOrEmpty stk c =
     (if is_jspace c then Some (BeginValueOrEmpty, stk)
      else if c = CHR '']'' then end_value stk c else begin_value stk c)"
| "jstep BeginValue stk c = begin_value stk c"
| "jstep BeginStringOrEmpty stk c =
     (if is_jspace c then Some (BeginStringOrEmpty, stk)
      else if c = CHR ''}'' then end_value (ObjValue # tl stk) c else begin_string stk c)"
| "jstep BeginString stk c = begin_string stk c"
| "jstep EndValue stk c = end_value stk c"
| "jstep EndTop stk c = (if is_jspace c then Some (EndTop, stk) else None)"
| "jstep InString stk c =
     (if c = dquote then Some (EndValue, stk) else if c = backslash then Some (InStringEsc, stk)
      else if (of_char c :: nat) < 32 then None else Some (InString, stk))"
| "jstep InStringEsc stk c =
     (if c \<in> set ''bfnrt/'' \<or> c = backslash \<or> c = dquote then Some (InString, stk)
      else if c = CHR ''u'' then Some (InEscU 4, stk) else None)"
| "jstep (InEscU n) stk c =
     (if is_hex c then Some (if n \<le> 1 then InString else InEscU (n - 1), stk) else None)"
| "jstep Neg stk c =
     (if c = CHR ''0'' then Some (Num0, stk) else if is_digit c then Some (Num1, stk) else None)"
| "jstep Num1 stk c =
     (if is_digit c then Some (Num1, stk) else if c = CHR ''.'' then Some (Dot, stk)
      else if c = CHR ''e'' \<or> c = CHR ''E'' then Some (Exp, stk) else end_value stk c)"
| "jstep Num0 stk c =
     (if c = CHR ''.'' then Some (Dot, stk)
      else if c = CHR ''e'' \<or> c = CHR ''E'' then Some (Exp, stk) else end_value stk c)"
| "jstep Dot stk c = (if is_digit c then Some (Dot0, stk) else None)"
| "jstep Dot0 stk c =
     (if is_digit c then Some (Dot0, stk)
      else if c = CHR ''e'' \<or> c = CHR ''E'' then Some (Exp, stk) else end_value stk c)"
| "jstep Exp stk c =
     (if c = CHR ''+'' \<or> c = CHR ''-'' then Some (ExpSign, stk)
      else if is_digit c then Some (Exp0, stk) else None)"
| "jstep ExpSign stk c = (if is_digit c then Some (Exp0, stk) else None)"
| "jstep Exp0 stk c = (if is_digit c then Some (Exp0, stk) else end_value stk c)"
| "jstep (Lit l) stk c =
     (case l of [] \<Rightarrow> None | x # xs \<Rightarrow>
        if c = x then Some (if xs = [] then EndValue else Lit xs, stk) else None)"

fun jscan :: "jstate \<Rightarrow> jparse list \<Rightarrow> string \<Rightarrow> (jstate \<times> jparse list) option" where
  "jscan s stk [] = Some (s, stk)"
| "jscan s stk (c # cs) = (case jstep s stk c of None \<Rightarrow> None | Some (s', stk') \<Rightarrow> jscan s' stk' cs)"

definition json_valid :: "string \<Rightarrow> bool" where
  "json_valid text = (case jscan BeginValue [] text of
     None \<Rightarrow> False
   | Some (s, stk) \<Rightarrow> (case jstep s stk (CHR '' '') of Some (EndTop, _) \<Rightarrow> True | _ \<Rightarrow> False))"

section \<open>The names of the top-level fields\<close>

text \<open>
  The key strings of the outermost object as they stand in the text, read off a run of the
  scanner: a key is open while the stack is \<open>[ObjKey]\<close> and the scanner is in a string.
\<close>

definition in_string :: "jstate \<Rightarrow> bool" where
  "in_string s = (case s of InString \<Rightarrow> True | InStringEsc \<Rightarrow> True | InEscU _ \<Rightarrow> True | _ \<Rightarrow> False)"

fun raw_keys :: "jstate \<Rightarrow> jparse list \<Rightarrow> string \<Rightarrow> string \<Rightarrow> string list" where
  "raw_keys s stk cur [] = []"
| "raw_keys s stk cur (c # cs) =
     (case jstep s stk c of
        None \<Rightarrow> []
      | Some (s', stk') \<Rightarrow>
          if stk = [ObjKey] \<and> in_string s
          then (if in_string s' then raw_keys s' stk' (cur @ [c]) cs else cur # raw_keys s' stk' [] cs)
          else raw_keys s' stk' [] cs)"

definition hex_val :: "char \<Rightarrow> nat" where
  "hex_val c = (let n = of_char c :: nat in
     if n \<le> 57 then n - 48 else if n \<le> 70 then n - 55 else n - 87)"

text \<open>
  The folded name of a key: escapes read, case dropped, and the two characters beyond ASCII that
  fold to an ASCII letter, the long s and the Kelvin sign, replaced by it.
\<close>

definition fold_code :: "nat \<Rightarrow> nat" where
  "fold_code n = (if 97 \<le> n \<and> n \<le> 122 then n - 32 else if n = 383 then 83 else if n = 8490 then 75 else n)"

fun fold_name :: "string \<Rightarrow> nat list" where
  "fold_name (c # e # cs) =
     (if c = backslash then
        (if e = CHR ''u'' then
           (case cs of h1 # h2 # h3 # h4 # r \<Rightarrow>
              fold_code (hex_val h1 * 4096 + hex_val h2 * 256 + hex_val h3 * 16 + hex_val h4) # fold_name r
            | _ \<Rightarrow> [])
         else (if e = CHR ''b'' then 8 else if e = CHR ''f'' then 12 else if e = CHR ''n'' then 10
               else if e = CHR ''r'' then 13 else if e = CHR ''t'' then 9 else of_char e) # fold_name cs)
      else fold_code (of_char c) # fold_name (e # cs))"
| "fold_name [c] = [fold_code (of_char c)]"
| "fold_name [] = []"

definition first_byte :: "string \<Rightarrow> char option" where
  "first_byte text = List.find (\<lambda>c. \<not> is_jspace c) text"

text \<open>
  Decoding into a struct of raw fields: the text must be valid and its value an object, or
  \<open>null\<close>, which sets nothing. The result says whether a field of the given name was set.
\<close>

definition unmarshal_fields :: "string \<Rightarrow> (string \<Rightarrow> bool) option" where
  "unmarshal_fields text =
     (if json_valid text \<and> (first_byte text = Some (CHR ''{'') \<or> first_byte text = Some (CHR ''n''))
      then Some (\<lambda>name. list_ex (\<lambda>k. fold_name k = fold_name name) (raw_keys BeginValue [] [] text))
      else None)"

section \<open>The encoder\<close>

datatype jval = JNull | JBool bool | JNum string | JStr string | JArr "jval list" | JObj "(string \<times> jval) list"

definition hex_digits :: "nat \<Rightarrow> string" where
  "hex_digits n = [hex_char (n div 16), hex_char (n mod 16)]"

definition enc_char :: "char \<Rightarrow> string" where
  "enc_char c =
     (let n = of_char c :: nat in
      if c = dquote \<or> c = backslash then [backslash, c]
      else if n = 8 then [backslash, CHR ''b'']
      else if n = 12 then [backslash, CHR ''f'']
      else if n = 10 then [backslash, CHR ''n'']
      else if n = 13 then [backslash, CHR ''r'']
      else if n = 9 then [backslash, CHR ''t'']
      else if n < 32 \<or> c = CHR ''<'' \<or> c = CHR ''>'' \<or> c = CHR ''&'' then [backslash] @ ''u00'' @ hex_digits n
      else [c])"

definition enc_string :: "string \<Rightarrow> string" where
  "enc_string s = [dquote] @ concat (map enc_char s) @ [dquote]"

fun join :: "string \<Rightarrow> string list \<Rightarrow> string" where
  "join sep [] = []"
| "join sep [x] = x"
| "join sep (x # xs) = x @ sep @ join sep xs"

fun render :: "jval \<Rightarrow> string" where
  "render JNull = ''null''"
| "render (JBool b) = (if b then ''true'' else ''false'')"
| "render (JNum t) = t"
| "render (JStr s) = enc_string s"
| "render (JArr vs) = ''['' @ join '','' (map render vs) @ '']''"
| "render (JObj kvs) = ''{'' @ join '','' (map (\<lambda>(k, v). enc_string k @ '':'' @ render v) kvs) @ ''}''"

section \<open>Documents of package jobspec\<close>

text \<open>Go encodes a map with its keys sorted, and drops an empty field marked \<open>omitempty\<close>.\<close>

definition int_text :: "int \<Rightarrow> string" where
  "int_text n = (if n < 0 then CHR ''-'' # itoa (nat (- n)) else itoa (nat n))"

fun json_any :: "(rat \<Rightarrow> string) \<Rightarrow> gany \<Rightarrow> jval" where
  "json_any ft (GStr s) = JStr s"
| "json_any ft (GInt n) = JNum (int_text n)"
| "json_any ft (GFloat x) = JNum (ft x)"
| "json_any ft (GBool b) = JBool b"
| "json_any ft GNil = JNull"
| "json_any ft (GList vs) = JArr (map (json_any ft) vs)"
| "json_any ft (GMap m) = JObj (sort_key fst (map (\<lambda>(k, v). (k, json_any ft v)) m))"

definition json_strings :: "string list \<Rightarrow> jval" where
  "json_strings xs = JArr (map JStr xs)"

definition omit :: "bool \<Rightarrow> string \<Rightarrow> jval \<Rightarrow> (string \<times> jval) list" where
  "omit keep k v = (if keep then [(k, v)] else [])"

fun json_resource :: "resource \<Rightarrow> jval" where
  "json_resource (Resource t n l e u w) = JObj
     ([(''type'', JStr t), (''count'', JNum (int_text n))] @ omit (l \<noteq> '''') ''label'' (JStr l) @
      omit e ''exclusive'' (JBool True) @ omit (u \<noteq> '''') ''unit'' (JStr u) @
      omit (w \<noteq> []) ''with'' (JArr (map json_resource w)))"

definition json_task :: "task \<Rightarrow> jval" where
  "json_task t = JObj
     ([(''command'', json_strings (t_command t))] @ omit (t_slot t \<noteq> '''') ''slot'' (JStr (t_slot t)) @
      omit (t_count t \<noteq> []) ''count''
        (JObj (sort_key fst (map (\<lambda>(k, n). (k, JNum (int_text n))) (t_count t)))))"

definition json_doc :: "(rat \<Rightarrow> string) \<Rightarrow> fluxDoc \<Rightarrow> jval" where
  "json_doc ft d = JObj
     [(''version'', JNum (int_text (fd_version d))), (''resources'', JArr (map json_resource (fd_resources d))),
      (''tasks'', JArr (map json_task (fd_tasks d))), (''attributes'', json_any ft (GMap (fd_attributes d)))]"

definition Marshal :: "(rat \<Rightarrow> string) \<Rightarrow> fluxDoc \<Rightarrow> string + string" where
  "Marshal ft d = Inr (render (json_doc ft d))"

section \<open>What the encoder writes, the scanner accepts\<close>

fun visits :: "jstate \<Rightarrow> jparse list \<Rightarrow> string \<Rightarrow> jparse list list" where
  "visits s stk [] = []"
| "visits s stk (c # cs) = stk # (case jstep s stk c of None \<Rightarrow> [] | Some (s', stk') \<Rightarrow> visits s' stk' cs)"

text \<open>A run over a text that never closes what was open below \<open>base\<close>.\<close>

definition run :: "jparse list \<Rightarrow> jstate \<Rightarrow> jparse list \<Rightarrow> string \<Rightarrow> jstate \<Rightarrow> jparse list \<Rightarrow> bool" where
  "run base s stk t s' stk' \<longleftrightarrow>
     jscan s stk t = Some (s', stk') \<and> (\<forall>x \<in> set (visits s stk t). suffix base x)"

lemma run_Nil [simp]: "run b s stk [] s' stk' \<longleftrightarrow> s' = s \<and> stk' = stk"
  by (auto simp: run_def)

lemma run_step: "jstep s stk c = Some (s1, stk1) \<Longrightarrow> suffix b stk \<Longrightarrow> run b s1 stk1 t s' stk' \<Longrightarrow> run b s stk (c # t) s' stk'"
  by (simp add: run_def)

lemma run_append: "run b s stk t s1 stk1 \<Longrightarrow> run b s1 stk1 u s2 stk2 \<Longrightarrow> run b s stk (t @ u) s2 stk2"
proof (induction t arbitrary: s stk)
  case (Cons c t)
  then show ?case by (auto simp: run_def split: option.splits prod.splits)
qed (simp add: run_def)

lemma run_weaken: "run b s stk t s' stk' \<Longrightarrow> suffix a b \<Longrightarrow> run a s stk t s' stk'"
  by (meson run_def suffix_order.trans)

lemma run_scan: "run b s stk t s' stk' \<Longrightarrow> jscan s stk t = Some (s', stk')"
  by (simp add: run_def)

text \<open>A state from which the delimiters act as they do right after a value.\<close>

definition finished :: "jstate \<Rightarrow> jparse list \<Rightarrow> bool" where
  "finished s stk \<longleftrightarrow> (\<forall>c \<in> set '',}] ''. jstep s stk c = end_value stk c)"

lemma finished_End [simp]: "finished EndValue stk" "finished (if stk = [] then EndTop else EndValue) stk"
  by (auto simp: finished_def end_value_def is_jspace_def)

lemma finished_nums: "s \<in> {Num0, Num1, Dot0, Exp0} \<Longrightarrow> finished s stk"
  by (auto simp: finished_def is_digit_def)

lemma hex_char_hex: "d < 16 \<Longrightarrow> is_hex (hex_char d)"
  by (auto simp: hex_char_def is_hex_def is_digit_def of_char_of)

lemma enc_char_cases:
  obtains "enc_char c = [c]" "c \<noteq> dquote" "c \<noteq> backslash" "32 \<le> (of_char c :: nat)"
  | e where "enc_char c = [backslash, e]" "e \<in> set ''bfnrt/'' \<or> e = backslash \<or> e = dquote"
  | x y where "enc_char c = [backslash, CHR ''u'', CHR ''0'', CHR ''0'', x, y]" "is_hex x" "is_hex y"
proof -
  have "(of_char c :: nat) < 256" by (rule nat_of_char_less_256)
  then have "(of_char c :: nat) div 16 < 16" by (simp only: less_mult_imp_div_less)
  then have h: "is_hex (hex_char (of_char c div 16))" "is_hex (hex_char (of_char c mod 16))"
    by (auto intro: hex_char_hex)
  show ?thesis
  proof (cases "c = dquote \<or> c = backslash")
    case True
    then show ?thesis using that(2) [of c] by (auto simp: enc_char_def Let_def)
  next
    case False
    show ?thesis
    proof (cases "(of_char c :: nat) \<in> {8, 9, 10, 12, 13}")
      case True
      then show ?thesis using False that(2) by (auto simp: enc_char_def Let_def)
    next
      case b: False
      show ?thesis
        using False b that(1) that(3) h by (cases "(of_char c :: nat) < 32 \<or> c = CHR ''<'' \<or> c = CHR ''>'' \<or> c = CHR ''&''")
          (auto simp: enc_char_def Let_def hex_digits_def)
    qed
  qed
qed

lemma run_enc_char: "suffix b stk \<Longrightarrow> run b InString stk (enc_char c) InString stk"
proof (cases rule: enc_char_cases [of c])
  case 1
  then show "suffix b stk \<Longrightarrow> ?thesis" by (simp add: run_def)
next
  case (2 e)
  then show "suffix b stk \<Longrightarrow> ?thesis" by (auto simp: run_def)
next
  case (3 x y)
  moreover have "is_hex (CHR ''0'')" by (simp add: is_hex_def is_digit_def)
  ultimately show "suffix b stk \<Longrightarrow> ?thesis" by (simp add: run_def)
qed

lemma run_enc_chars: "suffix b stk \<Longrightarrow> run b InString stk (concat (map enc_char s)) InString stk"
  by (induction s) (auto intro: run_append run_enc_char)

lemma run_enc_string:
  assumes "suffix b stk" "jstep s0 stk dquote = Some (InString, stk)"
  shows "run b s0 stk (enc_string s) EndValue stk"
proof -
  have "run b InString stk [dquote] EndValue stk" by (rule run_step [OF _ assms(1)]) simp_all
  then have "run b InString stk (concat (map enc_char s) @ [dquote]) EndValue stk"
    by (rule run_append [OF run_enc_chars [OF assms(1)]])
  then show ?thesis using run_step [OF assms(2,1)] by (simp add: enc_string_def)
qed

text \<open>The text of a number: what takes the scanner to the end of one.\<close>

fun num_step :: "jstate \<Rightarrow> char \<Rightarrow> jstate option" where
  "num_step s c = (case jstep s [] c of Some (s', []) \<Rightarrow> if s' = EndTop then None else Some s' | _ \<Rightarrow> None)"

definition num_state :: "jstate \<Rightarrow> bool" where
  "num_state s \<longleftrightarrow> s \<in> {Neg, Num1, Num0, Dot, Dot0, Exp, ExpSign, Exp0}"

fun num_scan :: "jstate \<Rightarrow> string \<Rightarrow> jstate option" where
  "num_scan s [] = Some s"
| "num_scan s (c # cs) = (case num_step s c of None \<Rightarrow> None | Some s' \<Rightarrow> num_scan s' cs)"

definition num_ok :: "string \<Rightarrow> bool" where
  "num_ok t \<longleftrightarrow> t \<noteq> [] \<and> (hd t = CHR ''-'' \<or> is_digit (hd t)) \<and>
     (case num_scan BeginValue t of Some s \<Rightarrow> s \<in> {Num0, Num1, Dot0, Exp0} | None \<Rightarrow> False)"

lemma end_value_none: "end_value [] c = Some (s, r) \<Longrightarrow> s = EndTop"
  by (auto simp: end_value_def split: if_splits)

lemma num_step_any: "num_state s \<Longrightarrow> num_step s c = Some s' \<Longrightarrow> jstep s stk c = Some (s', stk) \<and> num_state s'"
  by (auto simp: num_state_def dest: end_value_none split: option.splits list.splits if_splits)

lemma run_num_scan: "num_state s \<Longrightarrow> num_scan s t = Some s' \<Longrightarrow> suffix b stk \<Longrightarrow> run b s stk t s' stk"
proof (induction t arbitrary: s)
  case (Cons c t)
  then obtain s1 where s1: "num_step s c = Some s1" "num_scan s1 t = Some s'" by (auto split: option.splits)
  have j: "jstep s stk c = Some (s1, stk)" and n: "num_state s1"
    using num_step_any [OF Cons.prems(1) s1(1)] by blast+
  show ?case by (rule run_step [OF j Cons.prems(3) Cons.IH [OF n s1(2) Cons.prems(3)]])
qed simp

lemma begin_number:
  assumes "c = CHR ''-'' \<or> is_digit c"
  shows "begin_value stk c = Some (if c = CHR ''-'' then Neg else if c = CHR ''0'' then Num0 else Num1, stk)"
proof (cases "c = CHR ''-''")
  case False
  then have d: "is_digit c" using assms by blast
  then have "c \<noteq> x" if "\<not> is_digit x" for x using that by blast
  then have "c \<noteq> CHR ''{''" "c \<noteq> CHR ''[''" "c \<noteq> dquote" "c \<noteq> CHR ''t''" "c \<noteq> CHR ''f''" "c \<noteq> CHR ''n''"
    by (simp_all add: is_digit_def)
  moreover have "\<not> is_jspace c" using d by (auto simp: is_digit_def is_jspace_def)
  ultimately show ?thesis using False d by (simp add: begin_value_def)
qed (simp add: begin_value_def is_jspace_def)

lemma run_num:
  assumes "num_ok t" "suffix b stk"
  shows "\<exists>s. run b BeginValue stk t s stk \<and> finished s stk"
proof -
  obtain s where s: "num_scan BeginValue t = Some s" "s \<in> {Num0, Num1, Dot0, Exp0}"
    using assms(1) unfolding num_ok_def by (cases "num_scan BeginValue t") (simp_all del: num_scan.simps)
  obtain c u where c: "t = c # u" "c = CHR ''-'' \<or> is_digit c"
    using assms(1) unfolding num_ok_def by (metis list.collapse)
  have t: "t = c # u" "c = CHR ''-'' \<or> is_digit c" "num_scan BeginValue t = Some s" "s \<in> {Num0, Num1, Dot0, Exp0}"
    by (rule c(1), rule c(2), rule s(1), rule s(2))
  let ?s1 = "if c = CHR ''-'' then Neg else if c = CHR ''0'' then Num0 else Num1"
  have first: "jstep BeginValue stk' c = Some (?s1, stk')" for stk'
    using begin_number [OF t(2)] by simp
  then have "num_step BeginValue c = Some ?s1" by simp
  then have "num_scan ?s1 u = Some s" using t(3) unfolding t(1) by (simp del: num_step.simps)
  then have "run b ?s1 stk u s stk" by (intro run_num_scan assms(2)) (auto simp: num_state_def)
  then show ?thesis using run_step [OF first assms(2)] t(1,4) finished_nums by blast
qed

section \<open>Values\<close>

fun wf_jval :: "jval \<Rightarrow> bool" where
  "wf_jval (JNum t) = num_ok t"
| "wf_jval (JArr vs) = list_all wf_jval vs"
| "wf_jval (JObj kvs) = list_all (\<lambda>(k, v). wf_jval v) kvs"
| "wf_jval _ = True"

fun depth :: "jval \<Rightarrow> nat" where
  "depth (JArr vs) = Suc (fold max (map depth vs) 0)"
| "depth (JObj kvs) = Suc (fold max (map (\<lambda>(k, v). depth v) kvs) 0)"
| "depth _ = 0"

lemma fold_max_le: "fold max (xs :: nat list) a \<le> n \<longleftrightarrow> a \<le> n \<and> list_all (\<lambda>x. x \<le> n) xs"
  by (induction xs arbitrary: a) auto

lemma depth_member:
  assumes "kv \<in> set kvs"
  shows "depth (snd kv) \<le> fold max (map (\<lambda>(k, v). depth v) kvs) 0"
proof -
  have "\<forall>x \<in> set (map (\<lambda>(k, v). depth v) kvs). x \<le> fold max (map (\<lambda>(k, v). depth v) kvs) 0"
    using fold_max_le [of "map (\<lambda>(k, v). depth v) kvs" 0 "fold max (map (\<lambda>(k, v). depth v) kvs) 0"]
    unfolding list_all_iff by blast
  moreover have "depth (snd kv) \<in> set (map (\<lambda>(k, v). depth v) kvs)" using assms by (force simp: case_prod_unfold)
  ultimately show ?thesis by blast
qed

lemma render_first: "wf_jval v \<Longrightarrow> \<exists>c u. render v = c # u \<and> \<not> is_jspace c \<and> c \<noteq> CHR '']''"
proof (cases v)
  case (JNum t)
  then show "wf_jval v \<Longrightarrow> ?thesis" by (cases t) (auto simp: num_ok_def is_jspace_def is_digit_def)
next
  case (JBool b)
  then show ?thesis by (cases b) (auto simp: is_jspace_def)
qed (auto simp: is_jspace_def enc_string_def)

lemma run_BeginEmpty:
  assumes "wf_jval v" "run b BeginValue stk (render v @ u) s' stk'"
  shows "run b BeginValueOrEmpty stk (render v @ u) s' stk'"
proof -
  obtain c t where c: "render v = c # t" "\<not> is_jspace c" "c \<noteq> CHR '']''" using render_first [OF assms(1)] by blast
  then have "jstep BeginValueOrEmpty stk c = jstep BeginValue stk c" by simp
  then show ?thesis using assms(2) by (simp add: run_def c(1))
qed

definition reads :: "jval \<Rightarrow> nat \<Rightarrow> bool" where
  "reads v room \<longleftrightarrow> (\<forall>b stk. length stk + room \<le> maxNestingDepth \<longrightarrow> suffix b stk \<longrightarrow>
     (\<exists>s. run b BeginValue stk (render v) s stk \<and> finished s stk))"

lemma run_pop: "suffix b stk \<Longrightarrow> suffix b (p # stk) \<Longrightarrow> p = ArrValue \<and> c = CHR '']'' \<or> p = ObjValue \<and> c = CHR ''}'' \<Longrightarrow>
   finished s (p # stk) \<Longrightarrow> run b s (p # stk) [c] (if stk = [] then EndTop else EndValue) stk"
  by (auto simp: run_def finished_def end_value_def pop_state_def is_jspace_def)

lemma run_elems:
  assumes "suffix b stk" "length stk < maxNestingDepth"
  shows "vs \<noteq> [] \<Longrightarrow> \<forall>v \<in> set vs. reads v room \<Longrightarrow> Suc (length stk) + room \<le> maxNestingDepth \<Longrightarrow>
    run b BeginValue (ArrValue # stk) (join '','' (map render vs) @ '']'') (if stk = [] then EndTop else EndValue) stk"
proof (induction vs)
  case (Cons v vs)
  let ?stk = "ArrValue # stk"
  have b: "suffix b ?stk" using assms(1) by (simp add: suffix_ConsI)
  obtain s where s: "run b BeginValue ?stk (render v) s ?stk" "finished s ?stk"
    using Cons.prems(2,3) b unfolding reads_def by (metis length_Cons list.set_intros(1))
  show ?case
  proof (cases vs)
    case Nil
    then show ?thesis using run_append [OF s(1) run_pop [OF assms(1) b _ s(2)]] by simp
  next
    case (Cons w ws)
    have rest: "run b BeginValue ?stk (join '','' (map render vs) @ '']'') (if stk = [] then EndTop else EndValue) stk"
      using Cons.IH Cons.prems Cons by simp
    have "jstep s ?stk (CHR '','') = Some (BeginValue, ?stk)"
      using s(2) by (simp add: finished_def end_value_def is_jspace_def)
    from run_append [OF s(1) run_step [OF this b rest]] show ?thesis by (simp add: Cons)
  qed
qed simp

lemma run_members:
  assumes "suffix b stk" "length stk < maxNestingDepth"
  shows "kvs \<noteq> [] \<Longrightarrow> \<forall>kv \<in> set kvs. reads (snd kv) room \<Longrightarrow> Suc (length stk) + room \<le> maxNestingDepth \<Longrightarrow>
    s0 = BeginString \<or> s0 = BeginStringOrEmpty \<Longrightarrow>
    run b s0 (ObjKey # stk) (join '','' (map (\<lambda>(k, v). enc_string k @ '':'' @ render v) kvs) @ ''}'')
      (if stk = [] then EndTop else EndValue) stk"
proof (induction kvs arbitrary: s0)
  case (Cons kv kvs)
  obtain k v where kv: "kv = (k, v)" by (cases kv)
  let ?key = "ObjKey # stk" and ?val = "ObjValue # stk"
  have b: "suffix b ?key" "suffix b ?val" using assms(1) by (simp_all add: suffix_ConsI)
  have "jstep s0 ?key dquote = Some (InString, ?key)"
    using Cons.prems(4) by (auto simp: begin_string_def is_jspace_def)
  from run_enc_string [OF b(1) this] have k: "run b s0 ?key (enc_string k) EndValue ?key" .
  have colon: "jstep EndValue ?key (CHR '':'') = Some (BeginValue, ?val)" by (simp add: end_value_def is_jspace_def)
  obtain s where s: "run b BeginValue ?val (render v) s ?val" "finished s ?val"
    using Cons.prems(2,3) b(2) unfolding reads_def kv by (metis length_Cons list.set_intros(1) snd_conv)
  have kvr: "run b s0 ?key (enc_string k @ '':'' @ render v) s ?val"
    using run_append [OF k run_step [OF colon b(1) s(1)]] by simp
  show ?case
  proof (cases kvs)
    case Nil
    then show ?thesis using run_append [OF kvr run_pop [OF assms(1) b(2) _ s(2)]] kv by simp
  next
    case (Cons kv' kvs')
    have rest: "run b BeginString ?key (join '','' (map (\<lambda>(k, v). enc_string k @ '':'' @ render v) kvs) @ ''}'')
        (if stk = [] then EndTop else EndValue) stk"
      using Cons.IH [of BeginString] Cons.prems Cons by simp
    have "jstep s ?val (CHR '','') = Some (BeginString, ?key)"
      using s(2) by (simp add: finished_def end_value_def is_jspace_def)
    from run_append [OF kvr run_step [OF this b(2) rest]] show ?thesis by (simp add: Cons kv)
  qed
qed simp

lemma readsD: "reads v n \<Longrightarrow> length stk + n \<le> maxNestingDepth \<Longrightarrow> suffix b stk \<Longrightarrow>
    \<exists>s. run b BeginValue stk (render v) s stk \<and> finished s stk"
  by (simp add: reads_def)

lemma reads_mono: "reads v n \<Longrightarrow> n \<le> m \<Longrightarrow> reads v m"
  by (auto simp: reads_def)

lemma reads_lit:
  assumes "render v = c # t" "\<And>stk. jstep BeginValue stk c = Some (Lit t, stk)" "t \<noteq> []"
  shows "reads v 0"
proof -
  have lit: "t \<noteq> [] \<Longrightarrow> suffix b stk \<Longrightarrow> run b (Lit t) stk t EndValue stk" for b stk t
    by (induction t) (auto simp: run_def split: if_splits)
  have "run b BeginValue stk (render v) EndValue stk" if "suffix b stk" for b stk
    unfolding assms(1) by (rule run_step [OF assms(2) that lit [OF assms(3) that]])
  then show ?thesis unfolding reads_def using finished_End(1) by blast
qed

lemma reads_value: "wf_jval v \<Longrightarrow> reads v (depth v)"
proof (induction v)
  case JNull
  show ?case using reads_lit [of JNull "CHR ''n''" "''ull''"] by (simp add: begin_value_def is_jspace_def)
next
  case (JBool x)
  show ?case using reads_lit [of "JBool x" "CHR ''t''" "''rue''"] reads_lit [of "JBool x" "CHR ''f''" "''alse''"]
    by (cases x) (simp_all add: begin_value_def is_jspace_def)
next
  case (JNum x)
  then show ?case unfolding reads_def using run_num by simp
next
  case (JStr x)
  have "run b BeginValue stk (enc_string x) EndValue stk" if "suffix b stk" for b stk
    by (rule run_enc_string [OF that]) (simp add: begin_value_def is_jspace_def)
  then show ?case unfolding reads_def render.simps using finished_End(1) by blast
next
  case (JArr vs)
  let ?n = "fold max (map depth vs) 0"
  have each: "\<forall>v \<in> set vs. reads v ?n"
  proof
    fix v assume v: "v \<in> set vs"
    have "depth v \<le> ?n" using v fold_max_le [of "map depth vs" 0 ?n] by (auto simp: list_all_iff)
    then show "reads v ?n" using JArr v by (auto simp: list_all_iff intro: reads_mono)
  qed
  show ?case unfolding reads_def
  proof (intro allI impI)
    fix b stk :: "jparse list" assume len: "length stk + depth (JArr vs) \<le> maxNestingDepth" and b: "suffix b stk"
    let ?fin = "if stk = [] then EndTop else EndValue"
    have b': "suffix b (ArrValue # stk)" using b by (simp add: suffix_ConsI)
    have lt: "length stk < maxNestingDepth" "Suc (length stk) + ?n \<le> maxNestingDepth" using len by simp_all
    have opn: "jstep BeginValue stk (CHR ''['') = Some (BeginValueOrEmpty, ArrValue # stk)"
      using lt(1) by (simp add: begin_value_def push_state_def is_jspace_def)
    have "run b BeginValueOrEmpty (ArrValue # stk) (join '','' (map render vs) @ '']'') ?fin stk"
    proof (cases vs)
      case Nil
      then show ?thesis using b' by (simp add: run_def end_value_def pop_state_def is_jspace_def)
    next
      case (Cons w ws)
      have r: "run b BeginValue (ArrValue # stk) (join '','' (map render vs) @ '']'') ?fin stk"
        using run_elems [OF b lt(1) _ each lt(2)] Cons by simp
      obtain u where "join '','' (map render vs) @ '']'' = render w @ u" by (cases ws) (auto simp: Cons)
      then show ?thesis using run_BeginEmpty [of w] r JArr.prems Cons by simp
    qed
    from run_step [OF opn b this] have "run b BeginValue stk (render (JArr vs)) ?fin stk" by simp
    then show "\<exists>s. run b BeginValue stk (render (JArr vs)) s stk \<and> finished s stk"
      using finished_End(2) by blast
  qed
next
  case (JObj kvs)
  let ?n = "fold max (map (\<lambda>(k, v). depth v) kvs) 0"
  have each: "\<forall>kv \<in> set kvs. reads (snd kv) ?n"
  proof
    fix kv assume kv: "kv \<in> set kvs"
    have "depth (snd kv) \<le> ?n" by (rule depth_member [OF kv])
    moreover have "reads (snd kv) (depth (snd kv))"
      using JObj.IH [of kv "snd kv"] JObj.prems kv by (cases kv) (auto simp: list_all_iff)
    ultimately show "reads (snd kv) ?n" by (blast intro: reads_mono)
  qed
  show ?case unfolding reads_def
  proof (intro allI impI)
    fix b stk :: "jparse list" assume len: "length stk + depth (JObj kvs) \<le> maxNestingDepth" and b: "suffix b stk"
    let ?fin = "if stk = [] then EndTop else EndValue"
    have b': "suffix b (ObjKey # stk)" using b by (simp add: suffix_ConsI)
    have lt: "length stk < maxNestingDepth" "Suc (length stk) + ?n \<le> maxNestingDepth" using len by simp_all
    have opn: "jstep BeginValue stk (CHR ''{'') = Some (BeginStringOrEmpty, ObjKey # stk)"
      using lt(1) by (simp add: begin_value_def push_state_def is_jspace_def)
    have "run b BeginStringOrEmpty (ObjKey # stk)
        (join '','' (map (\<lambda>(k, v). enc_string k @ '':'' @ render v) kvs) @ ''}'') ?fin stk"
    proof (cases kvs)
      case Nil
      then show ?thesis using b' by (simp add: run_def end_value_def pop_state_def is_jspace_def)
    next
      case (Cons w ws)
      then show ?thesis using run_members [OF b lt(1) _ each lt(2)] by simp
    qed
    from run_step [OF opn b this] have "run b BeginValue stk (render (JObj kvs)) ?fin stk" by simp
    then show "\<exists>s. run b BeginValue stk (render (JObj kvs)) s stk \<and> finished s stk"
      using finished_End(2) by blast
  qed
qed

lemma json_valid_render:
  assumes "wf_jval v" "depth v \<le> maxNestingDepth"
  shows "json_valid (render v)"
proof -
  obtain s where s: "run [] BeginValue [] (render v) s []" "finished s []"
    using readsD [OF reads_value [OF assms(1)], of "[]" "[]"] assms(2) by auto
  then have "jstep s [] (CHR '' '') = Some (EndTop, [])"
    by (simp add: finished_def end_value_def is_jspace_def)
  then show ?thesis using run_scan [OF s(1)] by (simp add: json_valid_def)
qed

section \<open>Fields\<close>

lemma raw_keys_run:
  "run [ObjValue] s stk t s' stk' \<Longrightarrow> raw_keys s stk [] (t @ u) = raw_keys s' stk' [] u"
proof (induction t arbitrary: s stk)
  case (Cons c t)
  obtain s1 stk1 where st: "jstep s stk c = Some (s1, stk1)" "run [ObjValue] s1 stk1 t s' stk'" "suffix [ObjValue] stk"
    using Cons.prems by (auto simp: run_def split: option.splits)
  have "stk \<noteq> [ObjKey]" using st(3) by (auto dest: suffix_ConsD2 simp: suffix_Cons)
  then show ?case using Cons.IH [OF st(2)] st(1) by simp
qed simp

lemma raw_keys_char: "raw_keys InString [ObjKey] cur (enc_char c @ u) = raw_keys InString [ObjKey] (cur @ enc_char c) u"
proof (cases rule: enc_char_cases [of c])
  case 1
  then show ?thesis by (simp add: in_string_def)
next
  case (2 e)
  then show ?thesis by (auto simp: in_string_def)
next
  case (3 x y)
  moreover have "is_hex (CHR ''0'')" by (simp add: is_hex_def is_digit_def)
  ultimately show ?thesis by (simp add: in_string_def)
qed

lemma raw_keys_chars: "raw_keys InString [ObjKey] cur (concat (map enc_char k) @ u) =
    raw_keys InString [ObjKey] (cur @ concat (map enc_char k)) u"
  by (induction k arbitrary: cur) (simp_all add: raw_keys_char)

lemma raw_keys_members:
  assumes "\<forall>kv \<in> set kvs. wf_jval (snd kv)" "\<forall>kv \<in> set kvs. depth (snd kv) < maxNestingDepth"
    and "s0 = BeginString \<or> s0 = BeginStringOrEmpty"
  shows "raw_keys s0 [ObjKey] [] (join '','' (map (\<lambda>(k, v). enc_string k @ '':'' @ render v) kvs) @ ''}'') =
    map (\<lambda>(k, v). concat (map enc_char k)) kvs"
  using assms
proof (induction kvs arbitrary: s0)
  case Nil
  then show ?case by (auto simp: begin_string_def end_value_def pop_state_def is_jspace_def in_string_def)
next
  case (Cons kv kvs)
  obtain k v where kv: "kv = (k, v)" by (cases kv)
  have "wf_jval v" "depth v < maxNestingDepth" using Cons.prems by (simp_all add: kv)
  then obtain s where s: "run [ObjValue] BeginValue [ObjValue] (render v) s [ObjValue]" "finished s [ObjValue]"
    using readsD [OF reads_value, of v "[ObjValue]" "[ObjValue]"] by auto
  have q: "jstep s0 [ObjKey] dquote = Some (InString, [ObjKey])" "\<not> in_string s0"
    using Cons.prems(3) by (auto simp: begin_string_def is_jspace_def in_string_def)
  have key: "raw_keys s0 [ObjKey] [] (enc_string k @ '':'' @ u) =
      concat (map enc_char k) # raw_keys BeginValue [ObjValue] [] u" for u
    using q by (simp add: enc_string_def raw_keys_chars [where u = "dquote # CHR '':'' # u"])
      (simp add: in_string_def end_value_def is_jspace_def)
  have d: "jstep s [ObjValue] (CHR '','') = Some (BeginString, [ObjKey])"
      "jstep s [ObjValue] (CHR ''}'') = Some (EndTop, [])"
    using s(2) by (simp_all add: finished_def end_value_def pop_state_def is_jspace_def)
  show ?case
  proof (cases kvs)
    case Nil
    then show ?thesis using key [of "render v @ ''}''"] d(2) by (simp add: kv raw_keys_run [OF s(1)])
  next
    case (Cons w ws)
    let ?rest = "join '','' (map (\<lambda>(k, v). enc_string k @ '':'' @ render v) kvs) @ ''}''"
    have "raw_keys BeginString [ObjKey] [] ?rest = map (\<lambda>(k, v). concat (map enc_char k)) kvs"
      using Cons.IH [of BeginString] Cons.prems by simp
    then show ?thesis using key [of "render v @ '','' @ ?rest"] d(1)
      by (simp add: kv Cons raw_keys_run [OF s(1)])
  qed
qed

lemma raw_keys_render:
  assumes "wf_jval (JObj kvs)" "depth (JObj kvs) \<le> maxNestingDepth"
  shows "raw_keys BeginValue [] [] (render (JObj kvs)) = map (\<lambda>(k, v). concat (map enc_char k)) kvs"
proof -
  have "\<forall>kv \<in> set kvs. depth (snd kv) < maxNestingDepth"
  proof
    fix kv assume kv: "kv \<in> set kvs"
    let ?n = "fold max (map (\<lambda>(k, v). depth v) kvs) 0"
    have "depth (snd kv) \<le> ?n" by (rule depth_member [OF kv])
    then show "depth (snd kv) < maxNestingDepth" using assms(2) by simp
  qed
  moreover have "\<forall>kv \<in> set kvs. wf_jval (snd kv)" using assms(1) by (auto simp: list_all_iff)
  moreover have "jstep BeginValue [] (CHR ''{'') = Some (BeginStringOrEmpty, [ObjKey])"
    by (simp add: begin_value_def push_state_def is_jspace_def maxNestingDepth_def)
  ultimately show ?thesis using raw_keys_members [of kvs BeginStringOrEmpty] by (simp add: in_string_def)
qed

lemma first_byte_obj: "first_byte (render (JObj kvs)) = Some (CHR ''{'')"
  by (simp add: first_byte_def is_jspace_def)

lemma unmarshal_render:
  assumes "wf_jval (JObj kvs)" "depth (JObj kvs) \<le> maxNestingDepth"
  shows "unmarshal_fields (render (JObj kvs)) = Some (\<lambda>name. list_ex (\<lambda>(k, v).
    fold_name (concat (map enc_char k)) = fold_name name) kvs)"
  using json_valid_render [OF assms] first_byte_obj [of kvs] raw_keys_render [OF assms]
  unfolding unmarshal_fields_def by (simp add: list_ex_iff case_prod_unfold del: render.simps raw_keys.simps)

section \<open>The documents are values the scanner reads\<close>

lemma num_scan_digits: "list_all is_digit t \<Longrightarrow> num_scan Num1 t = Some Num1"
  by (induction t) auto

lemma hd_itoa: "0 < n \<Longrightarrow> hd (itoa n) \<noteq> CHR ''0''"
proof (induction n rule: itoa.induct)
  case (1 n)
  have z: "CHR ''0'' = digit_char 0" by code_simp
  have inj: "d < 10 \<Longrightarrow> digit_char d = digit_char 0 \<Longrightarrow> d = 0" for d
    using of_char_digit_char [of d] of_char_digit_char [of 0] by simp
  show ?case
  proof (cases "n < 10")
    case True
    then show ?thesis using 1(2) inj [of n] unfolding z by (subst itoa.simps) auto
  next
    case False
    then have "hd (itoa n) = hd (itoa (n div 10))" by (subst itoa.simps) simp
    then show ?thesis using 1(1) False by simp
  qed
qed

lemma num_scan_itoa: "\<exists>s \<in> {Num0, Num1}. num_scan s0 (itoa n) = Some s"
  if "\<And>c. is_digit c \<Longrightarrow> num_step s0 c = Some (if c = CHR ''0'' then Num0 else Num1)"
proof (cases "n = 0")
  case True
  have "itoa 0 = ''0''" by code_simp
  moreover have "is_digit (CHR ''0'')" by (simp add: is_digit_def)
  ultimately show ?thesis using that True by (simp del: num_step.simps)
next
  case False
  then obtain c cs where c: "itoa n = c # cs" "is_digit c" "list_all is_digit cs" "c \<noteq> CHR ''0''"
    using itoa_digits [of n] hd_itoa [of n] by (cases "itoa n") auto
  then show ?thesis using that [OF c(2)] num_scan_digits [OF c(3)] by (simp del: num_step.simps)
qed

lemma num_ok_int: "num_ok (int_text n)"
proof (cases "n < 0")
  case True
  have step: "num_step Neg c = Some (if c = CHR ''0'' then Num0 else Num1)" if "is_digit c" for c
    using that by (auto simp: num_step.simps)
  obtain s where "s \<in> {Num0, Num1}" "num_scan Neg (itoa (nat (- n))) = Some s"
    using num_scan_itoa [of Neg "nat (- n)", OF step] by blast
  moreover have "num_step BeginValue (CHR ''-'') = Some Neg"
    using begin_number [of "CHR ''-''" "[]"] by simp
  ultimately show ?thesis using True by (auto simp: num_ok_def int_text_def simp del: num_step.simps)
next
  case False
  have step: "num_step BeginValue c = Some (if c = CHR ''0'' then Num0 else Num1)" if d: "is_digit c" for c
  proof -
    have "c \<noteq> CHR ''-''" using d by (auto simp: is_digit_def)
    then show ?thesis using begin_number [of c "[]"] d by simp
  qed
  obtain s where "s \<in> {Num0, Num1}" "num_scan BeginValue (itoa (nat n)) = Some s"
    using num_scan_itoa [of BeginValue "nat n", OF step] by blast
  moreover have "is_digit (hd (itoa (nat n)))" using itoa_digits [of "nat n"] by (cases "itoa (nat n)") auto
  ultimately show ?thesis using False by (auto simp: num_ok_def int_text_def simp del: num_scan.simps)
qed

text \<open>Every float of a decoded value has a decimal text that is a number of the grammar.\<close>

fun floats_ok :: "(rat \<Rightarrow> string) \<Rightarrow> gany \<Rightarrow> bool" where
  "floats_ok ft (GFloat x) = num_ok (ft x)"
| "floats_ok ft (GList vs) = list_all (floats_ok ft) vs"
| "floats_ok ft (GMap m) = list_all (\<lambda>(k, v). floats_ok ft v) m"
| "floats_ok ft _ = True"

lemma wf_json_any: "floats_ok ft v \<Longrightarrow> wf_jval (json_any ft v)"
proof (induction v)
  case (GMap m)
  have "wf_jval (json_any ft (snd kv))" if "kv \<in> set m" for kv
    using GMap.IH [OF that, of "snd kv"] GMap.prems that by (cases kv) (auto simp: list_all_iff)
  then show ?case by (fastforce simp: list_all_iff)
qed (auto simp: num_ok_int list_all_iff)

lemma wf_omit: "list_all (\<lambda>(k, v). wf_jval v) (omit b k v) \<longleftrightarrow> b \<longrightarrow> wf_jval v"
  by (simp add: omit_def)

lemma wf_json_resource: "wf_jval (json_resource r)"
proof (induction r)
  case (Resource t n l e u w)
  then have "list_all wf_jval (map json_resource w)" by (simp add: list_all_iff)
  then show ?case by (simp add: wf_omit num_ok_int)
qed

lemma wf_json_task: "wf_jval (json_task t)"
  by (auto simp: json_task_def json_strings_def omit_def list_all_iff num_ok_int)

lemma wf_json_doc: "floats_ok ft (GMap (fd_attributes d)) \<Longrightarrow> wf_jval (json_doc ft d)"
  unfolding json_doc_def using wf_json_any [of ft "GMap (fd_attributes d)"] wf_json_resource wf_json_task
  by (simp add: num_ok_int list_all_iff)

lemma fields_doc:
  assumes "floats_ok ft (GMap (fd_attributes d))" "depth (json_doc ft d) \<le> maxNestingDepth"
  shows "\<exists>f. unmarshal_fields (render (json_doc ft d)) = Some f \<and> f ''resources'' \<and> f ''tasks''"
  using unmarshal_render [OF wf_json_doc [OF assms(1), unfolded json_doc_def] assms(2) [unfolded json_doc_def]]
  unfolding json_doc_def by (simp add: enc_char_def Let_def)

end
