(* ===== verification/Emulator.thy ===== *)
theory Emulator
  imports Json Ledger
begin

text \<open>
  Package \<open>pkg/cluster\<close>, file \<open>emulator.go\<close>: the emulated clusters. One runtime per manager
  type keeps the submissions with their plans, a plan being the states a submission passes
  through by elapsed time; the backend of a manager type says which artifact it accepts, how its
  handles look and what its lifecycle is called. Times are nanoseconds at 64 bits. The clock and
  the four runtimes are the world the drivers act on.
\<close>

section \<open>Plans and backends\<close>

record phase =
  ph_At :: int
  ph_State :: state
  ph_Log :: string

type_synonym plan = "phase list"

record emulatorConfig =
  ec_Pending :: int
  ec_Run :: int
  ec_Inject :: "(content \<Rightarrow> plan option) option"

definition millisecond :: int where
  "millisecond = 1000000"

definition withDefaults :: "emulatorConfig \<Rightarrow> emulatorConfig" where
  "withDefaults c =
     (let c = (if ec_Pending c = 0 then c\<lparr>ec_Pending := 300 * millisecond\<rparr> else c)
      in if ec_Run c = 0 then c\<lparr>ec_Run := 1200 * millisecond\<rparr> else c)"

datatype backend = fluxOperatorBackend | slurmOperatorBackend | k8sJobBackend | fluxURIBackend

fun be_Manager :: "backend \<Rightarrow> string" where
  "be_Manager fluxOperatorBackend = FluxOperator"
| "be_Manager slurmOperatorBackend = SlurmOperator"
| "be_Manager k8sJobBackend = K8sJob"
| "be_Manager fluxURIBackend = FluxURI"

fun WantKind :: "backend \<Rightarrow> string" where
  "WantKind fluxOperatorBackend = ''manifest''"
| "WantKind slurmOperatorBackend = ''manifest''"
| "WantKind k8sJobBackend = ''manifest''"
| "WantKind fluxURIBackend = ''jobspec''"

text \<open>The verbs \<open>%05d\<close> and \<open>%X\<close> of package \<open>fmt\<close>.\<close>

definition pad5 :: "int \<Rightarrow> string" where
  "pad5 n = (if n < 0 then CHR ''-'' # replicate (4 - length (itoa (nat (- n)))) (CHR ''0'') @ itoa (nat (- n))
     else replicate (5 - length (itoa (nat n))) (CHR ''0'') @ itoa (nat n))"

definition HEX_char :: "nat \<Rightarrow> char" where
  "HEX_char d = (if d < 10 then char_of (48 + d) else char_of (55 + d))"

fun HEX :: "nat \<Rightarrow> string" where
  "HEX n = (if n < 16 then [HEX_char n] else HEX (n div 16) @ [HEX_char (n mod 16)])"

declare HEX.simps [simp del]

definition HEX_int :: "int \<Rightarrow> string" where
  "HEX_int n = (if n < 0 then CHR ''-'' # HEX (nat (- n)) else HEX (nat n))"

fun NewHandle :: "backend \<Rightarrow> int \<Rightarrow> string" where
  "NewHandle fluxOperatorBackend n = ''minicluster/flux-sample-'' @ int_text n"
| "NewHandle slurmOperatorBackend n = ''slurmjob/'' @ int_text n"
| "NewHandle k8sJobBackend n = ''job/app-'' @ pad5 n"
| "NewHandle fluxURIBackend n = ''fluxjob-f'' @ HEX_int (i64 (n * 7919))"

definition lifecycle :: "emulatorConfig \<Rightarrow> string \<Rightarrow> string \<Rightarrow> string \<Rightarrow> plan" where
  "lifecycle cfg pending running don =
     [\<lparr>ph_At = 0, ph_State = Running, ph_Log = ''[emu] '' @ pending\<rparr>,
      \<lparr>ph_At = ec_Pending cfg, ph_State = Running, ph_Log = ''[emu] '' @ running\<rparr>,
      \<lparr>ph_At = i64 (ec_Pending cfg + ec_Run cfg), ph_State = Completed, ph_Log = ''[emu] '' @ don\<rparr>]"

fun Lifecycle :: "backend \<Rightarrow> emulatorConfig \<Rightarrow> plan" where
  "Lifecycle fluxOperatorBackend c =
     lifecycle c ''MiniCluster created; pods pending'' ''MiniCluster RUNNING'' ''MiniCluster COMPLETED; exit 0''"
| "Lifecycle slurmOperatorBackend c = lifecycle c ''PENDING'' ''RUNNING'' ''COMPLETED''"
| "Lifecycle k8sJobBackend c = lifecycle c ''ContainerCreating'' ''Running'' ''Completed''"
| "Lifecycle fluxURIBackend c = lifecycle c ''SCHED'' ''RUN'' ''INACTIVE (exit 0)''"

text \<open>\<open>None\<close> is acceptance, \<open>Some\<close> the defect.\<close>

fun be_Validate :: "backend \<Rightarrow> content \<Rightarrow> string option" where
  "be_Validate fluxOperatorBackend c =
     (if ct_Kind c \<noteq> ''manifest'' then Some ''flux-operator expects a manifest''
      else if \<not> Contains (ct_Payload c) ''kind: MiniCluster'' then Some ''manifest is not a MiniCluster''
      else if \<not> Contains (ct_Payload c) ''size:'' then Some ''MiniCluster missing spec.size''
      else if \<not> Contains (ct_Payload c) ''image:'' then Some ''MiniCluster missing a container image''
      else None)"
| "be_Validate slurmOperatorBackend c =
     (if ct_Kind c \<noteq> ''manifest'' then Some ''slurm-operator expects a manifest''
      else if \<not> Contains (ct_Payload c) ''kind: SlurmJob'' then Some ''manifest is not a SlurmJob''
      else if \<not> Contains (ct_Payload c) ''nodes:'' \<or> \<not> Contains (ct_Payload c) ''ntasks:''
        then Some ''SlurmJob missing nodes/ntasks''
      else None)"
| "be_Validate k8sJobBackend c =
     (if ct_Kind c \<noteq> ''manifest'' then Some ''k8s-job expects a manifest''
      else if \<not> Contains (ct_Payload c) ''kind: Job'' then Some ''manifest is not a batch/v1 Job''
      else if \<not> Contains (ct_Payload c) ''image:'' then Some ''Job container missing an image''
      else if \<not> Contains (ct_Payload c) ''command:'' then Some ''Job container missing a command''
      else None)"
| "be_Validate fluxURIBackend c =
     (if ct_Kind c \<noteq> ''jobspec'' then Some ''flux-uri expects a jobspec''
      else (case unmarshal_fields (ct_Payload c) of
          None \<Rightarrow> Some ''jobspec is not valid JSON''
        | Some field \<Rightarrow>
            if \<not> field ''resources'' \<or> \<not> field ''tasks'' then Some ''jobspec missing resources/tasks'' else None))"

definition backendFor :: "string \<Rightarrow> backend" where
  "backendFor m = (if m = FluxOperator then fluxOperatorBackend else if m = SlurmOperator then slurmOperatorBackend
     else if m = K8sJob then k8sJobBackend else if m = FluxURI then fluxURIBackend else k8sJobBackend)"

section \<open>The runtime\<close>

record emJob =
  ej_submitted :: int
  ej_plan :: plan
  ej_canceled :: bool

record emulator =
  em_cfg :: emulatorConfig
  em_backend :: backend
  em_jobs :: "string \<rightharpoonup> emJob"
  em_n :: int

definition newEmulator :: "backend \<Rightarrow> emulatorConfig \<Rightarrow> emulator" where
  "newEmulator b cfg = \<lparr>em_cfg = withDefaults cfg, em_backend = b, em_jobs = Map.empty, em_n = 0\<rparr>"

definition rejected :: "string \<Rightarrow> plan" where
  "rejected why = [\<lparr>ph_At = 0, ph_State = Failed, ph_Log = ''[emu] rejected: '' @ why\<rparr>]"

definition plan_for :: "emulator \<Rightarrow> content \<Rightarrow> plan" where
  "plan_for e c =
     (let plan = (if TrimSpace (ct_Payload c) = '''' then rejected ''empty payload from transform''
            else (case be_Validate (em_backend e) c of
                Some defect \<Rightarrow> rejected defect
              | None \<Rightarrow> (case ec_Inject (em_cfg e) of
                  None \<Rightarrow> []
                | Some inject \<Rightarrow> (case inject c of None \<Rightarrow> [] | Some p \<Rightarrow> p))))
      in if plan = [] then Lifecycle (em_backend e) (em_cfg e) else plan)"

definition em_submit :: "int \<Rightarrow> content \<Rightarrow> emulator \<Rightarrow> emulator \<times> string" where
  "em_submit now c e =
     (let n = i64 (em_n e + 1);
          handle = NewHandle (em_backend e) n
      in (e\<lparr>em_n := n, em_jobs := (em_jobs e)(handle \<mapsto>
            \<lparr>ej_submitted = now, ej_plan = plan_for e c, ej_canceled = False\<rparr>)\<rparr>, handle))"

text \<open>The last phase that has begun decides.\<close>

definition reached :: "int \<Rightarrow> plan \<Rightarrow> plan" where
  "reached elapsed p = filter (\<lambda>ph. elapsed \<ge> ph_At ph) p"

definition em_current :: "int \<Rightarrow> string \<Rightarrow> emulator \<Rightarrow> state \<times> string \<times> bool" where
  "em_current now handle e = (case em_jobs e handle of
     None \<Rightarrow> (Failed, ''unknown handle'', False)
   | Some j \<Rightarrow>
       if ej_canceled j then (Failed, ''canceled'', True)
       else (let (st, txt) = foldl (\<lambda>_ p. (ph_State p, ph_Log p)) (Running, ''PENDING'')
                (reached (now - ej_submitted j) (ej_plan j))
             in (st, txt, True)))"

text \<open>The verb \<open>%v\<close> of a duration.\<close>

fun frac_digits :: "nat \<Rightarrow> nat \<Rightarrow> string" where
  "frac_digits 0 v = []"
| "frac_digits (Suc p) v = frac_digits p (v div 10) @ [digit_char (v mod 10)]"

definition fmtFrac :: "nat \<Rightarrow> nat \<Rightarrow> string" where
  "fmtFrac prec v =
     (let ds = rev (dropWhile (\<lambda>c. c = CHR ''0'') (rev (frac_digits prec v)))
      in if ds = [] then [] else CHR ''.'' # ds)"

definition fmt_scaled :: "nat \<Rightarrow> nat \<Rightarrow> string" where
  "fmt_scaled prec v = itoa (v div 10 ^ prec) @ fmtFrac prec v"

definition duration_text :: "int \<Rightarrow> string" where
  "duration_text d =
     (let u = nat \<bar>d\<bar>;
          secs = u div 1000000000;
          body =
            (if u = 0 then ''0s''
             else if u < 1000 then itoa u @ ''ns''
             else if u < 1000000 then fmt_scaled 3 u @ map char_of [194, 181 :: nat] @ ''s''
             else if u < 1000000000 then fmt_scaled 6 u @ ''ms''
             else (let s = itoa (secs mod 60) @ fmtFrac 9 u @ ''s''; mins = secs div 60
                   in if mins = 0 then s
                      else (let ms = itoa (mins mod 60) @ ''m'' @ s; hours = mins div 60
                            in if hours = 0 then ms else itoa hours @ ''h'' @ ms)))
      in if d < 0 then CHR ''-'' # body else body)"

definition em_logs :: "int \<Rightarrow> string \<Rightarrow> emulator \<Rightarrow> string" where
  "em_logs now handle e = (case em_jobs e handle of
     None \<Rightarrow> ''''
   | Some j \<Rightarrow> concat (map (\<lambda>p. duration_text (ph_At p) @ '' '' @ ph_Log p @ [newline])
       (reached (now - ej_submitted j) (ej_plan j))))"

definition em_cancel :: "string \<Rightarrow> emulator \<Rightarrow> emulator" where
  "em_cancel handle e = (case em_jobs e handle of
     None \<Rightarrow> e
   | Some j \<Rightarrow> e\<lparr>em_jobs := (em_jobs e)(handle \<mapsto> j\<lparr>ej_canceled := True\<rparr>)\<rparr>)"

section \<open>The drivers\<close>

record emu_world =
  ew_now :: int
  ew_em :: "backend \<Rightarrow> emulator"

definition EmulatedDriver :: "backend \<Rightarrow> emu_world driver" where
  "EmulatedDriver b =
     \<lparr>dr_Type = be_Manager b, dr_Types = None,
      dr_Submit = (\<lambda>w target c.
        if ct_Kind c \<noteq> WantKind b
        then (w, Inl (be_Manager b @ '' expects a '' @ WantKind b @ '', got '' @ go_quote (ct_Kind c)))
        else (let (e, handle) = em_submit (ew_now w) c (ew_em w b)
              in (w\<lparr>ew_em := (ew_em w)(b := e)\<rparr>, Inr handle))),
      dr_Status = (\<lambda>w target handle.
        let (st, txt, known) = em_current (ew_now w) handle (ew_em w b) in (w, Inr (st, txt))),
      dr_Cancel = (\<lambda>w target handle. (w\<lparr>ew_em := (ew_em w)(b := em_cancel handle (ew_em w b))\<rparr>, None)),
      dr_Logs = (\<lambda>w target handle. Inr (em_logs (ew_now w) handle (ew_em w b)))\<rparr>"

definition NewEmulatedDriver :: "string \<Rightarrow> emu_world driver" where
  "NewEmulatedDriver m = EmulatedDriver (backendFor m)"

definition NewEmulatedRegistry :: "emu_world registry" where
  "NewEmulatedRegistry = NewRegistry
     [NewEmulatedDriver FluxOperator, NewEmulatedDriver SlurmOperator, NewEmulatedDriver K8sJob,
      NewEmulatedDriver FluxURI]"

text \<open>The world as the program starts it: every runtime fresh under one configuration.\<close>

definition emu_start :: "emulatorConfig \<Rightarrow> emu_world" where
  "emu_start cfg = \<lparr>ew_now = 0, ew_em = (\<lambda>b. newEmulator b cfg)\<rparr>"

section \<open>Handles are distinct\<close>

lemma digits_val_zeros: "digits_val (replicate k (CHR ''0'') @ t) = digits_val t"
proof -
  have z: "digit_val (CHR ''0'') = 0" by (simp add: digit_val_def)
  have "foldl (\<lambda>a c. a * 10 + digit_val c) 0 (replicate k (CHR ''0'') @ t) = foldl (\<lambda>a c. a * 10 + digit_val c) 0 t"
    by (induction k) (simp_all add: z)
  then show ?thesis by (simp add: digits_val_def)
qed

lemma pad5_val: "0 \<le> n \<Longrightarrow> int (digits_val (pad5 n)) = n"
  by (simp add: pad5_def digits_val_zeros)

lemma pad5_inj: "0 \<le> m \<Longrightarrow> 0 \<le> n \<Longrightarrow> pad5 m = pad5 n \<Longrightarrow> m = n"
  by (metis pad5_val)

lemma int_text_inj: "0 \<le> m \<Longrightarrow> 0 \<le> n \<Longrightarrow> int_text m = int_text n \<Longrightarrow> m = n"
  by (simp add: int_text_def)

definition HEX_val :: "string \<Rightarrow> nat" where
  "HEX_val s = foldl (\<lambda>a c. a * 16 + (if of_char c < (58 :: nat) then of_char c - 48 else of_char c - 55)) 0 s"

lemma HEX_val_HEX: "HEX_val (HEX n) = n"
proof (induction n rule: HEX.induct)
  case (1 n)
  have c: "d < 16 \<Longrightarrow> (if of_char (HEX_char d) < (58 :: nat) then of_char (HEX_char d) - 48 else of_char (HEX_char d) - 55) = d" for d
    by (auto simp: HEX_char_def of_char_of)
  show ?case
  proof (cases "n < 16")
    case True
    then show ?thesis using c [of n] by (subst HEX.simps) (simp add: HEX_val_def)
  next
    case False
    then have "HEX_val (HEX n) = HEX_val (HEX (n div 16)) * 16 + n mod 16"
      using c [of "n mod 16"] by (subst HEX.simps) (simp add: HEX_val_def)
    then show ?thesis using 1 False by simp
  qed
qed

definition max_seq :: int where
  "max_seq = 2 ^ 63 div 7919"

lemma NewHandle_inj:
  assumes "0 \<le> m" "m < max_seq" "0 \<le> n" "n < max_seq" "NewHandle b m = NewHandle b n"
  shows "m = n"
proof (cases b)
  case fluxURIBackend
  have h: "NewHandle b k = ''fluxjob-f'' @ HEX (nat (k * 7919))" if "0 \<le> k" "k < max_seq" for k
  proof -
    have "i64 (k * 7919) = k * 7919"
      using that by (intro i64_fits) (simp add: fits64_def max_seq_def)
    then show ?thesis using that(1) by (simp add: fluxURIBackend HEX_int_def)
  qed
  have "HEX (nat (m * 7919)) = HEX (nat (n * 7919))"
    using assms(5) unfolding h [OF assms(1,2)] h [OF assms(3,4)] by simp
  then have "nat (m * 7919) = nat (n * 7919)" by (metis HEX_val_HEX)
  then show ?thesis using assms(1,3) by (simp add: nat_eq_iff)
qed (use assms int_text_inj pad5_inj in auto)

text \<open>Every handle a runtime knows was minted by one of its submissions so far.\<close>

definition em_inv :: "emulator \<Rightarrow> bool" where
  "em_inv e \<longleftrightarrow> 0 \<le> em_n e \<and> (\<forall>h \<in> dom (em_jobs e). \<exists>k. 1 \<le> k \<and> k \<le> em_n e \<and> h = NewHandle (em_backend e) k)"

lemma em_inv_new: "em_inv (newEmulator b cfg)"
  by (simp add: em_inv_def newEmulator_def)

lemma seq_next: "0 \<le> n \<Longrightarrow> n + 1 < max_seq \<Longrightarrow> i64 (n + 1) = n + 1"
  by (rule i64_fits) (simp add: fits64_def max_seq_def)

lemma em_submit_simps [simp]:
  "em_n (fst (em_submit now c e)) = i64 (em_n e + 1)" "em_backend (fst (em_submit now c e)) = em_backend e"
  "em_cfg (fst (em_submit now c e)) = em_cfg e" "snd (em_submit now c e) = NewHandle (em_backend e) (i64 (em_n e + 1))"
  "em_jobs (fst (em_submit now c e)) = (em_jobs e)(NewHandle (em_backend e) (i64 (em_n e + 1)) \<mapsto>
     \<lparr>ej_submitted = now, ej_plan = plan_for e c, ej_canceled = False\<rparr>)"
  by (simp_all add: em_submit_def Let_def)

lemma em_submit_fresh:
  assumes "em_inv e" "em_n e + 1 < max_seq"
  shows "em_jobs e (snd (em_submit now c e)) = None"
proof (rule ccontr)
  assume "em_jobs e (snd (em_submit now c e)) \<noteq> None"
  then have "snd (em_submit now c e) \<in> dom (em_jobs e)" by (simp add: domIff)
  then obtain k where k: "1 \<le> k" "k \<le> em_n e" "snd (em_submit now c e) = NewHandle (em_backend e) k"
    using assms(1) unfolding em_inv_def by blast
  have n: "0 \<le> em_n e" using assms(1) by (simp add: em_inv_def)
  have "NewHandle (em_backend e) (em_n e + 1) = NewHandle (em_backend e) k"
    using k(3) seq_next [OF n assms(2)] by simp
  then have "em_n e + 1 = k" using k n assms(2) by (intro NewHandle_inj) auto
  then show False using k(2) by simp
qed

lemma em_inv_submit:
  assumes "em_inv e" "em_n e + 1 < max_seq"
  shows "em_inv (fst (em_submit now c e))"
proof -
  have n: "0 \<le> em_n e" using assms(1) by (simp add: em_inv_def)
  show ?thesis unfolding em_inv_def
  proof (intro conjI ballI)
    fix h assume "h \<in> dom (em_jobs (fst (em_submit now c e)))"
    then have "h = NewHandle (em_backend e) (em_n e + 1) \<or> h \<in> dom (em_jobs e)"
      using seq_next [OF n assms(2)] by (auto split: if_splits)
    then consider "h = NewHandle (em_backend e) (em_n e + 1)"
      | k where "1 \<le> k" "k \<le> em_n e" "h = NewHandle (em_backend e) k"
      using assms(1) unfolding em_inv_def by blast
    then show "\<exists>k. 1 \<le> k \<and> k \<le> em_n (fst (em_submit now c e)) \<and> h = NewHandle (em_backend (fst (em_submit now c e))) k"
    proof cases
      case 1
      then show ?thesis using seq_next [OF n assms(2)] n by (intro exI [of _ "em_n e + 1"]) simp
    next
      case (2 k)
      then show ?thesis using seq_next [OF n assms(2)] by (intro exI [of _ k]) simp
    qed
  qed (use n seq_next [OF n assms(2)] in simp)
qed

lemma em_inv_cancel: "em_inv e \<Longrightarrow> em_inv (em_cancel h e)"
  by (fastforce simp: em_inv_def em_cancel_def split: option.split)

section \<open>The world of the drivers\<close>

text \<open>
  What happens to the emulated world: the clock moves on, a driver of the registry is asked to
  submit or to cancel. Status polls and log reads leave it as it is.
\<close>

inductive emu_step :: "emu_world \<Rightarrow> emu_world \<Rightarrow> bool" where
  clock: "ew_now w \<le> t \<Longrightarrow> emu_step w (w\<lparr>ew_now := t\<rparr>)"
| submit: "reg_For NewEmulatedRegistry m = Inr drv \<Longrightarrow> emu_step w (fst (dr_Submit drv w target c))"
| cancel: "reg_For NewEmulatedRegistry m = Inr drv \<Longrightarrow> emu_step w (fst (dr_Cancel drv w target h))"

inductive emu_reach :: "emulatorConfig \<Rightarrow> emu_world \<Rightarrow> bool" for cfg where
  start: "emu_reach cfg (emu_start cfg)"
| step: "emu_reach cfg w \<Longrightarrow> emu_step w w' \<Longrightarrow> \<forall>b. em_n (ew_em w' b) < max_seq \<Longrightarrow> emu_reach cfg w'"

lemma driver_simps [simp]:
  "dr_Status (EmulatedDriver b) w target h = (w, Inr (fst (em_current (ew_now w) h (ew_em w b)),
     fst (snd (em_current (ew_now w) h (ew_em w b)))))"
  "dr_Cancel (EmulatedDriver b) w target h = (w\<lparr>ew_em := (ew_em w)(b := em_cancel h (ew_em w b))\<rparr>, None)"
  "dr_Submit (EmulatedDriver b) w target c = (if ct_Kind c \<noteq> WantKind b
     then (w, Inl (be_Manager b @ '' expects a '' @ WantKind b @ '', got '' @ go_quote (ct_Kind c)))
     else (w\<lparr>ew_em := (ew_em w)(b := fst (em_submit (ew_now w) c (ew_em w b)))\<rparr>,
       Inr (snd (em_submit (ew_now w) c (ew_em w b)))))"
  by (simp_all add: EmulatedDriver_def case_prod_unfold Let_def)

lemma registry_lookup:
  "reg_For NewEmulatedRegistry m = (if m \<in> set KnownManagers then Inr (EmulatedDriver (backendFor m))
     else Inl (''no dispatch driver registered for manager '' @ go_quote m))"
proof -
  have "NewEmulatedRegistry m = (if m \<in> set KnownManagers then Some (EmulatedDriver (backendFor m)) else None)"
    using managers_distinct unfolding NewEmulatedRegistry_def NewRegistry_def
    by (auto simp: assign_apply serves_def NewEmulatedDriver_def EmulatedDriver_def backendFor_def KnownManagers_def)
  then show ?thesis by (simp add: reg_For_def)
qed

section \<open>Lifecycles\<close>

lemma withDefaults_simps [simp]:
  "ec_Inject (withDefaults cfg) = ec_Inject cfg"
  "ec_Pending (withDefaults cfg) = (if ec_Pending cfg = 0 then 300 * millisecond else ec_Pending cfg)"
  "ec_Run (withDefaults cfg) = (if ec_Run cfg = 0 then 1200 * millisecond else ec_Run cfg)"
  by (simp_all add: withDefaults_def Let_def)

text \<open>A configuration without injection whose times are proper and do not overflow.\<close>

definition plain :: "emulatorConfig \<Rightarrow> bool" where
  "plain cfg \<longleftrightarrow> ec_Inject cfg = None \<and> 0 \<le> ec_Pending cfg \<and> 0 \<le> ec_Run cfg \<and>
     fits64 (ec_Pending (withDefaults cfg) + ec_Run (withDefaults cfg))"

definition total_time :: "emulatorConfig \<Rightarrow> int" where
  "total_time cfg = ec_Pending (withDefaults cfg) + ec_Run (withDefaults cfg)"

lemma lifecycle_labels: "\<exists>p r d. Lifecycle b cfg = lifecycle cfg p r d"
  by (cases b) auto

lemma plan_accepted:
  assumes "ec_Inject (em_cfg e) = None" "TrimSpace (ct_Payload c) \<noteq> ''''" "be_Validate (em_backend e) c = None"
  shows "plan_for e c = Lifecycle (em_backend e) (em_cfg e)"
  using assms by (simp add: plan_for_def Let_def)

lemma plan_cases:
  assumes "ec_Inject (em_cfg e) = None"
  obtains why where "plan_for e c = rejected why"
    "TrimSpace (ct_Payload c) = '''' \<or> be_Validate (em_backend e) c = Some why"
  | "plan_for e c = Lifecycle (em_backend e) (em_cfg e)" "TrimSpace (ct_Payload c) \<noteq> ''''"
    "be_Validate (em_backend e) c = None"
proof (cases "TrimSpace (ct_Payload c) = ''''")
  case True
  then show ?thesis using that(1) by (simp add: plan_for_def rejected_def)
next
  case False
  then show ?thesis using that assms plan_accepted [OF assms False]
    by (cases "be_Validate (em_backend e) c") (auto simp: plan_for_def rejected_def)
qed

text \<open>The state a plan has brought a submission to.\<close>

definition plan_state :: "plan \<Rightarrow> int \<Rightarrow> state" where
  "plan_state p elapsed = foldl (\<lambda>_ ph. ph_State ph) Running (reached elapsed p)"

lemma fold_phase: "fst (foldl (\<lambda>_ p. (ph_State p, ph_Log p)) a ps) = foldl (\<lambda>_ ph. ph_State ph) (fst a) ps"
  by (induction ps arbitrary: a) simp_all

definition job_state :: "int \<Rightarrow> emJob option \<Rightarrow> state" where
  "job_state now j = (case j of None \<Rightarrow> Failed
    | Some j \<Rightarrow> if ej_canceled j then Failed else plan_state (ej_plan j) (now - ej_submitted j))"

lemma job_state_simps [simp]: "job_state now None = Failed"
  "job_state now (Some j) = (if ej_canceled j then Failed else plan_state (ej_plan j) (now - ej_submitted j))"
  by (simp_all add: job_state_def)

lemma em_current_state: "fst (em_current now h e) = job_state now (em_jobs e h)"
  by (simp add: em_current_def plan_state_def fold_phase Let_def case_prod_unfold split: option.split)

lemma plan_state_rejected: "0 \<le> t \<Longrightarrow> plan_state (rejected why) t = Failed"
  by (simp add: plan_state_def reached_def rejected_def)

lemma plan_state_Lifecycle:
  assumes "plain cfg" "0 \<le> t"
  shows "plan_state (Lifecycle b (withDefaults cfg)) t = (if t < total_time cfg then Running else Completed)"
proof -
  obtain p r d where l: "Lifecycle b (withDefaults cfg) = lifecycle (withDefaults cfg) p r d"
    using lifecycle_labels by blast
  have "i64 (total_time cfg) = total_time cfg" using assms(1) by (intro i64_fits) (simp add: plain_def total_time_def)
  moreover have "ec_Pending (withDefaults cfg) \<le> total_time cfg"
    using assms(1) by (auto simp: plain_def total_time_def millisecond_def)
  ultimately show ?thesis
    using assms(2) unfolding l plan_state_def reached_def lifecycle_def total_time_def by auto
qed

text \<open>What holds of every runtime of a reachable world.\<close>

definition emu_inv :: "emulatorConfig \<Rightarrow> emu_world \<Rightarrow> bool" where
  "emu_inv cfg w \<longleftrightarrow> (\<forall>b. em_inv (ew_em w b) \<and> em_n (ew_em w b) < max_seq \<and>
     em_backend (ew_em w b) = b \<and> em_cfg (ew_em w b) = withDefaults cfg \<and>
     (\<forall>h j. em_jobs (ew_em w b) h = Some j \<longrightarrow> ej_submitted j \<le> ew_now w \<and>
        (\<exists>c. ej_plan j = plan_for (newEmulator b cfg) c)))"

lemma newEmulator_simps [simp]:
  "em_backend (newEmulator b cfg) = b" "em_cfg (newEmulator b cfg) = withDefaults cfg"
  by (simp_all add: newEmulator_def)

lemma plan_for_same:
  assumes "em_backend e = b" "em_cfg e = withDefaults cfg"
  shows "plan_for e c = plan_for (newEmulator b cfg) c"
  unfolding plan_for_def newEmulator_simps assms by (rule refl)

lemma emu_inv_job: "emu_inv cfg w \<Longrightarrow> em_jobs (ew_em w b) h = Some j \<Longrightarrow>
    ej_submitted j \<le> ew_now w \<and> (\<exists>c. ej_plan j = plan_for (newEmulator b cfg) c)"
  by (simp add: emu_inv_def)

lemma emu_inv_set:
  assumes "emu_inv cfg w" "em_inv e" "em_n e < max_seq" "em_backend e = b" "em_cfg e = withDefaults cfg"
    and "\<And>h j. em_jobs e h = Some j \<Longrightarrow> ej_submitted j \<le> ew_now w \<and> (\<exists>c. ej_plan j = plan_for (newEmulator b cfg) c)"
  shows "emu_inv cfg (w\<lparr>ew_em := (ew_em w)(b := e)\<rparr>)"
  using assms by (auto simp: emu_inv_def)

lemma emu_inv_step:
  assumes "emu_inv cfg w" "emu_step w w'" "\<forall>b. em_n (ew_em w' b) < max_seq"
  shows "emu_inv cfg w'"
  using assms(2)
proof cases
  case (clock t)
  then show ?thesis using assms(1) by (fastforce simp: emu_inv_def)
next
  case (submit m drv target c)
  let ?b = "backendFor m"
  let ?e = "ew_em w ?b"
  have i: "em_inv ?e" "em_backend ?e = ?b" "em_cfg ?e = withDefaults cfg" using assms(1) by (auto simp: emu_inv_def)
  have drv: "drv = EmulatedDriver ?b" using submit(2) by (simp add: registry_lookup split: if_splits)
  show ?thesis
  proof (cases "ct_Kind c = WantKind ?b")
    case False
    then show ?thesis using submit(1) assms(1) by (simp add: drv)
  next
    case True
    then have w': "w' = w\<lparr>ew_em := (ew_em w)(?b := fst (em_submit (ew_now w) c ?e))\<rparr>"
      using submit(1) by (simp add: drv)
    have n: "0 \<le> em_n ?e" "em_n ?e < max_seq" using assms(1) by (auto simp: emu_inv_def em_inv_def)
    then have "i64 (em_n ?e + 1) = em_n ?e + 1" by (intro i64_fits) (simp add: fits64_def max_seq_def)
    then have lt: "em_n ?e + 1 < max_seq" using assms(3) [rule_format, of ?b] by (simp add: w')
    show ?thesis unfolding w'
    proof (rule emu_inv_set [OF assms(1)])
      fix h j assume "em_jobs (fst (em_submit (ew_now w) c ?e)) h = Some j"
      then consider "j = \<lparr>ej_submitted = ew_now w, ej_plan = plan_for ?e c, ej_canceled = False\<rparr>" | "em_jobs ?e h = Some j"
        by (cases "h = NewHandle (em_backend ?e) (i64 (em_n ?e + 1))") simp_all
      then show "ej_submitted j \<le> ew_now w \<and> (\<exists>c. ej_plan j = plan_for (newEmulator ?b cfg) c)"
      proof cases
        case 1
        then show ?thesis using plan_for_same [OF i(2,3), of c] by (intro conjI exI [of _ c]) simp_all
      next
        case 2
        then show ?thesis by (rule emu_inv_job [OF assms(1)])
      qed
    qed (use em_inv_submit [OF i(1) lt] i lt \<open>i64 (em_n ?e + 1) = em_n ?e + 1\<close> in simp_all)
  qed
next
  case (cancel m drv target h)
  let ?b = "backendFor m"
  let ?e = "ew_em w ?b"
  have i: "em_inv ?e" "em_backend ?e = ?b" "em_cfg ?e = withDefaults cfg" "em_n ?e < max_seq"
    using assms(1) by (auto simp: emu_inv_def)
  have drv: "drv = EmulatedDriver ?b" using cancel(2) by (simp add: registry_lookup split: if_splits)
  have w': "w' = w\<lparr>ew_em := (ew_em w)(?b := em_cancel h ?e)\<rparr>" using cancel(1) by (simp add: drv)
  have same: "em_n (em_cancel h ?e) = em_n ?e" "em_backend (em_cancel h ?e) = ?b" "em_cfg (em_cancel h ?e) = withDefaults cfg"
    using i by (simp_all add: em_cancel_def split: option.split)
  show ?thesis unfolding w'
  proof (rule emu_inv_set [OF assms(1) em_inv_cancel [OF i(1)]])
    fix k j assume "em_jobs (em_cancel h ?e) k = Some j"
    then obtain j0 where "em_jobs ?e k = Some j0" "ej_plan j = ej_plan j0" "ej_submitted j = ej_submitted j0"
      by (auto simp: em_cancel_def split: option.splits if_splits)
    then show "ej_submitted j \<le> ew_now w \<and> (\<exists>c. ej_plan j = plan_for (newEmulator ?b cfg) c)"
      using assms(1) by (fastforce simp: emu_inv_def)
  qed (use same i in simp_all)
qed

lemma emu_inv_reach: "emu_reach cfg w \<Longrightarrow> emu_inv cfg w"
proof (induction rule: emu_reach.induct)
  case start
  have "0 < max_seq" by (simp add: max_seq_def)
  then show ?case by (simp add: emu_inv_def emu_start_def em_inv_new) (simp add: newEmulator_def)
qed (rule emu_inv_step)

lemma known_state:
  assumes "plain cfg" "emu_inv cfg w" "em_jobs (ew_em w b) h = Some j"
  shows "plan_state (ej_plan j) (ew_now w - ej_submitted j) \<in> {Running, Completed, Failed} \<and>
    (\<forall>t \<ge> ew_now w. Terminal (plan_state (ej_plan j) (ew_now w - ej_submitted j)) \<longrightarrow>
       Terminal (plan_state (ej_plan j) (t - ej_submitted j)))"
proof -
  obtain c where c: "ej_plan j = plan_for (newEmulator b cfg) c" "ej_submitted j \<le> ew_now w"
    using assms(2,3) by (fastforce simp: emu_inv_def)
  have inj: "ec_Inject (em_cfg (newEmulator b cfg)) = None" using assms(1) by (simp add: newEmulator_def plain_def)
  show ?thesis
  proof (rule plan_cases [OF inj, of c])
    fix why assume "plan_for (newEmulator b cfg) c = rejected why"
    then show ?thesis using c by (simp add: plan_state_rejected)
  next
    assume "plan_for (newEmulator b cfg) c = Lifecycle (em_backend (newEmulator b cfg)) (em_cfg (newEmulator b cfg))"
    then have "ej_plan j = Lifecycle b (withDefaults cfg)" using c(1) by (simp add: newEmulator_def)
    then show ?thesis using c(2) by (simp add: plan_state_Lifecycle [OF assms(1)] Terminal_def)
  qed
qed

text \<open>
  What becomes of one submission.\<close>

lemma submission_course:
  assumes "emu_reach cfg w" "plain cfg" "em_n (ew_em w b) + 1 < max_seq" "ct_Kind c = WantKind b"
    and "dr_Submit (EmulatedDriver b) w target c = (w1, res)" "ew_now w \<le> t"
  shows "\<exists>h. res = Inr h \<and> em_jobs (ew_em w b) h = None \<and>
    (let st = (\<lambda>w h. fst (em_current (ew_now w) h (ew_em w b)));
         w2 = w1\<lparr>ew_now := t\<rparr>;
         w3 = fst (dr_Cancel (EmulatedDriver b) w2 target h)
     in st w2 h = (if TrimSpace (ct_Payload c) = '''' \<or> be_Validate b c \<noteq> None then Failed
          else if t - ew_now w < total_time cfg then Running else Completed) \<and>
        st w3 h = Failed \<and> (k = h \<or> st w1 k = st w k))"
proof -
  let ?e = "ew_em w b"
  define h where "h = NewHandle b (i64 (em_n ?e + 1))"
  have inv: "emu_inv cfg w" by (rule emu_inv_reach [OF assms(1)])
  then have e: "em_inv ?e" "em_backend ?e = b" "em_cfg ?e = withDefaults cfg" by (auto simp: emu_inv_def)
  have w1: "w1 = w\<lparr>ew_em := (ew_em w)(b := fst (em_submit (ew_now w) c ?e))\<rparr>" "res = Inr h"
    using assms(4,5) e(2) by (auto simp: h_def)
  have fresh: "em_jobs ?e h = None" using em_submit_fresh [OF e(1) assms(3)] e(2) by (simp add: h_def)
  have inj: "ec_Inject (em_cfg ?e) = None" using assms(2) e(3) by (simp add: plain_def)
  have jobs: "em_jobs (ew_em w1 b) = (em_jobs ?e)(h \<mapsto>
      \<lparr>ej_submitted = ew_now w, ej_plan = plan_for ?e c, ej_canceled = False\<rparr>)"
    using e(2) by (simp add: w1 h_def)
  have plan: "plan_state (plan_for ?e c) (t - ew_now w) =
      (if TrimSpace (ct_Payload c) = '''' \<or> be_Validate b c \<noteq> None then Failed
       else if t - ew_now w < total_time cfg then Running else Completed)"
  proof (rule plan_cases [OF inj, of c])
    fix why assume "plan_for ?e c = rejected why" "TrimSpace (ct_Payload c) = '''' \<or> be_Validate (em_backend ?e) c = Some why"
    then show ?thesis using e(2) assms(6) by (auto simp: plan_state_rejected)
  next
    assume "plan_for ?e c = Lifecycle (em_backend ?e) (em_cfg ?e)" "TrimSpace (ct_Payload c) \<noteq> ''''"
      "be_Validate (em_backend ?e) c = None"
    then show ?thesis using e assms(6) by (simp add: plan_state_Lifecycle [OF assms(2)])
  qed
  let ?w2 = "w1\<lparr>ew_now := t\<rparr>"
  let ?w3 = "fst (dr_Cancel (EmulatedDriver b) ?w2 target h)"
  have "fst (em_current (ew_now ?w2) h (ew_em ?w2 b)) =
      (if TrimSpace (ct_Payload c) = '''' \<or> be_Validate b c \<noteq> None then Failed
       else if t - ew_now w < total_time cfg then Running else Completed)"
    unfolding em_current_state plan [symmetric] by (simp add: jobs)
  moreover have "fst (em_current (ew_now ?w3) h (ew_em ?w3 b)) = Failed"
    by (simp add: em_current_state em_cancel_def jobs)
  moreover have "k = h \<or> fst (em_current (ew_now w1) k (ew_em w1 b)) = fst (em_current (ew_now w) k (ew_em w b))"
    unfolding em_current_state jobs by (simp add: w1(1))
  ultimately show ?thesis unfolding Let_def using w1(2) fresh by blast
qed

section \<open>Properties\<close>

text \<open>
  What an emulated cluster does with a submission. In any reachable world the driver of a
  manager type gives an artifact of its kind a handle no submission had before and leaves every
  other handle as it was. From then on the submission is \<open>Failed\<close> if the payload is blank or the
  backend finds a defect, and otherwise \<open>Running\<close> until the pending and running times are over
  and \<open>Completed\<close> from then on; a cancellation makes it \<open>Failed\<close>.
\<close>

theorem emulated_submission:
  assumes "emu_reach cfg w" "plain cfg" "em_n (ew_em w b) + 1 < max_seq" "ct_Kind c = WantKind b"
    and "dr_Submit (EmulatedDriver b) w target c = (w1, res)" "ew_now w \<le> t"
  shows "\<exists>h. res = Inr h \<and> em_jobs (ew_em w b) h = None \<and>
    (let st = (\<lambda>w h. fst (em_current (ew_now w) h (ew_em w b)));
         w2 = w1\<lparr>ew_now := t\<rparr>;
         w3 = fst (dr_Cancel (EmulatedDriver b) w2 target h)
     in st w2 h = (if TrimSpace (ct_Payload c) = '''' \<or> be_Validate b c \<noteq> None then Failed
          else if t - ew_now w < total_time cfg then Running else Completed) \<and>
        st w3 h = Failed \<and> (k = h \<or> st w1 k = st w k))"
  using assms by (rule submission_course)

definition demo_cfg :: emulatorConfig where
  "demo_cfg = \<lparr>ec_Pending = 0, ec_Run = 0, ec_Inject = None\<rparr>"

definition demo_slurm :: content where
  "demo_slurm = \<lparr>ct_Kind = ''manifest'', ct_Payload = ''kind: SlurmJob nodes: 1 ntasks: 1''\<rparr>"

lemma demo_emu: "plain demo_cfg" "total_time demo_cfg = 1500000000" "be_Validate slurmOperatorBackend demo_slurm = None"
    "TrimSpace (ct_Payload demo_slurm) \<noteq> ''''" "ct_Kind demo_slurm = WantKind slurmOperatorBackend"
proof -
  show "plain demo_cfg" "total_time demo_cfg = 1500000000"
    by (simp_all add: plain_def total_time_def demo_cfg_def millisecond_def fits64_def)
  show "be_Validate slurmOperatorBackend demo_slurm = None" "TrimSpace (ct_Payload demo_slurm) \<noteq> ''''" by code_simp+
  show "ct_Kind demo_slurm = WantKind slurmOperatorBackend" by (simp add: demo_slurm_def)
qed

definition demo_emu_world :: emu_world where
  "demo_emu_world = fst (dr_Submit (EmulatedDriver slurmOperatorBackend) (emu_start demo_cfg) (one_node ''c1'' []) demo_slurm)"

lemma demo_start_em [simp]: "ew_em (emu_start cfg) b = newEmulator b cfg" "ew_now (emu_start cfg) = 0"
  "em_n (newEmulator b cfg) = 0"
  by (simp_all add: emu_start_def) (simp add: newEmulator_def)

theorem emulated_submission_witness:
  "\<exists>h. dr_Submit (EmulatedDriver slurmOperatorBackend) (emu_start demo_cfg) (one_node ''c1'' []) demo_slurm =
       (demo_emu_world, Inr h) \<and>
     fst (em_current 1400000000 h (ew_em (demo_emu_world\<lparr>ew_now := 1400000000\<rparr>) slurmOperatorBackend)) = Running \<and>
     fst (em_current 1500000000 h (ew_em (demo_emu_world\<lparr>ew_now := 1500000000\<rparr>) slurmOperatorBackend)) = Completed"
proof -
  let ?b = slurmOperatorBackend
  obtain w1 res where r: "dr_Submit (EmulatedDriver ?b) (emu_start demo_cfg) (one_node ''c1'' []) demo_slurm = (w1, res)"
    by (cases "dr_Submit (EmulatedDriver ?b) (emu_start demo_cfg) (one_node ''c1'' []) demo_slurm")
  then have w1: "demo_emu_world = w1" by (simp add: demo_emu_world_def del: driver_simps)
  have n: "em_n (ew_em (emu_start demo_cfg) ?b) + 1 < max_seq" by (simp add: max_seq_def)
  have t: "ew_now (emu_start demo_cfg) \<le> (1400000000 :: int)" "ew_now (emu_start demo_cfg) \<le> (1500000000 :: int)" by simp_all
  from emulated_submission [OF emu_reach.start demo_emu(1) n demo_emu(5) r t(1), of "''x''"]
    emulated_submission [OF emu_reach.start demo_emu(1) n demo_emu(5) r t(2), of "''x''"]
  show ?thesis unfolding r w1 by (auto simp: Let_def demo_emu simp del: be_Validate.simps)
qed

text \<open>
  What an emulated driver reports, it can be held to. In a reachable world every registered
  driver answers every poll with \<open>Running\<close>, \<open>Completed\<close> or \<open>Failed\<close> and without effect, and
  once a known submission has reached an end, no step of the clock, of another submission or of
  a cancellation takes it back to work.
\<close>

theorem emulated_reports:
  assumes "emu_reach cfg w" "plain cfg" "reg_For NewEmulatedRegistry m = Inr drv"
    and "dr_Status drv w target h = (w1, Inr (st, why))" "emu_step w w2" "\<forall>b. em_n (ew_em w2 b) < max_seq"
    and "em_jobs (ew_em w (backendFor m)) h \<noteq> None" "dr_Status drv w2 target h = (w3, Inr (st2, why2))"
  shows "w1 = w \<and> st \<in> {Running, Completed, Failed} \<and> (Terminal st \<longrightarrow> Terminal st2)"
proof -
  let ?b = "backendFor m"
  obtain j where j: "em_jobs (ew_em w ?b) h = Some j" using assms(7) by blast
  have drv: "drv = EmulatedDriver ?b" using assms(3) by (simp add: registry_lookup split: if_splits)
  have inv: "emu_inv cfg w" by (rule emu_inv_reach [OF assms(1)])
  have k: "plan_state (ej_plan j) (ew_now w - ej_submitted j) \<in> {Running, Completed, Failed}"
    "\<forall>t \<ge> ew_now w. Terminal (plan_state (ej_plan j) (ew_now w - ej_submitted j)) \<longrightarrow>
       Terminal (plan_state (ej_plan j) (t - ej_submitted j))"
    using known_state [OF assms(2) inv j] by blast+
  have st: "w1 = w" "st = fst (em_current (ew_now w) h (ew_em w ?b))" "st2 = fst (em_current (ew_now w2) h (ew_em w2 ?b))"
    using assms(4,8) by (auto simp: drv)
  have "Terminal st \<longrightarrow> Terminal st2"
    using assms(5)
  proof cases
    case (clock t)
    then show ?thesis using k j by (auto simp: st em_current_state Terminal_def)
  next
    case (submit m' drv' target' c)
    let ?b' = "backendFor m'"
    have drv': "drv' = EmulatedDriver ?b'" using submit(2) by (simp add: registry_lookup split: if_splits)
    have e: "em_inv (ew_em w ?b')" "em_backend (ew_em w ?b') = ?b'" "em_n (ew_em w ?b') < max_seq"
      using inv by (auto simp: emu_inv_def)
    have pos: "0 \<le> em_n (ew_em w ?b')" using e(1) by (simp add: em_inv_def)
    show ?thesis
    proof (cases "ct_Kind c = WantKind ?b' \<and> ?b' = ?b")
      case True
      have "i64 (em_n (ew_em w ?b) + 1) = em_n (ew_em w ?b) + 1"
        using e(3) pos True by (intro i64_fits) (simp add: fits64_def max_seq_def)
      then have "em_n (ew_em w ?b) + 1 < max_seq"
        using assms(6) [rule_format, of ?b] submit(1) True by (simp add: drv')
      then have "em_jobs (ew_em w ?b) (NewHandle ?b (i64 (em_n (ew_em w ?b) + 1))) = None"
        using em_submit_fresh [of "ew_em w ?b"] e True by simp
      then have "h \<noteq> NewHandle ?b (i64 (em_n (ew_em w ?b) + 1))" using j by auto
      then show ?thesis using submit(1) True e(2) by (simp add: drv' st em_current_state)
    next
      case False
      then show ?thesis using submit(1) by (auto simp: drv' st em_current_state)
    qed
  next
    case (cancel m' drv' target' h')
    have drv': "drv' = EmulatedDriver (backendFor m')" using cancel(2) by (simp add: registry_lookup split: if_splits)
    show ?thesis using cancel(1) j
      by (auto simp: drv' st em_current_state em_cancel_def Terminal_def split: option.split if_splits)
  qed
  moreover have "st \<in> {Running, Completed, Failed}" using k j by (auto simp: st em_current_state)
  ultimately show ?thesis using st(1) by blast
qed

lemma demo_emu_reach: "emu_reach demo_cfg demo_emu_world"
proof (rule emu_reach.step [OF emu_reach.start])
  have "reg_For NewEmulatedRegistry SlurmOperator = Inr (EmulatedDriver slurmOperatorBackend)"
    using managers_distinct by (simp add: registry_lookup KnownManagers_def backendFor_def)
  from emu_step.submit [OF this, of "emu_start demo_cfg" "one_node ''c1'' []" demo_slurm]
  show "emu_step (emu_start demo_cfg) demo_emu_world" by (simp add: demo_emu_world_def)
  show "\<forall>b. em_n (ew_em demo_emu_world b) < max_seq"
    by (simp add: demo_emu_world_def demo_emu max_seq_def i64_def)
qed

theorem emulated_reports_witness:
  "\<exists>st st2 why why2. dr_Status (EmulatedDriver slurmOperatorBackend) demo_emu_world (one_node ''c1'' []) ''slurmjob/1'' =
       (demo_emu_world, Inr (st, why)) \<and> st \<in> {Running, Completed, Failed} \<and>
     dr_Status (EmulatedDriver slurmOperatorBackend) (demo_emu_world\<lparr>ew_now := 1500000000\<rparr>) (one_node ''c1'' []) ''slurmjob/1'' =
       (demo_emu_world\<lparr>ew_now := 1500000000\<rparr>, Inr (st2, why2))"
proof -
  let ?d = "EmulatedDriver slurmOperatorBackend" and ?w2 = "demo_emu_world\<lparr>ew_now := 1500000000\<rparr>"
  have reg: "reg_For NewEmulatedRegistry SlurmOperator = Inr ?d" and b: "backendFor SlurmOperator = slurmOperatorBackend"
    using managers_distinct by (simp_all add: registry_lookup KnownManagers_def backendFor_def)
  obtain st why where st: "dr_Status ?d demo_emu_world (one_node ''c1'' []) ''slurmjob/1'' = (demo_emu_world, Inr (st, why))" by simp
  obtain st2 why2 where st2: "dr_Status ?d ?w2 (one_node ''c1'' []) ''slurmjob/1'' = (?w2, Inr (st2, why2))" by simp
  have now: "ew_now demo_emu_world = 0" by (simp add: demo_emu_world_def demo_emu)
  have step: "emu_step demo_emu_world ?w2" by (rule emu_step.clock) (simp add: now)
  have n: "\<forall>b. em_n (ew_em ?w2 b) < max_seq"
    by (simp add: demo_emu_world_def demo_emu max_seq_def i64_def)
  have "int_text 1 = ''1''" by code_simp
  then have k: "em_jobs (ew_em demo_emu_world (backendFor SlurmOperator)) ''slurmjob/1'' \<noteq> None"
    by (simp add: demo_emu_world_def demo_emu b i64_def)
  from emulated_reports [OF demo_emu_reach demo_emu(1) reg st step n k st2] st st2 show ?thesis by blast
qed

end
