(* ===== verification/FluxDrivers.thy ===== *)
theory FluxDrivers
  imports Json Ledger
begin

text \<open>
  Package \<open>pkg/cluster\<close>, files \<open>flux_driver.go\<close> and \<open>flux_cgo.go\<close>: the two ways to reach a
  Flux instance. The first runs the \<open>flux\<close> command, the second calls \<open>libflux\<close>. A command run
  and the calls of the library act on the world \<open>'w\<close> and are parameters; what the drivers make
  of their answers is modelled.
\<close>

section \<open>Package strings and strconv\<close>

text \<open>\<open>Fields\<close>: the maximal runs of non-blank characters.\<close>

function Fields :: "string \<Rightarrow> string list" where
  "Fields s = (let t = dropWhile is_space s in
     if t = [] then [] else takeWhile (\<lambda>c. \<not> is_space c) t # Fields (dropWhile (\<lambda>c. \<not> is_space c) t))"
  by auto

lemma length_drop_word:
  assumes "dropWhile is_space s \<noteq> []"
  shows "length (dropWhile (\<lambda>c. \<not> is_space c) (dropWhile is_space s)) < length s"
proof -
  obtain c t where c: "dropWhile is_space s = c # t" using assms by (cases "dropWhile is_space s") auto
  then have "\<not> is_space c" by (metis hd_dropWhile list.sel(1) assms)
  moreover have "length (c # t) \<le> length s" using length_dropWhile_le [of is_space s] c by simp
  ultimately show ?thesis using length_dropWhile_le [of "\<lambda>c. \<not> is_space c" t] by (simp add: c)
qed

termination Fields
  by (relation "measure length") (auto simp: Let_def length_drop_word)

declare Fields.simps [simp del]

text \<open>
  \<open>Atoi\<close> with its error dropped: a text that is no decimal number reads as 0, one out of range
  as the nearest bound.
\<close>

definition clamp64 :: "int \<Rightarrow> int" where
  "clamp64 v = (if v < - (2 ^ 63) then - (2 ^ 63) else if v \<ge> 2 ^ 63 then 2 ^ 63 - 1 else v)"

definition Atoi :: "string \<Rightarrow> int" where
  "Atoi s =
     (let neg = (s \<noteq> [] \<and> hd s = CHR ''-'');
          ds = (if s \<noteq> [] \<and> (hd s = CHR ''-'' \<or> hd s = CHR ''+'') then tl s else s)
      in if ds = [] \<or> \<not> list_all is_digit ds then 0
         else clamp64 (if neg then - int (digits_val ds) else int (digits_val ds)))"

section \<open>The command line driver\<close>

text \<open>What running a command returned: its two outputs, the error of the run and whether the deadline passed.\<close>

record cmd_result =
  cr_out :: string
  cr_errb :: string
  cr_err :: "string option"
  cr_deadline :: bool

type_synonym 'w executor = "'w \<Rightarrow> string list \<Rightarrow> 'w \<times> cmd_result"

definition run_cmd :: "cmd_result \<Rightarrow> string \<times> string option" where
  "run_cmd r = (TrimSpace (cr_out r),
     (case cr_err r of None \<Rightarrow> None
      | Some e \<Rightarrow> Some (let msg = TrimSpace (cr_errb r) in if msg = '''' then e else msg)))"

definition fluxURI_of :: "cluster_graph \<Rightarrow> string" where
  "fluxURI_of target = (if Cfg target ''uri'' \<noteq> ''local'' then Cfg target ''uri'' else '''')"

abbreviation squote :: char where "squote \<equiv> CHR 0x27"

definition shquote :: "string \<Rightarrow> string" where
  "shquote s = [squote] @ concat (map (\<lambda>c. if c = squote then [squote, backslash, squote, squote] else [c]) s) @ [squote]"

definition shellCmd :: "string \<Rightarrow> string \<Rightarrow> string list" where
  "shellCmd uri line =
     [''sh'', ''-c'', if uri \<noteq> '''' then ''flux proxy '' @ shquote uri @ '' '' @ line else line]"

definition fluxCmd :: "string \<Rightarrow> string list \<Rightarrow> string list" where
  "fluxCmd uri args = ''flux'' # (if uri \<noteq> '''' then [''proxy'', uri, ''flux''] @ args else args)"

definition flux_Submit :: "'w executor \<Rightarrow> 'w \<Rightarrow> cluster_graph \<Rightarrow> content \<Rightarrow> 'w \<times> (string + string)" where
  "flux_Submit exec w target c =
     (if ct_Kind c \<noteq> ''command'' then (w, Inl (''flux-uri expects a command, got '' @ go_quote (ct_Kind c)))
      else if \<not> Contains (ct_Payload c) ''flux submit'' then
        (w, Inl (''not a '' @ [squote] @ ''flux submit'' @ [squote] @ '' command: '' @ go_quote (ct_Payload c)))
      else if Contains (ct_Payload c) ''-in.'' then
        (w, Inl ''malformed argument: input flag concatenated with filename (e.g. -in.reaxff)'')
      else (case exec w (shellCmd (fluxURI_of target) (ct_Payload c)) of (w', r) \<Rightarrow>
        (case run_cmd r of
           (_, Some e) \<Rightarrow> (w', Inl (''flux submit: '' @ e))
         | (i, None) \<Rightarrow> if i = '''' then (w', Inl ''flux submit returned no jobid'') else (w', Inr (Fields i ! 0)))))"

text \<open>The event log, line by line; the first fatal or final event ends the reading.\<close>

definition finish_status :: "string list \<Rightarrow> int" where
  "finish_status f = foldl (\<lambda>status kv. if HasPrefix kv ''status='' then Atoi (TrimPrefix kv ''status='') else status) 0 f"

definition finished_as :: "int \<Rightarrow> state \<times> string" where
  "finished_as status =
     (if status = 0 then (Completed, ''finished (exit 0)'')
      else if status div 256 \<noteq> 0 then (Failed, ''exited with code '' @ int_text (status div 256))
      else (Failed, ''terminated by signal '' @ int_text (status mod 128)))"

definition event_outcome :: "string \<Rightarrow> (state \<times> string) option" where
  "event_outcome line =
     (let f = Fields line in
      if length f < 2 then None
      else if f ! 1 = ''exception'' then Some (Failed, ''flux exception: '' @ join '' '' (drop 2 f))
      else if f ! 1 = ''finish'' then Some (finished_as (finish_status (drop 2 f)))
      else None)"

definition starts :: "string \<Rightarrow> bool" where
  "starts line = (let f = Fields line in \<not> length f < 2 \<and> (f ! 1 = ''alloc'' \<or> f ! 1 = ''start''))"

fun eventlog_loop :: "bool \<Rightarrow> string list \<Rightarrow> state \<times> string" where
  "eventlog_loop running [] =
     (if running then (Running, ''running on flux'') else (Running, ''scheduled on flux (awaiting resources)''))"
| "eventlog_loop running (line # lines) =
     (case event_outcome line of
        Some r \<Rightarrow> r
      | None \<Rightarrow> eventlog_loop (running \<or> starts line) lines)"

definition parseEventlog :: "string \<Rightarrow> state \<times> string" where
  "parseEventlog elog = eventlog_loop False (split_lines elog)"

definition flux_Status :: "'w executor \<Rightarrow> 'w \<Rightarrow> cluster_graph \<Rightarrow> string \<Rightarrow> 'w \<times> (string + state \<times> string)" where
  "flux_Status exec w target handle =
     (case exec w (fluxCmd (fluxURI_of target) [''job'', ''eventlog'', handle]) of (w', r) \<Rightarrow>
       (case run_cmd r of
          (_, Some e) \<Rightarrow> (w', Inl (''flux job eventlog '' @ handle @ '': '' @ e))
        | (elog, None) \<Rightarrow> (w', Inr (parseEventlog elog))))"

definition flux_Cancel :: "'w executor \<Rightarrow> 'w \<Rightarrow> cluster_graph \<Rightarrow> string \<Rightarrow> 'w \<times> string option" where
  "flux_Cancel exec w target handle =
     (case exec w (fluxCmd (fluxURI_of target) [''cancel'', handle]) of (w', r) \<Rightarrow>
       (case run_cmd r of
          (_, None) \<Rightarrow> (w', None)
        | (_, Some e) \<Rightarrow> if Contains e ''inactive'' \<or> Contains e ''not found'' then (w', None) else (w', Some e)))"

text \<open>Reading the log runs \<open>flux job attach\<close>, which changes nothing the model keeps.\<close>

definition flux_Logs :: "'w executor \<Rightarrow> 'w \<Rightarrow> cluster_graph \<Rightarrow> string \<Rightarrow> string + string" where
  "flux_Logs exec w target handle =
     (let r = snd (exec w (fluxCmd (fluxURI_of target) [''job'', ''attach'', handle])) in
      case run_cmd r of
        (out, None) \<Rightarrow> Inr out
      | (out, Some e) \<Rightarrow> if cr_deadline r then Inr '''' else if out \<noteq> '''' then Inr out else Inl e)"

definition FluxDriver :: "'w executor \<Rightarrow> 'w driver" where
  "FluxDriver exec = \<lparr>dr_Type = FluxURI, dr_Types = None, dr_Submit = flux_Submit exec,
     dr_Status = flux_Status exec, dr_Cancel = flux_Cancel exec, dr_Logs = flux_Logs exec\<rparr>"

section \<open>The library driver\<close>

text \<open>
  The calls of \<open>libflux\<close>. \<open>None\<close> for the uri opens the ambient broker. The first kind of error
  is a call that yields no future, the second one the future carries. \<open>lf_result\<close> is \<open>None\<close> when
  the result cannot be read; the wait status may be absent.
\<close>

record 'w libflux =
  lf_open :: "'w \<Rightarrow> string option \<Rightarrow> string option"
  lf_submit :: "'w \<Rightarrow> string option \<Rightarrow> string \<Rightarrow> 'w \<times> (string + string + nat)"
  lf_state :: "'w \<Rightarrow> string option \<Rightarrow> nat \<Rightarrow> 'w \<times> (string + string + int)"
  lf_result :: "'w \<Rightarrow> string option \<Rightarrow> nat \<Rightarrow> (int \<times> int option) option"
  lf_cancel :: "'w \<Rightarrow> string option \<Rightarrow> nat \<Rightarrow> 'w \<times> (string + string option)"
  lf_encode :: "nat \<Rightarrow> string option"
  lf_parse :: "string \<Rightarrow> nat option"
  lf_exitcode :: "int \<Rightarrow> int"

definition curi_of :: "cluster_graph \<Rightarrow> string option" where
  "curi_of target = (let uri = Cfg target ''uri'' in if uri \<noteq> '''' \<and> uri \<noteq> ''local'' then Some uri else None)"

definition cgo_open :: "'w libflux \<Rightarrow> 'w \<Rightarrow> cluster_graph \<Rightarrow> string option" where
  "cgo_open L w target = (case lf_open L w (curi_of target) of
     None \<Rightarrow> None
   | Some e \<Rightarrow> Some (''flux_open('' @ go_quote (Cfg target ''uri'') @ ''): '' @ e))"

definition encodeJobid :: "'w libflux \<Rightarrow> nat \<Rightarrow> string" where
  "encodeJobid L i = (case lf_encode L i of Some s \<Rightarrow> s | None \<Rightarrow> itoa i)"

definition decodeJobid :: "'w libflux \<Rightarrow> string \<Rightarrow> string + nat" where
  "decodeJobid L handle = (case lf_parse L handle of
     None \<Rightarrow> Inl (''not a flux jobid: '' @ go_quote handle) | Some i \<Rightarrow> Inr i)"

definition cgo_Submit :: "'w libflux \<Rightarrow> 'w \<Rightarrow> cluster_graph \<Rightarrow> content \<Rightarrow> 'w \<times> (string + string)" where
  "cgo_Submit L w target c =
     (if ct_Kind c \<noteq> ''jobspec'' then (w, Inl (''flux expects a jobspec, got '' @ go_quote (ct_Kind c)))
      else (case cgo_open L w target of
          Some e \<Rightarrow> (w, Inl e)
        | None \<Rightarrow> (case lf_submit L w (curi_of target) (ct_Payload c) of
            (w', Inl e) \<Rightarrow> (w', Inl (''flux_job_submit: '' @ e))
          | (w', Inr (Inl e)) \<Rightarrow> (w', Inl (''submit rejected: '' @ e))
          | (w', Inr (Inr i)) \<Rightarrow> (w', Inr (encodeJobid L i)))))"

definition fluxStateRun :: int where "fluxStateRun = 16"
definition fluxStateCleanup :: int where "fluxStateCleanup = 32"
definition fluxResultCompleted :: int where "fluxResultCompleted = 1"
definition fluxResultFailed :: int where "fluxResultFailed = 2"
definition fluxResultCanceled :: int where "fluxResultCanceled = 4"
definition fluxResultTimeout :: int where "fluxResultTimeout = 8"

definition result_state :: "'w libflux \<Rightarrow> (int \<times> int option) option \<Rightarrow> state \<times> string" where
  "result_state L r = (case r of
     None \<Rightarrow> (Completed, ''inactive'')
   | Some (result, ws) \<Rightarrow>
       if result = fluxResultCompleted then (Completed, ''finished (exit 0)'')
       else if result = fluxResultFailed then
         (case ws of
            Some s \<Rightarrow> if lf_exitcode L s \<noteq> 0 then (Failed, ''exited with code '' @ int_text (lf_exitcode L s))
                      else (Failed, ''failed (did not start)'')
          | None \<Rightarrow> (Failed, ''failed (did not start)''))
       else if result = fluxResultCanceled then (Failed, ''canceled'')
       else if result = fluxResultTimeout then (Failed, ''timeout'')
       else (Completed, ''inactive''))"

definition cgo_Status :: "'w libflux \<Rightarrow> 'w \<Rightarrow> cluster_graph \<Rightarrow> string \<Rightarrow> 'w \<times> (string + state \<times> string)" where
  "cgo_Status L w target handle = (case decodeJobid L handle of
     Inl e \<Rightarrow> (w, Inl e)
   | Inr i \<Rightarrow>
       (case cgo_open L w target of
          Some e \<Rightarrow> (w, Inl e)
        | None \<Rightarrow> (case lf_state L w (curi_of target) i of
            (w', Inl e) \<Rightarrow> (w', Inl (''flux_job_list_id: '' @ e))
          | (w', Inr (Inl e)) \<Rightarrow> (w', Inl (''read state: '' @ e))
          | (w', Inr (Inr state)) \<Rightarrow>
              if state < fluxStateRun then (w', Inr (Running, ''queued''))
              else if state = fluxStateRun then (w', Inr (Running, ''running''))
              else if state = fluxStateCleanup then (w', Inr (Running, ''cleanup''))
              else (w', Inr (result_state L (lf_result L w' (curi_of target) i))))))"

definition cgo_Cancel :: "'w libflux \<Rightarrow> 'w \<Rightarrow> cluster_graph \<Rightarrow> string \<Rightarrow> 'w \<times> string option" where
  "cgo_Cancel L w target handle = (case decodeJobid L handle of
     Inl e \<Rightarrow> (w, Some e)
   | Inr i \<Rightarrow>
       (case cgo_open L w target of
          Some e \<Rightarrow> (w, Some e)
        | None \<Rightarrow> (case lf_cancel L w (curi_of target) i of
            (w', Inl e) \<Rightarrow> (w', Some (''flux_job_cancel: '' @ e))
          | (w', Inr (Some e)) \<Rightarrow> (w', Some (''cancel failed: '' @ e))
          | (w', Inr None) \<Rightarrow> (w', None))))"

definition FluxCGODriver :: "'w libflux \<Rightarrow> 'w driver" where
  "FluxCGODriver L = \<lparr>dr_Type = FluxURI, dr_Types = None, dr_Submit = cgo_Submit L, dr_Status = cgo_Status L,
     dr_Cancel = cgo_Cancel L, dr_Logs = (\<lambda>w target handle. Inr '''')\<rparr>"

section \<open>The event log\<close>

lemma eventlog_reference: "eventlog_loop r lines =
    (case List.find (\<lambda>l. event_outcome l \<noteq> None) lines of
       Some l \<Rightarrow> the (event_outcome l)
     | None \<Rightarrow> (Running, if r \<or> list_ex starts lines then ''running on flux''
         else ''scheduled on flux (awaiting resources)''))"
  by (induction lines arbitrary: r) (auto split: option.split)

lemma event_outcome_terminal: "event_outcome l = Some r \<Longrightarrow> Terminal (fst r)"
  by (auto simp: event_outcome_def finished_as_def Terminal_def Let_def split: if_splits)

lemma find_append: "List.find P (xs @ ys) = (case List.find P xs of Some x \<Rightarrow> Some x | None \<Rightarrow> List.find P ys)"
  by (induction xs) auto

lemma find_outcome_terminal:
  "List.find (\<lambda>l. event_outcome l \<noteq> None) ls = Some l \<Longrightarrow> \<exists>r. event_outcome l = Some r \<and> Terminal (fst r)"
  using event_outcome_terminal by (fastforce simp: find_Some_iff)

section \<open>Quoting for the shell\<close>

text \<open>
  What the shell reads a word as: between single quotes every character stands for itself, outside
  a backslash quotes the next one. \<open>None\<close> if a quote is left open or an unquoted blank or special
  character would end the word.
\<close>

definition plain_char :: "char \<Rightarrow> bool" where
  "plain_char c \<longleftrightarrow> c \<notin> set '' \"$`&|;<>()*?[]{}#~!'' \<and> c \<noteq> squote \<and> c \<noteq> backslash \<and> \<not> is_space c"

fun sh_read :: "bool \<Rightarrow> string \<Rightarrow> string option" where
  "sh_read quoted [] = (if quoted then None else Some [])"
| "sh_read True (c # cs) = (if c = squote then sh_read False cs else map_option ((#) c) (sh_read True cs))"
| "sh_read False (c # cs) =
     (if c = squote then sh_read True cs
      else if c = backslash then (case cs of [] \<Rightarrow> None | d # ds \<Rightarrow> map_option ((#) d) (sh_read False ds))
      else if plain_char c then map_option ((#) c) (sh_read False cs) else None)"

lemma sh_read_quoted:
  "sh_read True (concat (map (\<lambda>c. if c = squote then [squote, backslash, squote, squote] else [c]) s) @ squote # t) =
     map_option ((@) s) (sh_read False t)"
  by (induction s) (auto simp: option.map_comp comp_def option.map_ident)

lemma sh_read_shquote: "sh_read False (shquote s @ t) = map_option ((@) s) (sh_read False t)"
  using sh_read_quoted by (simp add: shquote_def)

lemma Fields_nonempty: "s \<noteq> '''' \<Longrightarrow> TrimSpace s = s \<Longrightarrow> Fields s \<noteq> []"
proof -
  assume s: "s \<noteq> ''''" "TrimSpace s = s"
  have "dropWhile is_space s \<noteq> []"
  proof
    assume "dropWhile is_space s = []"
    then have "TrimSpace s = []" by (simp only: TrimSpace_def rev.simps dropWhile.simps)
    then show False using s by simp
  qed
  then show ?thesis by (subst Fields.simps) (simp add: Let_def)
qed

section \<open>Reports\<close>

lemma finished_as_state: "fst (finished_as n) \<noteq> Submitted"
  by (simp add: finished_as_def)

lemma parseEventlog_state: "fst (parseEventlog elog) \<noteq> Submitted"
proof (cases "List.find (\<lambda>l. event_outcome l \<noteq> None) (split_lines elog)")
  case None
  then show ?thesis by (simp add: parseEventlog_def eventlog_reference)
next
  case (Some l)
  then show ?thesis using find_outcome_terminal [OF Some] by (auto simp: parseEventlog_def eventlog_reference Terminal_def)
qed

lemma cgo_reports: "dr_Status (FluxCGODriver L) w target h = (w', Inr (st, why)) \<Longrightarrow> st \<noteq> Submitted"
  by (auto simp: FluxCGODriver_def cgo_Status_def result_state_def split: sum.splits option.splits prod.splits if_splits)

lemma flux_reports: "dr_Status (FluxDriver exec) w target h = (w', Inr (st, why)) \<Longrightarrow> st \<noteq> Submitted"
  using parseEventlog_state by (auto simp: FluxDriver_def flux_Status_def split: prod.splits option.splits) (metis fst_conv)

section \<open>Properties\<close>

text \<open>
  The reading of an event log is final. The state is that of the first exception or finish
  event, and running or awaiting otherwise; so once a log gives an end, no line appended to it
  changes the answer, and a job is \<open>Completed\<close> only if it has a finish event of status zero.
\<close>

theorem parseEventlog_final:
  "(if Terminal (fst (parseEventlog elog)) then parseEventlog (elog @ newline # rest) = parseEventlog elog
    else fst (parseEventlog elog) = Running \<and>
      list_all (\<lambda>l. event_outcome l = None) (split_lines elog) \<and>
      parseEventlog (elog @ newline # rest) = eventlog_loop (list_ex starts (split_lines elog)) (split_lines rest)) \<and>
   (if fst (parseEventlog elog) = Completed
    then list_ex (\<lambda>l. event_outcome l = Some (finished_as 0) \<and> Fields l ! 1 = ''finish'') (split_lines elog) else True)"
proof (cases "List.find (\<lambda>l. event_outcome l \<noteq> None) (split_lines elog)")
  case None
  then have "\<forall>l \<in> set (split_lines elog). event_outcome l = None" unfolding find_None_iff by blast
  then show ?thesis using None
    by (simp add: parseEventlog_def eventlog_reference split_lines_append find_append Terminal_def list_all_iff)
next
  case (Some l)
  then obtain r where r: "event_outcome l = Some r" "Terminal (fst r)" using find_outcome_terminal by blast
  have l: "l \<in> set (split_lines elog)" using Some by (auto simp: find_Some_iff)
  have p: "parseEventlog elog = r" "parseEventlog (elog @ newline # rest) = r"
    using Some r(1) by (simp_all add: parseEventlog_def eventlog_reference split_lines_append find_append)
  have "fst r = Completed \<Longrightarrow> event_outcome l = Some (finished_as 0) \<and> Fields l ! 1 = ''finish''"
    using r(1) by (auto simp: event_outcome_def finished_as_def Let_def split: if_splits)
  then show ?thesis using p r l by (auto simp: list_ex_iff)
qed

text \<open>
  The uri of a cluster cannot break out of the command line. A proxied submission hands the
  shell one word for the uri, which it reads back as the uri itself, whatever characters that
  holds, and nothing of what follows the word is taken into the quotes.
\<close>

theorem shellCmd_uri:
  "if uri = '''' then shellCmd uri line = [''sh'', ''-c'', line]
   else \<exists>w. shellCmd uri line = [''sh'', ''-c'', ''flux proxy '' @ w @ '' '' @ line] \<and>
     (\<forall>t. sh_read False (w @ t) = map_option ((@) uri) (sh_read False t))"
proof (cases "uri = ''''")
  case False
  then show ?thesis by (simp add: shellCmd_def) (metis sh_read_shquote)
qed (simp add: shellCmd_def)

end
