(* ===== verification/Discovery.thy ===== *)
theory Discovery
  imports Vocabulary Ledger
begin

text \<open>
  Package \<open>pkg/cluster\<close>, file \<open>discover.go\<close>, and \<open>DiscoverCluster\<close> of
  \<open>pkg/manager/manager.go\<close>: from the facts read off the nodes of a cluster to its containment
  graph and its descriptive subsystems, and their registration. Reading the facts is the
  optional capability \<open>Discoverer\<close> of a driver, a parameter here.
\<close>

section \<open>Facts and what is built from them\<close>

record nodeFacts =
  nf_Arch :: string
  nf_GPUVendor :: string
  nf_Network :: string
  nf_MemoryGB :: int
  nf_Cores :: int
  nf_GPUs :: int

definition add_category ::
  "string \<Rightarrow> (nodeFacts \<Rightarrow> string) \<Rightarrow> nodeFacts list \<Rightarrow> (string \<times> jgf) list \<Rightarrow> (string \<times> jgf) list" where
  "add_category sub pick nodes subsystems =
     (case remdups (filter (\<lambda>v. v \<noteq> '''') (map pick nodes)) of
        [v] \<Rightarrow> AList.update sub (SingletonSubsystem sub v) subsystems
      | _ \<Rightarrow> subsystems)"

definition smallest_memory :: "nodeFacts list \<Rightarrow> int" where
  "smallest_memory nodes = foldl (\<lambda>minMem n.
     if nf_MemoryGB n > 0 \<and> (minMem = 0 \<or> nf_MemoryGB n < minMem) then nf_MemoryGB n else minMem) 0 nodes"

definition SubsystemsFromFacts :: "nodeFacts list \<Rightarrow> string + (string \<times> jgf) list \<times> int list" where
  "SubsystemsFromFacts nodes =
     (if nodes = [] then Inl ''no nodes discovered''
      else
        (let subsystems = add_category ''network'' nf_Network nodes
               (add_category ''gpu'' nf_GPUVendor nodes
                 (add_category ''architecture'' nf_Arch nodes []));
             minMem = smallest_memory nodes;
             b = StandardRangeFor minMem
         in Inr ((if minMem > 0 \<and> b \<noteq> '''' then AList.update ''memory'' (SingletonSubsystem ''memory'' b) subsystems
                  else subsystems),
                 map nf_MemoryGB nodes)))"

type_synonym shape_key = "int \<times> int \<times> int"

definition key_of :: "nodeFacts \<Rightarrow> shape_key" where
  "key_of n = (nf_Cores n, nf_GPUs n, nf_MemoryGB n)"

text \<open>\<open>order\<close> and \<open>count\<close> of the code as one association list in order of appearance.\<close>

definition shape_tally :: "nodeFacts list \<Rightarrow> (shape_key \<times> int) list" where
  "shape_tally nodes = foldl (\<lambda>count n. AList.update (key_of n)
     (i64 ((case map_of count (key_of n) of None \<Rightarrow> 0 | Some c \<Rightarrow> c) + 1)) count) [] nodes"

definition group_of :: "shape_key \<times> int \<Rightarrow> nodeSpec" where
  "group_of kc = (case kc of ((cores, gpus, mem), n) \<Rightarrow>
     \<lparr>ns_count = n, ns_cores = cores, ns_gpus = gpus, ns_mem = mem\<rparr>)"

definition ContainmentFromFacts :: "string \<Rightarrow> string \<Rightarrow> string \<Rightarrow> nodeFacts list \<Rightarrow> jgf" where
  "ContainmentFromFacts clusterID m handle nodes =
     BuildContainment clusterID m handle (map group_of (shape_tally nodes)) []"

section \<open>Registration of a discovery\<close>

type_synonym 'w discoverers = "'w driver \<Rightarrow> (cluster_graph \<Rightarrow> string + nodeFacts list) option"

fun register_all ::
  "('m, 'w) env \<Rightarrow> string \<Rightarrow> (string \<times> jgf) list \<Rightarrow> string list \<Rightarrow> ('m, 'w) mgr \<Rightarrow>
   ('m, 'w) mgr \<times> string list \<times> string option" where
  "register_all e clusterID [] names s = (s, sort names, None)"
| "register_all e clusterID ((name, g) # subs) names s =
     (case RegisterSubsystem e clusterID name g True s of
        (s', Some err) \<Rightarrow> (s', names, Some err)
      | (s', None) \<Rightarrow> register_all e clusterID subs (names @ [name]) s')"

definition DiscoverCluster ::
  "('m, 'w) env \<Rightarrow> 'w discoverers \<Rightarrow> string \<Rightarrow> ('m, 'w) mgr \<Rightarrow> ('m, 'w) mgr \<times> string list \<times> string option" where
  "DiscoverCluster e disc clusterID s =
     (case fl_Get (mg_Fleet s) clusterID of
        None \<Rightarrow> (s, [], Some (not_registered clusterID))
      | Some cg \<Rightarrow>
          (case driverFor e cg of
             Inl err \<Rightarrow> (s, [], Some err)
           | Inr drv \<Rightarrow>
               (case disc drv of
                  None \<Rightarrow> (s, [], Some (''manager '' @ go_quote (cg_Manager cg) @ '' does not support discovery''))
                | Some dsc \<Rightarrow>
                    (case dsc cg of
                       Inl err \<Rightarrow> (s, [], Some err)
                     | Inr facts \<Rightarrow>
                         (let cont = ContainmentFromFacts clusterID (cg_Manager cg) (cg_Handle cg) facts in
                          case RegisterSubsystem e clusterID ContainmentSubsystem cont
                                 (IsDescriptive cg ContainmentSubsystem) s of
                            (s', Some err) \<Rightarrow> (s', [], Some (''register containment: '' @ err))
                          | (s', None) \<Rightarrow>
                              (case SubsystemsFromFacts facts of
                                 Inl err \<Rightarrow> (s', [], Some err)
                               | Inr (subs, _) \<Rightarrow>
                                   register_all e clusterID subs [ContainmentSubsystem] s'))))))"

section \<open>Vertices of a built graph by type\<close>

text \<open>The sizes of the vertices of one type, added up the way the matchers count them.\<close>

definition total_size :: "string \<Rightarrow> vertex list \<Rightarrow> nat" where
  "total_size t vs = sum_list (map (\<lambda>v. if v_type v = t then nat (vsize v) else 0) vs)"

lemma size_add_under [simp]:
  "total_size t (nodes_of (snd (add_under p m b))) =
     total_size t (nodes_of b) + (if vm_type m = t then nat (if vm_size m \<le> 0 then 1 else vm_size m) else 0)"
  by (simp add: total_size_def nodes_of_add_under vsize_def)

lemma meta_facts [simp]: "vm_type (meta t base name i path) = t" "vm_size (meta t base name i path) = 1"
  by (simp_all add: meta_def)

lemma size_fold:
  assumes "\<And>x b. total_size t (nodes_of (f x b)) = total_size t (nodes_of b) + g x"
  shows "total_size t (nodes_of (fold f xs b)) = total_size t (nodes_of b) + sum_list (map g xs)"
  by (induction xs arbitrary: b) (simp_all add: assms)

lemma size_cores [simp]: "total_size t (nodes_of (fold (add_core path i) [0..<n] b)) =
    total_size t (nodes_of b) + (if t = ''core'' then n else 0)"
  by (subst size_fold [where g = "\<lambda>_. if t = ''core'' then 1 else 0"])
    (auto simp: add_core_def sum_list_triv vsize_def)

lemma size_gpus [simp]: "total_size t (nodes_of (fold (add_gpu path i) [0..<n] b)) =
    total_size t (nodes_of b) + (if t = ''gpu'' then n else 0)"
  by (subst size_fold [where g = "\<lambda>_. if t = ''gpu'' then 1 else 0"])
    (auto simp: add_gpu_def sum_list_triv vsize_def)

text \<open>What one node of a group brings of a type: nodes, sockets, cores, gpus, gigabytes.\<close>

definition per_node :: "string \<Rightarrow> shape_key \<Rightarrow> nat" where
  "per_node t k = (case k of (cores, gpus, mem) \<Rightarrow>
     if t = ''node'' \<or> t = ''socket'' then 1 else if t = ''core'' then nat cores
     else if t = ''gpu'' then nat gpus else if t = ''memory'' then nat mem else 0)"

definition spec_key :: "nodeSpec \<Rightarrow> shape_key" where
  "spec_key grp = (ns_cores grp, ns_gpus grp, ns_mem grp)"

lemma size_node: "total_size t (nodes_of (add_node rp ri caps grp b)) =
    total_size t (nodes_of b) + per_node t (spec_key grp)"
  by (auto simp: add_node_def Let_def case_prod_unfold per_node_def spec_key_def vsize_def)

lemma size_group: "total_size t (nodes_of (add_group rp ri caps grp b)) =
    total_size t (nodes_of b) + nat (ns_count grp) * per_node t (spec_key grp)"
  unfolding add_group_def by (subst size_fold [OF size_node]) (simp add: sum_list_triv)

lemma size_Build:
  "total_size t (g_nodes (BuildContainment c m h groups caps)) =
     (if t = ''cluster'' \<or> t = ''rack'' then 1 else 0) +
     sum_list (map (\<lambda>grp. nat (ns_count grp) * per_node t (spec_key grp)) groups)"
proof -
  have "total_size t (nodes_of (snd (b_add m new_builder))) =
      (if vm_type m = t then nat (if vm_size m \<le> 0 then 1 else vm_size m) else 0)" for m
    by (simp add: total_size_def new_builder_def b_add_def Let_def vsize_def)
  then show ?thesis
    unfolding BuildContainment_def Let_def case_prod_unfold by (auto simp: size_fold [OF size_group])
qed

lemma size_one_type: "\<forall>v \<in> set vs. v_type v = t \<longrightarrow> vsize v = 1 \<Longrightarrow>
    total_size t vs = length (filter (\<lambda>v. v_type v = t) vs)"
  by (induction vs) (auto simp: total_size_def)

section \<open>The tally\<close>

lemma sum_update:
  fixes f :: "'k \<Rightarrow> nat"
  shows "wf_map m \<Longrightarrow> sum_list (map (\<lambda>(k, n). nat n * f k) (AList.update k v m)) +
      (case map_of m k of None \<Rightarrow> 0 | Some c \<Rightarrow> nat c * f k) =
    sum_list (map (\<lambda>(k, n). nat n * f k) m) + nat v * f k"
  by (induction m) (auto simp: wf_map_def map_of_eq_None_iff split: option.splits)

lemma shape_tally_snoc: "shape_tally (ns @ [n]) = AList.update (key_of n)
    (i64 ((case map_of (shape_tally ns) (key_of n) of None \<Rightarrow> 0 | Some c \<Rightarrow> c) + 1)) (shape_tally ns)"
  by (simp add: shape_tally_def)

lemma wf_shape_tally [simp]: "wf_map (shape_tally ns)"
  by (induction ns rule: rev_induct) (simp_all add: shape_tally_snoc shape_tally_def)

lemma shape_tally_counts:
  "int (length ns) < 2 ^ 63 \<Longrightarrow> map_of (shape_tally ns) k =
     (if k \<in> key_of ` set ns then Some (int (count_list (map key_of ns) k)) else None)"
proof (induction ns rule: rev_induct)
  case (snoc n ns)
  have le: "count_list (map key_of ns) (key_of n) \<le> length ns"
    by (metis count_le_length length_map)
  then have "fits64 (int (count_list (map key_of ns) (key_of n)) + 1)"
    using snoc.prems by (intro fits64_small) auto
  moreover have "key_of n \<notin> key_of ` set ns \<Longrightarrow> count_list (map key_of ns) (key_of n) = 0"
    by (simp add: count_list_0_iff)
  ultimately show ?case using snoc by (auto simp: shape_tally_snoc i64_fits)
qed (simp add: shape_tally_def)

lemma shape_tally_sum:
  assumes "int (length ns) < 2 ^ 63"
  shows "sum_list (map (\<lambda>(k, n). nat n * f k) (shape_tally ns)) = sum_list (map (\<lambda>n. f (key_of n)) ns)"
  using assms
proof (induction ns rule: rev_induct)
  case (snoc n ns)
  let ?c = "case map_of (shape_tally ns) (key_of n) of None \<Rightarrow> 0 | Some c \<Rightarrow> c"
  have le: "count_list (map key_of ns) (key_of n) \<le> length ns"
    by (metis count_le_length length_map)
  have c: "0 \<le> ?c" "?c + 1 < 2 ^ 63"
    using shape_tally_counts [of ns "key_of n"] snoc.prems le by (auto split: if_splits)
  then have "i64 (?c + 1) = ?c + 1" by (intro i64_fits fits64_small) auto
  then have "sum_list (map (\<lambda>(k, n). nat n * f k) (shape_tally (ns @ [n]))) +
      (case map_of (shape_tally ns) (key_of n) of None \<Rightarrow> 0 | Some c \<Rightarrow> nat c * f (key_of n)) =
    sum_list (map (\<lambda>(k, n). nat n * f k) (shape_tally ns)) + nat (?c + 1) * f (key_of n)"
    using sum_update [OF wf_shape_tally, where f = f and k = "key_of n" and v = "?c + 1" and ns1 = ns] by (simp add: shape_tally_snoc)
  moreover have "nat (?c + 1) * f (key_of n) =
      (case map_of (shape_tally ns) (key_of n) of None \<Rightarrow> 0 | Some c \<Rightarrow> nat c * f (key_of n)) + f (key_of n)"
    using c(1) by (auto simp: nat_add_distrib split: option.splits)
  ultimately show ?case using snoc by simp
qed (simp add: shape_tally_def)

lemma size_Containment:
  assumes "int (length ns) < 2 ^ 63" "t \<noteq> ''cluster''" "t \<noteq> ''rack''"
  shows "total_size t (g_nodes (ContainmentFromFacts c m h ns)) = sum_list (map (\<lambda>n. per_node t (key_of n)) ns)"
proof -
  have "(\<lambda>grp. nat (ns_count grp) * per_node t (spec_key grp)) \<circ> group_of = (\<lambda>(k, n). nat n * per_node t k)"
    by (simp add: fun_eq_iff group_of_def spec_key_def case_prod_unfold)
  then show ?thesis
    using assms(2,3) shape_tally_sum [OF assms(1), of "per_node t"] unfolding ContainmentFromFacts_def size_Build by simp
qed

section \<open>Categories\<close>

lemma remdups_single: "remdups xs = [v] \<longleftrightarrow> set xs = {v}"
proof
  assume "set xs = {v}"
  then have "length (remdups xs) = 1" by (simp add: length_remdups_card_conv)
  then obtain u where "remdups xs = [u]" by (cases "remdups xs") auto
  then show "remdups xs = [v]" using \<open>set xs = {v}\<close> by (metis set_remdups list.simps(15) list.set(1) singleton_inject)
next
  assume "remdups xs = [v]"
  then show "set xs = {v}" by (metis set_remdups list.simps(15) list.set(1))
qed

definition uniform :: "(nodeFacts \<Rightarrow> string) \<Rightarrow> nodeFacts list \<Rightarrow> string \<Rightarrow> bool" where
  "uniform pick ns v \<longleftrightarrow> v \<noteq> '''' \<and> list_ex (\<lambda>n. pick n = v) ns \<and> list_all (\<lambda>n. pick n = v \<or> pick n = '''') ns"

lemma uniform_single: "remdups (filter (\<lambda>v. v \<noteq> '''') (map pick ns)) = [v] \<longleftrightarrow> uniform pick ns v"
proof -
  have "set (filter (\<lambda>v. v \<noteq> '''') (map pick ns)) = {v} \<longleftrightarrow>
      (\<exists>n \<in> set ns. pick n = v \<and> v \<noteq> '''') \<and> (\<forall>n \<in> set ns. pick n \<noteq> '''' \<longrightarrow> pick n = v)"
    unfolding set_eq_iff by (simp add: image_iff) metis
  then show ?thesis unfolding remdups_single by (auto simp: uniform_def list_ex_iff list_all_iff)
qed

lemma add_category_cases:
  obtains v where "uniform pick ns v" "add_category sub pick ns m = AList.update sub (SingletonSubsystem sub v) m"
  | "\<nexists>v. uniform pick ns v" "add_category sub pick ns m = m"
proof (cases "\<exists>v. uniform pick ns v")
  case True
  then obtain v where v: "uniform pick ns v" by blast
  then have "remdups (filter (\<lambda>v. v \<noteq> '''') (map pick ns)) = [v]" by (simp add: uniform_single)
  then show ?thesis using v that(1) by (simp add: add_category_def)
next
  case False
  then have "remdups (filter (\<lambda>v. v \<noteq> '''') (map pick ns)) \<noteq> [v]" for v by (simp add: uniform_single)
  then have "add_category sub pick ns m = m" by (auto simp: add_category_def split: list.split)
  then show ?thesis using False that(2) by blast
qed

lemma uniform_unique: "uniform pick ns v \<Longrightarrow> uniform pick ns u \<Longrightarrow> u = v"
  by (auto simp: uniform_def list_ex_iff list_all_iff)

lemma map_of_add_category:
  "map_of (add_category sub pick ns m) k = Some g \<longleftrightarrow>
     (if k = sub \<and> (\<exists>v. uniform pick ns v) then \<exists>v. uniform pick ns v \<and> g = SingletonSubsystem sub v
      else map_of m k = Some g)"
  by (rule add_category_cases [of pick ns sub m]) (auto dest: uniform_unique)

lemma wf_add_category [simp]: "wf_map m \<Longrightarrow> wf_map (add_category sub pick ns m)"
  by (rule add_category_cases [of pick ns sub m]) auto

lemma smallest_fold:
  "(0 :: int) \<le> a \<Longrightarrow>
   (let r = foldl (\<lambda>minMem n. if nf_MemoryGB n > 0 \<and> (minMem = 0 \<or> nf_MemoryGB n < minMem)
        then nf_MemoryGB n else minMem) a ns
    in 0 \<le> r \<and> (r = 0 \<longleftrightarrow> a = 0 \<and> list_all (\<lambda>n. nf_MemoryGB n \<le> 0) ns) \<and>
       (r > 0 \<longrightarrow> (r = a \<or> list_ex (\<lambda>n. nf_MemoryGB n = r) ns) \<and> (a > 0 \<longrightarrow> r \<le> a) \<and>
          list_all (\<lambda>n. nf_MemoryGB n > 0 \<longrightarrow> r \<le> nf_MemoryGB n) ns))"
proof (induction ns arbitrary: a)
  case (Cons n ns)
  let ?a = "if nf_MemoryGB n > 0 \<and> (a = 0 \<or> nf_MemoryGB n < a) then nf_MemoryGB n else a"
  have "0 \<le> ?a" using Cons.prems by simp
  from Cons.IH [OF this] Cons.prems show ?case
    unfolding Let_def foldl_Cons by (auto simp del: foldl_Cons split: if_splits)
qed (simp add: Let_def)

lemma smallest_memory:
  "0 \<le> smallest_memory ns" "smallest_memory ns = 0 \<longleftrightarrow> list_all (\<lambda>n. nf_MemoryGB n \<le> 0) ns"
  "smallest_memory ns > 0 \<Longrightarrow> list_ex (\<lambda>n. nf_MemoryGB n = smallest_memory ns) ns \<and>
     list_all (\<lambda>n. nf_MemoryGB n > 0 \<longrightarrow> smallest_memory ns \<le> nf_MemoryGB n) ns"
  using smallest_fold [of 0 ns] unfolding smallest_memory_def Let_def by auto

section \<open>Registering what was found\<close>

definition attach_all :: "(string \<times> jgf) list \<Rightarrow> cluster_graph \<Rightarrow> cluster_graph" where
  "attach_all subs cg = fold (\<lambda>(n, g). AttachSubsystem n g True) subs cg"

lemma attach_all_simps [simp]:
  "attach_all [] cg = cg" "attach_all ((n, g) # subs) cg = attach_all subs (AttachSubsystem n g True cg)"
  by (simp_all add: attach_all_def)

lemma attach_all_same: "cg_ID (attach_all subs cg) = cg_ID cg" "Reserves (attach_all subs cg) = Reserves cg"
  by (induction subs arbitrary: cg) auto

lemma Subsystems_Attach: "map_of (cg_Subsystems (AttachSubsystem n g d cg)) = (map_of (cg_Subsystems cg))(n \<mapsto> g)"
  by (simp add: AttachSubsystem_def)

lemma attach_all_lookup: "wf_map subs \<Longrightarrow> map_of (cg_Subsystems (attach_all subs cg)) k =
    (case map_of subs k of Some g \<Rightarrow> Some g | None \<Rightarrow> map_of (cg_Subsystems cg) k)"
proof (induction subs arbitrary: cg)
  case (Cons ng subs)
  obtain n g where ng: "ng = (n, g)" by (cases ng)
  have "map_of subs n = None" "wf_map subs" using Cons.prems by (simp_all add: wf_map_def ng map_of_eq_None_iff)
  then show ?case using Cons.IH [of "AttachSubsystem n g True cg"]
    by (cases "k = n") (simp_all add: ng Subsystems_Attach split: option.split)
qed simp

lemma RegisterSubsystem_sim:
  assumes "ev_Matcher e = SimMatcher" "fl_Get (mg_Fleet s) i = Some cg" "sm_clusters (mg_Matcher s) i = Some cm"
  shows "\<exists>s'. RegisterSubsystem e i n g d s = (s', None) \<and>
    fl_Get (mg_Fleet s') i = Some (AttachSubsystem n g d cg) \<and>
    sm_clusters (mg_Matcher s') i = Some (AttachSubsystem n g d cm) \<and> mg_Queue s' = mg_Queue s \<and>
    fl_Get (mg_Fleet s') k = (if k = i then Some (AttachSubsystem n g d cg) else fl_Get (mg_Fleet s) k)"
  using assms fl_Get_ID [OF assms(2)]
  by (simp add: RegisterSubsystem_def SimMatcher_def sim_AddSubsystem_def fl_Get_Add)

lemma register_all_sim:
  assumes "ev_Matcher e = SimMatcher" "fl_Get (mg_Fleet s) i = Some cg" "sm_clusters (mg_Matcher s) i = Some cm"
  shows "\<exists>s'. register_all e i subs names s = (s', sort (names @ map fst subs), None) \<and>
    sm_clusters (mg_Matcher s') i = Some (attach_all subs cm) \<and> mg_Queue s' = mg_Queue s \<and>
    fl_Get (mg_Fleet s') k = (if k = i then Some (attach_all subs cg) else fl_Get (mg_Fleet s) k)"
  using assms(2,3)
proof (induction subs arbitrary: names s cg cm)
  case (Cons ng subs)
  obtain n g where ng: "ng = (n, g)" by (cases ng)
  from RegisterSubsystem_sim [OF assms(1) Cons.prems] obtain s1 where s1:
    "RegisterSubsystem e i n g True s = (s1, None)" "fl_Get (mg_Fleet s1) i = Some (AttachSubsystem n g True cg)"
    "sm_clusters (mg_Matcher s1) i = Some (AttachSubsystem n g True cm)" "mg_Queue s1 = mg_Queue s"
    "fl_Get (mg_Fleet s1) k = (if k = i then Some (AttachSubsystem n g True cg) else fl_Get (mg_Fleet s) k)" by blast
  show ?case using Cons.IH [OF s1(2,3), of "names @ [n]"] s1 by (auto simp: ng)
qed auto

lemma reach_register_all:
  "mgr_reach e s0 s \<Longrightarrow> mg_seq s < 10000 \<Longrightarrow> mgr_reach e s0 (fst (register_all e i subs names s))"
proof (induction subs arbitrary: names s)
  case (Cons ng subs)
  obtain n g where ng: "ng = (n, g)" by (cases ng)
  let ?r = "RegisterSubsystem e i n g True s"
  have seq: "mg_seq (fst ?r) = mg_seq s" by (auto simp: RegisterSubsystem_def split: option.split prod.split)
  have r: "mgr_reach e s0 (fst ?r)"
    by (rule mgr_reach.step [OF Cons.prems(1) mgr_step.reg_subsystem]) (simp add: seq Cons.prems)
  show ?case using Cons.IH [OF r, of "names @ [n]"] r seq Cons.prems(2)
    by (cases ?r) (auto simp: ng split: option.split)
qed simp

text \<open>
  A discovery is a sequence of registrations, so what the manager keeps, it keeps.\<close>

lemma reach_DiscoverCluster:
  assumes "mgr_reach e s0 s" "mg_seq s < 10000"
  shows "mgr_reach e s0 (fst (DiscoverCluster e disc i s))"
proof -
  have seq: "mg_seq (fst (RegisterSubsystem e i n g d s)) = mg_seq s" for n g d
    by (auto simp: RegisterSubsystem_def split: option.split prod.split)
  have r: "mgr_reach e s0 (fst (RegisterSubsystem e i n g d s))" for n g d
    by (rule mgr_reach.step [OF assms(1) mgr_step.reg_subsystem]) (simp add: seq assms)
  have "mgr_reach e s0 s1 \<and> mg_seq s1 < 10000" if "RegisterSubsystem e i n g d s = (s1, err)" for n g d s1 err
    using r [of n g d] seq [of n g d] assms(2) that by simp
  then show ?thesis
    using assms reach_register_all [of e s0]
    by (auto simp: DiscoverCluster_def Let_def split: option.split sum.split prod.split)
qed

section \<open>Properties\<close>

text \<open>
  The graph built from discovered nodes counts what was discovered. Grouping equal nodes
  loses none: the containment graph has as many nodes as there are facts, and as many cores,
  gpus and gigabytes as the facts add up to, negative ones read as none. It recovers as the
  cluster it was built for, has no cycle and distinct vertex ids.
\<close>

theorem ContainmentFromFacts_totals:
  assumes "int (length ns) < 2 ^ 63"
  shows "\<exists>g cg. ContainmentFromFacts i m h ns = g \<and> total_size ''node'' (g_nodes g) = length ns \<and>
    total_size ''core'' (g_nodes g) = sum_list (map (\<lambda>n. nat (nf_Cores n)) ns) \<and>
    total_size ''gpu'' (g_nodes g) = sum_list (map (\<lambda>n. nat (nf_GPUs n)) ns) \<and>
    total_size ''memory'' (g_nodes g) = sum_list (map (\<lambda>n. nat (nf_MemoryGB n)) ns) \<and>
    ClusterFromContainment g = Inr cg \<and> cg_ID cg = i \<and> cg_Manager cg = m \<and> cg_Handle cg = h \<and>
    acyclic_jgf g \<and> distinct (map v_id (g_nodes g))"
proof -
  define g where "g = ContainmentFromFacts i m h ns"
  have "acyclic_jgf g \<and> distinct (map v_id (g_nodes g))"
    by (simp add: g_def ContainmentFromFacts_def acyclic_BuildContainment distinct_BuildContainment)
  moreover have "\<exists>cg. ClusterFromContainment g = Inr cg \<and> cg_ID cg = i \<and> cg_Manager cg = m \<and> cg_Handle cg = h"
    by (simp add: g_def ContainmentFromFacts_def ClusterFromContainment_Build root_props)
  ultimately show ?thesis
    using size_Containment [OF assms, of _ i m h] unfolding g_def
    by (auto simp: per_node_def key_of_def sum_list_triv)
qed

definition demo_facts :: "nodeFacts list" where
  "demo_facts =
     [\<lparr>nf_Arch = ''amd64'', nf_GPUVendor = ''nvidia'', nf_Network = ''efa'', nf_MemoryGB = 128, nf_Cores = 8, nf_GPUs = 4\<rparr>,
      \<lparr>nf_Arch = ''amd64'', nf_GPUVendor = '''', nf_Network = ''ethernet'', nf_MemoryGB = 32, nf_Cores = 4, nf_GPUs = 0\<rparr>,
      \<lparr>nf_Arch = ''amd64'', nf_GPUVendor = '''', nf_Network = ''ethernet'', nf_MemoryGB = 32, nf_Cores = 4, nf_GPUs = 0\<rparr>]"

theorem ContainmentFromFacts_totals_witness:
  "\<exists>g. ContainmentFromFacts ''c1'' ''flux-uri'' ''f'' demo_facts = g \<and> total_size ''core'' (g_nodes g) = 16 \<and>
     total_size ''memory'' (g_nodes g) = 192"
proof -
  have "int (length demo_facts) < 2 ^ 63" by (simp add: demo_facts_def)
  from ContainmentFromFacts_totals [OF this, of "''c1''" "''flux-uri''" "''f''"] show ?thesis
    by (auto simp: demo_facts_def)
qed

text \<open>
  What discovery advertises. A category is registered exactly when the nodes that report it
  agree on one value, nodes that report none not being asked: a pool with one gpu node
  advertises its vendor for the whole cluster. Memory is registered exactly when some node has
  any, as the standard bucket of the smallest positive size. Nothing else is registered.
\<close>

theorem SubsystemsFromFacts_categories:
  assumes "ns \<noteq> []"
  shows "\<exists>subs. SubsystemsFromFacts ns = Inr (subs, map nf_MemoryGB ns) \<and> wf_map subs \<and>
    (\<forall>k g. (map_of subs k = Some g) =
       ((\<exists>v. (k = ''architecture'' \<and> uniform nf_Arch ns v \<or> k = ''gpu'' \<and> uniform nf_GPUVendor ns v \<or>
              k = ''network'' \<and> uniform nf_Network ns v) \<and> g = SingletonSubsystem k v) \<or>
        (\<exists>gb. k = ''memory'' \<and> gb > 0 \<and> list_ex (\<lambda>n. nf_MemoryGB n = gb) ns \<and>
           list_all (\<lambda>n. nf_MemoryGB n \<le> 0 \<or> gb \<le> nf_MemoryGB n) ns \<and>
           g = SingletonSubsystem ''memory'' (StandardRangeFor gb))))"
proof -
  let ?c = "add_category ''network'' nf_Network ns (add_category ''gpu'' nf_GPUVendor ns
      (add_category ''architecture'' nf_Arch ns []))"
  let ?m = "smallest_memory ns"
  let ?s = "if ?m > 0 then AList.update ''memory'' (SingletonSubsystem ''memory'' (StandardRangeFor ?m)) ?c else ?c"
  have s: "SubsystemsFromFacts ns = Inr (?s, map nf_MemoryGB ns)"
    using assms StandardRangeFor_nonempty [OF smallest_memory(1), of ns] by (simp add: SubsystemsFromFacts_def Let_def)
  have c: "(map_of ?c k = Some g) = (\<exists>v. (k = ''architecture'' \<and> uniform nf_Arch ns v \<or>
      k = ''gpu'' \<and> uniform nf_GPUVendor ns v \<or> k = ''network'' \<and> uniform nf_Network ns v) \<and>
      g = SingletonSubsystem k v)" for k g
    unfolding map_of_add_category by auto
  have least: "(gb > 0 \<and> list_ex (\<lambda>n. nf_MemoryGB n = gb) ns \<and>
      list_all (\<lambda>n. nf_MemoryGB n \<le> 0 \<or> gb \<le> nf_MemoryGB n) ns) = (?m > 0 \<and> gb = ?m)" for gb
  proof
    assume l: "gb > 0 \<and> list_ex (\<lambda>n. nf_MemoryGB n = gb) ns \<and>
      list_all (\<lambda>n. nf_MemoryGB n \<le> 0 \<or> gb \<le> nf_MemoryGB n) ns"
    then obtain n where n: "n \<in> set ns" "nf_MemoryGB n = gb" by (auto simp: list_ex_iff)
    then have "?m \<noteq> 0" using l smallest_memory(2) [of ns] by (auto simp: list_all_iff)
    then have pos: "?m > 0" using smallest_memory(1) [of ns] by simp
    from smallest_memory(3) [OF this] obtain k where k: "k \<in> set ns" "nf_MemoryGB k = ?m" and
      "nf_MemoryGB n > 0 \<longrightarrow> ?m \<le> nf_MemoryGB n"
      using n(1) by (auto simp: list_ex_iff list_all_iff)
    moreover have "gb \<le> ?m" using l k pos by (auto simp: list_all_iff)
    ultimately show "?m > 0 \<and> gb = ?m" using l n pos by simp
  next
    assume "?m > 0 \<and> gb = ?m"
    then show "gb > 0 \<and> list_ex (\<lambda>n. nf_MemoryGB n = gb) ns \<and>
      list_all (\<lambda>n. nf_MemoryGB n \<le> 0 \<or> gb \<le> nf_MemoryGB n) ns"
      using smallest_memory(3) [of ns] by (auto simp: list_all_iff not_less [symmetric])
  qed
  have mem: "(map_of ?s ''memory'' = Some g) = (\<exists>gb. gb > 0 \<and> list_ex (\<lambda>n. nf_MemoryGB n = gb) ns \<and>
      list_all (\<lambda>n. nf_MemoryGB n \<le> 0 \<or> gb \<le> nf_MemoryGB n) ns \<and>
      g = SingletonSubsystem ''memory'' (StandardRangeFor gb))" for g
  proof -
    have "(map_of ?s ''memory'' = Some g) = (?m > 0 \<and> g = SingletonSubsystem ''memory'' (StandardRangeFor ?m))"
      using c [of "''memory''" g] by (cases "map_of ?c ''memory'' = None") auto
    also have "\<dots> = (\<exists>gb. (?m > 0 \<and> gb = ?m) \<and> g = SingletonSubsystem ''memory'' (StandardRangeFor gb))" by simp
    finally show ?thesis unfolding least [symmetric] by (simp only: conj_assoc)
  qed
  have "k \<noteq> ''memory'' \<Longrightarrow> map_of ?s k = map_of ?c k" for k by simp
  then have "(map_of ?s k = Some g) =
       ((\<exists>v. (k = ''architecture'' \<and> uniform nf_Arch ns v \<or> k = ''gpu'' \<and> uniform nf_GPUVendor ns v \<or>
              k = ''network'' \<and> uniform nf_Network ns v) \<and> g = SingletonSubsystem k v) \<or>
        (\<exists>gb. k = ''memory'' \<and> gb > 0 \<and> list_ex (\<lambda>n. nf_MemoryGB n = gb) ns \<and>
           list_all (\<lambda>n. nf_MemoryGB n \<le> 0 \<or> gb \<le> nf_MemoryGB n) ns \<and>
           g = SingletonSubsystem ''memory'' (StandardRangeFor gb)))" for k g
    using c [of k g] mem [of g] by (cases "k = ''memory''") auto
  then show ?thesis using s by (intro exI [of _ ?s]) simp
qed

theorem SubsystemsFromFacts_categories_witness:
  "\<exists>subs. SubsystemsFromFacts demo_facts = Inr (subs, [128, 32, 32]) \<and>
     map_of subs ''gpu'' = Some (SingletonSubsystem ''gpu'' ''nvidia'') \<and> map_of subs ''network'' = None"
proof -
  have "demo_facts \<noteq> []" by (simp add: demo_facts_def)
  from SubsystemsFromFacts_categories [OF this] obtain subs where subs:
    "SubsystemsFromFacts demo_facts = Inr (subs, map nf_MemoryGB demo_facts)"
    "\<forall>k g. (map_of subs k = Some g) =
       ((\<exists>v. (k = ''architecture'' \<and> uniform nf_Arch demo_facts v \<or> k = ''gpu'' \<and> uniform nf_GPUVendor demo_facts v \<or>
              k = ''network'' \<and> uniform nf_Network demo_facts v) \<and> g = SingletonSubsystem k v) \<or>
        (\<exists>gb. k = ''memory'' \<and> gb > 0 \<and> list_ex (\<lambda>n. nf_MemoryGB n = gb) demo_facts \<and>
           list_all (\<lambda>n. nf_MemoryGB n \<le> 0 \<or> gb \<le> nf_MemoryGB n) demo_facts \<and>
           g = SingletonSubsystem ''memory'' (StandardRangeFor gb)))"
    by (elim exE conjE) (rule that)
  have u: "uniform nf_GPUVendor demo_facts ''nvidia''" "\<not> uniform nf_Network demo_facts v" for v
    by (auto simp: uniform_def demo_facts_def)
  have "map_of subs ''gpu'' = Some (SingletonSubsystem ''gpu'' ''nvidia'')"
    by (rule iffD2 [OF subs(2) [rule_format]]) (use u(1) in auto)
  moreover have "map_of subs ''network'' = None"
    using u(2) by (cases "map_of subs ''network''") (simp_all add: subs(2) [rule_format])
  ultimately show ?thesis using subs(1) by (simp add: demo_facts_def)
qed

text \<open>
  What a discovery leaves behind, over the in-process matcher. With facts it replaces the
  containment graph, attaches each category it found and reports the sorted names; the manager's
  cluster keeps its reservation mode, every category found earlier and not found now stays
  attached, and no other cluster and no job changes. Without facts it reports an error, but only
  after it has replaced the containment graph by one without nodes. Either way the manager
  stays a reachable one.
\<close>

theorem DiscoverCluster_registers:
  assumes "ev_Matcher e = SimMatcher" "fl_Get (mg_Fleet s) i = Some cg" "sm_clusters (mg_Matcher s) i = Some cm"
    and "driverFor e cg = Inr drv" "disc drv = Some dsc" "dsc cg = Inr facts"
    and "mgr_reach e s0 s" "mg_seq s < 10000"
  shows "\<exists>s' names err c. DiscoverCluster e disc i s = (s', names, err) \<and> fl_Get (mg_Fleet s') i = Some c \<and>
    Reserves c = Reserves cg \<and> mg_Queue s' = mg_Queue s \<and> mgr_reach e s0 s' \<and>
    (if k = i then True else fl_Get (mg_Fleet s') k = fl_Get (mg_Fleet s) k) \<and>
    Containment_of c = Some (ContainmentFromFacts i (cg_Manager cg) (cg_Handle cg) facts) \<and>
    (case SubsystemsFromFacts facts of
       Inl msg \<Rightarrow> facts = [] \<and> err = Some msg \<and> names = [] \<and>
         Containment_of c = Some (BuildContainment i (cg_Manager cg) (cg_Handle cg) [] [])
     | Inr (subs, _) \<Rightarrow> err = None \<and> names = sort (ContainmentSubsystem # map fst subs) \<and>
         map_of (cg_Subsystems c) sub = (if sub = ContainmentSubsystem then Containment_of c
           else case map_of subs sub of Some g \<Rightarrow> Some g | None \<Rightarrow> map_of (cg_Subsystems cg) sub))"
proof -
  let ?cont = "ContainmentFromFacts i (cg_Manager cg) (cg_Handle cg) facts"
  let ?d = "IsDescriptive cg ContainmentSubsystem" and ?c1 = "AttachSubsystem ContainmentSubsystem"
  from RegisterSubsystem_sim [OF assms(1-3), of ContainmentSubsystem ?cont ?d k] obtain s1 where s1:
    "RegisterSubsystem e i ContainmentSubsystem ?cont ?d s = (s1, None)"
    "fl_Get (mg_Fleet s1) i = Some (?c1 ?cont ?d cg)" "sm_clusters (mg_Matcher s1) i = Some (?c1 ?cont ?d cm)"
    "mg_Queue s1 = mg_Queue s"
    "fl_Get (mg_Fleet s1) k = (if k = i then Some (?c1 ?cont ?d cg) else fl_Get (mg_Fleet s) k)" by blast
  have reach: "mgr_reach e s0 (fst (DiscoverCluster e disc i s))" by (rule reach_DiscoverCluster [OF assms(7,8)])
  have d: "DiscoverCluster e disc i s = (case SubsystemsFromFacts facts of Inl err \<Rightarrow> (s1, [], Some err)
      | Inr (subs, _) \<Rightarrow> register_all e i subs [ContainmentSubsystem] s1)"
    using assms(2,4-6) s1(1) by (simp add: DiscoverCluster_def Let_def)
  show ?thesis
  proof (cases "facts = []")
    case True
    then have "DiscoverCluster e disc i s = (s1, [], Some ''no nodes discovered'')"
      using d by (simp add: SubsystemsFromFacts_def)
    then show ?thesis using s1 reach True
      by (simp add: SubsystemsFromFacts_def Containment_of_Attach ContainmentFromFacts_def shape_tally_def)
  next
    case False
    then obtain subs mem where subs: "SubsystemsFromFacts facts = Inr (subs, mem)"
      by (auto simp: SubsystemsFromFacts_def Let_def)
    have wf: "wf_map subs" and no: "map_of subs ContainmentSubsystem = None"
      using subs False by (auto simp: SubsystemsFromFacts_def Let_def ContainmentSubsystem_def
          map_of_add_category not_Some_eq [symmetric] simp del: not_Some_eq split: if_splits)
    from register_all_sim [OF assms(1) s1(2,3), of subs "[ContainmentSubsystem]" k] obtain s2 where s2:
      "register_all e i subs [ContainmentSubsystem] s1 = (s2, sort (ContainmentSubsystem # map fst subs), None)"
      "mg_Queue s2 = mg_Queue s1"
      "fl_Get (mg_Fleet s2) k = (if k = i then Some (attach_all subs (?c1 ?cont ?d cg)) else fl_Get (mg_Fleet s1) k)"
      by auto
    from register_all_sim [OF assms(1) s1(2,3), of subs "[ContainmentSubsystem]" i] s2(1) have at:
      "fl_Get (mg_Fleet s2) i = Some (attach_all subs (?c1 ?cont ?d cg))" by simp
    have cont: "Containment_of (attach_all subs (?c1 ?cont ?d cg)) = Some ?cont"
      unfolding Containment_of_def attach_all_lookup [OF wf] by (simp add: no Subsystems_Attach)
    show ?thesis
      using d subs s1(4,5) s2 at cont reach False
      by (auto simp: attach_all_same attach_all_lookup [OF wf] no Subsystems_Attach split: option.split)
  qed
qed

theorem DiscoverCluster_registers_witness:
  "\<exists>s' c. DiscoverCluster (demo_env FirstFeasible False) (\<lambda>_. Some (\<lambda>_. Inr [])) ''c1'' demo_mgr =
       (s', [], Some ''no nodes discovered'') \<and> fl_Get (mg_Fleet s') ''c1'' = Some c \<and>
     Containment_of c = Some (BuildContainment ''c1'' ''flux-uri'' (cg_Handle (one_node ''c1'' [])) [] [])"
proof -
  let ?e = "demo_env FirstFeasible False"
  have f: "fl_Get (mg_Fleet demo_mgr) ''c1'' = Some (one_node ''c1'' [])" by simp
  have "sm_clusters (mg_Matcher demo_mgr) ''c1'' = Some (one_node ''c1'' [])" by simp
  then show ?thesis
    using DiscoverCluster_registers [of ?e demo_mgr "''c1''" "one_node ''c1'' []" _ demo_driver
        "\<lambda>_. Some (\<lambda>_. Inr [])" "\<lambda>_. Inr []" "[]" "NewManager empty_sim ()" "''c1''" "''gpu''", OF _ f _ _ _ _ demo_mgr_reach]
    by (auto simp: SubsystemsFromFacts_def)
qed

end
