(* ===== verification/K8sDriver.thy ===== *)
theory K8sDriver
  imports FluxDrivers Discovery
begin

text \<open>
  Package \<open>pkg/cluster\<close>, file \<open>k8s_driver.go\<close>: one driver for every kind a cluster's API knows.
  The client library and the API server behind it are the record \<open>kube\<close> of calls over the world
  \<open>'w\<close>; an object is what the driver reads of it. Modelled are the decoding loop, the handles,
  submission object by object, the reading of a state, cancellation, logs and discovery.
\<close>

section \<open>Objects and the API\<close>

text \<open>
  The counters are \<open>status.succeeded\<close>, \<open>status.failed\<close> and \<open>status.active\<close>, 0 where absent; a
  condition is its type and its status. \<open>ko_doc\<close> stands for the rest of the document.
\<close>

record kobject =
  ko_Kind :: string
  ko_Namespace :: string
  ko_UID :: string
  ko_succeeded :: int
  ko_failed :: int
  ko_active :: int
  ko_conditions :: "(string \<times> string) list"
  ko_doc :: gany

record kmapping =
  km_Resource :: string
  km_Group :: string
  km_Namespaced :: bool

record kjob =
  kj_Name :: string
  kj_owners :: "string list"
  kj_Succeeded :: int
  kj_Failed :: int

record knode =
  kn_Labels :: "(string \<times> string) list"
  kn_Allocatable :: "(string \<times> int) list"

datatype get_error = NotFound | GetError string

text \<open>
  \<open>ku_docs\<close> is the YAML decoder: the documents of a text, \<open>None\<close> for an empty one, and the error
  that ended the reading, if any. \<open>ku_gvk\<close> renders the group, version and kind of an object.
\<close>

record 'w kube =
  ku_docs :: "string \<Rightarrow> kobject option list \<times> string option"
  ku_ClientConfig :: "'w \<Rightarrow> string \<Rightarrow> string \<Rightarrow> string option"
  ku_dynamic :: "'w \<Rightarrow> string \<Rightarrow> string \<Rightarrow> string option"
  ku_typed :: "'w \<Rightarrow> string \<Rightarrow> string \<Rightarrow> string option"
  ku_discovery :: "'w \<Rightarrow> string \<Rightarrow> string \<Rightarrow> string option"
  ku_APIGroups :: "'w \<Rightarrow> string \<Rightarrow> string \<Rightarrow> string option"
  ku_gvk :: "kobject \<Rightarrow> string"
  ku_mapping :: "'w \<Rightarrow> cluster_graph \<Rightarrow> kobject \<Rightarrow> string + kmapping"
  ku_create :: "'w \<Rightarrow> cluster_graph \<Rightarrow> kmapping \<Rightarrow> kobject \<Rightarrow> 'w \<times> (string + string)"
  ku_resource :: "'w \<Rightarrow> cluster_graph \<Rightarrow> string \<Rightarrow> string \<Rightarrow> string + kmapping"
  ku_get :: "'w \<Rightarrow> cluster_graph \<Rightarrow> kmapping \<Rightarrow> string \<Rightarrow> string \<Rightarrow> get_error + kobject"
  ku_jobs :: "'w \<Rightarrow> cluster_graph \<Rightarrow> string \<Rightarrow> kjob list option"
  ku_delete :: "'w \<Rightarrow> cluster_graph \<Rightarrow> kmapping \<Rightarrow> string \<Rightarrow> string \<Rightarrow> 'w \<times> string option"
  ku_pods :: "'w \<Rightarrow> cluster_graph \<Rightarrow> string \<Rightarrow> string \<Rightarrow> string + string list"
  ku_logs :: "'w \<Rightarrow> cluster_graph \<Rightarrow> string \<Rightarrow> string \<Rightarrow> string + string"
  ku_nodes :: "'w \<Rightarrow> cluster_graph \<Rightarrow> string + knode list"

definition k8s_Types :: "string list" where
  "k8s_Types = [K8sJob, FluxOperator]"

definition k8s_namespace :: "cluster_graph \<Rightarrow> string" where
  "k8s_namespace target = (if Cfg target ''namespace'' \<noteq> '''' then Cfg target ''namespace'' else ''default'')"

text \<open>
  The clients for a path and a context, either of which may be empty: why one of the steps that build
  them fails, if one does.
\<close>

definition realConnect :: "'w kube \<Rightarrow> 'w \<Rightarrow> cluster_graph \<Rightarrow> string option" where
  "realConnect K w target =
     (let path = Cfg target ''kubeconfig''; kctx = Cfg target ''context'' in
      (if path = '''' \<and> kctx = '''' then
         Some (''k8s cluster '' @ go_quote (cg_ID target) @
           '' needs dispatch config: kubeconfig=<path> or context=<name>'')
       else
      (case ku_ClientConfig K w path kctx of Some e \<Rightarrow> Some (''kubeconfig for '' @ go_quote (cg_ID target) @ '': '' @ e) | None \<Rightarrow>
      (case ku_dynamic K w path kctx of Some e \<Rightarrow> Some e | None \<Rightarrow>
      (case ku_typed K w path kctx of Some e \<Rightarrow> Some e | None \<Rightarrow>
      (case ku_discovery K w path kctx of Some e \<Rightarrow> Some e | None \<Rightarrow>
      (case ku_APIGroups K w path kctx of
         Some e \<Rightarrow> Some (''discover cluster resources for '' @ go_quote (cg_ID target) @ '': '' @ e)
       | None \<Rightarrow> None)))))))"

definition decodeManifests :: "'w kube \<Rightarrow> string \<Rightarrow> string + kobject list" where
  "decodeManifests K payload = (case ku_docs K payload of
     (docs, Some e) \<Rightarrow> Inl (''decode manifest: '' @ e)
   | (docs, None) \<Rightarrow>
       (let out = map the (filter (\<lambda>d. d \<noteq> None) docs) in
        if out = [] then Inl ''manifest contained no objects'' else Inr out))"

section \<open>Handles\<close>

definition encodeHandle :: "string \<Rightarrow> string \<Rightarrow> string \<Rightarrow> string \<Rightarrow> string" where
  "encodeHandle resource grp ns name =
     (let rg = (if grp \<noteq> '''' then resource @ ''.'' @ grp else resource) in
      if ns = '''' then rg @ ''/'' @ name else rg @ ''/'' @ ns @ ''/'' @ name)"

fun split_on :: "char \<Rightarrow> string \<Rightarrow> string list" where
  "split_on d [] = [[]]"
| "split_on d (c # cs) =
     (if c = d then [] # split_on d cs
      else (case split_on d cs of [] \<Rightarrow> [[c]] | l # ls \<Rightarrow> (c # l) # ls))"

definition split_dot :: "string \<Rightarrow> string \<times> string" where
  "split_dot rg = (if CHR ''.'' \<in> set rg
     then (takeWhile (\<lambda>c. c \<noteq> CHR ''.'') rg, tl (dropWhile (\<lambda>c. c \<noteq> CHR ''.'') rg)) else (rg, ''''))"

definition parseHandle :: "string \<Rightarrow> string \<times> string \<times> string \<times> string" where
  "parseHandle h =
     (let parts = split_on (CHR ''/'') h;
          (resource, grp) = split_dot (hd parts);
          (ns, name) = (case parts of [_, n, m] \<Rightarrow> (n, m) | [_, m] \<Rightarrow> ('''', m) | _ \<Rightarrow> ('''', ''''))
      in (resource, grp, ns, name))"

section \<open>Submission\<close>

definition resourceFor :: "kmapping \<Rightarrow> string \<Rightarrow> cluster_graph \<Rightarrow> string" where
  "resourceFor mapping objNS target =
     (if \<not> km_Namespaced mapping then '''' else if objNS = '''' then k8s_namespace target else objNS)"

text \<open>The objects one by one; \<open>handle\<close> is empty until the first has been created.\<close>

fun apply_objects ::
  "'w kube \<Rightarrow> cluster_graph \<Rightarrow> bool \<Rightarrow> kobject list \<Rightarrow> string \<Rightarrow> 'w \<Rightarrow> 'w \<times> (string + string)" where
  "apply_objects K target first [] handle w = (w, Inr handle)"
| "apply_objects K target first (obj # objs) handle w =
     (case ku_mapping K w target obj of
        Inl e \<Rightarrow> (w, Inl (''unknown kind '' @ ku_gvk K obj @ '' (is its CRD installed?): '' @ e))
      | Inr mapping \<Rightarrow>
          (let ns = resourceFor mapping (ko_Namespace obj) target;
               obj = (if ns \<noteq> '''' then obj\<lparr>ko_Namespace := ns\<rparr> else obj)
           in case ku_create K w target mapping obj of
                (w', Inl e) \<Rightarrow> (w', Inl (''apply '' @ ko_Kind obj @ '': '' @ e))
              | (w', Inr name) \<Rightarrow>
                  apply_objects K target False objs
                    (if first then encodeHandle (km_Resource mapping) (km_Group mapping) ns name else handle) w'))"

definition k8s_Submit :: "'w kube \<Rightarrow> 'w \<Rightarrow> cluster_graph \<Rightarrow> content \<Rightarrow> 'w \<times> (string + string)" where
  "k8s_Submit K w target c =
     (if ct_Kind c \<noteq> ''manifest'' then (w, Inl (''k8s expects a manifest, got '' @ go_quote (ct_Kind c)))
      else (case decodeManifests K (ct_Payload c) of
          Inl e \<Rightarrow> (w, Inl e)
        | Inr objs \<Rightarrow> (case realConnect K w target of
            Some e \<Rightarrow> (w, Inl e)
          | None \<Rightarrow> apply_objects K target True objs '''' w)))"

section \<open>State\<close>

fun scan_conditions :: "string \<Rightarrow> (string \<times> string) list \<Rightarrow> state \<times> string" where
  "scan_conditions kind [] = (Running, kind @ '' applied'')"
| "scan_conditions kind ((t, status) # cs) =
     (if status \<noteq> ''True'' then scan_conditions kind cs
      else if t = ''Failed'' then (Failed, kind @ '' condition Failed'')
      else if t = ''Complete'' \<or> t = ''Completed'' \<or> t = ''Succeeded'' then (Completed, kind @ '' condition '' @ t)
      else scan_conditions kind cs)"

definition readState :: "kobject \<Rightarrow> state \<times> string" where
  "readState u =
     (if ko_Kind u = ''Job'' then
        (if ko_failed u > 0 then (Failed, ''k8s job failed ('' @ int_text (ko_failed u) @ '')'')
         else if ko_succeeded u > 0 then (Completed, ''k8s job succeeded'')
         else if ko_active u > 0 then (Running, ''k8s job active ('' @ int_text (ko_active u) @ '')'')
         else (Running, ''k8s job pending''))
      else scan_conditions (ko_Kind u) (ko_conditions u))"

fun owned_scan :: "string \<Rightarrow> kjob list \<Rightarrow> (state \<times> string) option" where
  "owned_scan uid [] = None"
| "owned_scan uid (j # js) =
     (if uid \<notin> set (kj_owners j) then owned_scan uid js
      else if kj_Succeeded j > 0 then Some (Completed, ''job '' @ kj_Name j @ '' succeeded'')
      else if kj_Failed j > 0 then Some (Failed, ''job '' @ kj_Name j @ '' failed'')
      else owned_scan uid js)"

definition ownedJobState :: "'w kube \<Rightarrow> 'w \<Rightarrow> cluster_graph \<Rightarrow> string \<Rightarrow> string \<Rightarrow> (state \<times> string) option" where
  "ownedJobState K w target ns uid =
     (let ns = (if ns = '''' then k8s_namespace target else ns) in
      if realConnect K w target \<noteq> None then None
      else (case ku_jobs K w target ns of None \<Rightarrow> None | Some js \<Rightarrow> owned_scan uid js))"

definition k8s_Status :: "'w kube \<Rightarrow> 'w \<Rightarrow> cluster_graph \<Rightarrow> string \<Rightarrow> 'w \<times> (string + state \<times> string)" where
  "k8s_Status K w target handle = (w,
     (let (res, grp, ns, name) = parseHandle handle in
      case realConnect K w target of
        Some e \<Rightarrow> Inl e
      | None \<Rightarrow>
          (case ku_resource K w target grp res of
             Inl e \<Rightarrow> Inl (''resolve '' @ res @ ''.'' @ grp @ '': '' @ e)
           | Inr gvr \<Rightarrow>
               (case ku_get K w target gvr ns name of
                  Inl NotFound \<Rightarrow> Inr (Completed, res @ '' no longer present (reaped or deleted)'')
                | Inl (GetError e) \<Rightarrow> Inl (''get '' @ handle @ '': '' @ e)
                | Inr u \<Rightarrow>
                    (let (st, txt) = readState u in
                     if Terminal st then Inr (st, txt)
                     else (case ownedJobState K w target ns (ko_UID u) of Some r \<Rightarrow> Inr r | None \<Rightarrow> Inr (st, txt)))))))"

section \<open>Cancellation, logs and discovery\<close>

definition k8s_Cancel :: "'w kube \<Rightarrow> 'w \<Rightarrow> cluster_graph \<Rightarrow> string \<Rightarrow> 'w \<times> string option" where
  "k8s_Cancel K w target handle =
     (let (res, grp, ns, name) = parseHandle handle in
      case realConnect K w target of
        Some e \<Rightarrow> (w, Some e)
      | None \<Rightarrow> (case ku_resource K w target grp res of
          Inl e \<Rightarrow> (w, Some e)
        | Inr gvr \<Rightarrow> ku_delete K w target gvr ns name))"

definition k8s_Logs :: "'w kube \<Rightarrow> 'w \<Rightarrow> cluster_graph \<Rightarrow> string \<Rightarrow> string + string" where
  "k8s_Logs K w target handle =
     (let (res, grp, ns, name) = parseHandle handle in
      if res \<noteq> ''jobs'' then Inr ''''
      else (case realConnect K w target of
          Some e \<Rightarrow> Inl e
        | None \<Rightarrow> (case ku_pods K w target ns name of
            Inl e \<Rightarrow> Inl e
          | Inr [] \<Rightarrow> Inr ''''
          | Inr (p # _) \<Rightarrow> ku_logs K w target ns p)))"

definition K8sDriver :: "'w kube \<Rightarrow> 'w driver" where
  "K8sDriver K = \<lparr>dr_Type = K8sJob, dr_Types = Some k8s_Types, dr_Submit = k8s_Submit K,
     dr_Status = k8s_Status K, dr_Cancel = k8s_Cancel K, dr_Logs = k8s_Logs K\<rparr>"

definition nodeHasResource :: "knode \<Rightarrow> string \<Rightarrow> bool" where
  "nodeHasResource n name = (case map_of (kn_Allocatable n) name of Some q \<Rightarrow> q > 0 | None \<Rightarrow> False)"

definition label :: "knode \<Rightarrow> string \<Rightarrow> string" where
  "label n k = (case map_of (kn_Labels n) k of Some v \<Rightarrow> v | None \<Rightarrow> '''')"

text \<open>Go's division truncates; quantities are \<open>int64\<close>.\<close>

definition gib :: "int \<Rightarrow> int" where
  "gib v = (if v < 0 then - (- v div 2 ^ 30) else v div 2 ^ 30)"

definition factsFromNode :: "knode \<Rightarrow> nodeFacts" where
  "factsFromNode n =
     \<lparr>nf_Arch = label n ''kubernetes.io/arch'',
      nf_GPUVendor =
        (if label n ''nvidia.com/gpu.product'' \<noteq> '''' \<or> nodeHasResource n ''nvidia.com/gpu'' then ''nvidia''
         else if label n ''amd.com/gpu.device-id'' \<noteq> '''' \<or> nodeHasResource n ''amd.com/gpu'' then ''amd'' else ''''),
      nf_Network = (if nodeHasResource n ''vpc.amazonaws.com/efa'' then ''efa'' else ''ethernet''),
      nf_MemoryGB = (case map_of (kn_Allocatable n) ''memory'' of Some q \<Rightarrow> gib q | None \<Rightarrow> 0),
      nf_Cores = (case map_of (kn_Allocatable n) ''cpu'' of Some q \<Rightarrow> q | None \<Rightarrow> 0),
      nf_GPUs = foldl (\<lambda>g r. case map_of (kn_Allocatable n) r of Some q \<Rightarrow> if q > 0 then q else g | None \<Rightarrow> g)
        0 [''nvidia.com/gpu'', ''amd.com/gpu'']\<rparr>"

definition k8s_Discover :: "'w kube \<Rightarrow> 'w \<Rightarrow> cluster_graph \<Rightarrow> string + nodeFacts list" where
  "k8s_Discover K w target = (case realConnect K w target of
     Some e \<Rightarrow> Inl e
   | None \<Rightarrow> (case ku_nodes K w target of
       Inl e \<Rightarrow> Inl (''list nodes for '' @ go_quote (cg_ID target) @ '': '' @ e)
     | Inr ns \<Rightarrow> Inr (map factsFromNode ns)))"

section \<open>Handles round trip\<close>

lemma split_on_nonempty [simp]: "split_on d s \<noteq> []"
  by (induction s) (auto split: list.split)

lemma split_on_free: "d \<notin> set s \<Longrightarrow> split_on d s = [s]"
  by (induction s) auto

lemma split_on_append: "split_on d (s @ d # t) = split_on d s @ split_on d t"
proof (induction s)
  case (Cons c s)
  then show ?case by (cases "split_on d s") (auto split: list.split)
qed simp

lemma split_on_join: "xs \<noteq> [] \<Longrightarrow> \<forall>x \<in> set xs. d \<notin> set x \<Longrightarrow> split_on d (join [d] xs) = xs"
proof (induction xs rule: list_nonempty_induct)
  case (cons x xs)
  then obtain y ys where "xs = y # ys" by (cases xs) auto
  then show ?case using cons by (simp add: split_on_append split_on_free)
qed (simp add: split_on_free)

lemma takeWhile_dot: "CHR ''.'' \<notin> set r \<Longrightarrow> takeWhile (\<lambda>c. c \<noteq> CHR ''.'') (r @ CHR ''.'' # g) = r \<and>
    dropWhile (\<lambda>c. c \<noteq> CHR ''.'') (r @ CHR ''.'' # g) = CHR ''.'' # g"
  by (induction r) auto

lemma parse_encode:
  assumes "CHR ''.'' \<notin> set r" "CHR ''/'' \<notin> set (r @ g @ ns @ n)"
  shows "parseHandle (encodeHandle r g ns n) = (r, g, ns, n)"
proof -
  define rg where "rg = (if g \<noteq> '''' then r @ ''.'' @ g else r)"
  have rg: "CHR ''/'' \<notin> set rg" using assms(2) by (simp add: rg_def)
  have parts: "split_on (CHR ''/'') (encodeHandle r g ns n) = (if ns = '''' then [rg, n] else [rg, ns, n])"
    using assms(2) rg by (simp add: encodeHandle_def Let_def rg_def [symmetric] split_on_append split_on_free)
  have "split_dot rg = (r, g)"
    using assms(1) takeWhile_dot [OF assms(1), of g] by (simp add: rg_def split_dot_def)
  then show ?thesis by (simp add: parseHandle_def parts Let_def)
qed

section \<open>Reports\<close>

lemma scan_conditions_state: "fst (scan_conditions k cs) \<in> {Running, Completed, Failed}"
proof (induction cs)
  case (Cons c cs)
  then show ?case by (cases c) (simp only: scan_conditions.simps split: if_split, simp)
qed simp

lemma owned_scan_state: "owned_scan uid js = Some r \<Longrightarrow> Terminal (fst r)"
  by (induction js) (auto simp: Terminal_def split: if_splits)

lemma owned_state: "ownedJobState K w target ns uid = Some r \<Longrightarrow> Terminal (fst r)"
  unfolding ownedJobState_def Let_def by (auto split: if_splits option.splits dest: owned_scan_state)

lemma readState_state: "fst (readState u) \<in> {Running, Completed, Failed}"
  using scan_conditions_state [of "ko_Kind u" "ko_conditions u"] by (simp add: readState_def)

lemma Status_cases:
  assumes "k8s_Status K w target h = (w', Inr (st, why))" "parseHandle h = (res, grp, ns, name)"
  obtains "w' = w" "st = Completed" | u where "w' = w" "readState u = (st, why)"
  | u where "w' = w" "ownedJobState K w target ns (ko_UID u) = Some (st, why)" "\<not> Terminal (fst (readState u))"
  using assms by (auto simp: k8s_Status_def split: option.splits sum.splits get_error.splits if_splits prod.splits)

lemma k8s_reports:
  assumes "dr_Status (K8sDriver K) w target h = (w', Inr (st, why))"
  shows "st \<in> {Running, Completed, Failed}"
proof -
  obtain res grp ns name where h: "parseHandle h = (res, grp, ns, name)" by (cases "parseHandle h") auto
  have "k8s_Status K w target h = (w', Inr (st, why))" using assms by (simp add: K8sDriver_def)
  then show ?thesis using h
  proof (cases rule: Status_cases)
    case (2 u)
    then show ?thesis using readState_state [of u] by simp
  next
    case (3 u)
    then show ?thesis using owned_state [OF 3(2)] by (simp add: Terminal_def)
  qed simp
qed

section \<open>The real drivers\<close>

definition real_registry :: "'w kube \<Rightarrow> 'w libflux \<Rightarrow> 'w registry" where
  "real_registry K L = NewRegistry [K8sDriver K, FluxCGODriver L]"

lemma real_registry_lookup: "real_registry K L m = (if m = FluxURI then Some (FluxCGODriver L)
    else if m = K8sJob \<or> m = FluxOperator then Some (K8sDriver K) else None)"
  using managers_distinct unfolding real_registry_def NewRegistry_def
  by (auto simp: assign_apply serves_def K8sDriver_def FluxCGODriver_def k8s_Types_def)

text \<open>The environment of a server whose clusters are all dispatched for real.\<close>

definition real_env :: "'w kube \<Rightarrow> 'w libflux \<Rightarrow> ('m, 'w) env \<Rightarrow> bool" where
  "real_env K L e \<longleftrightarrow> ev_RealDrivers e = Some (real_registry K L) \<and> ev_Drivers e = Map.empty"

lemma real_reports: "real_env K L e \<Longrightarrow> drivers_report e"
  unfolding drivers_report_def
proof (intro allI impI)
  fix c drv w h w' st why
  assume e: "real_env K L e" and d: "driverFor e c = Inr drv" and s: "dr_Status drv w c h = (w', Inr (st, why))"
  have "drv = K8sDriver K \<or> drv = FluxCGODriver L"
    using d e by (auto simp: real_env_def driverFor_def reg_For_def real_registry_lookup split: if_splits option.splits)
  then show "st \<noteq> Submitted" using s k8s_reports [of K w c h w' st why] cgo_reports [of L w c h w' st why] by auto
qed

section \<open>Properties\<close>

text \<open>What Kubernetes promises of the names of an object it created: no separator of a handle in them.\<close>

definition proper_names :: "'w kube \<Rightarrow> bool" where
  "proper_names K \<longleftrightarrow> (\<forall>w target m obj w' name. ku_create K w target m obj = (w', Inr name) \<longrightarrow>
     CHR ''.'' \<notin> set (km_Resource m) \<and> CHR ''/'' \<notin> set (km_Resource m @ km_Group m @ ko_Namespace obj @ name))"

lemma apply_objects_handle:
  "apply_objects K target False objs handle w = (w', Inr h) \<Longrightarrow> h = handle"
  by (induction objs arbitrary: w) (auto simp: Let_def split: sum.splits prod.splits if_splits)


text \<open>A cluster with one job, for the witnesses: it knows the kind \<open>Job\<close> only.\<close>

definition demo_object :: "string \<Rightarrow> kobject" where
  "demo_object kind = \<lparr>ko_Kind = kind, ko_Namespace = '''', ko_UID = ''u1'', ko_succeeded = 1, ko_failed = 1,
     ko_active = 0, ko_conditions = [], ko_doc = GNil\<rparr>"

definition demo_kube :: "kobject list \<Rightarrow> string list kube" where
  "demo_kube objs =
     \<lparr>ku_docs = (\<lambda>_. (map Some objs, None)), ku_ClientConfig = (\<lambda>_ _ _. None), ku_dynamic = (\<lambda>_ _ _. None), ku_typed = (\<lambda>_ _ _. None), ku_discovery = (\<lambda>_ _ _. None), ku_APIGroups = (\<lambda>_ _ _. None), ku_gvk = ko_Kind,
      ku_mapping = (\<lambda>w t obj. if ko_Kind obj = ''Job''
        then Inr \<lparr>km_Resource = ''jobs'', km_Group = ''batch'', km_Namespaced = True\<rparr> else Inl ''no match''),
      ku_create = (\<lambda>w t m obj. if km_Resource m = ''jobs'' \<and> km_Group m = ''batch'' \<and> CHR ''/'' \<notin> set (ko_Namespace obj)
        then (ko_Kind obj # w, Inr ''app'') else (w, Inl ''rejected'')),
      ku_resource = (\<lambda>w t g r. Inr \<lparr>km_Resource = ''jobs'', km_Group = ''batch'', km_Namespaced = True\<rparr>),
      ku_get = (\<lambda>w t m ns name. if w = [] then Inl NotFound else Inr (demo_object ''Job'')),
      ku_jobs = (\<lambda>w t ns. Some []), ku_delete = (\<lambda>w t m ns name. ([], None)),
      ku_pods = (\<lambda>w t ns name. Inr []), ku_logs = (\<lambda>w t ns p. Inr ''''), ku_nodes = (\<lambda>w t. Inr [])\<rparr>"

definition demo_target :: cluster_graph where
  "demo_target = one_node ''c1'' [(''context'', ''kind-c1'')]"

definition demo_manifest :: content where
  "demo_manifest = \<lparr>ct_Kind = ''manifest'', ct_Payload = ''kind: Job''\<rparr>"

lemma demo_kube_simps [simp]:
  "ku_docs (demo_kube objs) p = (map Some objs, None)" "ku_ClientConfig (demo_kube objs) w p' x = None"
  "ku_dynamic (demo_kube objs) w p' x = None" "ku_typed (demo_kube objs) w p' x = None"
  "ku_discovery (demo_kube objs) w p' x = None" "ku_APIGroups (demo_kube objs) w p' x = None"
  "ku_gvk (demo_kube objs) = ko_Kind"
  "ku_resource (demo_kube objs) w t g r = Inr \<lparr>km_Resource = ''jobs'', km_Group = ''batch'', km_Namespaced = True\<rparr>"
  "ku_get (demo_kube objs) w t m ns name = (if w = [] then Inl NotFound else Inr (demo_object ''Job''))"
  "ku_mapping (demo_kube objs) w t obj = (if ko_Kind obj = ''Job''
        then Inr \<lparr>km_Resource = ''jobs'', km_Group = ''batch'', km_Namespaced = True\<rparr> else Inl ''no match'')"
  "ku_create (demo_kube objs) w t m obj = (if km_Resource m = ''jobs'' \<and> km_Group m = ''batch'' \<and> CHR ''/'' \<notin> set (ko_Namespace obj)
        then (ko_Kind obj # w, Inr ''app'') else (w, Inl ''rejected''))"
  by (simp_all add: demo_kube_def)

lemma demo_proper: "proper_names (demo_kube objs)"
  by (auto simp: proper_names_def split: if_splits)

lemma demo_connect: "realConnect (demo_kube objs) w demo_target = None" "k8s_namespace demo_target = ''default''"
  by (simp_all add: realConnect_def k8s_namespace_def demo_target_def one_node_def Cfg_def)

lemma demo_decode: "objs \<noteq> [] \<Longrightarrow> decodeManifests (demo_kube objs) p = Inr objs"
  by (simp add: decodeManifests_def Let_def comp_def)

lemma demo_object_simps [simp]: "ko_Kind (demo_object k) = k" "ko_Namespace (demo_object k) = ''''"
  "ko_failed (demo_object k) = 1" "ko_succeeded (demo_object k) = 1"
  by (simp_all add: demo_object_def)


text \<open>
  A failed submission is not undone. When the first object of a manifest has been created and
  the second is of a kind the cluster does not know, the submission reports the error and no
  handle, while the cluster stays as the creation left it: the first object runs on, unknown to
  the queue.
\<close>

theorem k8s_submit_leaves_objects:
  assumes "ct_Kind c = ''manifest''" "decodeManifests K (ct_Payload c) = Inr (a # b # rest)" "realConnect K w target = None"
    and "ku_mapping K w target a = Inr m" "resourceFor m (ko_Namespace a) target = ns"
    and "ku_create K w target m (if ns = '''' then a else a\<lparr>ko_Namespace := ns\<rparr>) = (w1, Inr name)"
    and "ku_mapping K w1 target b = Inl e"
  shows "k8s_Submit K w target c = (w1, Inl (''unknown kind '' @ ku_gvk K b @ '' (is its CRD installed?): '' @ e))"
  using assms by (cases "ns = ''''") (simp_all add: k8s_Submit_def Let_def)

theorem k8s_submit_leaves_objects_witness:
  "k8s_Submit (demo_kube [demo_object ''Job'', demo_object ''Queue'']) [] demo_target demo_manifest =
     ([''Job''], Inl (''unknown kind '' @ ''Queue'' @ '' (is its CRD installed?): '' @ ''no match''))"
  using k8s_submit_leaves_objects [of demo_manifest "demo_kube [demo_object ''Job'', demo_object ''Queue'']"
      "demo_object ''Job''" "demo_object ''Queue''" "[]" "[]" demo_target
      "\<lparr>km_Resource = ''jobs'', km_Group = ''batch'', km_Namespaced = True\<rparr>" "''default''" "[''Job'']" "''app''" "''no match''"]
  by (simp add: demo_manifest_def demo_decode demo_connect resourceFor_def)

text \<open>
  One failed pod is final. A poll of a \<open>Job\<close> with a failed pod reports \<open>Failed\<close>, however many
  of its pods are still active and even when it has succeeded since; for a job that a custom
  resource owns, the same counters read \<open>Completed\<close>.
\<close>

theorem k8s_failed_pod_is_final:
  assumes "parseHandle h = (res, grp, ns, name)" "realConnect K w target = None" "ku_resource K w target grp res = Inr m"
    and "ku_get K w target m ns name = Inr u" "ko_Kind u = ''Job''" "ko_failed u > 0"
  shows "k8s_Status K w target h = (w, Inr (Failed, ''k8s job failed ('' @ int_text (ko_failed u) @ '')'')) \<and>
    (if ko_succeeded u > 0 then owned_scan uid [\<lparr>kj_Name = name, kj_owners = [uid], kj_Succeeded = ko_succeeded u,
       kj_Failed = ko_failed u\<rparr>] = Some (Completed, ''job '' @ name @ '' succeeded'') else True)"
  using assms by (simp add: k8s_Status_def Let_def readState_def Terminal_def)

theorem k8s_failed_pod_is_final_witness:
  "k8s_Status (demo_kube []) [''Job''] demo_target (encodeHandle ''jobs'' ''batch'' ''default'' ''app'') =
     ([''Job''], Inr (Failed, ''k8s job failed ('' @ int_text 1 @ '')''))"
proof -
  have "parseHandle (encodeHandle ''jobs'' ''batch'' ''default'' ''app'') = (''jobs'', ''batch'', ''default'', ''app'')"
    by (rule parse_encode) simp_all
  from k8s_failed_pod_is_final [OF this demo_connect(1), of "[]" "[''Job'']"
      "\<lparr>km_Resource = ''jobs'', km_Group = ''batch'', km_Namespaced = True\<rparr>" "demo_object ''Job''"]
  show ?thesis by simp
qed

text \<open>
  With the drivers of the program the books balance outright. For a server that dispatches
  every cluster through the Kubernetes driver and the library driver of Flux, whatever their
  clusters answer, each reserved node of every reachable state belongs to exactly one unfinished
  job, finished jobs hold nothing and waiting jobs have no allocation.
\<close>

theorem real_fleet_accounted:
  assumes "ev_Matcher e = SimMatcher" "real_env K L e" "mgr_reach e (NewManager empty_sim w) s"
  shows "(\<forall>c v. v \<in> held (mg_Matcher s) c \<longrightarrow> (\<exists>!i. \<exists>j. job_at s i = Some j \<and>
      (c, v) \<in> sim_owns (mg_Matcher s) (jb_AllocID j) \<and> \<not> Terminal (jb_State j))) \<and>
    (\<forall>i j. job_at s i = Some j \<longrightarrow> Terminal (jb_State j) \<longrightarrow> sim_owns (mg_Matcher s) (jb_AllocID j) = {}) \<and>
    (\<forall>i j. job_at s i = Some j \<longrightarrow> jb_State j = Submitted \<longrightarrow> jb_AllocID j = '''')"
  using assms(1,3) real_reports [OF assms(2)]
  by (intro books_account sims.ok_reach [OF _ _ sim_inv_empty]) (simp_all add: sim_owns_def empty_sim_def)

definition demo_flux :: "string list libflux" where
  "demo_flux = \<lparr>lf_open = (\<lambda>w u. None), lf_submit = (\<lambda>w u s. (w, Inr (Inr 1))), lf_state = (\<lambda>w u i. (w, Inr (Inr 16))),
     lf_result = (\<lambda>w u i. None), lf_cancel = (\<lambda>w u i. (w, Inr None)), lf_encode = (\<lambda>i. None),
     lf_parse = (\<lambda>s. None), lf_exitcode = (\<lambda>s. 0)\<rparr>"

definition demo_real_env :: "(sim, string list) env" where
  "demo_real_env = \<lparr>ev_Matcher = SimMatcher, ev_Policy = FCFS, ev_Scorer = FirstFeasible,
     ev_Transform = (\<lambda>w js c. (w, Inr demo_manifest)), ev_Repair = None, ev_Drivers = Map.empty,
     ev_RealDrivers = Some (real_registry (demo_kube [demo_object ''Job'']) demo_flux), ev_Reconciler = None,
     ev_AutoResubmit = False, ev_validate = defaultValidate (\<lambda>_. None), ev_staged = False,
     ev_source = (\<lambda>_ _. 0), ev_seed = (\<lambda>_. 0)\<rparr>"

theorem real_fleet_accounted_witness:
  "\<exists>j. job_at (fst (Submit one_node_job (NewManager empty_sim [] :: (sim, string list) mgr))) ''job-0001'' = Some j \<and>
     jb_State j = Submitted \<and> jb_AllocID j = ''''"
proof -
  let ?s = "fst (Submit one_node_job (NewManager empty_sim [] :: (sim, string list) mgr))"
  have e: "ev_Matcher demo_real_env = SimMatcher" "real_env (demo_kube [demo_object ''Job'']) demo_flux demo_real_env"
    by (simp_all add: demo_real_env_def real_env_def)
  have "mgr_reach demo_real_env (NewManager empty_sim []) ?s"
    by (rule mgr_reach.step [OF mgr_reach.start mgr_step.submit]) (simp add: Submit_def Let_def NewManager_def)
  from real_fleet_accounted [OF e this] have a: "job_at ?s i = Some j \<Longrightarrow> jb_State j = Submitted \<Longrightarrow> jb_AllocID j = ''''" for i j
    by blast
  obtain j where "job_at ?s ''job-0001'' = Some j" "jb_State j = Submitted"
    by (simp add: Submit_def Let_def NewManager_def jobID_1 Enqueue_def store_def NewMemory_def q_Get_def fresh_job_def)
  then show ?thesis using a by blast
qed

end
