(* ===== verification/Transform.thy ===== *)
theory Transform
  imports Emulator K8sDriver
begin

text \<open>
  Package \<open>pkg/transform\<close>: from a jobspec and the cluster it was placed on to the artifact the
  driver of that cluster takes. \<open>transform.go\<close> holds the templates, \<open>agent.go\<close> the transformer
  that asks a language model for the same; the exchange with the model's service is a parameter.
  Text is ASCII. A template is the list of its lines; \<open>None\<close> stands for a run that does not
  return, which the count of a cluster's gpus needs on a cyclic containment graph.
\<close>

definition block :: "string list \<Rightarrow> string" where
  "block ls = concat (map (\<lambda>l. l @ [newline]) ls)"

definition TrimRight :: "string \<Rightarrow> char \<Rightarrow> string" where
  "TrimRight s c = rev (dropWhile (\<lambda>d. d = c) (rev s))"

section \<open>The prompt\<close>

definition BuildPrompt :: "jobspec \<Rightarrow> cluster_graph \<Rightarrow> string" where
  "BuildPrompt js target = block
     ([''Transform this job for cluster '' @ go_quote (cg_ID target) @ '' (manager: '' @ cg_Manager target @ '').'',
       ''Preserve the application'' @ [squote] @ ''s needs exactly; do not change the problem size.'',
       ''Container image: '' @ Image js,
       ''Command: '' @ join '' '' (Command js),
       ''Resources: '' @ int_text (Nodes js) @ '' nodes x '' @ int_text (CoresPerNode js) @ '' cores/node x '' @
         int_text (TasksTotal js) @ '' tasks total'' @
         (if GPUsPerNode js > 0 then '', '' @ int_text (GPUsPerNode js) @ '' gpus/node'' else '''')] @
      (if cg_Manager target = K8sJob then [''Emit a Kubernetes batch/v1 Job manifest.'']
       else if cg_Manager target = FluxOperator then [''Emit a Flux Operator MiniCluster manifest.'']
       else if cg_Manager target = SlurmOperator then [''Emit a Slurm job for the slurm-operator.'']
       else if cg_Manager target = FluxURI
         then [''Emit an RFC 25 jobspec (JSON) '' @ map char_of [226, 128, 148 :: nat] @ '' flux is jobspec-native.'']
       else []))"

section \<open>Names, lists and words\<close>

definition quoteList :: "string list \<Rightarrow> string" where
  "quoteList xs = join '', '' (map go_quote xs)"

text \<open>The characters that make \<open>shQuote\<close> quote a token.\<close>

definition sh_special :: "char list" where
  "sh_special = [CHR '' '', char_of (9 :: nat), newline, squote, dquote, backslash] @ ''$`&|;<>()*?[]{}#~!''"

definition shQuote :: "string \<Rightarrow> string" where
  "shQuote s = (if s \<noteq> '''' \<and> list_all (\<lambda>c. c \<notin> set sh_special) s then s else shquote s)"

definition shJoin :: "string list \<Rightarrow> string" where
  "shJoin args = join '' '' (map shQuote args)"

definition dns_char :: "char \<Rightarrow> char" where
  "dns_char c = (if c \<in> set ''abcdefghijklmnopqrstuvwxyz0123456789-.'' then c else CHR ''-'')"

definition dns_sep :: "char \<Rightarrow> bool" where
  "dns_sep c \<longleftrightarrow> c = CHR ''-'' \<or> c = CHR ''.''"

definition trim_seps :: "string \<Rightarrow> string" where
  "trim_seps s = rev (dropWhile dns_sep (rev (dropWhile dns_sep s)))"

definition dnsSafe :: "string \<Rightarrow> string" where
  "dnsSafe s =
     (let trimmed = trim_seps (map (\<lambda>c. dns_char (lower c)) s);
          trimmed = (if length trimmed > 253 then trim_seps (take 253 trimmed) else trimmed)
      in if trimmed = '''' then ''job'' else trimmed)"

definition objectName :: "jobspec \<Rightarrow> string" where
  "objectName js =
     (let name = (if Name js = '''' then ''job'' else Name js);
          name = (if JobID js \<noteq> '''' then name @ ''-'' @ JobID js else name)
      in dnsSafe name)"

section \<open>The view of a MiniCluster\<close>

definition isArm :: "cluster_graph \<Rightarrow> bool" where
  "isArm target = (case map_of (cg_Subsystems target) ''architecture'' of
     None \<Rightarrow> False
   | Some g \<Rightarrow> list_ex (\<lambda>v. v_type v = ''arm64'' \<or> v_type v = ''aarch64'' \<or> v_type v = ''arm'') (g_nodes g))"

text \<open>A difference at one place decides, an equality leaves it to the rest.\<close>

definition cmp_at :: "int \<Rightarrow> int \<Rightarrow> int \<Rightarrow> int" where
  "cmp_at x y rest = (if x \<noteq> y then (if x < y then -1 else 1) else rest)"

fun cmp_parts :: "string list \<Rightarrow> string list \<Rightarrow> int" where
  "cmp_parts [] [] = 0"
| "cmp_parts (a # as) [] = cmp_at (Atoi a) 0 (cmp_parts as [])"
| "cmp_parts [] (b # bs) = cmp_at 0 (Atoi b) (cmp_parts [] bs)"
| "cmp_parts (a # as) (b # bs) = cmp_at (Atoi a) (Atoi b) (cmp_parts as bs)"

definition compareVersions :: "string \<Rightarrow> string \<Rightarrow> int" where
  "compareVersions a b = cmp_parts (split_on (CHR ''.'') a) (split_on (CHR ''.'') b)"

definition first_string :: "(string \<times> gany) list \<Rightarrow> string list \<Rightarrow> string" where
  "first_string c ks = (case List.find (\<lambda>k. case map_of c k of Some (GStr v) \<Rightarrow> v \<noteq> '''' | _ \<Rightarrow> False) ks of
     None \<Rightarrow> '''' | Some k \<Rightarrow> (case map_of c k of Some (GStr v) \<Rightarrow> v | _ \<Rightarrow> ''''))"

definition containerGlibc :: "jobspec \<Rightarrow> string" where
  "containerGlibc js = (case js_attributes js of
     None \<Rightarrow> ''''
   | Some a \<Rightarrow> (case map_of (a_user a) ''container'' of
       Some (GMap c) \<Rightarrow> first_string c [''libc_version'', ''glibc'']
     | _ \<Rightarrow> ''''))"

record flux_view =
  fv_image :: string
  fv_glibc :: string
  fv_python :: string
  fv_arm :: bool

definition view_repo :: string where
  "view_repo = ''ghcr.io/converged-computing/flux-view-ubuntu:''"

definition secretaryViews :: "flux_view list" where
  "secretaryViews =
     [\<lparr>fv_image = view_repo @ ''tag-noble'', fv_glibc = ''2.39'', fv_python = ''python3.13'', fv_arm = False\<rparr>,
      \<lparr>fv_image = view_repo @ ''jammy'', fv_glibc = ''2.35'', fv_python = ''python3.14'', fv_arm = False\<rparr>,
      \<lparr>fv_image = view_repo @ ''tag-focal'', fv_glibc = ''2.31'', fv_python = ''python3.11'', fv_arm = False\<rparr>,
      \<lparr>fv_image = view_repo @ ''arm-noble'', fv_glibc = ''2.39'', fv_python = ''python3.13'', fv_arm = True\<rparr>,
      \<lparr>fv_image = view_repo @ ''jammy-arm'', fv_glibc = ''2.35'', fv_python = ''python3.14'', fv_arm = True\<rparr>,
      \<lparr>fv_image = view_repo @ ''arm-focal'', fv_glibc = ''2.31'', fv_python = ''python3.11'', fv_arm = True\<rparr>]"

definition defaultViewGlibc :: string where
  "defaultViewGlibc = ''2.35''"

definition view_glibc :: "jobspec \<Rightarrow> string" where
  "view_glibc js = (if containerGlibc js = '''' then defaultViewGlibc else containerGlibc js)"

text \<open>The loop over the table; \<open>best\<close> is an image and its glibc, empty at first.\<close>

fun best_view :: "bool \<Rightarrow> string \<Rightarrow> flux_view list \<Rightarrow> string \<times> string \<Rightarrow> string \<times> string" where
  "best_view arm have [] best = best"
| "best_view arm have (v # vs) best =
     (if fv_arm v \<noteq> arm \<or> compareVersions (fv_glibc v) have > 0 then best_view arm have vs best
      else if fst best = '''' \<or> compareVersions (fv_glibc v) (snd best) > 0
      then best_view arm have vs (fv_image v, fv_glibc v)
      else best_view arm have vs best)"

definition bool_text :: "bool \<Rightarrow> string" where
  "bool_text b = (if b then ''true'' else ''false'')"

definition secretaryView :: "jobspec \<Rightarrow> cluster_graph \<Rightarrow> bool \<Rightarrow> string + string" where
  "secretaryView js target arm =
     (if Cfg target ''secretary_view'' = ''none'' then Inr ''''
      else if Cfg target ''secretary_view'' \<noteq> '''' then Inr (Cfg target ''secretary_view'')
      else (case best_view arm (view_glibc js) secretaryViews ('''', '''') of (img, _) \<Rightarrow>
        (if img = '''' then Inl (''no flux view fits image glibc '' @ view_glibc js @ '' (arm='' @ bool_text arm @
           ''): a view links against the container'' @ [squote] @ ''s libc, so a newer one will not load'')
         else Inr img)))"

section \<open>The parts of a MiniCluster\<close>

definition gpu_vendor :: "cluster_graph \<Rightarrow> string" where
  "gpu_vendor target = (case List.find (SubsystemHas target ''gpu'') [''nvidia'', ''amd''] of
     None \<Rightarrow> '''' | Some v \<Rightarrow> v)"

definition gpu_limits :: "jobspec \<Rightarrow> cluster_graph \<Rightarrow> (string + string list) option" where
  "gpu_limits js target =
     (if GPUsPerNode js > 0 then
        (case cg_GPUsPerNode target of
           None \<Rightarrow> None
         | Some ngpu \<Rightarrow> Some
             (if ngpu < 1 then Inl (''job requires a GPU but cluster '' @ go_quote (cg_ID target) @
                '' advertises none: dispatching would run with no device'')
              else if gpu_vendor target = '''' then Inl (''job requires a GPU but cluster '' @ go_quote (cg_ID target) @
                '' does not say which vendor: cannot write a resource limit'')
              else Inr [gpu_vendor target @ ''.com/gpu: '' @ int_text ngpu]))
      else Some (Inr []))"

definition deviceResources :: "jobspec \<Rightarrow> cluster_graph \<Rightarrow> (string + string) option" where
  "deviceResources js target = (case gpu_limits js target of
     None \<Rightarrow> None
   | Some (Inl e) \<Rightarrow> Some (Inl e)
   | Some (Inr gpus) \<Rightarrow>
       (let limits = gpus @ (if SubsystemHas target ''network'' ''efa'' then [''vpc.amazonaws.com/efa: 1''] else [])
        in Some (Inr (if limits = [] then ''''
             else block ([''      resources:'', ''        limits:''] @ map (\<lambda>l. ''          '' @ l) limits)))))"

definition view_mount_of :: "cluster_graph \<Rightarrow> string" where
  "view_mount_of target =
     (let mount = (if Cfg target ''view_mount'' = '''' then ''/mnt/flux'' else Cfg target ''view_mount'')
      in TrimRight mount (CHR ''/''))"

definition secretaryPythonFor :: "cluster_graph \<Rightarrow> string \<Rightarrow> string" where
  "secretaryPythonFor target view =
     (if Cfg target ''secretary_python'' \<noteq> '''' then Cfg target ''secretary_python''
      else view_mount_of target @ ''/view/bin/'' @
        (case List.find (\<lambda>v. fv_image v = view) secretaryViews of None \<Rightarrow> ''python3.11'' | Some v \<Rightarrow> fv_python v))"

definition secretaryInstall :: "cluster_graph \<Rightarrow> string \<Rightarrow> string list" where
  "secretaryInstall target view =
     (let pkg = (if Cfg target ''secretary_package'' = '''' then ''flux-secretary[all]'' else Cfg target ''secretary_package'');
          py = secretaryPythonFor target view
      in if pkg = ''none'' then []
         else [py @ '' -m ensurepip'', py @ '' -m pip install --no-cache-dir '' @ pkg])"

definition parse_Atoi :: "string \<Rightarrow> int option" where
  "parse_Atoi s =
     (let ds = (if s \<noteq> [] \<and> (hd s = CHR ''-'' \<or> hd s = CHR ''+'') then tl s else s)
      in if ds = [] \<or> \<not> list_all is_digit ds then None
         else (let v = (if hd s = CHR ''-'' then - int (digits_val ds) else int (digits_val ds))
               in if fits64 v then Some v else None))"

definition secretary_attempts :: "cluster_graph \<Rightarrow> int" where
  "secretary_attempts target =
     (case parse_Atoi (Cfg target ''secretary_attempts'') of Some n \<Rightarrow> if n > 0 then n else 10 | None \<Rightarrow> 10)"

definition secretaryCommand :: "jobspec \<Rightarrow> cluster_graph \<Rightarrow> string" where
  "secretaryCommand js target =
     (let model = (if Cfg target ''secretary_model'' = '''' then ''us.anthropic.claude-opus-5''
                   else Cfg target ''secretary_model'');
          flags = '' --attempts '' @ int_text (secretary_attempts target) @
            (if model \<noteq> ''none'' then '' --model '' @ model else '''')
      in ''flux-secretary run --nodes '' @ int_text (Nodes js) @ flags @ '' -- '' @ join '' '' (Command js))"

definition secretaryVolume :: "cluster_graph \<Rightarrow> string" where
  "secretaryVolume target =
     (if Cfg target ''secretary_secret'' = '''' then ''''
      else block [''      volumes:'', ''        secretary-token:'', ''          path: /etc/flux-secretary'',
        ''          secretName: '' @ Cfg target ''secretary_secret''])"

definition fluxBlock :: "jobspec \<Rightarrow> cluster_graph \<Rightarrow> string + string" where
  "fluxBlock js target =
     (let arm = isArm target in
      case secretaryView js target arm of
        Inl e \<Rightarrow> Inl e
      | Inr view \<Rightarrow> Inr
          (if \<not> arm \<and> view = '''' then ''''
           else block ([''  flux:''] @ (if arm then [''    arch: '' @ [dquote] @ ''arm'' @ [dquote]] else []) @
             (if view \<noteq> '''' then [''    container:'', ''      image: '' @ view, ''      pullAlways: true''] else []))))"

definition preBlock :: "string list \<Rightarrow> string" where
  "preBlock cmds =
     (let keep = filter (\<lambda>c. c \<noteq> '''') cmds in
      if keep = [] then ''''
      else block ([''      commands:'', ''        pre: |''] @ map (\<lambda>c. ''          '' @ c) keep))"

definition idRange :: "int \<Rightarrow> string" where
  "idRange n = (if n \<le> 1 then ''0'' else ''0-'' @ int_text (i64 (n - 1)))"

definition fluxResources :: "cluster_graph \<Rightarrow> string list option" where
  "fluxResources target = (case cg_GPUsPerNode target of
     None \<Rightarrow> None
   | Some gpus \<Rightarrow> Some
       (if gpus < 1 then []
        else
          (let path = view_mount_of target @ ''/config/etc/flux/system/R'';
               py = (if Cfg target ''view_python'' \<noteq> '''' then Cfg target ''view_python'' else ''python3'');
               cores = ''$('' @ py @ '' -c '' @ [dquote] @ ''import os;n=len(os.sched_getaffinity(0));print('' @ [squote] @
                 ''0-%d'' @ [squote] @ ''%(n-1) if n>1 else '' @ [squote] @ ''0'' @ [squote] @ '')'' @ [dquote] @ '')''
           in [''flux R encode --hosts=${hosts} --cores='' @ cores @ '' --gpus='' @ idRange gpus @ '' > '' @ path,
               ''echo resource set the broker will read:'', ''cat '' @ path])))"

section \<open>The templates\<close>

definition k8sJob :: "jobspec \<Rightarrow> string" where
  "k8sJob js = block
     [''apiVersion: batch/v1'', ''kind: Job'', ''metadata:'', ''  name: '' @ Name js, ''spec:'',
      ''  completions: '' @ int_text (Nodes js), ''  parallelism: '' @ int_text (Nodes js),
      ''  template:'', ''    spec:'', ''      restartPolicy: Never'', ''      containers:'', ''        - name: app'',
      ''          image: '' @ Image js, ''          command: ['' @ quoteList (Command js) @ '']'']"

definition slurmJob :: "jobspec \<Rightarrow> string" where
  "slurmJob js = block
     [''apiVersion: slurm.schedmd.com/v1'', ''kind: SlurmJob'', ''metadata:'', ''  name: '' @ Name js, ''spec:'',
      ''  nodes: '' @ int_text (Nodes js), ''  ntasks: '' @ int_text (TasksTotal js), ''  image: '' @ Image js,
      ''  command: '' @ go_quote (join '' '' (Command js))]"

definition miniCluster :: "jobspec \<Rightarrow> cluster_graph \<Rightarrow> (string + string) option" where
  "miniCluster js target =
     (case deviceResources js target of
        None \<Rightarrow> None
      | Some (Inl e) \<Rightarrow> Some (Inl e)
      | Some (Inr devices) \<Rightarrow>
     (case secretaryView js target (isArm target) of
        Inl e \<Rightarrow> Some (Inl e)
      | Inr view \<Rightarrow>
     (case fluxBlock js target of
        Inl e \<Rightarrow> Some (Inl e)
      | Inr flux \<Rightarrow>
     (case fluxResources target of
        None \<Rightarrow> None
      | Some resources \<Rightarrow> Some (Inr
          (block [''apiVersion: flux-framework.org/v1alpha2'', ''kind: MiniCluster'', ''metadata:'',
             ''  name: '' @ objectName js, ''spec:'', ''  size: '' @ int_text (Nodes js), ''  tasks: 0''] @
           flux @
           block [''  containers:'', ''    - image: '' @ Image js, ''      launcher: true'',
             ''      command: '' @ go_quote (secretaryCommand js target)] @
           preBlock (secretaryInstall target view @ resources) @ devices @ secretaryVolume target))))))"

definition Stub_Transform ::
  "(fluxDoc \<Rightarrow> string + string) \<Rightarrow> jobspec \<Rightarrow> cluster_graph \<Rightarrow> (string + content) option" where
  "Stub_Transform marshal js target =
     (if cg_Manager target = FluxURI then
        (case ToFluxSpec marshal js of
           Inl e \<Rightarrow> Some (Inl e)
         | Inr spec \<Rightarrow> Some (Inr \<lparr>ct_Kind = ''jobspec'', ct_Payload = spec\<rparr>))
      else if cg_Manager target = K8sJob then Some (Inr \<lparr>ct_Kind = ''manifest'', ct_Payload = k8sJob js\<rparr>)
      else if cg_Manager target = FluxOperator then
        (case miniCluster js target of
           None \<Rightarrow> None
         | Some (Inl e) \<Rightarrow> Some (Inl e)
         | Some (Inr body) \<Rightarrow> Some (Inr \<lparr>ct_Kind = ''manifest'', ct_Payload = body\<rparr>))
      else if cg_Manager target = SlurmOperator then Some (Inr \<lparr>ct_Kind = ''manifest'', ct_Payload = slurmJob js\<rparr>)
      else Some (Inl (''no transform for manager '' @ go_quote (cg_Manager target))))"


section \<open>Text of one line\<close>

definition one_line :: "string \<Rightarrow> bool" where
  "one_line s \<longleftrightarrow> newline \<notin> set s"

lemma newline_eq: "newline = CHR 0x0A"
  by code_simp

lemma one_line_append [simp]: "one_line (s @ t) \<longleftrightarrow> one_line s \<and> one_line t"
  by (auto simp: one_line_def)

lemma one_line_Nil [simp]: "one_line ''''"
  by (simp add: one_line_def)

lemma one_line_Cons: "one_line (c # s) \<longleftrightarrow> c \<noteq> CHR 0x0A \<and> one_line s"
  by (auto simp: one_line_def newline_eq)

lemma one_line_join [simp]: "one_line sep \<Longrightarrow> one_line (join sep xs) \<longleftrightarrow> list_all one_line xs"
  by (induction sep xs rule: join.induct) auto

lemma one_line_itoa [simp]: "one_line (itoa n)"
  using itoa_digits [of n] digit_facts by (fastforce simp: one_line_def list_all_iff)

lemma one_line_int_text [simp]: "one_line (int_text n)"
  by (simp add: int_text_def one_line_Cons)

lemma one_line_quote_char: "newline \<notin> set (quote_char c)"
proof -
  have "hex_char d \<noteq> CHR 0x0A" if "d < 16" for d
  proof -
    have "list_all (\<lambda>d. hex_char d \<noteq> CHR 0x0A) [0..<16]" by code_simp
    then show ?thesis using that by (simp add: list_all_iff)
  qed
  moreover have "(of_char c :: nat) div 16 < 16" "(of_char c :: nat) mod 16 < 16"
    using nat_of_char_less_256 [of c] by (simp_all add: less_mult_imp_div_less)
  ultimately have "CHR 0x0A \<noteq> hex_char (of_char c div 16)" "CHR 0x0A \<noteq> hex_char (of_char c mod 16)" by metis+
  moreover have "CHR 0x0A \<noteq> (char_of (92 :: nat) :: char)" by code_simp
  ultimately show ?thesis unfolding newline_eq by (auto simp: quote_char_def Let_def)
qed

lemma one_line_go_quote [simp]: "one_line (go_quote s)"
  using one_line_quote_char by (auto simp: go_quote_def one_line_def newline_def)

lemma one_line_quoteList [simp]: "one_line (quoteList xs)"
  by (simp add: quoteList_def list_all_iff one_line_Cons)

lemma dns_set: "set (dnsSafe s) \<subseteq> set ''abcdefghijklmnopqrstuvwxyz0123456789-.''"
proof -
  have trim: "set (trim_seps t) \<subseteq> set t" for t
    unfolding trim_seps_def by (metis set_dropWhileD set_rev subsetI)
  have "dns_char c \<in> set ''abcdefghijklmnopqrstuvwxyz0123456789-.''" for c
    by (simp add: dns_char_def)
  then have "set (map (\<lambda>c. dns_char (lower c)) s) \<subseteq> set ''abcdefghijklmnopqrstuvwxyz0123456789-.''" by auto
  then have "set (trim_seps (map (\<lambda>c. dns_char (lower c)) s)) \<subseteq> set ''abcdefghijklmnopqrstuvwxyz0123456789-.''"
    using trim by (rule subset_trans [rotated])
  moreover have "set (trim_seps (take n t)) \<subseteq> set t" for n and t :: string
    using trim [of "take n t"] set_take_subset [of n t] by simp
  moreover have "set ''job'' \<subseteq> set ''abcdefghijklmnopqrstuvwxyz0123456789-.''" by simp
  ultimately show ?thesis unfolding dnsSafe_def Let_def by (auto simp del: list.set)
qed

lemma one_line_objectName [simp]: "one_line (objectName js)"
proof -
  have "newline \<notin> set ''abcdefghijklmnopqrstuvwxyz0123456789-.''" by (simp add: newline_eq)
  then show ?thesis unfolding objectName_def Let_def one_line_def using dns_set by blast
qed

definition one_line_config :: "cluster_graph \<Rightarrow> bool" where
  "one_line_config target \<longleftrightarrow> list_all (\<lambda>(k, v). one_line v) (cg_Config target)"

lemma one_line_Cfg [simp]: "one_line_config target \<Longrightarrow> one_line (Cfg target k)"
  by (auto simp: Cfg_def one_line_config_def list_all_iff dest: map_of_SomeD split: option.split)

section \<open>Blocks of lines\<close>

lemma block_append: "block (xs @ ys) = block xs @ block ys"
  by (simp add: block_def)

lemma split_block: "list_all one_line ls \<Longrightarrow> split_lines (block ls @ t) = ls @ split_lines t"
proof (induction ls)
  case (Cons l ls)
  have "split_lines l = [l]" if "newline \<notin> set l" for l using that by (induction l) auto
  then show ?case using Cons split_lines_append [of l "block ls @ t"] by (simp add: block_def one_line_def)
qed (simp add: block_def)

lemma Contains_block: "l \<in> set ls \<Longrightarrow> Contains l p \<Longrightarrow> Contains (block ls) p"
proof -
  assume "l \<in> set ls" "Contains l p"
  then obtain xs ys where "ls = xs @ l # ys" "sublist p l" by (auto simp: in_set_conv_decomp Contains_sublist)
  then have "block ls = block xs @ l @ (newline # block ys)" by (simp add: block_def)
  then show ?thesis using \<open>sublist p l\<close> unfolding Contains_sublist
    by (metis sublist_appendI sublist_order.order.trans)
qed

text \<open>A line that sets neither field of the header.\<close>

definition quiet :: "string \<Rightarrow> bool" where
  "quiet l \<longleftrightarrow> \<not> prefix ''apiVersion:'' l \<and> \<not> prefix ''kind:'' l"

lemma scan_quiet: "quiet l \<Longrightarrow> scan_line l acc = acc"
  by (cases acc) (simp add: scan_line_def quiet_def topField_def HasPrefix_prefix)

lemma quiet_prefix: "prefix p l \<Longrightarrow> quiet l \<Longrightarrow> quiet p"
  unfolding quiet_def using prefix_order.trans by blast

lemma lines_of_prefix:
  "prefix t s \<Longrightarrow> \<exists>ls p l rest. split_lines t = ls @ [p] \<and> split_lines s = ls @ l # rest \<and> prefix p l"
proof (induction t arbitrary: s)
  case Nil
  obtain l ls where "split_lines s = l # ls" using split_lines_nonempty by (metis list.exhaust)
  then show ?case by (metis append_Nil Nil_prefix split_lines.simps(1))
next
  case (Cons c t)
  then obtain s' where s: "s = c # s'" "prefix t s'" by (auto simp: prefix_Cons elim: prefixE)
  obtain ls p l rest where IH: "split_lines t = ls @ [p]" "split_lines s' = ls @ l # rest" "prefix p l"
    using Cons.IH [OF s(2)] by blast
  show ?case
  proof (cases "c = newline")
    case True
    have "split_lines (c # t) = ([] # ls) @ [p]" "split_lines s = ([] # ls) @ l # rest"
      using True IH by (simp_all add: s(1))
    then show ?thesis using IH(3) by blast
  next
    case False
    show ?thesis
    proof (cases ls)
      case Nil
      have "split_lines (c # t) = [] @ [c # p]" "split_lines s = [] @ (c # l) # rest" "prefix (c # p) (c # l)"
        using False IH by (simp_all add: s(1) Nil)
      then show ?thesis by blast
    next
      case (Cons k ks)
      have "split_lines (c # t) = ((c # k) # ks) @ [p]" "split_lines s = ((c # k) # ks) @ l # rest"
        using False IH by (simp_all add: s(1) Cons)
      then show ?thesis using IH(3) by blast
    qed
  qed
qed

lemma quiet_fold: "list_all quiet ls \<Longrightarrow> foldl (\<lambda>acc line. scan_line line acc) acc ls = acc"
  by (induction ls arbitrary: acc) (simp_all add: scan_quiet)

text \<open>
  A manifest of which the first two lines are the header: cutting the blanks at its end
  leaves the header what it was.\<close>

lemma scan_manifest:
  assumes "list_all one_line ls" "list_all quiet ls" "one_line v" "one_line k" "TrimSpace v = v" "TrimSpace k = k"
    and "l \<in> set ls" "\<not> is_space c" "c \<in> set l"
    and s: "s = block ([''apiVersion: '' @ v, ''kind: '' @ k] @ ls)"
  shows "scanManifestHeader (TrimSpace s) = (v, k) \<and> TrimSpace s \<noteq> '''' \<and> sublist (TrimSpace s) s"
proof -
  let ?h = "block [''apiVersion: '' @ v, ''kind: '' @ k]"
  let ?b = "rev (dropWhile is_space (rev (block ls)))"
  have c: "c \<in> set (block ls)" using assms(7,9) by (auto simp: block_def)
  have a: "dropWhile is_space s = s" by (simp add: s block_def is_space_def)
  have t: "TrimSpace s = ?h @ ?b"
    unfolding TrimSpace_def a unfolding s block_append rev_append
    using dropWhile_append1 [of c "rev (block ls)" is_space] c assms(8) by simp
  have p: "prefix ?b (block ls)"
    by (metis suffix_dropWhile suffix_to_prefix rev_rev_ident)
  have "list_all quiet (split_lines (block ls))"
    using split_block [OF assms(1), of "''''"] assms(2) by (simp add: quiet_def)
  then have q: "list_all quiet (split_lines ?b)"
    using lines_of_prefix [OF p] quiet_prefix by fastforce
  have tab: "(char_of (9 :: nat) :: char) = CHR 0x09" by code_simp
  have blanks: "TrimSpace (CHR '' '' # t) = TrimSpace t" for t by (simp add: TrimSpace_def is_space_def)
  have one: "scan_line (''apiVersion: '' @ v) ('''', '''') = (v, '''')"
    using blanks [of v] assms(5) by (simp add: tab scan_line_def topField_def HasPrefix_def TrimPrefix_def)
  have two: "scan_line (''kind: '' @ k) (v, '''') = (v, k)"
    using blanks [of k] assms(6) by (simp add: tab scan_line_def topField_def HasPrefix_def TrimPrefix_def)
  have "split_lines (?h @ ?b) = [''apiVersion: '' @ v, ''kind: '' @ k] @ split_lines ?b"
    by (rule split_block) (use assms(3,4) in \<open>simp add: one_line_Cons\<close>)
  then have "scanManifestHeader (?h @ ?b) = (v, k)"
    unfolding scanManifestHeader_def using one two quiet_fold [OF q] by simp
  moreover have "sublist (?h @ ?b) s"
    using p unfolding s block_append by (auto simp: prefix_def)
  ultimately show ?thesis unfolding t by (simp add: block_def)
qed


section \<open>The artifacts of the templates\<close>

text \<open>
  The lines below the header of each template.\<close>

lemma k8sJob_lines: "\<exists>ls. k8sJob js = block ([''apiVersion: batch/v1'', ''kind: Job''] @ ls) \<and>
    (one_line (Name js) \<and> one_line (Image js) \<longrightarrow> list_all one_line ls) \<and> list_all quiet ls \<and> ''metadata:'' \<in> set ls"
  by (rule exI [of _ "drop 2 [''apiVersion: batch/v1'', ''kind: Job'', ''metadata:'', ''  name: '' @ Name js, ''spec:'',
      ''  completions: '' @ int_text (Nodes js), ''  parallelism: '' @ int_text (Nodes js),
      ''  template:'', ''    spec:'', ''      restartPolicy: Never'', ''      containers:'', ''        - name: app'',
      ''          image: '' @ Image js, ''          command: ['' @ quoteList (Command js) @ '']'']"])
    (simp add: k8sJob_def one_line_Cons quiet_def)

lemma slurmJob_lines: "\<exists>ls. slurmJob js = block ([''apiVersion: slurm.schedmd.com/v1'', ''kind: SlurmJob''] @ ls) \<and>
    (one_line (Name js) \<and> one_line (Image js) \<longrightarrow> list_all one_line ls) \<and> list_all quiet ls \<and> ''metadata:'' \<in> set ls"
  by (rule exI [of _ "[''metadata:'', ''  name: '' @ Name js, ''spec:'',
      ''  nodes: '' @ int_text (Nodes js), ''  ntasks: '' @ int_text (TasksTotal js), ''  image: '' @ Image js,
      ''  command: '' @ go_quote (join '' '' (Command js))]"])
    (simp add: slurmJob_def one_line_Cons quiet_def)

text \<open>A part of a MiniCluster: indented lines, each on one line when the words put into it are.\<close>

definition part :: "bool \<Rightarrow> string \<Rightarrow> bool" where
  "part ok s \<longleftrightarrow> (\<exists>ls. s = block ls \<and> (ok \<longrightarrow> list_all one_line ls) \<and> list_all (\<lambda>l. l \<noteq> '''' \<and> hd l = CHR '' '') ls)"

lemma part_Nil [simp]: "part ok ''''"
  unfolding part_def by (rule exI [of _ "[]"]) (simp add: block_def)

lemma part_block: "(ok \<Longrightarrow> list_all one_line ls) \<Longrightarrow> list_all (\<lambda>l. l \<noteq> '''' \<and> hd l = CHR '' '') ls \<Longrightarrow> part ok (block ls)"
  unfolding part_def by blast

lemma part_append: "part ok s \<Longrightarrow> part ok t \<Longrightarrow> part ok (s @ t)"
proof -
  assume "part ok s" "part ok t"
  then obtain ss ts where "s = block ss" "t = block ts" "ok \<longrightarrow> list_all one_line ss" "ok \<longrightarrow> list_all one_line ts"
      "list_all (\<lambda>l. l \<noteq> '''' \<and> hd l = CHR '' '') ss" "list_all (\<lambda>l. l \<noteq> '''' \<and> hd l = CHR '' '') ts"
    unfolding part_def by blast
  then show ?thesis by (auto simp flip: block_append intro: part_block)
qed

lemma quiet_indented: "l \<noteq> '''' \<Longrightarrow> hd l = CHR '' '' \<Longrightarrow> quiet l"
  by (cases l) (auto simp: quiet_def)

lemma part_devices: "deviceResources js target = Some (Inr d) \<Longrightarrow> part ok d"
proof -
  assume d: "deviceResources js target = Some (Inr d)"
  then obtain gpus where g: "gpu_limits js target = Some (Inr gpus)"
    by (auto simp: deviceResources_def split: option.splits sum.splits)
  have v: "one_line (gpu_vendor target)"
    by (auto simp: gpu_vendor_def one_line_Cons split: option.splits)
  have "list_all one_line gpus"
    using g v by (auto simp: gpu_limits_def one_line_Cons split: option.splits if_splits)
  then show ?thesis
    using d g by (auto simp: deviceResources_def Let_def one_line_Cons list_all_iff intro!: part_block split: if_splits)
qed

lemma part_flux: "fluxBlock js target = Inr f \<Longrightarrow> part (one_line_config target) f"
proof -
  assume f: "fluxBlock js target = Inr f"
  then obtain view where v: "secretaryView js target (isArm target) = Inr view"
    by (auto simp: fluxBlock_def Let_def split: sum.splits)
  have table: "one_line (fst (best_view arm have vs best))" if "one_line (fst best)" "\<forall>v \<in> set vs. one_line (fv_image v)"
    for arm "have" vs best
    using that by (induction vs arbitrary: best) auto
  have images: "\<forall>v \<in> set secretaryViews. one_line (fv_image v)"
    by (simp add: secretaryViews_def view_repo_def one_line_Cons)
  have "one_line view" if "one_line_config target"
    using v table [OF _ images, of "('''', '''')"] that
    by (auto simp: secretaryView_def split: if_splits prod.splits) (metis fst_conv one_line_Nil)+
  then show ?thesis
    using f v by (auto simp: fluxBlock_def Let_def one_line_Cons intro!: part_block split: if_splits)
qed

lemma part_volume: "part (one_line_config target) (secretaryVolume target)"
  by (auto simp: secretaryVolume_def one_line_Cons intro!: part_block)

lemma part_pre: "(ok \<Longrightarrow> list_all one_line cmds) \<Longrightarrow> part ok (preBlock cmds)"
  by (auto simp: preBlock_def Let_def one_line_Cons list_all_iff intro!: part_block)

lemma one_line_mount: "one_line_config target \<Longrightarrow> one_line (view_mount_of target)"
proof -
  assume "one_line_config target"
  then have "one_line (if Cfg target ''view_mount'' = '''' then ''/mnt/flux'' else Cfg target ''view_mount'')"
    by (simp add: one_line_Cons)
  then show ?thesis unfolding view_mount_of_def Let_def TrimRight_def one_line_def
    by (metis set_dropWhileD set_rev)
qed

lemma one_line_install: "one_line_config target \<Longrightarrow> list_all one_line (secretaryInstall target view)"
proof -
  assume c: "one_line_config target"
  have "\<forall>v \<in> set secretaryViews. one_line (fv_python v)" by (simp add: secretaryViews_def one_line_Cons)
  then have "List.find (\<lambda>v. fv_image v = view) secretaryViews = Some v \<Longrightarrow> one_line (fv_python v)" for v
    unfolding find_Some_iff by (metis nth_mem)
  then have "one_line (secretaryPythonFor target view)"
    using c one_line_mount [OF c] by (auto simp: secretaryPythonFor_def one_line_Cons split: option.split)
  then show ?thesis using c by (simp add: secretaryInstall_def Let_def one_line_Cons)
qed

lemma one_line_resources: "one_line_config target \<Longrightarrow> fluxResources target = Some rs \<Longrightarrow> list_all one_line rs"
  using one_line_mount [of target]
  by (auto simp: fluxResources_def Let_def idRange_def one_line_Cons split: option.splits if_splits)

lemma miniCluster_lines:
  assumes "miniCluster js target = Some (Inr m)"
  shows "\<exists>ls. m = block ([''apiVersion: flux-framework.org/v1alpha2'', ''kind: MiniCluster''] @ ls) \<and>
    (one_line_config target \<and> one_line (Image js) \<longrightarrow> list_all one_line ls) \<and> list_all quiet ls \<and>
    {''metadata:'', ''  size: '' @ int_text (Nodes js), ''    - image: '' @ Image js} \<subseteq> set ls"
proof -
  let ?ok = "one_line_config target \<and> one_line (Image js)"
  obtain d view f rs where p: "deviceResources js target = Some (Inr d)"
      "secretaryView js target (isArm target) = Inr view" "fluxBlock js target = Inr f" "fluxResources target = Some rs"
    and m: "m = block [''apiVersion: flux-framework.org/v1alpha2'', ''kind: MiniCluster'', ''metadata:'',
             ''  name: '' @ objectName js, ''spec:'', ''  size: '' @ int_text (Nodes js), ''  tasks: 0''] @ f @
           block [''  containers:'', ''    - image: '' @ Image js, ''      launcher: true'',
             ''      command: '' @ go_quote (secretaryCommand js target)] @
           preBlock (secretaryInstall target view @ rs) @ d @ secretaryVolume target"
    using assms by (auto simp: miniCluster_def split: option.splits sum.splits)
  have "part (one_line_config target) (preBlock (secretaryInstall target view @ rs) @ d @ secretaryVolume target)"
    by (intro part_append part_pre part_volume part_devices [OF p(1)])
      (simp add: one_line_install one_line_resources [OF _ p(4)])
  then obtain ts where t: "preBlock (secretaryInstall target view @ rs) @ d @ secretaryVolume target = block ts"
      "one_line_config target \<longrightarrow> list_all one_line ts" "list_all (\<lambda>l. l \<noteq> '''' \<and> hd l = CHR '' '') ts"
    unfolding part_def by blast
  obtain fs where f: "f = block fs" "one_line_config target \<longrightarrow> list_all one_line fs"
      "list_all (\<lambda>l. l \<noteq> '''' \<and> hd l = CHR '' '') fs"
    using part_flux [OF p(3)] unfolding part_def by blast
  have q: "list_all quiet ts" "list_all quiet fs"
    using t(3) f(3) quiet_indented by (auto simp: list_all_iff)
  define ls where "ls = [''metadata:'', ''  name: '' @ objectName js, ''spec:'', ''  size: '' @ int_text (Nodes js),
      ''  tasks: 0''] @ fs @ [''  containers:'', ''    - image: '' @ Image js, ''      launcher: true'',
      ''      command: '' @ go_quote (secretaryCommand js target)] @ ts"
  have "m = block ([''apiVersion: flux-framework.org/v1alpha2'', ''kind: MiniCluster''] @ ls)"
    unfolding m t(1) f(1) ls_def by (simp add: block_def)
  moreover have "?ok \<longrightarrow> list_all one_line ls" using t(2) f(2) by (auto simp: ls_def one_line_Cons)
  moreover have "list_all quiet ls" using q by (simp add: ls_def quiet_def)
  moreover have "{''metadata:'', ''  size: '' @ int_text (Nodes js), ''    - image: '' @ Image js} \<subseteq> set ls"
    by (simp add: ls_def)
  ultimately show ?thesis by blast
qed

lemma manifest_accepted:
  assumes "list_all one_line ls" "list_all quiet ls" "''metadata:'' \<in> set ls"
    and v: "one_line v" "TrimSpace v = v" "v \<noteq> ''''" and k: "one_line k" "TrimSpace k = k" "k \<noteq> ''''"
    and "EqualFold k (expectedKind (cg_Manager target))" "policyScan s = ''''"
    and s: "s = block ([''apiVersion: '' @ v, ''kind: '' @ k] @ ls)"
  shows "fst (defaultValidate json_error target \<lparr>ct_Kind = ''manifest'', ct_Payload = s\<rparr>) = verdictValid"
proof -
  have "scanManifestHeader (TrimSpace s) = (v, k) \<and> TrimSpace s \<noteq> '''' \<and> sublist (TrimSpace s) s"
    by (rule scan_manifest [OF assms(1,2) v(1) k(1) v(2) k(2) assms(3), where c = "CHR ''m''"])
      (simp_all add: is_space_def s)
  moreover from this have "policyScan (TrimSpace s) = ''''"
    using assms(11) unfolding policyScan_clean by (meson sublist_order.order.trans)
  ultimately show ?thesis using assms(10) v(3) k(3) by (simp add: defaultValidate_def)
qed

text \<open>
  The emulated backends find what they look for.\<close>

lemma k8sJob_valid: "be_Validate k8sJobBackend \<lparr>ct_Kind = ''manifest'', ct_Payload = k8sJob js\<rparr> = None"
proof -
  have "Contains (k8sJob js) ''kind: Job''"
    unfolding k8sJob_def by (rule Contains_block [of "''kind: Job''"]) (simp_all add: HasPrefix_def)
  moreover have "Contains (k8sJob js) ''image:''"
    unfolding k8sJob_def by (rule Contains_block [of "''          image: '' @ Image js"]) (simp_all add: HasPrefix_def)
  moreover have "Contains (k8sJob js) ''command:''"
    unfolding k8sJob_def
    by (rule Contains_block [of "''          command: ['' @ quoteList (Command js) @ '']''"]) (simp_all add: HasPrefix_def)
  ultimately show ?thesis by simp
qed

lemma slurmJob_valid: "be_Validate slurmOperatorBackend \<lparr>ct_Kind = ''manifest'', ct_Payload = slurmJob js\<rparr> = None"
proof -
  have "Contains (slurmJob js) ''kind: SlurmJob''"
    unfolding slurmJob_def by (rule Contains_block [of "''kind: SlurmJob''"]) (simp_all add: HasPrefix_def)
  moreover have "Contains (slurmJob js) ''nodes:''"
    unfolding slurmJob_def by (rule Contains_block [of "''  nodes: '' @ int_text (Nodes js)"]) (simp_all add: HasPrefix_def)
  moreover have "Contains (slurmJob js) ''ntasks:''"
    unfolding slurmJob_def by (rule Contains_block [of "''  ntasks: '' @ int_text (TasksTotal js)"]) (simp_all add: HasPrefix_def)
  ultimately show ?thesis by simp
qed

lemma miniCluster_valid:
  assumes "''  size: '' @ n \<in> set ls" "''    - image: '' @ i \<in> set ls"
  shows "be_Validate fluxOperatorBackend \<lparr>ct_Kind = ''manifest'', ct_Payload = block ([a, ''kind: MiniCluster''] @ ls)\<rparr> = None"
proof -
  let ?m = "block ([a, ''kind: MiniCluster''] @ ls)"
  have "Contains ?m ''kind: MiniCluster''" by (rule Contains_block [of "''kind: MiniCluster''"]) (simp_all add: HasPrefix_def)
  moreover have "Contains ?m ''size:''" by (rule Contains_block [of "''  size: '' @ n"]) (simp_all add: HasPrefix_def assms [simplified])
  moreover have "Contains ?m ''image:''" by (rule Contains_block [of "''    - image: '' @ i"]) (simp_all add: HasPrefix_def assms [simplified])
  ultimately show ?thesis by simp
qed

lemma EqualFold_same [simp]: "EqualFold k k"
  by (simp add: EqualFold_def)

text \<open>
  The artifact of each template, at the gate and at the backend.\<close>

lemma stub_artifact:
  assumes "Stub_Transform (Marshal ft) js target = Some (Inr c)"
    and "cg_Manager target \<noteq> FluxURI \<Longrightarrow>
      one_line (Name js) \<and> one_line (Image js) \<and> one_line_config target \<and> policyScan (ct_Payload c) = ''''"
    and "cg_Manager target = FluxURI \<Longrightarrow> floats_ok ft (GMap (fd_attributes (flux_doc js))) \<and>
      depth (json_doc ft (flux_doc js)) \<le> maxNestingDepth \<and> json_error (ct_Payload c) = None"
  shows "cg_Manager target \<in> set KnownManagers \<and> fst (defaultValidate json_error target c) = verdictValid \<and>
    TrimSpace (ct_Payload c) \<noteq> '''' \<and> ct_Kind c = WantKind (backendFor (cg_Manager target)) \<and>
    be_Validate (backendFor (cg_Manager target)) c = None"
proof -
  have nonblank: "fst (defaultValidate json_error target c) = verdictValid \<Longrightarrow> TrimSpace (ct_Payload c) \<noteq> ''''"
    by (auto simp: defaultValidate_def Let_def)
  consider (flux) "cg_Manager target = FluxURI" | (k8s) "cg_Manager target = K8sJob"
    | (mini) "cg_Manager target = FluxOperator" | (slurm) "cg_Manager target = SlurmOperator"
    using assms(1) by (auto simp: Stub_Transform_def split: if_splits)
  then show ?thesis
  proof cases
    case flux
    then have c: "c = \<lparr>ct_Kind = ''jobspec'', ct_Payload = render (json_doc ft (flux_doc js))\<rparr>"
      using assms(1) by (simp add: Stub_Transform_def ToFluxSpec_def Marshal_def)
    have a: "floats_ok ft (GMap (fd_attributes (flux_doc js)))" "depth (json_doc ft (flux_doc js)) \<le> maxNestingDepth"
        "json_error (ct_Payload c) = None" using assms(3) flux by blast+
    have "TrimSpace (ct_Payload c) = ct_Payload c"
      by (simp add: c json_doc_def TrimSpace_def is_space_def)
    then have "fst (defaultValidate json_error target c) = verdictValid"
      using a(3) by (simp add: c defaultValidate_def Let_def json_doc_def)
    moreover have "be_Validate fluxURIBackend c = None"
      using fields_doc [OF a(1,2)] by (auto simp: c)
    ultimately show ?thesis
      using nonblank by (simp add: flux KnownManagers_def backendFor_def managers_distinct managers_distinct [symmetric] c)
  next
    case k8s
    obtain ls where l: "k8sJob js = block ([''apiVersion: batch/v1'', ''kind: Job''] @ ls)" "list_all one_line ls"
        "list_all quiet ls" "''metadata:'' \<in> set ls"
      using k8sJob_lines [of js] assms(2) k8s managers_distinct by metis
    have c: "c = \<lparr>ct_Kind = ''manifest'', ct_Payload = k8sJob js\<rparr>"
      using assms(1) k8s managers_distinct by (simp add: Stub_Transform_def)
    have "fst (defaultValidate json_error target c) = verdictValid"
      unfolding c using assms(2) k8s managers_distinct
      by (intro manifest_accepted [OF l(2-4), where v = "''batch/v1''" and k = "''Job''"])
        (auto simp: one_line_Cons TrimSpace_def is_space_def expectedKind_def c l(1))
    moreover have "be_Validate k8sJobBackend c = None" unfolding c by (rule k8sJob_valid)
    ultimately show ?thesis
      using nonblank by (simp add: k8s KnownManagers_def backendFor_def managers_distinct [symmetric] c)
  next
    case mini
    obtain m where m: "miniCluster js target = Some (Inr m)" "c = \<lparr>ct_Kind = ''manifest'', ct_Payload = m\<rparr>"
      using assms(1) mini managers_distinct by (auto simp: Stub_Transform_def split: option.splits sum.splits)
    obtain ls where l: "m = block ([''apiVersion: flux-framework.org/v1alpha2'', ''kind: MiniCluster''] @ ls)"
        "list_all one_line ls" "list_all quiet ls" "''metadata:'' \<in> set ls" "''  size: '' @ int_text (Nodes js) \<in> set ls"
        "''    - image: '' @ Image js \<in> set ls"
      using miniCluster_lines [OF m(1)] assms(2) mini managers_distinct by auto
    have "fst (defaultValidate json_error target c) = verdictValid"
      unfolding m(2) using assms(2) mini managers_distinct
      by (intro manifest_accepted [OF l(2-4), where v = "''flux-framework.org/v1alpha2''" and k = "''MiniCluster''"])
        (auto simp: one_line_Cons TrimSpace_def is_space_def expectedKind_def m(2) l(1))
    moreover have "be_Validate fluxOperatorBackend c = None"
      unfolding m(2) l(1) by (rule miniCluster_valid [OF l(5,6)])
    ultimately show ?thesis
      using nonblank by (simp add: mini KnownManagers_def backendFor_def m(2))
  next
    case slurm
    obtain ls where l: "slurmJob js = block ([''apiVersion: slurm.schedmd.com/v1'', ''kind: SlurmJob''] @ ls)"
        "list_all one_line ls" "list_all quiet ls" "''metadata:'' \<in> set ls"
      using slurmJob_lines [of js] assms(2) slurm managers_distinct by metis
    have c: "c = \<lparr>ct_Kind = ''manifest'', ct_Payload = slurmJob js\<rparr>"
      using assms(1) slurm managers_distinct by (simp add: Stub_Transform_def)
    have "fst (defaultValidate json_error target c) = verdictValid"
      unfolding c using assms(2) slurm managers_distinct
      by (intro manifest_accepted [OF l(2-4), where v = "''slurm.schedmd.com/v1''" and k = "''SlurmJob''"])
        (auto simp: one_line_Cons TrimSpace_def is_space_def expectedKind_def c l(1))
    moreover have "be_Validate slurmOperatorBackend c = None" unfolding c by (rule slurmJob_valid)
    ultimately show ?thesis
      using nonblank by (simp add: slurm KnownManagers_def backendFor_def managers_distinct [symmetric] c)
  qed
qed

section \<open>Properties\<close>


end
