(* ===== verification/Rendering.thy ===== *)
theory Rendering
  imports Transform
begin

text \<open>
  What the texts of package \<open>pkg/transform\<close> say to those who read them: the shell, the YAML
  reader, Kubernetes and the loader of the view. Readers are written here as specifications, and
  the templates are measured by what a reader gets back.
\<close>

section \<open>Double-quoted words\<close>

text \<open>The escapes of a double-quoted scalar of YAML that \<open>%q\<close> writes.\<close>

definition unescape :: "char \<Rightarrow> char" where
  "unescape e =
     (if e = CHR ''a'' then char_of (7 :: nat) else if e = CHR ''b'' then char_of (8 :: nat)
      else if e = CHR ''t'' then char_of (9 :: nat) else if e = CHR ''n'' then char_of (10 :: nat)
      else if e = CHR ''v'' then char_of (11 :: nat) else if e = CHR ''f'' then char_of (12 :: nat)
      else if e = CHR ''r'' then char_of (13 :: nat) else e)"

text \<open>The word up to the closing quote, and the text behind it.\<close>

fun read_quoted :: "string \<Rightarrow> (string \<times> string) option" where
  "read_quoted [] = None"
| "read_quoted (c # cs) =
     (if c = dquote then Some ([], cs)
      else if c = backslash then
        (case cs of
           [] \<Rightarrow> None
         | e # r \<Rightarrow>
             if e = CHR ''x'' then
               (case r of h # l # r' \<Rightarrow>
                  map_option (\<lambda>(s, t). (char_of (hex_val h * 16 + hex_val l) # s, t)) (read_quoted r')
                | _ \<Rightarrow> None)
             else map_option (\<lambda>(s, t). (unescape e # s, t)) (read_quoted r))
      else map_option (\<lambda>(s, t). (c # s, t)) (read_quoted cs))"

lemma dquote_eq: "(char_of (34 :: nat) :: char) = dquote"
  by code_simp

lemma hex_val_hex_char: "d < 16 \<Longrightarrow> hex_val (hex_char d) = d"
  by (auto simp: hex_val_def hex_char_def of_char_of Let_def)

lemma quote_char_cases:
  obtains (self) "quote_char c = [c]" "c \<noteq> dquote" "c \<noteq> backslash"
    | (esc) e where "quote_char c = [backslash, e]" "e \<noteq> CHR ''x''" "unescape e = c"
    | (hex) h l where "quote_char c = [backslash, CHR ''x'', h, l]" "char_of (hex_val h * 16 + hex_val l) = c"
proof -
  let ?n = "of_char c :: nat"
  have bs: "(char_of (92 :: nat) :: char) = backslash" by code_simp
  have c: "c = char_of ?n" by simp
  show thesis
  proof (cases "?n = 34 \<or> ?n = 92 \<or> 7 \<le> ?n \<and> ?n \<le> 13")
    case True
    then consider "?n = 34" | "?n = 92" | "?n = 7" | "?n = 8" | "?n = 9" | "?n = 10" | "?n = 11" | "?n = 12" | "?n = 13"
      by linarith
    then obtain e where "quote_char c = [backslash, e]" "e \<noteq> CHR ''x''" "unescape e = c"
    proof cases
      case 1
      then have "c = dquote" using c dquote_eq by simp
      then show ?thesis by (intro that [of dquote]) (simp_all add: quote_char_def bs unescape_def)
    next
      case 2
      then have "c = backslash" using c bs by simp
      then show ?thesis by (intro that [of backslash]) (simp_all add: quote_char_def unescape_def)
    qed (rule that, simp add: quote_char_def bs, simp, subst c, simp add: unescape_def)+
    then show ?thesis by (rule esc)
  next
    case False
    show ?thesis
    proof (cases "?n < 32 \<or> ?n = 127")
      case True
      have "?n < 256" by (rule nat_of_char_less_256)
      then have d: "?n div 16 < 16" by (simp only: less_mult_imp_div_less)
      have "quote_char c = [backslash, CHR ''x'', hex_char (?n div 16), hex_char (?n mod 16)]"
        using True False by (auto simp: quote_char_def bs Let_def)
      then show ?thesis by (rule hex) (simp add: hex_val_hex_char [OF d] hex_val_hex_char)
    next
      case b: False
      then have "c \<noteq> dquote" "c \<noteq> backslash" using False by auto
      moreover have "quote_char c = [c]" using b False by (auto simp: quote_char_def Let_def)
      ultimately show ?thesis by (intro self)
    qed
  qed
qed

lemma read_quote_char: "read_quoted (quote_char c @ t) = map_option (\<lambda>(s, r). (c # s, r)) (read_quoted t)"
proof (cases rule: quote_char_cases [of c])
  case self
  then show ?thesis by simp
next
  case (esc e)
  then show ?thesis by simp
next
  case (hex h l)
  show ?thesis unfolding hex(1) by (simp add: hex(2))
qed

lemma read_quote_chars: "read_quoted (concat (map quote_char s) @ dquote # t) = Some (s, t)"
  by (induction s) (simp_all add: read_quote_char)

lemma read_go_quote: "go_quote s @ t = dquote # u \<Longrightarrow> read_quoted u = Some (s, t)"
  using read_quote_chars [of s t] by (auto simp: go_quote_def dquote_eq)

lemma go_quote_append: "go_quote s @ t = go_quote s' @ t' \<longleftrightarrow> s = s' \<and> t = t'"
proof
  assume eq: "go_quote s @ t = go_quote s' @ t'"
  define u where "u = concat (map quote_char s) @ dquote # t"
  have u: "go_quote s @ t = dquote # u" unfolding go_quote_def dquote_eq u_def by (simp only: append.simps append_assoc)
  from read_go_quote [OF u] read_go_quote [OF trans [OF eq [symmetric] u]]
  show "s = s' \<and> t = t'" by simp
qed simp

lemma quoteList_inject: "quoteList xs = quoteList ys \<longleftrightarrow> xs = ys"
proof
  have step: "quoteList (z # zs) = go_quote z @ (if zs = [] then '''' else '', '' @ quoteList zs)" for z zs
    by (cases zs) (simp_all add: quoteList_def)
  have empty: "quoteList zs = '''' \<longleftrightarrow> zs = []" for zs
    by (cases zs) (simp_all add: step go_quote_def, simp add: quoteList_def)
  show "quoteList xs = quoteList ys \<Longrightarrow> xs = ys"
  proof (induction xs arbitrary: ys)
    case Nil
    then show ?case using empty [of ys] by (simp add: quoteList_def)
  next
    case (Cons x xs)
    then obtain y ys' where ys: "ys = y # ys'" using empty [of "x # xs"] by (cases ys) (auto simp: quoteList_def)
    have "x = y" "(if xs = [] then '''' else '', '' @ quoteList xs) = (if ys' = [] then '''' else '', '' @ quoteList ys')"
      using Cons.prems unfolding ys step go_quote_append by simp_all
    then show ?case using Cons.IH [of ys'] by (auto simp: ys split: if_splits)
  qed
qed simp

section \<open>Commands\<close>

definition with_command :: "string list \<Rightarrow> jobspec \<Rightarrow> jobspec" where
  "with_command cs js = js\<lparr>js_tasks := (case js_tasks js of [] \<Rightarrow> [] | t # ts \<Rightarrow> t\<lparr>t_command := cs\<rparr> # ts)\<rparr>"

lemma counts_with_command [simp]: "counts (with_command cs js) = counts js"
proof -
  have "js_resources (with_command cs js) = js_resources js" by (simp add: with_command_def)
  then show ?thesis unfolding counts_def by (simp only:)
qed

lemma with_command_simps [simp]:
  "Name (with_command cs js) = Name js" "Image (with_command cs js) = Image js"
  "JobID (with_command cs js) = JobID js" "Nodes (with_command cs js) = Nodes js"
  "GPUsPerNode (with_command cs js) = GPUsPerNode js" "containerGlibc (with_command cs js) = containerGlibc js"
  "Command (with_command cs js) = (if js_tasks js = [] then [] else cs)"
  by (simp_all add: Nodes_def GPUsPerNode_def)
    (simp_all add: with_command_def Name_def Image_def user_string_def JobID_def containerGlibc_def Command_def split: list.split)

lemma with_command_TasksTotal [simp]: "TasksTotal (with_command cs js) = TasksTotal js"
proof -
  have tc: "t_count (t\<lparr>t_command := cs\<rparr>) = t_count t" for t :: task by simp
  have n: "Nodes (with_command cs js) = Nodes js" by simp
  show ?thesis
    by (cases "js_tasks js") (simp_all only: TasksTotal_def n, simp_all add: with_command_def Let_def tc cong: option.case_cong if_cong)
qed

lemma with_command_parts [simp]:
  "objectName (with_command cs js) = objectName js"
  "deviceResources (with_command cs js) target = deviceResources js target"
  "secretaryView (with_command cs js) target arm = secretaryView js target arm"
  "fluxBlock (with_command cs js) target = fluxBlock js target"
  unfolding objectName_def deviceResources_def gpu_limits_def secretaryView_def view_glibc_def fluxBlock_def
    with_command_simps by (rule refl)+

lemma block_inject:
  assumes "list_all one_line xs" "list_all one_line ys" "block xs = block ys"
  shows "xs = ys"
  using split_block [OF assms(1), of "''''"] split_block [OF assms(2), of "''''"] assms(3) by simp

section \<open>Properties of the commands\<close>

text \<open>
  C36. Where the boundaries of the arguments survive. The artifact of a Kubernetes job determines the
  command argument by argument, whatever characters the arguments hold; the artifacts for Slurm
  and for a MiniCluster depend on the arguments joined by blanks only, so \<open>sh -c 'echo hi'\<close> and
  \<open>sh -c echo hi\<close> become the same job.
\<close>

theorem command_boundaries:
  assumes "one_line (Name js)" "one_line (Image js)" "one_line (Name js')" "one_line (Image js')"
  shows "(k8sJob js = k8sJob js' \<longrightarrow> Command js = Command js' \<and> Name js = Name js' \<and> Image js = Image js') \<and>
    (join '' '' cs = join '' '' (Command js) \<longrightarrow> js_tasks js \<noteq> [] \<longrightarrow>
       slurmJob (with_command cs js) = slurmJob js \<and> miniCluster (with_command cs js) target = miniCluster js target)"
proof (intro conjI impI)
  assume eq: "k8sJob js = k8sJob js'"
  have "''  name: '' @ Name js = ''  name: '' @ Name js' \<and> ''          image: '' @ Image js = ''          image: '' @ Image js' \<and>
      ''          command: ['' @ quoteList (Command js) @ '']'' = ''          command: ['' @ quoteList (Command js') @ '']''"
    using block_inject [OF _ _ eq [unfolded k8sJob_def]] assms by (simp add: one_line_Cons)
  then show "Command js = Command js'" "Name js = Name js'" "Image js = Image js'"
    by (simp_all add: quoteList_inject)
next
  assume "join '' '' cs = join '' '' (Command js)" "js_tasks js \<noteq> []"
  then have "join '' '' (Command (with_command cs js)) = join '' '' (Command js)" by simp
  then show "slurmJob (with_command cs js) = slurmJob js" "miniCluster (with_command cs js) target = miniCluster js target"
    unfolding slurmJob_def miniCluster_def secretaryCommand_def with_command_simps(1-6) with_command_parts with_command_TasksTotal
    by (simp_all only:)
qed

section \<open>Words of the shell\<close>

text \<open>
  What a shell makes of a line: words between blanks, single quotes and backslashes resolved. An
  open quote and an unquoted character with a meaning of its own have no reading here. The word
  begun so far is \<open>None\<close> between words.
\<close>

definition so_far :: "string option \<Rightarrow> string" where
  "so_far w = (case w of None \<Rightarrow> '''' | Some v \<Rightarrow> v)"

fun sh_words :: "bool \<Rightarrow> string option \<Rightarrow> string \<Rightarrow> string list option" where
  "sh_words quoted w [] = (if quoted then None else Some (case w of None \<Rightarrow> [] | Some v \<Rightarrow> [v]))"
| "sh_words True w (c # cs) =
     (if c = squote then sh_words False w cs else sh_words True (Some (so_far w @ [c])) cs)"
| "sh_words False w (c # cs) =
     (if c = squote then sh_words True (Some (so_far w)) cs
      else if c = backslash then (case cs of [] \<Rightarrow> None | d # ds \<Rightarrow> sh_words False (Some (so_far w @ [d])) ds)
      else if c \<in> {CHR '' '', CHR 0x09, CHR 0x0A} then
        (case w of None \<Rightarrow> sh_words False None cs | Some v \<Rightarrow> map_option ((#) v) (sh_words False None cs))
      else if c \<in> set sh_special then None
      else sh_words False (Some (so_far w @ [c])) cs)"

lemma so_far_Some [simp]: "so_far (Some v) = v"
  by (simp add: so_far_def)

lemma sh_words_plain:
  "list_all (\<lambda>c. c \<notin> set sh_special) s \<Longrightarrow>
     sh_words False w (s @ t) = sh_words False (if s = '''' then w else Some (so_far w @ s)) t"
proof (induction s arbitrary: w)
  case (Cons c s)
  have tab: "(char_of (9 :: nat) :: char) = CHR 0x09" by code_simp
  have "c \<noteq> squote" "c \<noteq> backslash" "c \<notin> {CHR '' '', CHR 0x09, CHR 0x0A}"
    using Cons.prems by (auto simp: sh_special_def tab newline_eq)
  then show ?case using Cons.prems Cons.IH [of "Some (so_far w @ [c])"] by (simp add: append_assoc)
qed simp

lemma sh_words_quoted:
  "sh_words True (Some v) (concat (map (\<lambda>c. if c = squote then [squote, backslash, squote, squote] else [c]) s) @ squote # t) =
     sh_words False (Some (v @ s)) t"
  by (induction s arbitrary: v) auto

lemma sh_words_shQuote: "sh_words False None (shQuote a @ t) = sh_words False (Some a) t"
proof (cases "a \<noteq> '''' \<and> list_all (\<lambda>c. c \<notin> set sh_special) a")
  case True
  then show ?thesis using sh_words_plain [of a None t] by (simp add: shQuote_def so_far_def)
next
  case False
  then have "shQuote a = shquote a" by (auto simp: shQuote_def)
  then show ?thesis using sh_words_quoted [of "''''" a t] by (simp add: shquote_def so_far_def)
qed

text \<open>
  The shell reads back the arguments. Whatever the arguments hold, a line written by \<open>shJoin\<close>
  splits into exactly these words.
\<close>

theorem shJoin_words: "sh_words False None (shJoin args) = Some args"
proof (induction args)
  case (Cons a args)
  show ?case
  proof (cases args)
    case Nil
    then show ?thesis using sh_words_shQuote [of a "''''"] by (simp add: shJoin_def)
  next
    case (Cons b bs)
    then have "shJoin (a # args) = shQuote a @ CHR '' '' # shJoin args" by (simp add: shJoin_def)
    then show ?thesis using Cons.IH sh_words_shQuote by simp
  qed
qed (simp add: shJoin_def)

section \<open>Versions\<close>

text \<open>The number at a place of a dotted version, 0 beyond its end.\<close>

definition part_at :: "string \<Rightarrow> nat \<Rightarrow> int" where
  "part_at a i = (let ps = split_on (CHR ''.'') a in if i < length ps then Atoi (ps ! i) else 0)"

definition nums_at :: "string list \<Rightarrow> nat \<Rightarrow> int" where
  "nums_at ps i = (if i < length ps then Atoi (ps ! i) else 0)"

lemma nums_at_simps [simp]: "nums_at [] 0 = 0" "nums_at (p # ps) 0 = Atoi p" "nums_at (p # ps) (Suc i) = nums_at ps i"
  by (simp_all add: nums_at_def)

text \<open>The first difference decides.\<close>

definition before_at :: "(nat \<Rightarrow> int) \<Rightarrow> (nat \<Rightarrow> int) \<Rightarrow> bool" where
  "before_at f g \<longleftrightarrow> (\<exists>i. f i < g i \<and> (\<forall>k < i. f k = g k))"

lemma before_at_step: "before_at f g \<longleftrightarrow> f 0 < g 0 \<or> f 0 = g 0 \<and> before_at (\<lambda>i. f (Suc i)) (\<lambda>i. g (Suc i))"
proof
  assume "before_at f g"
  then obtain i where i: "f i < g i" "\<forall>k < i. f k = g k" by (auto simp: before_at_def)
  show "f 0 < g 0 \<or> f 0 = g 0 \<and> before_at (\<lambda>i. f (Suc i)) (\<lambda>i. g (Suc i))"
  proof (cases i)
    case (Suc j)
    then show ?thesis using i unfolding before_at_def by auto
  qed (use i in simp)
next
  assume "f 0 < g 0 \<or> f 0 = g 0 \<and> before_at (\<lambda>i. f (Suc i)) (\<lambda>i. g (Suc i))"
  then show "before_at f g"
  proof
    assume "f 0 = g 0 \<and> before_at (\<lambda>i. f (Suc i)) (\<lambda>i. g (Suc i))"
    then obtain i where i: "f (Suc i) < g (Suc i)" "\<forall>k < i. f (Suc k) = g (Suc k)" "f 0 = g 0" by (auto simp: before_at_def)
    then have "\<forall>k < Suc i. f k = g k" by (metis less_Suc_eq_0_disj)
    then show ?thesis using i(1) unfolding before_at_def by blast
  qed (auto simp: before_at_def)
qed

lemma before_at_trans:
  assumes "before_at f g" "before_at g h"
  shows "before_at f h"
proof -
  obtain i j where i: "f i < g i" "\<forall>k < i. f k = g k" and j: "g j < h j" "\<forall>k < j. g k = h k"
    using assms by (auto simp: before_at_def)
  have "f (min i j) < h (min i j)" using i j by (cases i j rule: linorder_cases) auto
  moreover have "\<forall>k < min i j. f k = h k" using i(2) j(2) by simp
  ultimately show ?thesis unfolding before_at_def by blast
qed

lemma before_at_total: "before_at f g \<or> before_at g f \<or> f = g"
proof (cases "f = g")
  case False
  then obtain i where "f i \<noteq> g i" by auto
  define m where "m = (LEAST i. f i \<noteq> g i)"
  have "f m \<noteq> g m" unfolding m_def by (rule LeastI) (rule \<open>f i \<noteq> g i\<close>)
  then have "f m < g m \<or> g m < f m" by linarith
  moreover have "\<forall>k < m. f k = g k" unfolding m_def using not_less_Least by blast
  ultimately show ?thesis unfolding before_at_def by fastforce
qed simp

lemma before_at_irrefl: "\<not> before_at f f"
  by (simp add: before_at_def)

lemma nums_at_Suc: "(\<lambda>i. nums_at ps (Suc i)) = nums_at (tl ps)"
  by (cases ps) (simp_all add: fun_eq_iff nums_at_def)

lemmas before_nums = before_at_step [of "nums_at ps" "nums_at qs" for ps qs, unfolded nums_at_Suc]

lemma cmp_parts_cases:
  "cmp_parts ps qs = (if before_at (nums_at ps) (nums_at qs) then -1
     else if before_at (nums_at qs) (nums_at ps) then 1 else 0)"
proof (induction ps qs rule: cmp_parts.induct)
  case 1
  then show ?case by (simp add: before_at_irrefl)
next
  case (2 a as)
  show ?case using before_nums [of "a # as" "[]"] before_nums [of "[]" "a # as"] unfolding cmp_parts.simps 2
    by (cases "Atoi a" "0 :: int" rule: linorder_cases) (simp_all add: cmp_at_def)
next
  case (3 b bs)
  show ?case using before_nums [of "b # bs" "[]"] before_nums [of "[]" "b # bs"] unfolding cmp_parts.simps 3
    by (cases "Atoi b" "0 :: int" rule: linorder_cases) (simp_all add: cmp_at_def)
next
  case (4 a as b bs)
  show ?case using before_nums [of "a # as" "b # bs"] before_nums [of "b # bs" "a # as"] unfolding cmp_parts.simps 4
    by (cases "Atoi a" "Atoi b" rule: linorder_cases) (simp_all add: cmp_at_def)
qed

lemma part_at_nums: "part_at a = nums_at (split_on (CHR ''.'') a)"
  by (simp add: fun_eq_iff part_at_def nums_at_def Let_def)

lemma compareVersions_cases:
  "compareVersions a b = (if before_at (part_at a) (part_at b) then -1
     else if before_at (part_at b) (part_at a) then 1 else 0)"
  by (simp add: compareVersions_def cmp_parts_cases part_at_nums)

text \<open>
  \<open>compareVersions\<close> is the lexicographic order of the numbers between the dots, the shorter version
  padded with zeros and a part that is no number read as zero: its sign says which comes first,
  it is 0 exactly when the numbers agree, and it is antisymmetric and transitive.
\<close>

theorem compareVersions_order:
  "(compareVersions a b < 0) = before_at (part_at a) (part_at b) \<and>
   (compareVersions a b = 0) = (part_at a = part_at b) \<and> compareVersions b a = - compareVersions a b \<and>
   (compareVersions a b \<le> 0 \<longrightarrow> compareVersions b c \<le> 0 \<longrightarrow> compareVersions a c \<le> 0)"
proof -
  have asym: "\<not> (before_at f g \<and> before_at g f)" for f g
    using before_at_trans [of f g f] before_at_irrefl by blast
  have le: "compareVersions x y \<le> 0 \<longleftrightarrow> before_at (part_at x) (part_at y) \<or> part_at x = part_at y" for x y
    using before_at_total [of "part_at x" "part_at y"] asym before_at_irrefl [of "part_at y"]
    by (auto simp: compareVersions_cases)
  show ?thesis
    using asym [of "part_at a" "part_at b"] before_at_total [of "part_at a" "part_at b"] before_at_irrefl [of "part_at b"]
      before_at_trans [of "part_at a" "part_at b" "part_at c"]
    unfolding le by (auto simp: compareVersions_cases)
qed

section \<open>The view\<close>

definition view_fits :: "bool \<Rightarrow> string \<Rightarrow> flux_view \<Rightarrow> bool" where
  "view_fits arm have v \<longleftrightarrow> fv_arm v = arm \<and> compareVersions (fv_glibc v) have \<le> 0"

lemma compareVersions_refl [simp]: "compareVersions a a = 0"
  using compareVersions_cases [of a a] before_at_irrefl by simp

lemma compareVersions_trans: "compareVersions a b \<le> 0 \<Longrightarrow> compareVersions b c \<le> 0 \<Longrightarrow> compareVersions a c \<le> 0"
  using before_at_trans [of "part_at a" "part_at b" "part_at c"] before_at_total [of "part_at a" "part_at b"]
    before_at_total [of "part_at b" "part_at c"]
  by (auto simp: compareVersions_cases before_at_irrefl split: if_splits)

lemma compareVersions_flip: "compareVersions a b > 0 \<Longrightarrow> compareVersions b a \<le> 0"
  by (auto simp: compareVersions_cases split: if_splits)

lemma best_view:
  assumes "\<forall>v \<in> set vs. fv_image v \<noteq> ''''" "r = best_view arm have vs best"
  shows "(fst r = '''' \<longleftrightarrow> fst best = '''' \<and> (\<forall>v \<in> set vs. \<not> view_fits arm have v)) \<and>
    (fst r \<noteq> '''' \<longrightarrow> (r = best \<or> (\<exists>v \<in> set vs. view_fits arm have v \<and> r = (fv_image v, fv_glibc v))) \<and>
       (fst best \<noteq> '''' \<longrightarrow> compareVersions (snd best) (snd r) \<le> 0) \<and>
       (\<forall>v \<in> set vs. view_fits arm have v \<longrightarrow> compareVersions (fv_glibc v) (snd r) \<le> 0))"
  using assms
proof (induction vs arbitrary: best)
  case (Cons v vs)
  let ?best = "(fv_image v, fv_glibc v)"
  consider (misfit) "\<not> view_fits arm have v" "r = best_view arm have vs best"
    | (better) "view_fits arm have v" "fst best = '''' \<or> compareVersions (fv_glibc v) (snd best) > 0"
        "r = best_view arm have vs ?best"
    | (worse) "view_fits arm have v" "fst best \<noteq> ''''" "compareVersions (fv_glibc v) (snd best) \<le> 0"
        "r = best_view arm have vs best"
    using Cons.prems(2) unfolding view_fits_def by (auto split: if_splits)
  then show ?case
  proof cases
    case misfit
    then show ?thesis using Cons.IH [OF _ misfit(2)] Cons.prems(1) by auto
  next
    case better
    have "fst ?best \<noteq> ''''" using Cons.prems(1) by simp
    then have ih: "fst r \<noteq> ''''" "r = ?best \<or> (\<exists>v \<in> set vs. view_fits arm have v \<and> r = (fv_image v, fv_glibc v))"
        "compareVersions (fv_glibc v) (snd r) \<le> 0"
        "\<forall>v \<in> set vs. view_fits arm have v \<longrightarrow> compareVersions (fv_glibc v) (snd r) \<le> 0"
      using Cons.IH [OF _ better(3)] Cons.prems(1) by auto
    then have "fst best \<noteq> '''' \<longrightarrow> compareVersions (snd best) (snd r) \<le> 0"
      using better(2) compareVersions_flip compareVersions_trans by blast
    then show ?thesis using ih better(1) by auto
  next
    case worse
    then show ?thesis using Cons.IH [OF _ worse(4)] Cons.prems(1) compareVersions_trans by auto
  qed
qed simp

lemma view_images: "\<forall>v \<in> set secretaryViews. fv_image v \<noteq> ''''"
  by (simp add: secretaryViews_def view_repo_def)

text \<open>
  C37. The view that is mounted. Without an override the image chosen is that of the newest view in
  the table for the architecture that is not newer than the C library of the job's image, and the
  transform is refused exactly when every view for the architecture is newer. A version of the
  library with a minor part that is not a plain number, like \<open>2.35-0ubuntu3\<close>, is read as 2.0 and
  refused.
\<close>

theorem secretaryView_newest:
  assumes "Cfg target ''secretary_view'' = ''''"
  shows "(case secretaryView js target arm of
      Inl why \<Rightarrow> \<forall>v \<in> set secretaryViews. fv_arm v = arm \<longrightarrow> compareVersions (fv_glibc v) (view_glibc js) > 0
    | Inr img \<Rightarrow> \<exists>v \<in> set secretaryViews. img = fv_image v \<and> fv_arm v = arm \<and>
        compareVersions (fv_glibc v) (view_glibc js) \<le> 0 \<and>
        (\<forall>u \<in> set secretaryViews. fv_arm u = arm \<and> compareVersions (fv_glibc u) (view_glibc js) \<le> 0 \<longrightarrow>
           compareVersions (fv_glibc u) (fv_glibc v) \<le> 0)) \<and>
    (part_at (view_glibc js) 0 = 2 \<and> part_at (view_glibc js) 1 = 0 \<longrightarrow> isl (secretaryView js target arm))"
proof -
  let ?fits = "view_fits arm (view_glibc js)"
  define r where "r = best_view arm (view_glibc js) secretaryViews ('''', '''')"
  note b = best_view [OF view_images r_def]
  have view: "secretaryView js target arm = (if \<exists>v \<in> set secretaryViews. ?fits v then Inr (fst r)
      else Inl (''no flux view fits image glibc '' @ view_glibc js @ '' (arm='' @ bool_text arm @
           ''): a view links against the container'' @ [squote] @ ''s libc, so a newer one will not load''))"
    unfolding secretaryView_def r_def [symmetric] using b assms by (auto split: prod.split)
  have old: "\<not> ?fits v" if "v \<in> set secretaryViews" "part_at (view_glibc js) 0 = 2" "part_at (view_glibc js) 1 = 0" for v
  proof -
    have "\<forall>v \<in> set secretaryViews. part_at (fv_glibc v) 0 = 2 \<and> part_at (fv_glibc v) 1 \<ge> 31"
      by (simp add: secretaryViews_def) code_simp
    then have "before_at (part_at (view_glibc js)) (part_at (fv_glibc v))"
      using that unfolding before_at_def by (intro exI [of _ 1]) auto
    then show ?thesis
      using before_at_trans [of "part_at (fv_glibc v)" "part_at (view_glibc js)" "part_at (fv_glibc v)"] before_at_irrefl
      by (auto simp: view_fits_def compareVersions_cases)
  qed
  show ?thesis
  proof (cases "\<exists>v \<in> set secretaryViews. ?fits v")
    case True
    then have "fst r \<noteq> ''''" using b by blast
    then have "\<exists>v \<in> set secretaryViews. ?fits v \<and> r = (fv_image v, fv_glibc v)"
        "\<forall>u \<in> set secretaryViews. ?fits u \<longrightarrow> compareVersions (fv_glibc u) (snd r) \<le> 0"
      using b by auto
    then show ?thesis using True old unfolding view by (auto simp: view_fits_def)
  next
    case False
    then show ?thesis unfolding view by (auto simp: view_fits_def not_le)
  qed
qed

definition js_with_glibc :: "string \<Rightarrow> jobspec" where
  "js_with_glibc v = \<lparr>js_version = 1, js_resources = [], js_tasks = [], js_attributes =
     Some \<lparr>a_system = [], a_user = [(''container'', GMap [(''glibc'', GStr v)])]\<rparr>, js_requires = []\<rparr>"

theorem secretaryView_newest_witness:
  "secretaryView (js_with_glibc ''2.36'') zero_cluster False = Inr (view_repo @ ''jammy'') \<and>
   isl (secretaryView (js_with_glibc ''2.35-0ubuntu3'') zero_cluster False)"
proof -
  have c: "Cfg zero_cluster ''secretary_view'' = ''''" by code_simp
  have g: "view_glibc (js_with_glibc v) = v" if "v \<noteq> ''''" for v
    using that by (simp add: view_glibc_def containerGlibc_def js_with_glibc_def first_string_def)
  have "part_at ''2.35-0ubuntu3'' 0 = 2 \<and> part_at ''2.35-0ubuntu3'' 1 = 0" by code_simp
  then have "isl (secretaryView (js_with_glibc ''2.35-0ubuntu3'') zero_cluster False)"
    using secretaryView_newest [OF c, where js = "js_with_glibc ''2.35-0ubuntu3''" and arm = False] by (simp add: g)
  moreover have "secretaryView (js_with_glibc ''2.36'') zero_cluster False = Inr (view_repo @ ''jammy'')" by code_simp
  ultimately show ?thesis by blast
qed

section \<open>Object names\<close>

definition dns_alphabet :: "char set" where
  "dns_alphabet = set ''abcdefghijklmnopqrstuvwxyz0123456789-.''"

text \<open>What Kubernetes accepts: labels between dots, each of them with a letter or digit at both ends.\<close>

definition dns_label :: "string \<Rightarrow> bool" where
  "dns_label l \<longleftrightarrow> l \<noteq> '''' \<and> set l \<subseteq> dns_alphabet - {CHR ''.''} \<and> hd l \<noteq> CHR ''-'' \<and> last l \<noteq> CHR ''-''"

definition dns_subdomain :: "string \<Rightarrow> bool" where
  "dns_subdomain s \<longleftrightarrow> length s \<le> 253 \<and> list_all dns_label (split_on (CHR ''.'') s)"

text \<open>A dot with a separator next to it.\<close>

fun dns_clash :: "string \<Rightarrow> bool" where
  "dns_clash (c # d # s) = (c = CHR ''.'' \<and> dns_sep d \<or> dns_sep c \<and> d = CHR ''.'' \<or> dns_clash (d # s))"
| "dns_clash _ = False"

definition end_ok :: "string \<Rightarrow> bool" where
  "end_ok l \<longleftrightarrow> l \<noteq> '''' \<and> last l \<noteq> CHR ''-''"

lemma split_on_set: "l \<in> set (split_on d s) \<Longrightarrow> set l \<subseteq> set s - {d}"
proof (induction s arbitrary: l)
  case (Cons c s)
  show ?case
  proof (cases "split_on d s")
    case (Cons k ks)
    then show ?thesis using Cons.prems Cons.IH by (auto split: if_splits) blast+
  qed simp
qed simp

lemma clash_labels:
  assumes "s \<noteq> ''''" "hd s \<noteq> CHR ''.''" "\<not> dns_sep (last s)" "set s \<subseteq> dns_alphabet"
  shows "(case split_on (CHR ''.'') s of [] \<Rightarrow> False | l # ls \<Rightarrow> end_ok l \<and> list_all dns_label ls) \<longleftrightarrow> \<not> dns_clash s"
  using assms
proof (induction s rule: length_induct)
  case (1 s)
  obtain c t where s: "s = c # t" using 1(2) by (cases s) auto
  show ?case
  proof (cases t)
    case Nil
    then show ?thesis using 1 by (auto simp: s end_ok_def dns_sep_def)
  next
    case (Cons d u)
    show ?thesis
    proof (cases "d = CHR ''.''")
      case False
      obtain l ls where l: "split_on (CHR ''.'') t = l # ls" by (cases "split_on (CHR ''.'') t") auto
      then have "l \<noteq> ''''" using False by (auto simp: Cons split: list.splits)
      moreover have "(case split_on (CHR ''.'') t of [] \<Rightarrow> False | l # ls \<Rightarrow> end_ok l \<and> list_all dns_label ls) \<longleftrightarrow> \<not> dns_clash t"
        using 1(1) 1(3-5) False by (intro 1(1) [rule_format]) (auto simp: s Cons)
      ultimately show ?thesis using 1(3) False l by (auto simp: s Cons end_ok_def)
    next
      case True
      have u: "u \<noteq> ''''" using 1(4) True by (auto simp: s Cons dns_sep_def)
      then obtain e v where e: "u = e # v" by (cases u) auto
      obtain l ls where l: "split_on (CHR ''.'') u = l # ls" by (cases "split_on (CHR ''.'') u") auto
      have split: "split_on (CHR ''.'') s = [c] # l # ls" using 1(3) True l by (simp add: s Cons)
      show ?thesis
      proof (cases "dns_sep e")
        case sep: True
        then have "\<not> dns_label l" using l by (auto simp: e dns_sep_def dns_label_def split: list.splits if_splits)
        then show ?thesis unfolding split using sep True by (simp add: s Cons e)
      next
        case False
        have "(case split_on (CHR ''.'') u of [] \<Rightarrow> False | l # ls \<Rightarrow> end_ok l \<and> list_all dns_label ls) \<longleftrightarrow> \<not> dns_clash u"
          using 1(1) 1(4,5) False u by (intro 1(1) [rule_format]) (auto simp: s Cons e dns_sep_def)
        moreover have "dns_label l \<longleftrightarrow> end_ok l"
        proof -
          have "set l \<subseteq> dns_alphabet - {CHR ''.''}"
            using split_on_set [of l "CHR ''.''" u] 1(5) l by (auto simp: s Cons)
          moreover have "l \<noteq> '''' \<longrightarrow> hd l \<noteq> CHR ''-''"
            using l False by (auto simp: e dns_sep_def split: list.splits if_splits)
          ultimately show ?thesis by (auto simp: dns_label_def end_ok_def)
        qed
        moreover have "dns_clash s \<longleftrightarrow> c = CHR ''-'' \<or> dns_clash u"
          using 1(3) True False by (auto simp: s Cons e dns_sep_def)
        ultimately show ?thesis unfolding split l by (simp add: end_ok_def)
      qed
    qed
  qed
qed

lemma subdomain_iff:
  assumes "s \<noteq> ''''" "\<not> dns_sep (hd s)" "\<not> dns_sep (last s)" "set s \<subseteq> dns_alphabet" "length s \<le> 253"
  shows "dns_subdomain s \<longleftrightarrow> \<not> dns_clash s"
proof -
  obtain l ls where l: "split_on (CHR ''.'') s = l # ls" by (cases "split_on (CHR ''.'') s") auto
  have "set l \<subseteq> dns_alphabet - {CHR ''.''}" using split_on_set [of l "CHR ''.''" s] assms(4) l by auto
  moreover have "l \<noteq> '''' \<longrightarrow> hd l \<noteq> CHR ''-''"
    using l assms(1,2) by (cases s) (auto simp: dns_sep_def split: list.splits if_splits)
  ultimately have "dns_label l \<longleftrightarrow> end_ok l" by (auto simp: dns_label_def end_ok_def)
  moreover have "hd s \<noteq> CHR ''.''" using assms(2) by (auto simp: dns_sep_def)
  ultimately show ?thesis using clash_labels [OF assms(1) _ assms(3,4)] l assms(5) by (simp add: dns_subdomain_def)
qed

lemma trim_seps_ends:
  assumes "t = trim_seps s" "t \<noteq> ''''"
  shows "\<not> dns_sep (hd t)" "\<not> dns_sep (last t)"
proof -
  let ?d = "dropWhile dns_sep s"
  have t: "t = rev (dropWhile dns_sep (rev ?d))" using assms(1) by (simp add: trim_seps_def)
  then have ne: "dropWhile dns_sep (rev ?d) \<noteq> []" using assms(2) by simp
  then show "\<not> dns_sep (last t)" unfolding t by (simp add: last_rev hd_dropWhile)
  have "prefix t ?d" unfolding t by (metis suffix_dropWhile suffix_to_prefix rev_rev_ident)
  then obtain w where "?d = t @ w" by (auto simp: prefix_def)
  then have "?d \<noteq> []" "hd ?d = hd t" using assms(2) by auto
  then show "\<not> dns_sep (hd t)" using hd_dropWhile [of dns_sep s] by simp
qed

lemma trim_seps_id: "s = '''' \<or> \<not> dns_sep (hd s) \<and> \<not> dns_sep (last s) \<Longrightarrow> trim_seps s = s"
proof -
  assume "s = '''' \<or> \<not> dns_sep (hd s) \<and> \<not> dns_sep (last s)"
  moreover have "dropWhile dns_sep x = x" if "x = '''' \<or> \<not> dns_sep (hd x)" for x using that by (cases x) auto
  ultimately show ?thesis by (cases "s = ''''") (simp_all add: trim_seps_def hd_rev)
qed

lemma dnsSafe_ends: "dnsSafe s \<noteq> '''' \<and> length (dnsSafe s) \<le> 253 \<and> \<not> dns_sep (hd (dnsSafe s)) \<and> \<not> dns_sep (last (dnsSafe s))"
proof -
  define t where "t = trim_seps (map (\<lambda>c. dns_char (lower c)) s)"
  define u where "u = (if length t > 253 then trim_seps (take 253 t) else t)"
  have d: "dnsSafe s = (if u = '''' then ''job'' else u)" by (simp add: dnsSafe_def Let_def t_def u_def)
  have "length (trim_seps x) \<le> length x" for x
    unfolding trim_seps_def using length_dropWhile_le [of dns_sep x] length_dropWhile_le [of dns_sep "rev (dropWhile dns_sep x)"]
    by simp
  from this [of "take 253 t"] have "length u \<le> 253" by (simp add: u_def)
  moreover have "u \<noteq> '''' \<Longrightarrow> \<not> dns_sep (hd u) \<and> \<not> dns_sep (last u)"
    using trim_seps_ends [OF t_def] trim_seps_ends [OF refl, of "take 253 t"] by (auto simp: u_def)
  ultimately show ?thesis unfolding d by (simp add: dns_sep_def)
qed

lemma dns_char_fixed: "c \<in> dns_alphabet \<Longrightarrow> dns_char (lower c) = c"
proof -
  have "list_all (\<lambda>c. dns_char (lower c) = c) ''abcdefghijklmnopqrstuvwxyz0123456789-.''" by code_simp
  then show "c \<in> dns_alphabet \<Longrightarrow> dns_char (lower c) = c" unfolding dns_alphabet_def list_all_iff by blast
qed

text \<open>
  C39. What \<open>dnsSafe\<close> makes of a name. The result is never empty, has at most 253 characters, all lower
  case letters, digits, dashes and dots, with a letter or digit at both ends, and a second
  application changes nothing. Kubernetes accepts it as an object name exactly when no dot has a
  dash or a dot next to it, which the function does not see to.
\<close>

theorem dnsSafe_names:
  "dnsSafe s \<noteq> '''' \<and> length (dnsSafe s) \<le> 253 \<and> set (dnsSafe s) \<subseteq> dns_alphabet \<and>
   \<not> dns_sep (hd (dnsSafe s)) \<and> \<not> dns_sep (last (dnsSafe s)) \<and> dnsSafe (dnsSafe s) = dnsSafe s \<and>
   (dns_subdomain (dnsSafe s) \<longleftrightarrow> \<not> dns_clash (dnsSafe s)) \<and> dnsSafe ''My_App..v2'' = ''my-app..v2''"
proof -
  let ?d = "dnsSafe s"
  have a: "set ?d \<subseteq> dns_alphabet" using dns_set by (simp add: dns_alphabet_def)
  have e: "?d \<noteq> ''''" "length ?d \<le> 253" "\<not> dns_sep (hd ?d)" "\<not> dns_sep (last ?d)" using dnsSafe_ends by blast+
  have "map (\<lambda>c. dns_char (lower c)) ?d = ?d" using a dns_char_fixed by (intro map_idI) blast
  then have "dnsSafe ?d = ?d" using e trim_seps_id [of ?d] by (simp add: dnsSafe_def [of ?d])
  moreover have "dns_subdomain ?d \<longleftrightarrow> \<not> dns_clash ?d" by (rule subdomain_iff [OF e(1,3,4) a e(2)])
  moreover have "dnsSafe ''My_App..v2'' = ''my-app..v2''" by code_simp
  ultimately show ?thesis using a e by blast
qed

text \<open>
  A job id stands at the end of a name as it is.\<close>

lemma WithJobID_simps [simp]: "JobID (WithJobID js i) = i" "Name (WithJobID js i) = Name js"
  by (auto simp: WithJobID_def JobID_def user_string_def Name_def Let_def split: option.splits)

lemma jobID_text:
  "length (jobID n) = 8" "set (jobID n) \<subseteq> dns_alphabet" "hd (jobID n) = CHR ''j''" "\<not> dns_sep (last (jobID n))"
proof -
  have d: "digit k \<in> set ''0123456789''" if "k < 10" for k
  proof -
    have "list_all (\<lambda>k. digit k \<in> set ''0123456789'') [0..<10]" by code_simp
    then show ?thesis using that by (simp add: list_all_iff)
  qed
  have sub: "set ''0123456789'' \<subseteq> dns_alphabet" by (auto simp: dns_alphabet_def)
  have "digit (n mod 10) \<in> set ''0123456789''" by (rule d) simp
  then show "\<not> dns_sep (last (jobID n))" by (auto simp: jobID_def pad_eq dns_sep_def)
  have "set (pad n) \<subseteq> set ''0123456789''" using d by (simp add: pad_eq)
  moreover have "set ''job-'' \<subseteq> dns_alphabet" by (simp add: dns_alphabet_def)
  ultimately show "set (jobID n) \<subseteq> dns_alphabet" using sub unfolding jobID_def set_append by blast
  show "length (jobID n) = 8" "hd (jobID n) = CHR ''j''" by (simp_all add: jobID_def pad_eq)
qed

lemma dns_map_id: "set s \<subseteq> dns_alphabet \<Longrightarrow> map (\<lambda>c. dns_char (lower c)) s = s"
  using dns_char_fixed by (intro map_idI) blast

lemma trim_seps_tail:
  assumes "s \<noteq> ''''" "\<not> dns_sep (hd s)" "\<not> dns_sep (last s)"
  shows "trim_seps (x @ s) = dropWhile dns_sep x @ s"
proof -
  have "dropWhile dns_sep (x @ s) = dropWhile dns_sep x @ s"
    using assms(1,2) by (induction x) (cases s; simp)+
  moreover have "dropWhile dns_sep (rev (y @ s)) = rev (y @ s)" for y
    using assms(1,3) by (cases s rule: rev_cases) simp_all
  ultimately show ?thesis by (simp add: trim_seps_def)
qed

definition base_name :: "jobspec \<Rightarrow> string" where
  "base_name js = (if Name js = '''' then ''job'' else Name js)"

lemma objectName_id: "objectName (WithJobID js (jobID n)) = dnsSafe (base_name js @ ''-'' @ jobID n)"
proof -
  have "jobID n \<noteq> ''''" using jobID_text(1) [of n] by auto
  then show ?thesis by (simp add: objectName_def base_name_def)
qed

text \<open>
  Two runs of a jobspec do not collide, up to a length. With a name of at most 244 characters the
  object names of two jobs agree exactly when their sequence numbers do in the last four digits;
  from 253 characters on the id is cut off, and every run has the same object name.
\<close>

theorem objectName_apart:
  "(length (Name js) \<le> 244 \<longrightarrow>
      (objectName (WithJobID js (jobID m)) = objectName (WithJobID js (jobID n)) \<longleftrightarrow> m mod 10000 = n mod 10000)) \<and>
   (253 \<le> length (Name js) \<and> \<not> dns_sep (dns_char (lower (hd (Name js)))) \<longrightarrow>
      objectName (WithJobID js (jobID m)) = objectName (WithJobID js (jobID n)))"
proof (intro conjI impI)
  let ?f = "map (\<lambda>c. dns_char (lower c))"
  have f: "?f (base_name js @ ''-'' @ jobID k) = ?f (base_name js) @ ''-'' @ jobID k" for k
    using dns_map_id [OF jobID_text(2) [of k]] dns_char_fixed [of "CHR ''-''"] by (simp add: dns_alphabet_def)
  have id: "jobID k \<noteq> ''''" "\<not> dns_sep (hd (jobID k))" for k
    using jobID_text(1,3) [of k] by (auto simp: dns_sep_def)
  have trim: "trim_seps (?f (base_name js) @ ''-'' @ jobID k) = dropWhile dns_sep (?f (base_name js) @ ''-'') @ jobID k" for k
    using trim_seps_tail [OF id jobID_text(4), of "?f (base_name js) @ ''-''"] by simp
  {
    assume short: "length (Name js) \<le> 244"
    have "length (base_name js) \<le> 244" using short by (simp add: base_name_def)
    then have "length (dropWhile dns_sep (?f (base_name js) @ ''-'')) \<le> 245"
      using length_dropWhile_le [of dns_sep "?f (base_name js) @ ''-''"] by simp
    then have "objectName (WithJobID js (jobID k)) = dropWhile dns_sep (?f (base_name js) @ ''-'') @ jobID k" for k
      unfolding objectName_id dnsSafe_def f trim Let_def using jobID_text(1) [of k] id(1) [of k] by simp
    then show "objectName (WithJobID js (jobID m)) = objectName (WithJobID js (jobID n)) \<longleftrightarrow> m mod 10000 = n mod 10000"
      by (simp add: jobID_eq_iff)
  next
    assume long: "253 \<le> length (Name js) \<and> \<not> dns_sep (dns_char (lower (hd (Name js))))"
    then have "Name js \<noteq> ''''" by auto
    then have b: "base_name js = Name js" "?f (Name js) \<noteq> []" "\<not> dns_sep (hd (?f (Name js)))"
      using long by (auto simp: base_name_def hd_map)
    then have "dropWhile dns_sep (?f (Name js) @ ''-'') = ?f (Name js) @ ''-''" by (cases "?f (Name js)") auto
    then have t: "trim_seps (?f (base_name js) @ ''-'' @ jobID k) = ?f (Name js) @ ''-'' @ jobID k" for k
      using trim by (simp add: b(1))
    have "length (?f (Name js) @ ''-'' @ jobID k) > 253" "take 253 (?f (Name js) @ ''-'' @ jobID k) = take 253 (?f (Name js))" for k
      using long by simp_all
    then have "objectName (WithJobID js (jobID k)) = (let u = trim_seps (take 253 (?f (Name js))) in if u = '''' then ''job'' else u)" for k
      unfolding objectName_id dnsSafe_def f t Let_def by simp
    then show "objectName (WithJobID js (jobID m)) = objectName (WithJobID js (jobID n))" by simp
  }
qed

theorem objectName_apart_witness:
  "objectName (WithJobID (js_with_glibc ''2.36'') (jobID 1)) \<noteq> objectName (WithJobID (js_with_glibc ''2.36'') (jobID 2)) \<and>
   objectName (WithJobID (js_with_glibc ''2.36'') (jobID 1)) = objectName (WithJobID (js_with_glibc ''2.36'') (jobID 10001))"
proof -
  have "length (Name (js_with_glibc ''2.36'')) \<le> 244" by (simp add: Name_def js_with_glibc_def)
  then show ?thesis
    using objectName_apart [of "js_with_glibc ''2.36''" 1 2] objectName_apart [of "js_with_glibc ''2.36''" 1 10001] by simp
qed

section \<open>Witnesses of the earlier properties\<close>

theorem compareVersions_order_witness:
  "compareVersions ''2.31'' ''2.35'' < 0 \<and> compareVersions ''2.35'' ''2.35.0'' = 0 \<and> compareVersions ''2.31'' ''2.35.0'' \<le> 0"
proof -
  have "compareVersions ''2.31'' ''2.35'' = -1" "compareVersions ''2.35'' ''2.35.0'' = 0" by code_simp+
  then show ?thesis using compareVersions_order [of "''2.31''" "''2.35''" "''2.35.0''"] by simp
qed

definition echo_job :: "string list \<Rightarrow> jobspec" where
  "echo_job cs = \<lparr>js_version = 1, js_resources = [Resource ''node'' 1 '''' False '''' [Resource ''core'' 1 '''' False '''' []]],
     js_tasks = [\<lparr>t_command = cs, t_slot = ''default'', t_count = []\<rparr>],
     js_attributes = Some \<lparr>a_system = [(''job'', GMap [(''name'', GStr ''hello'')])], a_user = [(''image'', GStr ''busybox'')]\<rparr>,
     js_requires = []\<rparr>"

lemma echo_job_simps [simp]: "Name (echo_job cs) = ''hello''" "Image (echo_job cs) = ''busybox''" "Command (echo_job cs) = cs"
  "js_tasks (echo_job cs) \<noteq> []" "with_command ds (echo_job cs) = echo_job ds"
  by (simp_all add: echo_job_def Name_def Image_def user_string_def Command_def with_command_def)

theorem command_boundaries_witness:
  "k8sJob (echo_job [''sh'', ''-c'', ''echo hi'']) \<noteq> k8sJob (echo_job [''sh'', ''-c'', ''echo'', ''hi'']) \<and>
   slurmJob (echo_job [''sh'', ''-c'', ''echo hi'']) = slurmJob (echo_job [''sh'', ''-c'', ''echo'', ''hi''])"
  using command_boundaries [of "echo_job [''sh'', ''-c'', ''echo hi'']" "echo_job [''sh'', ''-c'', ''echo'', ''hi'']"
    "[''sh'', ''-c'', ''echo'', ''hi'']" zero_cluster]
  by (auto simp: one_line_Cons)


end
