(* ===== verification/Devmode.thy ===== *)
theory Devmode
  imports Rendering
begin

text \<open>
  The whole path of a job in development mode (\<open>cmd/fluxq/serve.go\<close> with \<open>--dev\<close>): the templates of
  \<open>Transform\<close>, the inline dispatcher and monitor of \<open>Manager\<close>, the emulated drivers of \<open>Emulator\<close> and
  the in-process matcher of \<open>Matcher\<close> put together.
\<close>

text \<open>What the server injects: the emulated registry, no real drivers, the templates.\<close>

definition dev_mode :: "(rat \<Rightarrow> string) \<Rightarrow> (sim, emu_world) env \<Rightarrow> bool" where
  "dev_mode ft e \<longleftrightarrow> ev_Matcher e = SimMatcher \<and> ev_Drivers e = NewEmulatedRegistry \<and> ev_RealDrivers e = None \<and>
     (\<forall>w js c r. Stub_Transform (Marshal ft) js c = Some r \<longrightarrow> ev_Transform e w js c = (w, r))"

text \<open>The texts a template takes over are fit for it.\<close>

definition fit_texts :: "(rat \<Rightarrow> string) \<Rightarrow> jobspec \<Rightarrow> cluster_graph \<Rightarrow> content \<Rightarrow> bool" where
  "fit_texts ft js c content \<longleftrightarrow>
     (if cg_Manager c = FluxURI
      then floats_ok ft (GMap (fd_attributes (flux_doc js))) \<and> depth (json_doc ft (flux_doc js)) \<le> maxNestingDepth
      else one_line (Name js) \<and> one_line (Image js) \<and> one_line_config c \<and> policyScan (ct_Payload content) = '''')"

section \<open>Drivers\<close>

lemma NewHandle_nonempty [simp]: "NewHandle b n \<noteq> ''''"
  by (cases b) simp_all

lemma dev_driver: "dev_mode ft e \<Longrightarrow> cg_Manager c \<in> set KnownManagers \<Longrightarrow>
    driverFor e c = Inr (EmulatedDriver (backendFor (cg_Manager c)))"
  by (simp add: dev_mode_def driverFor_def registry_lookup)

lemma dev_driver_only: "dev_mode ft e \<Longrightarrow> driverFor e c = Inr drv \<Longrightarrow> \<exists>b. drv = EmulatedDriver b"
  by (auto simp: dev_mode_def driverFor_def registry_lookup split: if_splits)

section \<open>The monitor\<close>

text \<open>
  A poll acts on its own job, frees at most its own allocation and leaves the world alone.\<close>

lemma monitor_frame:
  assumes "dev_mode ft e" "queue_inv (mg_Queue s)" "s' = monitor_job e k s"
  shows "queue_inv (mg_Queue s') \<and> mg_World s' = mg_World s \<and> mg_Fleet s' = mg_Fleet s \<and>
    (i \<noteq> jb_ID k \<longrightarrow> job_at s' i = job_at s i) \<and> sim_owns (mg_Matcher s') a \<subseteq> sim_owns (mg_Matcher s) a"
proof (cases "\<exists>c drv. jb_RemoteHandle k \<noteq> '''' \<and> fl_Get (mg_Fleet s) (jb_ClusterID k) = Some c \<and> driverFor e c = Inr drv")
  case False
  then have "s' = s" using assms(3) by (auto simp: monitor_job_def split: option.split sum.split)
  then show ?thesis using assms(2) by simp
next
  case True
  then obtain c b where c: "jb_RemoteHandle k \<noteq> ''''" "fl_Get (mg_Fleet s) (jb_ClusterID k) = Some c"
      "driverFor e c = Inr (EmulatedDriver b)"
    using dev_driver_only [OF assms(1)] by blast
  have m: "mt_Free (ev_Matcher e) = sim_Free" using assms(1) by (simp add: dev_mode_def SimMatcher_def)
  show ?thesis
    using assms(2) unfolding assms(3) monitor_job_def c option.case sum.case driver_simps prod.case Let_def m
    by (auto simp: q_Update_def queue_inv_Update Get_Update sim_owns_Free c(1))
qed

lemma monitors_frame:
  assumes "dev_mode ft e" "queue_inv (mg_Queue s)" "i \<notin> jb_ID ` set ks" "s' = fold (monitor_job e) ks s"
  shows "queue_inv (mg_Queue s') \<and> mg_World s' = mg_World s \<and> mg_Fleet s' = mg_Fleet s \<and>
    job_at s' i = job_at s i \<and> sim_owns (mg_Matcher s') a \<subseteq> sim_owns (mg_Matcher s) a"
  using assms(2-4)
proof (induction ks arbitrary: s)
  case (Cons k ks)
  then show ?case
    using monitor_frame [OF assms(1) Cons.prems(1) refl, of k i a] Cons.IH [of "monitor_job e k s"] by auto
qed simp

text \<open>
  The poll of one job in the pass over all.\<close>

lemma monitorOnce_at:
  assumes "dev_mode ft e" "queue_inv (mg_Queue s)" "job_at s i = Some k" "jb_State k = Running"
    and "\<And>s'. queue_inv (mg_Queue s') \<Longrightarrow> mg_World s' = mg_World s \<Longrightarrow> mg_Fleet s' = mg_Fleet s \<Longrightarrow>
      job_at s' i = Some k \<Longrightarrow> P (job_at (monitor_job e k s') i) (sim_owns (mg_Matcher (monitor_job e k s')) (jb_AllocID k))"
    and "\<And>x A B. P x A \<Longrightarrow> B \<subseteq> A \<Longrightarrow> P x B"
  shows "P (job_at (monitorOnce e s) i) (sim_owns (mg_Matcher (monitorOnce e s)) (jb_AllocID k))"
proof -
  have id: "jb_ID k = i" using Get_ID [OF assms(2,3)] .
  then have "k \<in> set (Active (mg_Queue s))"
    using assms(2-4) by (simp add: Active_def in_q_filter)
  then obtain xs ys where split: "Active (mg_Queue s) = xs @ k # ys" by (auto simp: in_set_conv_decomp)
  have "distinct (map jb_ID (Active (mg_Queue s)))" unfolding Active_def by (rule distinct_q_filter [OF assms(2)])
  then have out: "i \<notin> jb_ID ` set xs" "i \<notin> jb_ID ` set ys" unfolding split using id by auto
  let ?a = "jb_AllocID k"
  let ?s1 = "fold (monitor_job e) xs s"
  let ?s2 = "monitor_job e k ?s1"
  have s1: "queue_inv (mg_Queue ?s1)" "mg_World ?s1 = mg_World s" "mg_Fleet ?s1 = mg_Fleet s" "job_at ?s1 i = Some k"
    using monitors_frame [OF assms(1,2) out(1) refl] assms(3) by auto
  then have p: "P (job_at ?s2 i) (sim_owns (mg_Matcher ?s2) ?a)" by (intro assms(5)) auto
  have q: "queue_inv (mg_Queue ?s2)" using monitor_frame [OF assms(1) s1(1) refl] by blast
  have m: "monitorOnce e s = fold (monitor_job e) ys ?s2" by (simp add: monitorOnce_def split)
  show ?thesis
    using monitors_frame [OF assms(1) q out(2) m, of ?a] p assms(6) by auto
qed

section \<open>Property\<close>

text \<open>
  C12. A job in development mode completes. Dispatching a job placed on a registered cluster leaves
  it running under a handle, with the allocation it had. From then on a pass of the monitor finds it
  running until the emulated times are over; the first pass after that finds it completed and gives
  its nodes back, whatever the other jobs of the queue are.
\<close>

theorem dev_job_completes:
  assumes "dev_mode ft e" "plain cfg" "emu_reach cfg (mg_World s)" "queue_inv (mg_Queue s)"
    and "job_at s i = Some j" "fl_Get (mg_Fleet s) (jb_ClusterID j) = Some c"
    and "Stub_Transform (Marshal ft) (WithJobID (jb_Spec j) i) c = Some (Inr content)"
    and "fit_texts ft (WithJobID (jb_Spec j) i) c content"
    and "em_n (ew_em (mg_World s) (backendFor (cg_Manager c))) + 1 < max_seq" "ew_now (mg_World s) \<le> t"
  shows "\<exists>k1 k2. let s1 = dispatchNow e i s; s2 = monitorOnce e (s1\<lparr>mg_now := now, mg_World := (mg_World s1)\<lparr>ew_now := t\<rparr>\<rparr>)
    in job_at s1 i = Some k1 \<and> jb_State k1 = Running \<and> jb_RemoteHandle k1 \<noteq> '''' \<and> jb_AllocID k1 = jb_AllocID j \<and>
       job_at s2 i = Some k2 \<and> jb_AllocID k2 = jb_AllocID j \<and>
       (if t < ew_now (mg_World s) + total_time cfg then jb_State k2 = Running
        else jb_State k2 = Completed \<and> sim_owns (mg_Matcher s2) (jb_AllocID j) = {})"
proof -
  let ?b = "backendFor (cg_Manager c)" and ?js = "WithJobID (jb_Spec j) i" and ?w = "mg_World s"
  let ?json = "\<lambda>_. None" and ?s1 = "dispatchNow e i s"
  have id: "jb_ID j = i" using Get_ID [OF assms(4,5)] .
  have a: "cg_Manager c \<in> set KnownManagers" "TrimSpace (ct_Payload content) \<noteq> ''''" "ct_Kind content = WantKind ?b"
      "be_Validate ?b content = None"
    using stub_artifact [OF assms(7), of ?json] assms(8)
    by (cases "cg_Manager c = FluxURI"; simp add: fit_texts_def)+
  have drv: "driverFor e c = Inr (EmulatedDriver ?b)" by (rule dev_driver [OF assms(1) a(1)])
  obtain w1 res where sub: "dr_Submit (EmulatedDriver ?b) ?w c content = (w1, res)"
    by (cases "dr_Submit (EmulatedDriver ?b) ?w c content")
  obtain h where h: "res = Inr h" "fst (em_current t h (ew_em w1 ?b)) = (if t - ew_now ?w < total_time cfg then Running else Completed)"
    using submission_course [OF assms(3,2,9) a(3) sub assms(10), of "''''"] a(2,4) by (auto simp: Let_def simp del: driver_simps)
  have ne: "h \<noteq> ''''" using sub h(1) a(3) by (auto simp: em_submit_def Let_def dest: sym)
  have tr: "ev_Transform e ?w ?js c = (?w, Inr content)" using assms(1,7) by (simp add: dev_mode_def)
  let ?k = "j\<lparr>jb_State := Running, jb_RemoteHandle := h, jb_Note := ''dispatched'', jb_UpdatedAt := mg_now s\<rparr>"
  have s1: "?s1 = q_Update (j\<lparr>jb_RemoteHandle := h, jb_State := Running, jb_Note := ''dispatched''\<rparr>)
      ((q_Update (j\<lparr>jb_State := Dispatching\<rparr>) s)\<lparr>mg_World := w1\<rparr>)"
    using assms(5,6) tr sub h(1) drv id
    by (simp add: dispatchNow_def submit_to_def Let_def q_Update_def del: driver_simps)
  have q1: "queue_inv (mg_Queue ?s1)" "mg_World ?s1 = w1" "mg_Fleet ?s1 = mg_Fleet s" "job_at ?s1 i = Some ?k"
    using assms(4) id by (simp_all add: s1 q_Update_def queue_inv_Update Get_Update)
  define s2 where "s2 = ?s1\<lparr>mg_now := now, mg_World := (mg_World ?s1)\<lparr>ew_now := t\<rparr>\<rparr>"
  define P where "P x A \<longleftrightarrow> (\<exists>k2. x = Some k2 \<and> jb_AllocID k2 = jb_AllocID j \<and>
      (if t < ew_now ?w + total_time cfg then jb_State k2 = Running else jb_State k2 = Completed \<and> A = {}))" for x :: "job option" and A :: "(string \<times> string) set"
  have "P (job_at (monitorOnce e s2) i) (sim_owns (mg_Matcher (monitorOnce e s2)) (jb_AllocID ?k))"
  proof (rule monitorOnce_at [OF assms(1)])
    show "queue_inv (mg_Queue s2)" "job_at s2 i = Some ?k" "jb_State ?k = Running"
      using q1 by (simp_all add: s2_def)
  next
    fix s' :: "(sim, emu_world) mgr"
    assume s': "queue_inv (mg_Queue s')" "mg_World s' = mg_World s2" "mg_Fleet s' = mg_Fleet s2" "job_at s' i = Some ?k"
    have c: "fl_Get (mg_Fleet s') (jb_ClusterID ?k) = Some c" "jb_RemoteHandle ?k \<noteq> ''''"
      using s'(3) q1(3) assms(6) ne by (simp_all add: s2_def)
    have m: "mt_Free (ev_Matcher e) = sim_Free" using assms(1) by (simp add: dev_mode_def SimMatcher_def)
    have w: "ew_now (mg_World s') = t" "ew_em (mg_World s') = ew_em w1" using s'(2) q1(2) by (simp_all add: s2_def)
    show "P (job_at (monitor_job e ?k s') i) (sim_owns (mg_Matcher (monitor_job e ?k s')) (jb_AllocID ?k))"
      using s'(1,4) c(2) h(2) id unfolding monitor_job_def c(1) drv option.case sum.case driver_simps prod.case Let_def m
      by (auto simp: P_def w q_Update_def queue_inv_Update Get_Update sim_owns_Free Terminal_def split: if_splits)
  next
    fix x and A B :: "(string \<times> string) set" assume "P x A" "B \<subseteq> A"
    then show "P x B" by (auto simp: P_def split: if_splits)
  qed
  then show ?thesis unfolding P_def using q1(4) ne by (auto simp: Let_def s2_def)
qed


lemma Image_WithJobID [simp]: "Image (WithJobID js i) = Image js"
  by (auto simp: WithJobID_def Image_def user_string_def Let_def split: option.splits)

definition dev_env :: "(sim, emu_world) env" where
  "dev_env = \<lparr>ev_Matcher = SimMatcher, ev_Policy = FCFS, ev_Scorer = FirstFeasible,
     ev_Transform = (\<lambda>w js c. (w, case Stub_Transform (Marshal (\<lambda>_. ''0'')) js c of Some r \<Rightarrow> r | None \<Rightarrow> Inl '''')),
     ev_Repair = None, ev_Drivers = NewEmulatedRegistry, ev_RealDrivers = None, ev_Reconciler = None,
     ev_AutoResubmit = False, ev_validate = defaultValidate (\<lambda>_. None), ev_staged = False,
     ev_source = (\<lambda>_ _. 0), ev_seed = (\<lambda>_. 0)\<rparr>"

definition dev_mgr :: "(sim, emu_world) mgr" where
  "dev_mgr = (NewManager empty_sim (emu_start demo_cfg))\<lparr>mg_Fleet := [k8s_target], mg_seq := 1,
     mg_Queue := [(''job-0001'', (fresh_job ''job-0001'' (echo_job [''echo'', ''hi'']) 0)\<lparr>jb_State := Matched,
       jb_ClusterID := ''k1'', jb_AllocID := ''alloc-1''\<rparr>)]\<rparr>"

theorem dev_job_completes_witness:
  "\<exists>k2. let s1 = dispatchNow dev_env ''job-0001'' dev_mgr;
       s2 = monitorOnce dev_env (s1\<lparr>mg_now := 2, mg_World := (mg_World s1)\<lparr>ew_now := 1500000000\<rparr>\<rparr>)
     in job_at s2 ''job-0001'' = Some k2 \<and> jb_State k2 = Completed \<and> sim_owns (mg_Matcher s2) ''alloc-1'' = {}"
proof -
  let ?ft = "\<lambda>_. ''0''" and ?js = "WithJobID (echo_job [''echo'', ''hi'']) ''job-0001''"
  let ?j = "(fresh_job ''job-0001'' (echo_job [''echo'', ''hi'']) 0)\<lparr>jb_State := Matched, jb_ClusterID := ''k1'', jb_AllocID := ''alloc-1''\<rparr>"
  let ?c = "\<lparr>ct_Kind = ''manifest'', ct_Payload = k8sJob ?js\<rparr>"
  have m: "cg_Manager k8s_target = K8sJob" "cg_ID k8s_target = ''k1''" by (simp_all add: k8s_target_def K8sJob_def)
  have mode: "dev_mode ?ft dev_env" by (simp add: dev_mode_def dev_env_def)
  have w: "mg_World dev_mgr = emu_start demo_cfg" "mg_Fleet dev_mgr = [k8s_target]"
    by (simp_all add: dev_mgr_def NewManager_def)
  have q: "queue_inv (mg_Queue dev_mgr)" "job_at dev_mgr ''job-0001'' = Some ?j"
    by (simp_all add: dev_mgr_def queue_inv_def wf_map_def q_Get_def)
  have j: "jb_ClusterID ?j = ''k1''" "jb_Spec ?j = echo_job [''echo'', ''hi'']" "jb_AllocID ?j = ''alloc-1''"
    by (simp_all add: fresh_job_def)
  have c: "fl_Get (mg_Fleet dev_mgr) (jb_ClusterID ?j) = Some k8s_target" by (simp add: w j m)
  have stub: "Stub_Transform (Marshal ?ft) (WithJobID (jb_Spec ?j) ''job-0001'') k8s_target = Some (Inr ?c)"
    by (simp add: Stub_Transform_def m j managers_distinct)
  have scan: "policyScan (ct_Payload ?c) = ''''" "one_line_config k8s_target" "one_line ''hello''" "one_line ''busybox''"
    by code_simp+
  have fit: "fit_texts ?ft (WithJobID (jb_Spec ?j) ''job-0001'') k8s_target ?c"
    using scan by (simp add: fit_texts_def m j managers_distinct)
  have n: "em_n (ew_em (mg_World dev_mgr) (backendFor (cg_Manager k8s_target))) + 1 < max_seq"
    "ew_now (mg_World dev_mgr) \<le> (1500000000 :: int)" by (simp_all add: w max_seq_def)
  have reach: "emu_reach demo_cfg (mg_World dev_mgr)" unfolding w by (rule emu_reach.start)
  from dev_job_completes [OF mode demo_emu(1) reach q c stub fit n, of 2]
  show ?thesis unfolding j by (auto simp: Let_def w demo_emu)
qed

end
