(* ===== verification/Fluxion.thy ===== *)
theory Fluxion
  imports Matcher Validate
begin

text \<open>
  Package \<open>pkg/matcher\<close>, files \<open>fluxion.go\<close> and \<open>fluxion_worker.go\<close>: the matcher over flux-sched.
  Every resource context lives in a worker process of its own, which answers requests one line at a
  time. The bindings of flux-sched and the operating system are the parameter \<open>reapi\<close>. The contexts
  of clusters are pointers in the code, shared between the registry and the record of who owns an
  allocation; they are kept in an explicit store.
\<close>

section \<open>The worker process\<close>

text \<open>
  \<open>ra_Satisfy\<close> does not change a context. \<open>ra_start\<close> says why the n-th attempt to start a process
  fails, if it does; \<open>ra_lost\<close> is what writing to a process that is gone, or reading from it, reports.
\<close>

record 'c reapi =
  ra_Init :: "string \<Rightarrow> string \<Rightarrow> string + 'c"
  ra_Satisfy :: "'c \<Rightarrow> string \<Rightarrow> bool \<times> string option"
  ra_Allocate :: "'c \<Rightarrow> string \<Rightarrow> 'c \<times> string \<times> nat \<times> string option"
  ra_Cancel :: "'c \<Rightarrow> int \<Rightarrow> 'c \<times> string option"
  ra_start :: "nat \<Rightarrow> string option"
  ra_lost :: "nat \<Rightarrow> string"

record wreq =
  wq_Op :: string
  wq_Graph :: string
  wq_Spec :: string
  wq_Jobid :: nat

record wresp =
  wr_Sat :: bool
  wr_Allocated :: string
  wr_Jobid :: nat
  wr_Err :: string

definition no_resp :: wresp where
  "no_resp = \<lparr>wr_Sat = False, wr_Allocated = '''', wr_Jobid = 0, wr_Err = ''''\<rparr>"

definition no_req :: wreq where
  "no_req = \<lparr>wq_Op = '''', wq_Graph = '''', wq_Spec = '''', wq_Jobid = 0\<rparr>"

definition errStr :: "string option \<Rightarrow> string" where
  "errStr e = (case e of None \<Rightarrow> '''' | Some m \<Rightarrow> m)"

definition fluxOpts :: string where
  "fluxOpts = map (\<lambda>c. if c = CHR ''!'' then CHR 0x22 else c)
     ''{!matcher_policy!: !first!, !load_format!: !jgf!, !match_format!: !jgf!}''"

text \<open>One round of the loop of the worker: the line it read, decoded or not, and its context.\<close>

definition worker_line :: "'c reapi \<Rightarrow> string + wreq \<Rightarrow> 'c option \<Rightarrow> 'c option \<times> wresp" where
  "worker_line R line cli =
     (case line of
        Inl err \<Rightarrow> (cli, no_resp\<lparr>wr_Err := ''bad request: '' @ err\<rparr>)
      | Inr r \<Rightarrow>
          (if wq_Op r = ''init'' then
             (case ra_Init R (wq_Graph r) fluxOpts of
                Inl msg \<Rightarrow> (None, no_resp\<lparr>wr_Err := msg\<rparr>)
              | Inr c \<Rightarrow> (Some c, no_resp))
           else if wq_Op r = ''satisfy'' then
             (case cli of
                None \<Rightarrow> (None, no_resp\<lparr>wr_Err := ''no context''\<rparr>)
              | Some c \<Rightarrow> (case ra_Satisfy R c (wq_Spec r) of (sat, err) \<Rightarrow>
                  (Some c, no_resp\<lparr>wr_Sat := sat, wr_Err := errStr err\<rparr>)))
           else if wq_Op r = ''allocate'' then
             (case cli of
                None \<Rightarrow> (None, no_resp\<lparr>wr_Err := ''no context''\<rparr>)
              | Some c \<Rightarrow> (case ra_Allocate R c (wq_Spec r) of (c', allocated, jobid, err) \<Rightarrow>
                  (Some c', no_resp\<lparr>wr_Allocated := allocated, wr_Jobid := jobid, wr_Err := errStr err\<rparr>)))
           else if wq_Op r = ''cancel'' then
             (case cli of
                None \<Rightarrow> (None, no_resp)
              | Some c \<Rightarrow> (case ra_Cancel R c (i64 (int (wq_Jobid r))) of (c', err) \<Rightarrow>
                  (Some c', no_resp\<lparr>wr_Err := errStr err\<rparr>)))
           else (cli, no_resp\<lparr>wr_Err := ''unknown op '' @ wq_Op r\<rparr>)))"

section \<open>The matcher\<close>

record subWorker =
  sw_w :: nat
  sw_descriptive :: bool

record clusterCtx =
  cc_id :: string
  cc_cont :: "nat option"
  cc_contDescriptive :: bool
  cc_subsystems :: "(string \<times> subWorker) list"

text \<open>
  \<open>fx_procs\<close>: the worker processes that run, with the context each holds; \<open>fx_next\<close> counts the
  attempts to start one, \<open>fx_ctxs\<close> and \<open>fx_refs\<close> are the store of cluster contexts.
\<close>

record 'c fluxion =
  fx_procs :: "nat \<Rightarrow> 'c option option"
  fx_next :: nat
  fx_ctxs :: "nat \<Rightarrow> clusterCtx option"
  fx_refs :: nat
  fx_clusters :: "string \<Rightarrow> nat option"
  fx_order :: "string list"
  fx_owner :: "string \<Rightarrow> nat option"
  fx_seq :: nat

definition empty_fluxion :: "'c fluxion" where
  "empty_fluxion = \<lparr>fx_procs = Map.empty, fx_next = 0, fx_ctxs = Map.empty, fx_refs = 0,
     fx_clusters = Map.empty, fx_order = [], fx_owner = Map.empty, fx_seq = 0\<rparr>"

definition fx_call :: "'c reapi \<Rightarrow> nat \<Rightarrow> wreq \<Rightarrow> 'c fluxion \<Rightarrow> 'c fluxion \<times> (string + wresp)" where
  "fx_call R p r m =
     (case fx_procs m p of
        None \<Rightarrow> (m, Inl (ra_lost R p))
      | Some ctx \<Rightarrow> (case worker_line R (Inr r) ctx of (ctx', resp) \<Rightarrow>
          (m\<lparr>fx_procs := (fx_procs m)(p \<mapsto> ctx')\<rparr>, Inr resp)))"

definition fx_satisfy :: "'c reapi \<Rightarrow> nat \<Rightarrow> string \<Rightarrow> 'c fluxion \<Rightarrow> bool" where
  "fx_satisfy R p spec m =
     (case snd (fx_call R p (no_req\<lparr>wq_Op := ''satisfy'', wq_Spec := spec\<rparr>) m) of
        Inl _ \<Rightarrow> False | Inr resp \<Rightarrow> wr_Err resp = '''' \<and> wr_Sat resp)"

definition fx_close :: "nat \<Rightarrow> 'c fluxion \<Rightarrow> 'c fluxion" where
  "fx_close p m = m\<lparr>fx_procs := (fx_procs m)(p := None)\<rparr>"

definition close_opt :: "nat option \<Rightarrow> 'c fluxion \<Rightarrow> 'c fluxion" where
  "close_opt w m = (case w of None \<Rightarrow> m | Some p \<Rightarrow> fx_close p m)"

definition spawnWorker :: "'c reapi \<Rightarrow> string \<Rightarrow> 'c fluxion \<Rightarrow> 'c fluxion \<times> (string + nat)" where
  "spawnWorker R body m =
     (let p = fx_next m; m = m\<lparr>fx_next := p + 1\<rparr> in
      case ra_start R p of
        Some e \<Rightarrow> (m, Inl e)
      | None \<Rightarrow>
          (case fx_call R p (no_req\<lparr>wq_Op := ''init'', wq_Graph := body\<rparr>)
                  (m\<lparr>fx_procs := (fx_procs m)(p \<mapsto> None)\<rparr>) of
             (m, Inl e) \<Rightarrow> (fx_close p m, Inl e)
           | (m, Inr resp) \<Rightarrow>
               (if wr_Err resp \<noteq> '''' then (fx_close p m, Inl (''init fluxion context: '' @ wr_Err resp))
                else (m, Inr p))))"

definition spawn_graph ::
  "'c reapi \<Rightarrow> (jgf \<Rightarrow> string + string) \<Rightarrow> jgf \<Rightarrow> 'c fluxion \<Rightarrow> 'c fluxion \<times> (string + nat)" where
  "spawn_graph R json g m = (case json g of Inl e \<Rightarrow> (m, Inl e) | Inr body \<Rightarrow> spawnWorker R body m)"

definition workerFromJGF ::
  "'c reapi \<Rightarrow> (jgf \<Rightarrow> string + string) \<Rightarrow> jgf option \<Rightarrow> 'c fluxion \<Rightarrow> 'c fluxion \<times> (string + nat option)" where
  "workerFromJGF R json g m =
     (case g of
        None \<Rightarrow> (m, Inr None)
      | Some g \<Rightarrow> (case spawn_graph R json g m of (m, Inl e) \<Rightarrow> (m, Inl e) | (m, Inr p) \<Rightarrow> (m, Inr (Some p))))"

definition closeAll :: "clusterCtx \<Rightarrow> 'c fluxion \<Rightarrow> 'c fluxion" where
  "closeAll cc m = fold (\<lambda>(n, s). fx_close (sw_w s)) (cc_subsystems cc) (close_opt (cc_cont cc) m)"

fun spawn_subs ::
  "'c reapi \<Rightarrow> (jgf \<Rightarrow> string + string) \<Rightarrow> cluster_graph \<Rightarrow> (string \<times> jgf) list \<Rightarrow> clusterCtx \<Rightarrow> 'c fluxion \<Rightarrow>
    'c fluxion \<times> (string + clusterCtx)" where
  "spawn_subs R json cg [] cc m = (m, Inr cc)"
| "spawn_subs R json cg ((name, g) # gs) cc m =
     (if name = ContainmentSubsystem then spawn_subs R json cg gs cc m
      else (case spawn_graph R json g m of
              (m, Inl e) \<Rightarrow> (closeAll cc m, Inl (''cluster '' @ cg_ID cg @ '' subsystem '' @ name @ '': '' @ e))
            | (m, Inr p) \<Rightarrow> spawn_subs R json cg gs
                (cc\<lparr>cc_subsystems := AList.update name \<lparr>sw_w = p, sw_descriptive = IsDescriptive cg name\<rparr>
                   (cc_subsystems cc)\<rparr>) m))"

text \<open>The part of \<open>AddCluster\<close> under the lock.\<close>

definition fx_install :: "clusterCtx \<Rightarrow> 'c fluxion \<Rightarrow> 'c fluxion" where
  "fx_install cc m =
     (let i = cc_id cc; r = fx_refs m;
          m = (case fx_clusters m i of
                 Some old \<Rightarrow> (case fx_ctxs m old of None \<Rightarrow> m | Some oc \<Rightarrow> closeAll oc m)
               | None \<Rightarrow> m\<lparr>fx_order := fx_order m @ [i]\<rparr>)
      in m\<lparr>fx_ctxs := (fx_ctxs m)(r \<mapsto> cc), fx_refs := r + 1, fx_clusters := (fx_clusters m)(i \<mapsto> r)\<rparr>)"

definition fx_AddCluster ::
  "'c reapi \<Rightarrow> (jgf \<Rightarrow> string + string) \<Rightarrow> 'c fluxion \<Rightarrow> cluster_graph \<Rightarrow> 'c fluxion \<times> string option" where
  "fx_AddCluster R json m cg =
     (case workerFromJGF R json (Containment_of cg) m of
        (m, Inl e) \<Rightarrow> (m, Some (''cluster '' @ cg_ID cg @ '' containment: '' @ e))
      | (m, Inr cont) \<Rightarrow>
          (case spawn_subs R json cg (cg_Subsystems cg)
                  \<lparr>cc_id = cg_ID cg, cc_cont = cont,
                   cc_contDescriptive = IsDescriptive cg ContainmentSubsystem, cc_subsystems = []\<rparr> m of
             (m, Inl e) \<Rightarrow> (m, Some e)
           | (m, Inr cc) \<Rightarrow> (fx_install cc m, None)))"

fun fx_add_all ::
  "'c reapi \<Rightarrow> (jgf \<Rightarrow> string + string) \<Rightarrow> cluster_graph list \<Rightarrow> 'c fluxion \<Rightarrow> string + 'c fluxion" where
  "fx_add_all R json [] m = Inr m"
| "fx_add_all R json (cg # cgs) m =
     (case fx_AddCluster R json m cg of (m, Some e) \<Rightarrow> Inl e | (m, None) \<Rightarrow> fx_add_all R json cgs m)"

definition NewFluxion ::
  "'c reapi \<Rightarrow> (jgf \<Rightarrow> string + string) \<Rightarrow> fleet option \<Rightarrow> string + 'c fluxion" where
  "NewFluxion R json fleet =
     (case fleet of None \<Rightarrow> Inr empty_fluxion | Some cgs \<Rightarrow> fx_add_all R json cgs empty_fluxion)"

definition fx_ctx :: "'c fluxion \<Rightarrow> string \<Rightarrow> clusterCtx option" where
  "fx_ctx m i = (case fx_clusters m i of None \<Rightarrow> None | Some r \<Rightarrow> fx_ctxs m r)"

definition fx_RemoveCluster :: "'c fluxion \<Rightarrow> string \<Rightarrow> 'c fluxion \<times> string option" where
  "fx_RemoveCluster m i =
     (let m = (case fx_ctx m i of None \<Rightarrow> m | Some cc \<Rightarrow> closeAll cc m)
      in (m\<lparr>fx_clusters := (fx_clusters m)(i := None), fx_order := remove1 i (fx_order m),
            fx_owner := (\<lambda>a. case fx_owner m a of
               None \<Rightarrow> None
             | Some r \<Rightarrow> (case fx_ctxs m r of
                 Some cc \<Rightarrow> if cc_id cc = i then None else Some r | None \<Rightarrow> Some r))\<rparr>, None))"

definition put_ctx :: "string \<Rightarrow> (clusterCtx \<Rightarrow> clusterCtx) \<Rightarrow> 'c fluxion \<Rightarrow> 'c fluxion" where
  "put_ctx i f m = (case fx_clusters m i of
     None \<Rightarrow> m
   | Some r \<Rightarrow> m\<lparr>fx_ctxs := (fx_ctxs m)(r := map_option f (fx_ctxs m r))\<rparr>)"

definition fx_AddSubsystem ::
  "'c reapi \<Rightarrow> (jgf \<Rightarrow> string + string) \<Rightarrow> 'c fluxion \<Rightarrow> string \<Rightarrow> string \<Rightarrow> jgf \<Rightarrow> bool \<Rightarrow> 'c fluxion \<times> string option" where
  "fx_AddSubsystem R json m clusterID name g descriptive =
     (case spawn_graph R json g m of
        (m, Inl e) \<Rightarrow> (m, Some (''subsystem '' @ name @ '' on '' @ clusterID @ '': '' @ e))
      | (m, Inr p) \<Rightarrow>
          (case fx_ctx m clusterID of
             None \<Rightarrow> (fx_close p m, Some (not_registered clusterID))
           | Some cc \<Rightarrow>
               (if name = ContainmentSubsystem
                then (put_ctx clusterID (cc_cont_update (\<lambda>_. Some p)) (close_opt (cc_cont cc) m), None)
                else (put_ctx clusterID
                        (cc_subsystems_update (AList.update name \<lparr>sw_w = p, sw_descriptive = descriptive\<rparr>))
                        (close_opt (map_option sw_w (map_of (cc_subsystems cc) name)) m), None))))"

definition fx_RemoveSubsystem :: "'c fluxion \<Rightarrow> string \<Rightarrow> string \<Rightarrow> 'c fluxion \<times> string option" where
  "fx_RemoveSubsystem m clusterID name =
     (case fx_ctx m clusterID of
        None \<Rightarrow> (m, Some (not_registered clusterID))
      | Some cc \<Rightarrow>
          (if name = ContainmentSubsystem
           then (put_ctx clusterID (cc_cont_update (\<lambda>_. None)) (close_opt (cc_cont cc) m), None)
           else (case map_of (cc_subsystems cc) name of
                   None \<Rightarrow> (m, Some (''subsystem '' @ go_quote name @ '' not found on '' @ go_quote clusterID))
                 | Some s \<Rightarrow> (put_ctx clusterID (cc_subsystems_update (AList.delete name)) (fx_close (sw_w s) m), None))))"

section \<open>Evaluate, Allocate, Free\<close>

definition sub_ok ::
  "'c reapi \<Rightarrow> (fluxDoc \<Rightarrow> string + string) \<Rightarrow> 'c fluxion \<Rightarrow> clusterCtx \<Rightarrow> string \<Rightarrow> resource list \<Rightarrow> bool" where
  "sub_ok R marshal m cc sub section =
     (case map_of (cc_subsystems cc) sub of
        None \<Rightarrow> False
      | Some s \<Rightarrow> list_ex (\<lambda>concrete. case SubsystemFluxSpec marshal concrete of
            Inl _ \<Rightarrow> False | Inr ss \<Rightarrow> fx_satisfy R (sw_w s) ss m) (ExpandSection section))"

definition fx_candidate ::
  "'c reapi \<Rightarrow> (fluxDoc \<Rightarrow> string + string) \<Rightarrow> 'c fluxion \<Rightarrow> jobspec \<Rightarrow> string \<Rightarrow> clusterCtx \<Rightarrow> candidate" where
  "fx_candidate R marshal m js i cc =
     (let contOK = (case cc_cont cc of None \<Rightarrow> False | Some p \<Rightarrow>
            (case ToFluxSpec marshal js of Inl _ \<Rightarrow> False | Inr spec \<Rightarrow> fx_satisfy R p spec m));
          ok = (\<lambda>(sub, section). sub_ok R marshal m cc sub section);
          feasible = (contOK \<and> list_all ok (js_requires js))
      in \<lparr>ca_Cluster = i, ca_Feasible = feasible, ca_FreeNow = feasible, ca_FreeNodes = 0,
          ca_Matched = map fst (filter ok (js_requires js)),
          ca_Missing = (if contOK then [] else [ContainmentSubsystem]) @ map fst (filter (\<lambda>x. \<not> ok x) (js_requires js)),
          ca_Score = 0\<rparr>)"

text \<open>\<open>None\<close>: the order names a cluster that is not registered, a nil dereference.\<close>

definition fx_Evaluate ::
  "'c reapi \<Rightarrow> (fluxDoc \<Rightarrow> string + string) \<Rightarrow> 'c fluxion \<Rightarrow> jobspec \<Rightarrow> candidate list option" where
  "fx_Evaluate R marshal m js =
     (if list_all (\<lambda>i. fx_ctx m i \<noteq> None) (fx_order m)
      then Some (map (\<lambda>i. fx_candidate R marshal m js i (the (fx_ctx m i))) (fx_order m)) else None)"

definition nores_id :: "string \<Rightarrow> nat \<Rightarrow> string" where
  "nores_id clusterID n = ''nores-'' @ clusterID @ ''-'' @ itoa n"

definition fx_Allocate ::
  "'c reapi \<Rightarrow> (fluxDoc \<Rightarrow> string + string) \<Rightarrow> 'c fluxion \<Rightarrow> jobspec \<Rightarrow> string \<Rightarrow>
    'c fluxion \<times> (string + allocation option)" where
  "fx_Allocate R marshal m js clusterID =
     (case ToFluxSpec marshal js of
        Inl e \<Rightarrow> (m, Inl e)
      | Inr spec \<Rightarrow>
     (case fx_ctx m clusterID of
        None \<Rightarrow> (m, Inl (not_registered clusterID))
      | Some cc \<Rightarrow>
     (case cc_cont cc of
        None \<Rightarrow> (m, Inr None)
      | Some p \<Rightarrow>
          (if cc_contDescriptive cc then
             (let m = m\<lparr>fx_seq := (fx_seq m + 1) mod 2 ^ 64\<rparr>
              in (m, Inr (Some \<lparr>al_ID = nores_id clusterID (fx_seq m), al_ClusterID = clusterID, al_VertexIDs = []\<rparr>)))
           else
             (case fx_call R p (no_req\<lparr>wq_Op := ''allocate'', wq_Spec := spec\<rparr>) m of
                (m, Inl e) \<Rightarrow> (m, Inl e)
              | (m, Inr resp) \<Rightarrow>
                  (if wr_Err resp \<noteq> '''' \<or> wr_Allocated resp = '''' then (m, Inr None)
                   else (m\<lparr>fx_owner := (fx_owner m)(itoa (wr_Jobid resp) := fx_clusters m clusterID)\<rparr>,
                         Inr (Some \<lparr>al_ID = itoa (wr_Jobid resp), al_ClusterID = clusterID, al_VertexIDs = []\<rparr>))))))))"

definition ParseUint :: "string \<Rightarrow> string + nat" where
  "ParseUint s =
     (if s = '''' \<or> \<not> list_all is_digit s then Inl (''strconv.ParseUint: parsing '' @ go_quote s @ '': invalid syntax'')
      else if digits_val s \<ge> 2 ^ 64 then Inl (''strconv.ParseUint: parsing '' @ go_quote s @ '': value out of range'')
      else Inr (digits_val s))"

definition fx_Free :: "'c reapi \<Rightarrow> 'c fluxion \<Rightarrow> string \<Rightarrow> 'c fluxion \<times> string option" where
  "fx_Free R m allocID =
     (if HasPrefix allocID ''nores-'' then (m, None)
      else (case fx_owner m allocID of
        None \<Rightarrow> (m, None)
      | Some r \<Rightarrow>
          (case ParseUint allocID of
             Inl e \<Rightarrow> (m, Some e)
           | Inr jobid \<Rightarrow>
               (case fx_ctxs m r of
                  None \<Rightarrow> (m, None)
                | Some cc \<Rightarrow>
                    (case cc_cont cc of
                       None \<Rightarrow> (m\<lparr>fx_owner := (fx_owner m)(allocID := None)\<rparr>, None)
                     | Some p \<Rightarrow>
                         (case fx_call R p (no_req\<lparr>wq_Op := ''cancel'', wq_Jobid := jobid\<rparr>) m of
                            (m, Inl e) \<Rightarrow> (m, Some e)
                          | (m, Inr resp) \<Rightarrow>
                              (if wr_Err resp \<noteq> '''' then (m, Some (''cancel: '' @ wr_Err resp))
                               else (m\<lparr>fx_owner := (fx_owner m)(allocID := None)\<rparr>, None))))))))"

definition FluxionMatcher ::
  "'c reapi \<Rightarrow> (jgf \<Rightarrow> string + string) \<Rightarrow> (fluxDoc \<Rightarrow> string + string) \<Rightarrow> 'c fluxion matcher" where
  "FluxionMatcher R json marshal = \<lparr>mt_Evaluate = fx_Evaluate R marshal,
     mt_Allocate = (\<lambda>m js i. Some (fx_Allocate R marshal m js i)), mt_Free = fx_Free R,
     mt_AddCluster = fx_AddCluster R json, mt_RemoveCluster = fx_RemoveCluster,
     mt_AddSubsystem = fx_AddSubsystem R json, mt_RemoveSubsystem = fx_RemoveSubsystem\<rparr>"

end
