(* ===== verification/Workers.thy ===== *)
theory Workers
  imports Fluxion Booking Json
begin

text \<open>
  The theory of the Fluxion matcher: the slots its workers are held in, the invariant of its books
  over every operation and every worker that ends by itself, what its reports mean, and when the
  release of an allocation is exact.
\<close>

section \<open>Who holds which worker\<close>

definition cc_slot :: "clusterCtx \<Rightarrow> string \<Rightarrow> nat option" where
  "cc_slot cc name =
     (if name = ContainmentSubsystem then cc_cont cc else map_option sw_w (map_of (cc_subsystems cc) name))"

definition fx_slot :: "'c fluxion \<Rightarrow> string \<Rightarrow> string \<Rightarrow> nat option" where
  "fx_slot m i name = (case fx_ctx m i of None \<Rightarrow> None | Some cc \<Rightarrow> cc_slot cc name)"

text \<open>
  The bookkeeping of \<open>fluxion.go\<close>: the order lists the registered clusters once, every worker that
  runs is in a slot, no worker is in two, and every pointer points.
\<close>

definition fx_books :: "'c fluxion \<Rightarrow> bool" where
  "fx_books m \<longleftrightarrow>
     distinct (fx_order m) \<and> set (fx_order m) = dom (fx_clusters m) \<and>
     (\<forall>i r. fx_clusters m i = Some r \<longrightarrow> (\<exists>cc. fx_ctxs m r = Some cc \<and> cc_id cc = i)) \<and>
     (\<forall>i n j k p. fx_slot m i n = Some p \<longrightarrow> fx_slot m j k = Some p \<longrightarrow> i = j \<and> n = k) \<and>
     (\<forall>i n p. fx_slot m i n = Some p \<longrightarrow> p < fx_next m) \<and>
     (\<forall>r. fx_ctxs m r \<noteq> None \<longrightarrow> r < fx_refs m) \<and> (\<forall>a r. fx_owner m a = Some r \<longrightarrow> fx_ctxs m r \<noteq> None)"

definition fx_inv :: "'c fluxion \<Rightarrow> bool" where
  "fx_inv m \<longleftrightarrow> fx_books m \<and> (\<forall>p. fx_procs m p \<noteq> None \<longrightarrow> (\<exists>i n. fx_slot m i n = Some p))"

text \<open>A context under construction: its workers and those in the slots of the matcher account for all that run.\<close>

definition fx_part :: "'c fluxion \<Rightarrow> clusterCtx \<Rightarrow> bool" where
  "fx_part m cc \<longleftrightarrow>
     (\<forall>p. fx_procs m p \<noteq> None \<longrightarrow> (\<exists>i n. fx_slot m i n = Some p) \<or> (\<exists>n. cc_slot cc n = Some p)) \<and>
     (\<forall>i n k p. fx_slot m i n = Some p \<longrightarrow> cc_slot cc k \<noteq> Some p) \<and>
     (\<forall>n k p. cc_slot cc n = Some p \<longrightarrow> cc_slot cc k = Some p \<longrightarrow> n = k) \<and>
     (\<forall>n p. cc_slot cc n = Some p \<longrightarrow> p < fx_next m)"

text \<open>The fields no call to a worker and no end of a process touches.\<close>

definition same_books :: "'c fluxion \<Rightarrow> 'c fluxion \<Rightarrow> bool" where
  "same_books m m' \<longleftrightarrow> fx_ctxs m' = fx_ctxs m \<and> fx_refs m' = fx_refs m \<and> fx_clusters m' = fx_clusters m \<and>
     fx_order m' = fx_order m \<and> fx_owner m' = fx_owner m"

lemma same_books_slot: "same_books m m' \<Longrightarrow> fx_ctx m' i = fx_ctx m i \<and> fx_slot m' i n = fx_slot m i n"
  by (simp add: same_books_def fx_ctx_def fx_slot_def cong: option.case_cong)

lemma same_books_books:
  assumes "same_books m m'" "fx_next m \<le> fx_next m'" "fx_books m"
  shows "fx_books m'"
proof -
  have s: "fx_slot m' = fx_slot m" using same_books_slot [OF assms(1)] by blast
  have b: "fx_ctxs m' = fx_ctxs m" "fx_refs m' = fx_refs m" "fx_clusters m' = fx_clusters m" "fx_order m' = fx_order m"
      "fx_owner m' = fx_owner m" using assms(1) by (auto simp: same_books_def)
  have "\<forall>i n p. fx_slot m i n = Some p \<longrightarrow> p < fx_next m'" using assms(2,3) unfolding fx_books_def by (meson less_le_trans)
  then show ?thesis using assms(3) unfolding fx_books_def s b by blast
qed

lemma same_books_inv:
  assumes "same_books m m'" "fx_next m \<le> fx_next m'" "\<And>p. fx_procs m' p \<noteq> None \<Longrightarrow> fx_procs m p \<noteq> None" "fx_inv m"
  shows "fx_inv m'"
  unfolding fx_inv_def
proof (intro conjI allI impI)
  show "fx_books m'" using same_books_books [OF assms(1,2)] assms(4) by (simp add: fx_inv_def)
  fix p assume "fx_procs m' p \<noteq> None"
  then have "fx_procs m p \<noteq> None" by (rule assms(3))
  then show "\<exists>i n. fx_slot m' i n = Some p"
    using assms(4) same_books_slot [OF assms(1)] by (simp add: fx_inv_def)
qed

lemma fx_close_same [simp]: "same_books m (fx_close p m)" "fx_next (fx_close p m) = fx_next m"
  "fx_procs (fx_close p m) q = (if q = p then None else fx_procs m q)"
  by (simp_all add: same_books_def fx_close_def)

lemma same_books_refl [simp]: "same_books m m"
  by (simp add: same_books_def)

lemma same_books_trans: "same_books a b \<Longrightarrow> same_books b c \<Longrightarrow> same_books a c"
  by (simp add: same_books_def)

lemma close_opt_same [simp]: "same_books m (close_opt w m)" "fx_next (close_opt w m) = fx_next m"
  "fx_procs (close_opt w m) q = (if w = Some q then None else fx_procs m q)"
  by (auto simp: close_opt_def split: option.split)

lemma closeAll_fold:
  "same_books m (fold (\<lambda>(n, s). fx_close (sw_w s)) ss m) \<and> fx_next (fold (\<lambda>(n, s). fx_close (sw_w s)) ss m) = fx_next m \<and>
   fx_procs (fold (\<lambda>(n, s). fx_close (sw_w s)) ss m) q = (if q \<in> sw_w ` snd ` set ss then None else fx_procs m q)"
proof (induction ss arbitrary: m)
  case (Cons s ss)
  obtain n w where s: "s = (n, w)" by (cases s)
  show ?case
    using Cons.IH [of "fx_close (sw_w w) m"] same_books_trans [OF fx_close_same(1)] by (auto simp: s)
qed simp

lemma closeAll_same [simp]: "same_books m (closeAll cc m)" "fx_next (closeAll cc m) = fx_next m"
  using closeAll_fold [of "close_opt (cc_cont cc) m" "cc_subsystems cc" undefined]
    same_books_trans [OF close_opt_same(1)] by (auto simp: closeAll_def)

lemma close_slots [simp]:
  "fx_ctx (closeAll cc m) i = fx_ctx m i" "fx_slot (closeAll cc m) i n = fx_slot m i n"
  "fx_ctx (close_opt w m) i = fx_ctx m i" "fx_slot (close_opt w m) i n = fx_slot m i n"
  "fx_ctx (fx_close p m) i = fx_ctx m i" "fx_slot (fx_close p m) i n = fx_slot m i n"
  using same_books_slot [OF closeAll_same(1)] same_books_slot [OF close_opt_same(1)] same_books_slot [OF fx_close_same(1)]
  by blast+

lemma closeAll_fields [simp]:
  "fx_ctxs (closeAll cc m) = fx_ctxs m" "fx_refs (closeAll cc m) = fx_refs m" "fx_clusters (closeAll cc m) = fx_clusters m"
  "fx_order (closeAll cc m) = fx_order m" "fx_owner (closeAll cc m) = fx_owner m"
  using closeAll_same(1) [of m cc] by (simp_all add: same_books_def)

lemma closeAll_kills: "cc_slot cc n = Some p \<Longrightarrow> fx_procs (closeAll cc m) p = None"
  using closeAll_fold [of "close_opt (cc_cont cc) m" "cc_subsystems cc" p]
  by (force simp: closeAll_def cc_slot_def dest: map_of_SomeD split: if_splits)

lemma closeAll_procs: "fx_procs (closeAll cc m) p \<noteq> None \<Longrightarrow> fx_procs m p \<noteq> None"
  using closeAll_fold [of "close_opt (cc_cont cc) m" "cc_subsystems cc" p]
  by (auto simp: closeAll_def split: if_splits)

lemma fx_call_same:
  assumes "fx_call R p r m = (m', res)"
  shows "same_books m m'" "fx_next m' = fx_next m" "fx_seq m' = fx_seq m" "fx_procs m' q \<noteq> None \<longleftrightarrow> fx_procs m q \<noteq> None"
    "q \<noteq> p \<Longrightarrow> fx_procs m' q = fx_procs m q"
  using assms by (auto simp: fx_call_def same_books_def split: option.splits prod.splits if_splits)

lemma spawn_graph_result:
  assumes "spawn_graph R json g m = (m', res)" "fx_procs m (fx_next m) = None"
  shows "same_books m m'" "fx_next m \<le> fx_next m'"
    "case res of Inl _ \<Rightarrow> (\<forall>q. fx_procs m' q = fx_procs m q)
     | Inr p \<Rightarrow> p = fx_next m \<and> p < fx_next m' \<and> (\<forall>q. q \<noteq> p \<longrightarrow> fx_procs m' q = fx_procs m q)"
  using assms
  by (auto simp: spawn_graph_def spawnWorker_def Let_def fx_call_def same_books_def fx_close_def
      split: sum.splits option.splits prod.splits if_splits)


lemma part_fresh: "fx_part m cc \<Longrightarrow> fx_books m \<Longrightarrow> fx_procs m (fx_next m) = None"
  unfolding fx_part_def fx_books_def by (meson less_irrefl)

lemma inv_part: "fx_inv m \<Longrightarrow> (\<And>n. cc_slot cc n = None) \<Longrightarrow> fx_part m cc"
  by (simp add: fx_part_def fx_inv_def)

lemma books_ref: "fx_books m \<Longrightarrow> fx_clusters m i = Some r \<Longrightarrow> fx_clusters m j = Some r \<Longrightarrow> i = j"
  unfolding fx_books_def by (metis option.inject)

lemma books_slot:
  assumes "fx_books m"
  shows "fx_slot m i n = Some p \<Longrightarrow> fx_slot m j k = Some p \<Longrightarrow> i = j \<and> n = k" "fx_slot m i n = Some p \<Longrightarrow> p < fx_next m"
  using assms by (simp_all add: fx_books_def)

lemma books_ctx: "fx_books m \<Longrightarrow> fx_ctx m i = Some cc \<Longrightarrow> cc_id cc = i"
  unfolding fx_books_def fx_ctx_def by (fastforce split: option.splits)

lemma part_facts:
  assumes "fx_part m cc"
  shows "fx_procs m p \<noteq> None \<Longrightarrow> (\<exists>i n. fx_slot m i n = Some p) \<or> (\<exists>n. cc_slot cc n = Some p)"
    "fx_slot m i n = Some p \<Longrightarrow> cc_slot cc k \<noteq> Some p" "cc_slot cc n = Some p \<Longrightarrow> cc_slot cc k = Some p \<Longrightarrow> n = k"
    "cc_slot cc n = Some p \<Longrightarrow> p < fx_next m"
  using assms by (simp_all add: fx_part_def)

text \<open>
  A spawned worker goes into a slot of the context under construction.\<close>

lemma part_spawn:
  assumes "fx_part m cc" "fx_books m" "spawn_graph R json g m = (m', res)"
  shows "fx_books m'" "res = Inl e \<Longrightarrow> fx_part m' cc"
    "res = Inr p \<Longrightarrow> (\<And>k. cc_slot cc' k = (if k = n then Some p else cc_slot cc k)) \<Longrightarrow> cc_slot cc n = None \<Longrightarrow> fx_part m' cc'"
proof -
  note r = spawn_graph_result [OF assms(3) part_fresh [OF assms(1,2)]]
  have s: "fx_slot m' = fx_slot m" using same_books_slot [OF r(1)] by blast
  show "fx_books m'" by (rule same_books_books [OF r(1,2) assms(2)])
  have lt: "cc_slot cc k = Some q \<Longrightarrow> q < fx_next m'" for k q
    using assms(1) r(2) unfolding fx_part_def by (meson less_le_trans)
  show "fx_part m' cc" if "res = Inl e"
  proof -
    have "fx_procs m' = fx_procs m" using r(3) that by auto
    then show ?thesis using assms(1) lt unfolding fx_part_def s by auto
  qed
  assume p: "res = Inr p" and cc': "\<And>k. cc_slot cc' k = (if k = n then Some p else cc_slot cc k)" and "cc_slot cc n = None"
  have q: "p = fx_next m" "p < fx_next m'" "\<And>q. q \<noteq> p \<Longrightarrow> fx_procs m' q = fx_procs m q" using r(3) p by auto
  have new: "fx_slot m i k \<noteq> Some p" "cc_slot cc k \<noteq> Some p" for i k
    using books_slot(2) [OF assms(2)] assms(1) q(1) unfolding fx_part_def by blast+
  show "fx_part m' cc'" unfolding fx_part_def s
  proof (intro conjI allI impI)
    fix u assume "fx_procs m' u \<noteq> None"
    then show "(\<exists>i n. fx_slot m i n = Some u) \<or> (\<exists>n. cc_slot cc' n = Some u)"
    proof (cases "u = p")
      case False
      then consider "\<exists>i n. fx_slot m i n = Some u" | k where "cc_slot cc k = Some u"
        using part_facts(1) [OF assms(1), of u] q(3) [of u] \<open>fx_procs m' u \<noteq> None\<close> by auto
      then show ?thesis
      proof cases
        case 2
        then have "cc_slot cc' k = Some u" using \<open>cc_slot cc n = None\<close> by (auto simp: cc')
        then show ?thesis by blast
      qed blast
    qed (use cc' [of n] in auto)
  next
    fix i l k u assume "fx_slot m i l = Some u"
    then show "cc_slot cc' k \<noteq> Some u" using part_facts(2) [OF assms(1)] new(1) by (auto simp: cc')
  next
    fix l k u assume "cc_slot cc' l = Some u" "cc_slot cc' k = Some u"
    then show "l = k" using part_facts(3) [OF assms(1), of l u k] new(2) by (auto simp: cc' split: if_splits)
  next
    fix l u assume "cc_slot cc' l = Some u"
    then show "u < fx_next m'" using lt q(2) by (auto simp: cc' split: if_splits)
  qed
qed

lemma spawn_subs_part:
  assumes "spawn_subs R json cg gs cc m = (m', res)" "fx_part m cc" "fx_books m"
    and "distinct (map fst gs)" "\<And>n. n \<in> fst ` set gs \<Longrightarrow> n \<noteq> ContainmentSubsystem \<Longrightarrow> map_of (cc_subsystems cc) n = None"
  shows "fx_books m' \<and> (case res of Inl e \<Rightarrow> fx_inv m' | Inr cc' \<Rightarrow> fx_part m' cc' \<and> cc_id cc' = cc_id cc)"
  using assms
proof (induction gs arbitrary: cc m)
  case (Cons x gs)
  obtain name g where x: "x = (name, g)" by (cases x)
  show ?case
  proof (cases "name = ContainmentSubsystem")
    case True
    then show ?thesis using Cons.IH [of cc m] Cons.prems by (auto simp: x)
  next
    case False
    obtain m1 r where sp: "spawn_graph R json g m = (m1, r)" by (cases "spawn_graph R json g m")
    note part = part_spawn [OF Cons.prems(2,3) sp]
    show ?thesis
    proof (cases r)
      case (Inl e)
      then have m': "m' = closeAll cc m1" "\<exists>e. res = Inl e" using Cons.prems(1) False sp by (auto simp: x)
      have b: "fx_books m'" unfolding m' by (rule same_books_books [OF closeAll_same(1) _ part(1)]) simp
      have "\<exists>i n. fx_slot m' i n = Some p" if "fx_procs m' p \<noteq> None" for p
      proof -
        have "cc_slot cc n \<noteq> Some p" for n using that closeAll_kills [of cc n p m1] unfolding m' by auto
        then have "\<exists>i n. fx_slot m1 i n = Some p"
          using closeAll_procs [OF that [unfolded m']] part(2) [OF Inl] unfolding fx_part_def by blast
        then show ?thesis by (simp add: m')
      qed
      then show ?thesis using b m'(2) by (auto simp: fx_inv_def)
    next
      case (Inr p)
      let ?cc = "cc\<lparr>cc_subsystems := AList.update name \<lparr>sw_w = p, sw_descriptive = IsDescriptive cg name\<rparr> (cc_subsystems cc)\<rparr>"
      have none: "map_of (cc_subsystems cc) name = None" using Cons.prems(5) [of name] False by (simp add: x)
      have "fx_part m1 ?cc"
        by (rule part(3) [OF Inr, of _ name]) (use False none in \<open>auto simp: cc_slot_def update_conv'\<close>)
      moreover have "spawn_subs R json cg gs ?cc m1 = (m', res)" using Cons.prems(1) False sp Inr by (simp add: x)
      moreover have "map_of (cc_subsystems ?cc) n = None" if "n \<in> fst ` set gs" "n \<noteq> ContainmentSubsystem" for n
        using Cons.prems(4,5) that by (auto simp: x update_conv')
      ultimately show ?thesis using Cons.IH [of ?cc m1] part(1) Cons.prems(4)
        by (cases res) (simp_all add: x)
    qed
  qed
qed auto


lemma install_slots:
  assumes "fx_books m" "cc_id cc = i"
  shows "fx_slot (fx_install cc m) j n = (if j = i then cc_slot cc n else fx_slot m j n)"
proof -
  have fresh: "fx_clusters m j \<noteq> Some (fx_refs m)" for j
    using assms(1) unfolding fx_books_def by (metis less_irrefl option.distinct(1))
  show ?thesis
    using fresh assms(2) by (auto simp: fx_install_def Let_def fx_slot_def fx_ctx_def split: option.splits)
qed

lemma install_books:
  assumes "fx_books m" "fx_part m cc"
  shows "fx_inv (fx_install cc m)"
proof -
  let ?i = "cc_id cc" and ?m = "fx_install cc m"
  note slots = install_slots [OF assms(1) refl]
  have fields: "fx_ctxs ?m = (fx_ctxs m)(fx_refs m \<mapsto> cc)" "fx_refs ?m = fx_refs m + 1"
    "fx_clusters ?m = (fx_clusters m)(?i \<mapsto> fx_refs m)" "fx_owner ?m = fx_owner m" "fx_next ?m = fx_next m"
    "fx_order ?m = (if fx_clusters m ?i = None then fx_order m @ [?i] else fx_order m)"
    by (auto simp: fx_install_def Let_def split: option.splits)
  have procs: "fx_procs m p \<noteq> None \<and> fx_slot m ?i n \<noteq> Some p" if "fx_procs ?m p \<noteq> None" for p n
    using that closeAll_procs [of _ m p] closeAll_kills [of _ n p m]
    by (auto simp: fx_install_def Let_def fx_slot_def fx_ctx_def split: option.splits)
  note b = assms(1) [unfolded fx_books_def]
  have "fx_books ?m" unfolding fx_books_def fields slots
  proof (intro conjI allI impI)
    show "distinct (if fx_clusters m ?i = None then fx_order m @ [?i] else fx_order m)"
      "set (if fx_clusters m ?i = None then fx_order m @ [?i] else fx_order m) = dom ((fx_clusters m)(?i \<mapsto> fx_refs m))"
      using b by auto
  next
    fix j r assume "((fx_clusters m)(?i \<mapsto> fx_refs m)) j = Some r"
    then show "\<exists>x. ((fx_ctxs m)(fx_refs m \<mapsto> cc)) r = Some x \<and> cc_id x = j"
      using b by (cases "j = ?i") (auto, metis less_irrefl option.distinct(1))
  next
    fix j n k l p assume "(if j = ?i then cc_slot cc n else fx_slot m j n) = Some p"
      "(if k = ?i then cc_slot cc l else fx_slot m k l) = Some p"
    then show "j = k" "n = l"
      using books_slot(1) [OF assms(1), of j n p k l] part_facts(2,3) [OF assms(2)] by (auto split: if_splits)
  next
    fix j n p assume "(if j = ?i then cc_slot cc n else fx_slot m j n) = Some p"
    then show "p < fx_next m"
      using books_slot(2) [OF assms(1)] part_facts(4) [OF assms(2)] by (auto split: if_splits)
  next
    fix r assume "((fx_ctxs m)(fx_refs m \<mapsto> cc)) r \<noteq> None"
    then show "r < fx_refs m + 1" using b by (auto split: if_splits)
  next
    fix a r assume "fx_owner m a = Some r"
    then show "((fx_ctxs m)(fx_refs m \<mapsto> cc)) r \<noteq> None" using b by auto
  qed
  moreover have "\<exists>j n. fx_slot ?m j n = Some p" if live: "fx_procs ?m p \<noteq> None" for p
  proof -
    consider j n where "fx_slot m j n = Some p" "j \<noteq> ?i" | n where "cc_slot cc n = Some p"
      using part_facts(1) [OF assms(2), of p] procs [OF live] by metis
    then show ?thesis by cases (auto simp: slots intro: exI [of _ ?i])
  qed
  ultimately show ?thesis by (simp add: fx_inv_def)
qed

lemma AddCluster_inv:
  assumes "fx_inv m" "wf_map (cg_Subsystems cg)"
  shows "fx_inv (fst (fx_AddCluster R json m cg))"
proof -
  let ?cc = "\<lambda>c. \<lparr>cc_id = cg_ID cg, cc_cont = c, cc_contDescriptive = IsDescriptive cg ContainmentSubsystem, cc_subsystems = []\<rparr>"
  have slot: "cc_slot (?cc c) n = (if n = ContainmentSubsystem then c else None)" for c n by (simp add: cc_slot_def)
  have empty: "fx_part m (?cc None)" using assms(1) by (rule inv_part) (simp add: slot)
  have b: "fx_books m" using assms(1) by (simp add: fx_inv_def)
  have cont: "fx_books m1 \<and> (case r of Inl e \<Rightarrow> fx_inv m1 | Inr c \<Rightarrow> fx_part m1 (?cc c))"
    if "workerFromJGF R json (Containment_of cg) m = (m1, r)" for m1 r
  proof (cases "Containment_of cg")
    case None
    then show ?thesis using that b empty by (auto simp: workerFromJGF_def)
  next
    case (Some g)
    obtain m2 r2 where sp: "spawn_graph R json g m = (m2, r2)" by (cases "spawn_graph R json g m")
    note part = part_spawn [OF empty b sp]
    have "fx_inv m2" if "fx_part m2 (?cc None)" using that part(1) by (auto simp: fx_inv_def fx_part_def slot)
    moreover have "fx_part m2 (?cc (Some p))" if "r2 = Inr p" for p
      by (rule part(3) [OF that, of _ ContainmentSubsystem]) (simp_all add: slot)
    ultimately show ?thesis using that part(1,2) Some sp by (cases r2) (auto simp: workerFromJGF_def)
  qed
  obtain m1 r where w: "workerFromJGF R json (Containment_of cg) m = (m1, r)"
    by (cases "workerFromJGF R json (Containment_of cg) m")
  show ?thesis
  proof (cases r)
    case (Inl e)
    then show ?thesis using cont [OF w] w by (simp add: fx_AddCluster_def)
  next
    case (Inr c)
    obtain m2 r2 where s: "spawn_subs R json cg (cg_Subsystems cg) (?cc c) m1 = (m2, r2)"
      by (cases "spawn_subs R json cg (cg_Subsystems cg) (?cc c) m1")
    have "fx_books m2 \<and> (case r2 of Inl e \<Rightarrow> fx_inv m2 | Inr cc' \<Rightarrow> fx_part m2 cc' \<and> cc_id cc' = cc_id (?cc c))"
      using spawn_subs_part [OF s] cont [OF w] assms(2) Inr by (simp add: wf_map_def mkeys_def)
    then show ?thesis using w s Inr install_books by (cases r2) (auto simp: fx_AddCluster_def)
  qed
qed


text \<open>
  One slot of a registered cluster changes.\<close>

lemma put_inv:
  assumes inv: "fx_inv m" and ctx: "fx_ctx m i = Some cc" and id: "cc_id (f cc) = cc_id cc"
    and same: "same_books m m1" "fx_next m \<le> fx_next m1"
    and slots: "\<And>n. cc_slot (f cc) n = (if n = name then w else cc_slot cc n)"
    and fresh: "\<And>p. w = Some p \<Longrightarrow> fx_next m \<le> p \<and> p < fx_next m1"
    and live: "\<And>q. fx_procs m1 q \<noteq> None \<Longrightarrow> w = Some q \<or> (fx_procs m q \<noteq> None \<and> fx_slot m i name \<noteq> Some q)"
  shows "fx_inv (put_ctx i f m1)"
proof -
  obtain r where r: "fx_clusters m i = Some r" "fx_ctxs m r = Some cc" using ctx by (auto simp: fx_ctx_def split: option.splits)
  let ?m = "put_ctx i f m1"
  have s: "fx_ctxs m1 = fx_ctxs m" "fx_refs m1 = fx_refs m" "fx_clusters m1 = fx_clusters m" "fx_order m1 = fx_order m"
      "fx_owner m1 = fx_owner m" using same(1) by (auto simp: same_books_def)
  have books: "fx_books m" using inv by (simp add: fx_inv_def)
  note b = books [unfolded fx_books_def]
  have fields: "fx_ctxs ?m = (fx_ctxs m)(r \<mapsto> f cc)" "fx_refs ?m = fx_refs m" "fx_clusters ?m = fx_clusters m"
    "fx_owner ?m = fx_owner m" "fx_next ?m = fx_next m1" "fx_order ?m = fx_order m" "fx_procs ?m = fx_procs m1"
    using r by (simp_all add: put_ctx_def s)
  have other: "fx_clusters m j = Some r \<Longrightarrow> j = i" for j using books_ref [OF books] r(1) by blast
  have slot: "fx_slot ?m j n = (if j = i \<and> n = name then w else fx_slot m j n)" for j n
  proof (cases "j = i")
    case True
    then show ?thesis using r slots by (simp add: fx_slot_def fx_ctx_def fields)
  next
    case False
    then have "fx_clusters m j \<noteq> Some r" using other by blast
    then have "fx_ctx ?m j = fx_ctx m j" by (auto simp: fx_ctx_def fields split: option.split)
    then show ?thesis using False by (simp add: fx_slot_def)
  qed
  have new: "fx_slot m j n \<noteq> Some p" if "w = Some p" for j n p
    using fresh [OF that] books_slot(2) [OF books, of j n p] by auto
  have "fx_books ?m" unfolding fx_books_def fields slot
  proof (intro conjI allI impI)
    fix j r' assume "fx_clusters m j = Some r'"
    moreover from this have "\<exists>x. fx_ctxs m r' = Some x \<and> cc_id x = j" using b by blast
    moreover have "cc_id (f cc) = i" using id books_ctx [OF books ctx] by simp
    ultimately show "\<exists>x. ((fx_ctxs m)(r \<mapsto> f cc)) r' = Some x \<and> cc_id x = j"
      using other by (cases "r' = r") auto
  next
    fix j n k l p assume "(if j = i \<and> n = name then w else fx_slot m j n) = Some p"
      "(if k = i \<and> l = name then w else fx_slot m k l) = Some p"
    then show "j = k" "n = l" using books_slot(1) [OF books, of j n p k l] new by (auto split: if_splits)
  next
    fix j n p assume "(if j = i \<and> n = name then w else fx_slot m j n) = Some p"
    then show "p < fx_next m1"
      using books_slot(2) [OF books, of j n p] fresh same(2) by (auto split: if_splits)
  next
    fix r' assume "((fx_ctxs m)(r \<mapsto> f cc)) r' \<noteq> None"
    then show "r' < fx_refs m" using b r by (auto split: if_splits)
  next
    fix a r' assume "fx_owner m a = Some r'"
    then show "((fx_ctxs m)(r \<mapsto> f cc)) r' \<noteq> None" using b by auto
  qed (use b in auto)
  moreover have "\<exists>j n. fx_slot ?m j n = Some p" if runs: "fx_procs ?m p \<noteq> None" for p
  proof -
    consider "w = Some p" | j n where "fx_slot m j n = Some p" "fx_slot m i name \<noteq> Some p"
      using live [of p] runs inv unfolding fx_inv_def fields by blast
    then show ?thesis
    proof cases
      case 1
      then have "fx_slot ?m i name = Some p" by (simp add: slot)
      then show ?thesis by blast
    next
      case 2
      then have "fx_slot ?m j n = Some p" by (auto simp: slot)
      then show ?thesis by blast
    qed
  qed
  ultimately show ?thesis by (simp add: fx_inv_def)
qed

lemma AddSubsystem_inv:
  assumes "fx_inv m"
  shows "fx_inv (fst (fx_AddSubsystem R json m i name g d))"
proof -
  have b: "fx_books m" and live: "fx_procs m (fx_next m) = None"
    using assms unfolding fx_inv_def by (blast, meson books_slot(2) less_irrefl)
  obtain m1 res where sp: "spawn_graph R json g m = (m1, res)" by (cases "spawn_graph R json g m")
  note r = spawn_graph_result [OF sp live]
  have ctx: "fx_ctx m1 j = fx_ctx m j" "fx_slot m1 j n = fx_slot m j n" for j n using same_books_slot [OF r(1)] by auto
  show ?thesis
  proof (cases res)
    case (Inl e)
    then show ?thesis using same_books_inv [OF r(1,2) _ assms] r(3) sp by (simp add: fx_AddSubsystem_def)
  next
    case (Inr p)
    then have p: "p = fx_next m" "p < fx_next m1" "\<And>q. q \<noteq> p \<Longrightarrow> fx_procs m1 q = fx_procs m q" using r(3) by auto
    show ?thesis
    proof (cases "fx_ctx m i")
      case None
      have "fx_inv (fx_close p m1)"
        by (rule same_books_inv [OF same_books_trans [OF r(1) fx_close_same(1)] _ _ assms]) (use r(2) p in \<open>auto split: if_splits\<close>)
      then show ?thesis using None sp Inr ctx by (simp add: fx_AddSubsystem_def)
    next
      case (Some cc)
      let ?f = "if name = ContainmentSubsystem then cc_cont_update (\<lambda>_. Some p)
        else cc_subsystems_update (AList.update name \<lparr>sw_w = p, sw_descriptive = d\<rparr>)"
      have "fx_inv (put_ctx i ?f (close_opt (cc_slot cc name) m1))"
      proof (rule put_inv [OF assms Some])
        show "cc_id (?f cc) = cc_id cc" by simp
        show "same_books m (close_opt (cc_slot cc name) m1)" using same_books_trans [OF r(1) close_opt_same(1)] .
        show "fx_next m \<le> fx_next (close_opt (cc_slot cc name) m1)" using r(2) by simp
        show "cc_slot (?f cc) n = (if n = name then Some p else cc_slot cc n)" for n
          by (auto simp: cc_slot_def update_conv')
        show "fx_next m \<le> q \<and> q < fx_next (close_opt (cc_slot cc name) m1)" if "Some p = Some q" for q
          using that p by simp
        show "Some p = Some q \<or> fx_procs m q \<noteq> None \<and> fx_slot m i name \<noteq> Some q"
          if "fx_procs (close_opt (cc_slot cc name) m1) q \<noteq> None" for q
          using that p(3) [of q] Some by (cases "q = p") (auto simp: fx_slot_def split: if_splits)
      qed
      then show ?thesis using Some sp Inr ctx by (auto simp: fx_AddSubsystem_def cc_slot_def split: if_splits)
    qed
  qed
qed

lemma RemoveSubsystem_inv:
  assumes "fx_inv m"
  shows "fx_inv (fst (fx_RemoveSubsystem m i name))"
proof (cases "fx_ctx m i")
  case None
  then show ?thesis using assms by (simp add: fx_RemoveSubsystem_def)
next
  case (Some cc)
  let ?f = "if name = ContainmentSubsystem then cc_cont_update (\<lambda>_. None) else cc_subsystems_update (AList.delete name)"
  have "fx_inv (put_ctx i ?f (close_opt (cc_slot cc name) m))"
  proof (rule put_inv [OF assms Some])
    show "cc_slot (?f cc) n = (if n = name then None else cc_slot cc n)" for n
      by (auto simp: cc_slot_def delete_conv')
    show "None = Some q \<or> fx_procs m q \<noteq> None \<and> fx_slot m i name \<noteq> Some q"
      if "fx_procs (close_opt (cc_slot cc name) m) q \<noteq> None" for q
      using that Some by (auto simp: fx_slot_def split: if_splits)
  qed auto
  then show ?thesis
    using Some assms by (auto simp: fx_RemoveSubsystem_def cc_slot_def close_opt_def split: if_splits option.splits)
qed

lemma RemoveCluster_inv:
  assumes "fx_inv m"
  shows "fx_inv (fst (fx_RemoveCluster m i))"
proof -
  let ?m1 = "case fx_ctx m i of None \<Rightarrow> m | Some cc \<Rightarrow> closeAll cc m" and ?m = "fst (fx_RemoveCluster m i)"
  have books: "fx_books m" using assms by (simp add: fx_inv_def)
  note b = books [unfolded fx_books_def]
  have s: "same_books m ?m1" "fx_next ?m1 = fx_next m" by (auto split: option.split)
  have fields: "fx_ctxs ?m = fx_ctxs m" "fx_refs ?m = fx_refs m" "fx_clusters ?m = (fx_clusters m)(i := None)"
    "fx_order ?m = remove1 i (fx_order m)" "fx_next ?m = fx_next m" "fx_procs ?m = fx_procs ?m1"
    "fx_owner ?m a = Some r \<Longrightarrow> fx_owner m a = Some r" for a r
    using s by (auto simp: fx_RemoveCluster_def Let_def same_books_def split: option.splits if_splits)
  have slot: "fx_slot ?m j n = (if j = i then None else fx_slot m j n)" for j n
    by (auto simp: fx_slot_def fx_ctx_def fields cong: option.case_cong)
  have "fx_books ?m" unfolding fx_books_def slot
  proof (intro conjI allI impI)
    fix a r assume "fx_owner ?m a = Some r"
    then show "fx_ctxs ?m r \<noteq> None" using fields(7) b unfolding fields(1) by blast
  qed (use b in \<open>auto simp: fields distinct_remove1 split: if_splits\<close>)
  moreover have "\<exists>j n. fx_slot ?m j n = Some p" if "fx_procs ?m p \<noteq> None" for p
  proof -
    have p: "fx_procs m p \<noteq> None" "fx_slot m i n \<noteq> Some p" for n
      using that closeAll_procs [of _ m p] closeAll_kills [of _ n p m]
      by (auto simp: fields fx_slot_def split: option.splits)
    then obtain j n where "fx_slot m j n = Some p" using assms unfolding fx_inv_def by blast
    then show ?thesis using p(2) by (metis slot)
  qed
  ultimately show ?thesis by (simp add: fx_inv_def)
qed


lemma books_only:
  assumes "fx_inv m" "same_books m m1" "fx_next m1 = fx_next m" "\<And>q. fx_procs m1 q \<noteq> None \<Longrightarrow> fx_procs m q \<noteq> None"
    and "\<And>a r. ow a = Some r \<Longrightarrow> fx_owner m a = Some r \<or> (\<exists>i. fx_clusters m i = Some r)"
  shows "fx_inv (m1\<lparr>fx_owner := ow, fx_seq := k\<rparr>)"
proof -
  let ?m = "m1\<lparr>fx_owner := ow, fx_seq := k\<rparr>"
  have i: "fx_inv m1" using same_books_inv [OF assms(2) _ assms(4,1)] assms(3) by simp
  have s: "fx_slot ?m j n = fx_slot m1 j n" for j n
    by (simp add: fx_slot_def fx_ctx_def cong: option.case_cong)
  have b: "fx_books m" "fx_owner m1 = fx_owner m" "fx_clusters m1 = fx_clusters m" "fx_ctxs m1 = fx_ctxs m"
    using assms(1,2) by (auto simp: fx_inv_def same_books_def)
  have "fx_ctxs m r \<noteq> None" if "ow a = Some r" for a r
    using assms(5) [OF that] b(1) unfolding fx_books_def by (metis option.distinct(1))
  then show ?thesis using i unfolding fx_inv_def fx_books_def s by (simp add: b)
qed

lemma call_inv: "fx_inv m \<Longrightarrow> fx_call R p r m = (m1, res) \<Longrightarrow> fx_inv m1"
  by (rule same_books_inv [of m m1]) (use fx_call_same in \<open>blast | metis order_refl\<close>)+

lemma owner_inv:
  assumes "fx_inv m" "fx_call R p r m = (m1, res)"
    and "\<And>a r. ow a = Some r \<Longrightarrow> fx_owner m a = Some r \<or> (\<exists>i. fx_clusters m i = Some r)"
  shows "fx_inv (m1\<lparr>fx_owner := ow\<rparr>)"
proof -
  have "fx_inv (m1\<lparr>fx_owner := ow, fx_seq := fx_seq m1\<rparr>)"
    by (rule books_only [OF assms(1) fx_call_same(1,2) [OF assms(2)]]) (use assms(3) fx_call_same(4) [OF assms(2)] in auto)
  then show ?thesis by simp
qed

lemma call_fields: "fx_call R p r m = (m1, res) \<Longrightarrow>
    fx_owner m1 = fx_owner m \<and> fx_clusters m1 = fx_clusters m \<and> fx_ctxs m1 = fx_ctxs m"
  using fx_call_same(1) [of R p r m m1 res] by (simp add: same_books_def)

lemma seq_inv: "fx_inv m \<Longrightarrow> fx_inv (m\<lparr>fx_seq := k\<rparr>)"
  using books_only [OF _ same_books_refl refl, of m "fx_owner m" k] by simp

lemma forget_inv: "fx_inv m \<Longrightarrow> fx_inv (m\<lparr>fx_owner := (fx_owner m)(a := None)\<rparr>)"
proof -
  assume inv: "fx_inv m"
  have "fx_inv (m\<lparr>fx_owner := (fx_owner m)(a := None), fx_seq := fx_seq m\<rparr>)"
    by (rule books_only [OF inv same_books_refl refl]) (auto split: if_splits)
  then show ?thesis by simp
qed

lemma grant_inv: "fx_inv m \<Longrightarrow> fx_call R p r m = (m1, res) \<Longrightarrow>
    fx_inv (m1\<lparr>fx_owner := (fx_owner m1)(a := fx_clusters m1 i)\<rparr>)"
  by (rule owner_inv) (auto simp: call_fields split: if_splits)

lemma drop_inv: "fx_inv m \<Longrightarrow> fx_call R p r m = (m1, res) \<Longrightarrow> fx_inv (m1\<lparr>fx_owner := (fx_owner m1)(a := None)\<rparr>)"
  by (rule owner_inv) (auto simp: call_fields split: if_splits)

lemma Allocate_inv: "fx_inv m \<Longrightarrow> fx_inv (fst (fx_Allocate R marshal m js i))"
  unfolding fx_Allocate_def Let_def
  by (auto split: sum.split option.split prod.split intro: call_inv grant_inv seq_inv)

lemma Free_inv: "fx_inv m \<Longrightarrow> fx_inv (fst (fx_Free R m a))"
  unfolding fx_Free_def
  by (auto split: sum.split option.split prod.split intro: call_inv drop_inv forget_inv)

section \<open>Reachable states\<close>

text \<open>The operations under the lock, and a worker process that ends by itself.\<close>

inductive fx_step ::
  "'c reapi \<Rightarrow> (jgf \<Rightarrow> string + string) \<Rightarrow> (fluxDoc \<Rightarrow> string + string) \<Rightarrow> 'c fluxion \<Rightarrow> 'c fluxion \<Rightarrow> bool"
  for R json marshal where
  add: "wf_map (cg_Subsystems cg) \<Longrightarrow> fx_step R json marshal m (fst (fx_AddCluster R json m cg))"
| remove: "fx_step R json marshal m (fst (fx_RemoveCluster m i))"
| add_sub: "fx_step R json marshal m (fst (fx_AddSubsystem R json m i name g d))"
| remove_sub: "fx_step R json marshal m (fst (fx_RemoveSubsystem m i name))"
| allocate: "fx_step R json marshal m (fst (fx_Allocate R marshal m js i))"
| free: "fx_step R json marshal m (fst (fx_Free R m a))"
| crash: "fx_step R json marshal m (fx_close p m)"

inductive fx_reach ::
  "'c reapi \<Rightarrow> (jgf \<Rightarrow> string + string) \<Rightarrow> (fluxDoc \<Rightarrow> string + string) \<Rightarrow> 'c fluxion \<Rightarrow> bool"
  for R json marshal where
  start: "fx_reach R json marshal empty_fluxion"
| step: "fx_reach R json marshal m \<Longrightarrow> fx_step R json marshal m m' \<Longrightarrow> fx_reach R json marshal m'"

lemma fx_step_inv: "fx_step R json marshal m m' \<Longrightarrow> fx_inv m \<Longrightarrow> fx_inv m'"
proof (induction rule: fx_step.induct)
  case (crash m p)
  then show ?case by (intro same_books_inv [of m "fx_close p m"]) (auto split: if_splits)
qed (simp_all add: AddCluster_inv RemoveCluster_inv AddSubsystem_inv RemoveSubsystem_inv Allocate_inv Free_inv)

lemma fx_reach_inv: "fx_reach R json marshal m \<Longrightarrow> fx_inv m"
proof (induction rule: fx_reach.induct)
  case start
  show ?case by (simp add: fx_inv_def fx_books_def empty_fluxion_def fx_slot_def fx_ctx_def)
qed (rule fx_step_inv)

lemma inv_order: "fx_inv m \<Longrightarrow> i \<in> set (fx_order m) \<Longrightarrow> \<exists>cc. fx_ctx m i = Some cc"
proof -
  assume inv: "fx_inv m" and i: "i \<in> set (fx_order m)"
  have "set (fx_order m) = dom (fx_clusters m)" using inv by (simp add: fx_inv_def fx_books_def)
  then obtain r where r: "fx_clusters m i = Some r" using i by auto
  then have "\<exists>cc. fx_ctxs m r = Some cc" using inv unfolding fx_inv_def fx_books_def by blast
  then show ?thesis by (simp add: fx_ctx_def r)
qed


section \<open>Properties\<close>

text \<open>A worker answers a request with yes: it runs, has a context, and the bindings report no error.\<close>

definition answers :: "'c reapi \<Rightarrow> 'c fluxion \<Rightarrow> nat \<Rightarrow> string \<Rightarrow> bool" where
  "answers R m p spec \<longleftrightarrow> (\<exists>c err. fx_procs m p = Some (Some c) \<and> ra_Satisfy R c spec = (True, err) \<and> errStr err = '''')"

lemma fx_satisfy_iff: "fx_satisfy R p spec m \<longleftrightarrow> answers R m p spec"
proof (cases "fx_procs m p")
  case None
  then show ?thesis by (simp add: fx_satisfy_def fx_call_def answers_def)
next
  case (Some ctx)
  show ?thesis
  proof (cases ctx)
    case None
    then show ?thesis using Some
      by (simp add: fx_satisfy_def fx_call_def answers_def worker_line_def no_req_def no_resp_def)
  next
    case (Some c)
    obtain sat err where "ra_Satisfy R c spec = (sat, err)" by (cases "ra_Satisfy R c spec")
    then show ?thesis using Some \<open>fx_procs m p = Some ctx\<close>
      by (auto simp: fx_satisfy_def fx_call_def answers_def worker_line_def no_req_def no_resp_def)
  qed
qed

text \<open>
  C3. No worker process is lost and none is shared. In every reachable state, whatever was registered,
  replaced, refused or removed and whichever workers ended by themselves, a worker that runs is the
  worker of exactly one subsystem of one registered cluster; every registered cluster is listed once
  and a pass over the fleet meets no cluster that is gone.
\<close>

theorem workers_accounted:
  assumes "fx_reach R json marshal m"
  shows "(\<forall>p. fx_procs m p \<noteq> None \<longrightarrow> (\<exists>!s. fx_slot m (fst s) (snd s) = Some p)) \<and>
    distinct (fx_order m) \<and> set (fx_order m) = dom (fx_clusters m) \<and> fx_Evaluate R marshal m js \<noteq> None"
proof -
  have inv: "fx_inv m" by (rule fx_reach_inv [OF assms])
  have "\<exists>!s. fx_slot m (fst s) (snd s) = Some p" if runs: "fx_procs m p \<noteq> None" for p
  proof -
    obtain i n where s: "fx_slot m i n = Some p" using inv runs unfolding fx_inv_def by blast
    show ?thesis
    proof (rule ex1I [of _ "(i, n)"])
      fix s assume "fx_slot m (fst s) (snd s) = Some p"
      then show "s = (i, n)" using books_slot(1) [of m "fst s" "snd s" p i n] inv s by (auto simp: fx_inv_def)
    qed (simp add: s)
  qed
  moreover have "fx_Evaluate R marshal m js \<noteq> None"
    using inv_order [OF inv] by (auto simp: fx_Evaluate_def list_all_iff)
  ultimately show ?thesis using inv by (simp add: fx_inv_def fx_books_def)
qed

text \<open>When the worker of the containment graph, and when that of a required subsystem, answers yes.\<close>

definition cont_ok :: "'c reapi \<Rightarrow> (fluxDoc \<Rightarrow> string + string) \<Rightarrow> 'c fluxion \<Rightarrow> jobspec \<Rightarrow> string \<Rightarrow> bool" where
  "cont_ok R marshal m js i \<longleftrightarrow>
     (\<exists>p spec. fx_slot m i ContainmentSubsystem = Some p \<and> ToFluxSpec marshal js = Inr spec \<and> answers R m p spec)"

definition section_ok ::
  "'c reapi \<Rightarrow> (fluxDoc \<Rightarrow> string + string) \<Rightarrow> 'c fluxion \<Rightarrow> string \<Rightarrow> string \<Rightarrow> resource list \<Rightarrow> bool" where
  "section_ok R marshal m i sub section \<longleftrightarrow> sub \<noteq> ContainmentSubsystem \<and>
     (\<exists>p alt spec. fx_slot m i sub = Some p \<and> alt \<in> set (ExpandSection section) \<and>
        SubsystemFluxSpec marshal alt = Inr spec \<and> answers R m p spec)"

text \<open>No subsystem is stored under the name of the containment graph.\<close>

definition no_cont_key :: "'c fluxion \<Rightarrow> bool" where
  "no_cont_key m \<longleftrightarrow> (\<forall>r cc. fx_ctxs m r = Some cc \<longrightarrow> map_of (cc_subsystems cc) ContainmentSubsystem = None)"


lemma same_books_key: "same_books m m' \<Longrightarrow> no_cont_key m \<Longrightarrow> no_cont_key m'"
  by (simp add: same_books_def no_cont_key_def)

lemma spawn_graph_same: "spawn_graph R json g m = (m', res) \<Longrightarrow> same_books m m'"
  by (auto simp: spawn_graph_def spawnWorker_def Let_def fx_call_def same_books_def fx_close_def
      split: sum.splits option.splits prod.splits if_splits)

lemma spawn_subs_key:
  "spawn_subs R json cg gs cc m = (m', res) \<Longrightarrow> map_of (cc_subsystems cc) ContainmentSubsystem = None \<Longrightarrow>
    same_books m m' \<and> (\<forall>cc'. res = Inr cc' \<longrightarrow> map_of (cc_subsystems cc') ContainmentSubsystem = None)"
proof (induction gs arbitrary: cc m)
  case (Cons x gs)
  then show ?case
    using same_books_trans [OF spawn_graph_same closeAll_same(1)] same_books_trans [OF spawn_graph_same]
    by (cases x) (fastforce simp: update_conv' split: if_splits prod.splits sum.splits)
qed auto

lemma put_key: "no_cont_key m \<Longrightarrow>
    (\<And>cc. map_of (cc_subsystems cc) ContainmentSubsystem = None \<Longrightarrow> map_of (cc_subsystems (f cc)) ContainmentSubsystem = None) \<Longrightarrow>
    no_cont_key (put_ctx i f m)"
  by (auto simp: no_cont_key_def put_ctx_def split: option.splits if_splits)

lemma ctxs_key: "fx_ctxs m' = fx_ctxs m \<Longrightarrow> no_cont_key m \<Longrightarrow> no_cont_key m'"
  by (simp add: no_cont_key_def)

lemma install_key:
  assumes "no_cont_key m" "map_of (cc_subsystems cc) ContainmentSubsystem = None"
  shows "no_cont_key (fx_install cc m)"
proof -
  have "fx_ctxs (fx_install cc m) = (fx_ctxs m)(fx_refs m \<mapsto> cc)"
    by (auto simp: fx_install_def Let_def split: option.splits)
  then show ?thesis using assms by (auto simp: no_cont_key_def split: if_splits)
qed

lemma AddCluster_key: "no_cont_key m \<Longrightarrow> no_cont_key (fst (fx_AddCluster R json m cg))"
proof -
  assume k: "no_cont_key m"
  obtain m1 r where w: "workerFromJGF R json (Containment_of cg) m = (m1, r)"
    by (cases "workerFromJGF R json (Containment_of cg) m")
  have "same_books m m1"
    using w spawn_graph_same by (fastforce simp: workerFromJGF_def split: option.splits prod.splits sum.splits)
  then have k1: "no_cont_key m1" using same_books_key k by blast
  show ?thesis
  proof (cases r)
    case (Inl e)
    then show ?thesis using k1 w by (simp add: fx_AddCluster_def)
  next
    case (Inr c)
    let ?cc = "\<lparr>cc_id = cg_ID cg, cc_cont = c, cc_contDescriptive = IsDescriptive cg ContainmentSubsystem, cc_subsystems = []\<rparr>"
    obtain m2 r2 where s: "spawn_subs R json cg (cg_Subsystems cg) ?cc m1 = (m2, r2)"
      by (cases "spawn_subs R json cg (cg_Subsystems cg) ?cc m1")
    have "no_cont_key m2" "r2 = Inr cc' \<Longrightarrow> map_of (cc_subsystems cc') ContainmentSubsystem = None" for cc'
      using spawn_subs_key [OF s] same_books_key k1 by auto
    then show ?thesis using w s Inr by (cases r2) (auto simp: fx_AddCluster_def intro: install_key)
  qed
qed

lemma AddSubsystem_key: "no_cont_key m \<Longrightarrow> no_cont_key (fst (fx_AddSubsystem R json m i name g d))"
proof -
  assume k: "no_cont_key m"
  have "no_cont_key m1" if "spawn_graph R json g m = (m1, res)" for m1 res
    by (rule same_books_key [OF spawn_graph_same [OF that] k])
  then show ?thesis
    using k same_books_key [OF close_opt_same(1)] same_books_key [OF fx_close_same(1)]
    by (auto simp: fx_AddSubsystem_def update_conv' intro!: put_key split: prod.split sum.split option.split)
qed

lemma RemoveSubsystem_key: "no_cont_key m \<Longrightarrow> no_cont_key (fst (fx_RemoveSubsystem m i name))"
  using same_books_key [OF close_opt_same(1)] same_books_key [OF fx_close_same(1)]
  by (auto simp: fx_RemoveSubsystem_def delete_conv' intro!: put_key split: option.split)

lemma fx_step_key: "fx_step R json marshal m m' \<Longrightarrow> no_cont_key m \<Longrightarrow> no_cont_key m'"
proof (induction rule: fx_step.induct)
  case (remove m i)
  moreover have "fx_ctxs (fst (fx_RemoveCluster m i)) = fx_ctxs m"
    by (auto simp: fx_RemoveCluster_def Let_def split: option.split)
  ultimately show ?case by (rule ctxs_key [rotated])
next
  case (allocate m js i)
  moreover have "fx_ctxs (fst (fx_Allocate R marshal m js i)) = fx_ctxs m"
    by (auto simp: fx_Allocate_def Let_def dest: call_fields split: sum.split option.split prod.split)
  ultimately show ?case by (rule ctxs_key [rotated])
next
  case (free m a)
  moreover have "fx_ctxs (fst (fx_Free R m a)) = fx_ctxs m"
    by (auto simp: fx_Free_def dest: call_fields split: sum.split option.split prod.split)
  ultimately show ?case by (rule ctxs_key [rotated])
next
  case (crash m p)
  then show ?case by (rule same_books_key [OF fx_close_same(1)])
qed (simp_all add: AddCluster_key AddSubsystem_key RemoveSubsystem_key)


lemma fx_reach_key: "fx_reach R json marshal m \<Longrightarrow> no_cont_key m"
  by (induction rule: fx_reach.induct) (simp add: no_cont_key_def empty_fluxion_def, rule fx_step_key)

lemma empty_section: "\<not> section_ok R marshal m i sub []"
  by (simp add: section_ok_def ExpandSection_def SubsystemFluxSpec_def)

lemma sum_yes: "(case s of Inl e \<Rightarrow> False | Inr x \<Rightarrow> P x) \<longleftrightarrow> (\<exists>x. s = Inr x \<and> P x)"
  by (cases s) auto

lemma sub_ok_iff:
  assumes "fx_ctx m i = Some cc" "no_cont_key m"
  shows "sub_ok R marshal m cc sub section \<longleftrightarrow> section_ok R marshal m i sub section"
proof -
  have "map_of (cc_subsystems cc) ContainmentSubsystem = None"
    using assms by (auto simp: no_cont_key_def fx_ctx_def split: option.splits)
  then show ?thesis using assms(1)
    by (cases "sub = ContainmentSubsystem")
      (auto simp: sub_ok_def section_ok_def fx_slot_def cc_slot_def list_ex_iff fx_satisfy_iff sum_yes split: option.split)
qed

text \<open>
  What Fluxion reports of the fleet. Every registered cluster is reported once, in the order of
  registration. It is feasible exactly when the worker of its containment graph answers yes for the
  rendered job and, for every required section, the worker of that subsystem answers yes for one of
  the alternatives of the section; exactly what is not satisfied is listed as missing, and feasible
  means free now. A section without entries is never satisfied.
\<close>

theorem fluxion_Evaluate_report:
  assumes "fx_reach R json marshal m"
  shows "\<exists>cs. fx_Evaluate R marshal m js = Some cs \<and> map ca_Cluster cs = fx_order m \<and>
    (\<forall>c \<in> set cs. let i = ca_Cluster c; bad = (\<lambda>(sub, section). \<not> section_ok R marshal m i sub section) in
       ca_Feasible c = (cont_ok R marshal m js i \<and> \<not> list_ex bad (js_requires js)) \<and> ca_FreeNow c = ca_Feasible c \<and>
       ca_Missing c = (if cont_ok R marshal m js i then [] else [ContainmentSubsystem]) @ map fst (filter bad (js_requires js)) \<and>
       ca_Matched c = map fst (filter (\<lambda>x. \<not> bad x) (js_requires js)) \<and> \<not> section_ok R marshal m i sub [])"
proof -
  have inv: "fx_inv m" "no_cont_key m" using fx_reach_inv [OF assms] fx_reach_key [OF assms] by auto
  let ?cs = "map (\<lambda>i. fx_candidate R marshal m js i (the (fx_ctx m i))) (fx_order m)"
  have "fx_Evaluate R marshal m js = Some ?cs" using inv_order [OF inv(1)] by (auto simp: fx_Evaluate_def list_all_iff)
  moreover have "map ca_Cluster ?cs = fx_order m" by (simp add: fx_candidate_def Let_def comp_def)
  moreover have "let c = fx_candidate R marshal m js i (the (fx_ctx m i)); bad = (\<lambda>(sub, section). \<not> section_ok R marshal m i sub section) in
       ca_Feasible c = (cont_ok R marshal m js i \<and> \<not> list_ex bad (js_requires js)) \<and> ca_FreeNow c = ca_Feasible c \<and>
       ca_Missing c = (if cont_ok R marshal m js i then [] else [ContainmentSubsystem]) @ map fst (filter bad (js_requires js)) \<and>
       ca_Matched c = map fst (filter (\<lambda>x. \<not> bad x) (js_requires js))" if listed: "i \<in> set (fx_order m)" for i
  proof -
    obtain cc where cc: "fx_ctx m i = Some cc" using inv_order [OF inv(1) listed] by blast
    have cont: "cont_ok R marshal m js i \<longleftrightarrow> (case cc_cont cc of None \<Rightarrow> False | Some p \<Rightarrow>
        (case ToFluxSpec marshal js of Inl _ \<Rightarrow> False | Inr spec \<Rightarrow> fx_satisfy R p spec m))"
      using cc by (auto simp: cont_ok_def fx_slot_def cc_slot_def fx_satisfy_iff sum_yes split: option.split)
    show ?thesis
      by (simp add: fx_candidate_def Let_def cc cont sub_ok_iff [OF cc inv(2)] list_all_iff list_ex_iff split_def)
  qed
  ultimately show ?thesis
    by (intro exI [of _ ?cs]) (auto simp: Let_def empty_section fx_candidate_def)
qed

text \<open>
  What a granting and a cancelling call do to the worker.\<close>

lemma Allocate_granted:
  assumes "ToFluxSpec marshal js = Inr spec" "fx_ctx m i = Some cc" "cc_cont cc = Some p" "\<not> cc_contDescriptive cc"
    and "fx_procs m p = Some (Some c)" "ra_Allocate R c spec = (c', a, n, err)" "errStr err = ''''" "a \<noteq> ''''"
  shows "fx_Allocate R marshal m js i =
    (m\<lparr>fx_procs := (fx_procs m)(p \<mapsto> Some c'), fx_owner := (fx_owner m)(itoa n := fx_clusters m i)\<rparr>,
     Inr (Some \<lparr>al_ID = itoa n, al_ClusterID = i, al_VertexIDs = []\<rparr>))"
  using assms by (simp add: fx_Allocate_def fx_call_def worker_line_def no_req_def no_resp_def)

lemma nores_no_number: "\<not> HasPrefix (itoa n) ''nores-''"
proof
  assume "HasPrefix (itoa n) ''nores-''"
  then have "CHR ''n'' \<in> set (itoa n)" by (cases "itoa n") (auto simp: HasPrefix_def)
  then show False using itoa_digits [of n] by (auto simp: list_all_iff is_digit_def)
qed

lemma Free_cancels:
  assumes "fx_owner m (itoa n) = Some r" "fx_ctxs m r = Some cc" "cc_cont cc = Some p" "n < 2 ^ 63"
    and "fx_procs m p = Some (Some c)" "ra_Cancel R c (int n) = (c', err)" "errStr err = ''''"
  shows "fx_Free R m (itoa n) =
    (m\<lparr>fx_procs := (fx_procs m)(p \<mapsto> Some c'), fx_owner := (fx_owner m)(itoa n := None)\<rparr>, None)"
proof -
  have "ParseUint (itoa n) = Inr n" using assms(4) itoa_digits [of n] by (simp add: ParseUint_def)
  moreover have "i64 (int n) = int n" using assms(4) by (intro i64_fits) (simp add: fits64_def)
  ultimately show ?thesis
    using assms nores_no_number [of n] by (simp add: fx_Free_def fx_call_def worker_line_def no_req_def no_resp_def)
qed


text \<open>
  C22. The ids of two clusters collide. Every worker numbers its allocations by itself, and the number
  alone is the id of the allocation: when two clusters grant a job under the same number, freeing the
  first job cancels the allocation of the second, freeing the second does nothing, and the nodes of
  the first stay allocated.
\<close>

theorem fluxion_ids_collide:
  assumes "fx_reach R json marshal m" "ToFluxSpec marshal js = Inr s1" "ToFluxSpec marshal ks = Inr s2" "i \<noteq> j"
    and "fx_ctx m i = Some cc" "cc_cont cc = Some p" "\<not> cc_contDescriptive cc" "fx_procs m p = Some (Some c)"
    and "fx_ctx m j = Some dd" "cc_cont dd = Some q" "\<not> cc_contDescriptive dd" "fx_procs m q = Some (Some d)"
    and "ra_Allocate R c s1 = (c1, a1, n, None)" "a1 \<noteq> ''''" "ra_Allocate R d s2 = (d1, a2, n, None)" "a2 \<noteq> ''''"
    and "ra_Cancel R d1 (int n) = (d2, None)" "n < 2 ^ 63"
  shows "case fx_Allocate R marshal m js i of (m1, r1) \<Rightarrow>
     (case fx_Allocate R marshal m1 ks j of (m2, r2) \<Rightarrow>
     (case fx_Free R m2 (itoa n) of (m3, e) \<Rightarrow>
       r1 = Inr (Some \<lparr>al_ID = itoa n, al_ClusterID = i, al_VertexIDs = []\<rparr>) \<and>
       r2 = Inr (Some \<lparr>al_ID = itoa n, al_ClusterID = j, al_VertexIDs = []\<rparr>) \<and>
       e = None \<and> fx_procs m3 p = Some (Some c1) \<and> fx_procs m3 q = Some (Some d2) \<and>
       fx_Free R m3 (itoa n) = (m3, None)))"
proof -
  have b: "fx_books m" using fx_reach_inv [OF assms(1)] by (simp add: fx_inv_def)
  have slots: "fx_slot m i ContainmentSubsystem = Some p" "fx_slot m j ContainmentSubsystem = Some q"
    using assms(5,6,9,10) by (simp_all add: fx_slot_def cc_slot_def)
  have pq: "p \<noteq> q" using books_slot(1) [OF b slots(1), of j ContainmentSubsystem] slots(2) assms(4) by auto
  obtain r where r: "fx_clusters m j = Some r" "fx_ctxs m r = Some dd" using assms(9) by (auto simp: fx_ctx_def split: option.splits)
  let ?m1 = "m\<lparr>fx_procs := (fx_procs m)(p \<mapsto> Some c1), fx_owner := (fx_owner m)(itoa n := fx_clusters m i)\<rparr>"
  have ctx1: "fx_ctx ?m1 j = Some dd" using assms(9) by (simp add: fx_ctx_def cong: option.case_cong)
  let ?m2 = "?m1\<lparr>fx_procs := (fx_procs ?m1)(q \<mapsto> Some d1), fx_owner := (fx_owner ?m1)(itoa n := fx_clusters ?m1 j)\<rparr>"
  have a1: "fx_Allocate R marshal m js i = (?m1, Inr (Some \<lparr>al_ID = itoa n, al_ClusterID = i, al_VertexIDs = []\<rparr>))"
    by (rule Allocate_granted [OF assms(2,5,6,7,8,13) _ assms(14)]) (simp add: errStr_def)
  have a2: "fx_Allocate R marshal ?m1 ks j = (?m2, Inr (Some \<lparr>al_ID = itoa n, al_ClusterID = j, al_VertexIDs = []\<rparr>))"
    by (rule Allocate_granted [OF assms(3) ctx1 assms(10,11) _ assms(15) _ assms(16)]) (use assms(12) pq in \<open>simp_all add: errStr_def\<close>)
  have f: "fx_Free R ?m2 (itoa n) =
      (?m2\<lparr>fx_procs := (fx_procs ?m2)(q \<mapsto> Some d2), fx_owner := (fx_owner ?m2)(itoa n := None)\<rparr>, None)"
    by (rule Free_cancels [where r = r, OF _ _ assms(10,18) _ assms(17)]) (simp_all add: r errStr_def)
  show ?thesis unfolding a1 prod.case a2 f using pq by (simp add: fx_Free_def)
qed

text \<open>
  Without a collision \<open>Free\<close> undoes \<open>Allocate\<close>. When the id is not in use and a cancellation
  takes back what the bindings granted, freeing a grant leaves every worker with the allocations it
  had, and the record of owners as it was.
  On a cluster that does not reserve, a grant reaches no worker and freeing it changes nothing.
\<close>

theorem fluxion_Free_exact:
  assumes "fx_reach R json marshal m" "fx_Allocate R marshal m js i = (m1, Inr (Some al))" "fx_owner m (al_ID al) = None"
    and "\<And>c spec c' a n err. ra_Allocate R c spec = (c', a, n, err) \<Longrightarrow> errStr err = '''' \<Longrightarrow> a \<noteq> '''' \<Longrightarrow>
      n < 2 ^ 63 \<and> snd (ra_Cancel R c' (int n)) = None \<and> grants (fst (ra_Cancel R c' (int n))) = grants c"
  shows "case fx_Free R m1 (al_ID al) of (m2, e) \<Rightarrow>
    e = None \<and> (\<forall>q. map_option (map_option grants) (fx_procs m2 q) = map_option (map_option grants) (fx_procs m q)) \<and> fx_owner m2 = fx_owner m \<and> fx_ctxs m2 = fx_ctxs m \<and> al_ClusterID al = i \<and>
    (HasPrefix (al_ID al) ''nores-'' \<longrightarrow> fx_procs m1 = fx_procs m)"
proof -
  obtain spec cc p where c: "ToFluxSpec marshal js = Inr spec" "fx_ctx m i = Some cc" "cc_cont cc = Some p"
    using assms(2) by (auto simp: fx_Allocate_def split: sum.splits option.splits)
  show ?thesis
  proof (cases "cc_contDescriptive cc")
    case True
    then have "m1 = m\<lparr>fx_seq := (fx_seq m + 1) mod 2 ^ 64\<rparr>" "al_ID al = nores_id i (fx_seq m1)" "al_ClusterID al = i"
      using assms(2) c by (auto simp: fx_Allocate_def Let_def)
    then show ?thesis by (simp add: fx_Free_def HasPrefix_def nores_id_def)
  next
    case False
    obtain m0 resp where call: "fx_call R p (no_req\<lparr>wq_Op := ''allocate'', wq_Spec := spec\<rparr>) m = (m0, Inr resp)"
        "wr_Err resp = ''''" "wr_Allocated resp \<noteq> ''''"
      using assms(2) c False by (auto simp: fx_Allocate_def split: prod.splits sum.splits if_splits)
    then obtain x where x: "fx_procs m p = Some (Some x)"
      by (auto simp: fx_call_def worker_line_def no_req_def no_resp_def split: option.splits prod.splits)
    obtain x' a n err where g: "ra_Allocate R x spec = (x', a, n, err)" by (cases "ra_Allocate R x spec")
    have ok: "errStr err = ''''" "a \<noteq> ''''"
      using call x g by (auto simp: fx_call_def worker_line_def no_req_def no_resp_def)
    have m1: "m1 = m\<lparr>fx_procs := (fx_procs m)(p \<mapsto> Some x'), fx_owner := (fx_owner m)(itoa n := fx_clusters m i)\<rparr>"
      "al = \<lparr>al_ID = itoa n, al_ClusterID = i, al_VertexIDs = []\<rparr>"
      using assms(2) Allocate_granted [OF c False x g ok] by auto
    obtain r where r: "fx_clusters m i = Some r" "fx_ctxs m r = Some cc" using c(2) by (auto simp: fx_ctx_def split: option.splits)
    obtain y where y: "ra_Cancel R x' (int n) = (y, None)" "grants y = grants x" "n < 2 ^ 63"
      using assms(4) [OF g ok] by (cases "ra_Cancel R x' (int n)") auto
    have "fx_Free R m1 (itoa n) = (m1\<lparr>fx_procs := (fx_procs m1)(p \<mapsto> Some y), fx_owner := (fx_owner m1)(itoa n := None)\<rparr>, None)"
      by (rule Free_cancels [where r = r and err = None and c = x' and c' = y, OF _ _ c(3)])
        (use y r in \<open>simp_all add: m1 errStr_def\<close>)
    then show ?thesis using x y(2) assms(3) nores_no_number [of n] by (auto simp: m1 fun_eq_iff)
  qed
qed


section \<open>Witnesses\<close>

text \<open>Bindings that number the allocations of a context from 1 and grant every request.\<close>

definition demo_reapi :: "(nat \<times> nat list) reapi" where
  "demo_reapi = \<lparr>ra_Init = (\<lambda>g opts. Inr (1, [])), ra_Satisfy = (\<lambda>c spec. (True, None)),
     ra_Allocate = (\<lambda>c spec. if fst c < 2 ^ 63 then ((fst c + 1, fst c # snd c), ''R'', fst c, None)
       else (c, '''', 0, Some ''no room'')),
     ra_Cancel = (\<lambda>c k. ((fst c, remove1 (nat k) (snd c)), None)), ra_start = (\<lambda>n. None), ra_lost = (\<lambda>n. ''worker exited'')\<rparr>"

definition demo_cg :: "string \<Rightarrow> cluster_graph" where
  "demo_cg i = \<lparr>cg_ID = i, cg_Manager = FluxURI, cg_Handle = i, cg_Config = [],
     cg_Subsystems = [(ContainmentSubsystem, \<lparr>g_nodes = [], g_edges = []\<rparr>)], cg_Descriptive = []\<rparr>"

abbreviation demo_add :: "(nat \<times> nat list) fluxion \<Rightarrow> string \<Rightarrow> (nat \<times> nat list) fluxion" where
  "demo_add m i \<equiv> fst (fx_AddCluster demo_reapi (\<lambda>_. Inr ''{}'') m (demo_cg i))"

definition demo_fluxion :: "(nat \<times> nat list) fluxion" where
  "demo_fluxion = demo_add (demo_add empty_fluxion ''c1'') ''c2''"

lemma demo_fluxion_reach: "fx_reach demo_reapi (\<lambda>_. Inr ''{}'') marshal demo_fluxion"
proof -
  have "fx_step demo_reapi (\<lambda>_. Inr ''{}'') marshal m (demo_add m i)" for m i
    by (rule fx_step.add) (simp add: demo_cg_def wf_map_def)
  then show ?thesis unfolding demo_fluxion_def by (blast intro: fx_reach.intros)
qed

lemma demo_fluxion_facts:
  "fx_ctx demo_fluxion ''c1'' = Some \<lparr>cc_id = ''c1'', cc_cont = Some 0, cc_contDescriptive = False, cc_subsystems = []\<rparr>"
  "fx_ctx demo_fluxion ''c2'' = Some \<lparr>cc_id = ''c2'', cc_cont = Some 1, cc_contDescriptive = False, cc_subsystems = []\<rparr>"
  "fx_procs demo_fluxion 0 = Some (Some (1, []))" "fx_procs demo_fluxion 1 = Some (Some (1, []))"
  "fx_order demo_fluxion = [''c1'', ''c2'']" "fx_owner demo_fluxion a = None"
  by (simp_all add: demo_fluxion_def demo_reapi_def demo_cg_def fx_AddCluster_def workerFromJGF_def spawn_graph_def
      spawnWorker_def fx_call_def worker_line_def no_req_def no_resp_def Containment_of_def fx_install_def Let_def
      empty_fluxion_def fx_ctx_def IsDescriptive_def Reserves_def Cfg_def)


theorem workers_accounted_witness:
  "\<exists>!s. fx_slot demo_fluxion (fst s) (snd s) = Some 0"
  using workers_accounted [OF demo_fluxion_reach] by (simp add: demo_fluxion_facts)

theorem fluxion_Evaluate_report_witness:
  "\<exists>cs. fx_Evaluate demo_reapi (Marshal (\<lambda>_. ''0'')) demo_fluxion one_node_job = Some cs \<and>
     map ca_Cluster cs = [''c1'', ''c2'']"
  using fluxion_Evaluate_report [OF demo_fluxion_reach, of "Marshal (\<lambda>_. ''0'')" one_node_job "''gpu''"]
  by (auto simp: demo_fluxion_facts)

text \<open>
  The two clusters grant a job each, both as allocation 1; freeing the first cancels the second.\<close>

theorem fluxion_ids_collide_witness:
  "case fx_Allocate demo_reapi (\<lambda>_. Inr ''{}'') demo_fluxion one_node_job ''c1'' of (m1, r1) \<Rightarrow>
     (case fx_Allocate demo_reapi (\<lambda>_. Inr ''{}'') m1 one_node_job ''c2'' of (m2, r2) \<Rightarrow>
     (case fx_Free demo_reapi m2 (itoa 1) of (m3, e) \<Rightarrow>
       fx_procs m3 0 = Some (Some (2, [1])) \<and> fx_procs m3 1 = Some (Some (2, [])) \<and>
       fx_Free demo_reapi m3 (itoa 1) = (m3, None)))"
proof -
  have spec: "ToFluxSpec (\<lambda>_. Inr ''{}'') one_node_job = Inr ''{}''" by (simp add: ToFluxSpec_def)
  have ops: "ra_Allocate demo_reapi (1, []) ''{}'' = ((2, [1]), ''R'', 1, None)"
    "ra_Cancel demo_reapi (2, [1]) (int 1) = ((2, []), None)" by (simp_all add: demo_reapi_def)
  note f = demo_fluxion_facts
  show ?thesis
    using fluxion_ids_collide [OF demo_fluxion_reach spec spec, of "''c1''" "''c2''" _ 0 "(1, [])" _ 1 "(1, [])" "(2, [1])" "''R''" 1 "(2, [1])" "''R''" "(2, [])"]
      f ops by (auto split: prod.splits)
qed

theorem fluxion_Free_exact_witness:
  "case fx_Free demo_reapi (fst (fx_Allocate demo_reapi (\<lambda>_. Inr ''{}'') demo_fluxion one_node_job ''c1'')) (itoa 1) of (m2, e) \<Rightarrow>
     map_option (map_option snd) (fx_procs m2 0) = Some (Some [])"
proof -
  have spec: "ToFluxSpec (\<lambda>_. Inr ''{}'') one_node_job = Inr ''{}''" by (simp add: ToFluxSpec_def)
  have "ra_Allocate demo_reapi (1, []) ''{}'' = ((2, [1]), ''R'', 1, None)" by (simp add: demo_reapi_def)
  note a = Allocate_granted [OF spec demo_fluxion_facts(1) _ _ demo_fluxion_facts(3) this, simplified errStr_def, simplified]
  have law: "n < 2 ^ 63 \<and> snd (ra_Cancel demo_reapi c' (int n)) = None \<and> snd (fst (ra_Cancel demo_reapi c' (int n))) = snd c"
    if "ra_Allocate demo_reapi c spec = (c', x, n, err)" "x \<noteq> ''''" for c spec c' x n err
    using that by (auto simp: demo_reapi_def split: if_splits)
  let ?m1 = "fst (fx_Allocate demo_reapi (\<lambda>_. Inr ''{}'') demo_fluxion one_node_job ''c1'')"
  obtain m2 e where f: "fx_Free demo_reapi ?m1 (itoa 1) = (m2, e)" by (cases "fx_Free demo_reapi ?m1 (itoa 1)")
  have "\<forall>q. map_option (map_option snd) (fx_procs m2 q) = map_option (map_option snd) (fx_procs demo_fluxion q)"
    using fluxion_Free_exact [OF demo_fluxion_reach a, of snd] law f by (simp add: a demo_fluxion_facts split: prod.splits)
  then have "map_option (map_option snd) (fx_procs m2 0) = Some (Some [])" by (simp add: demo_fluxion_facts)
  then show ?thesis unfolding f prod.case .
qed

end
