(* ===== verification/Api.thy ===== *)
theory Api
  imports Discovery
begin

text \<open>
  Package \<open>pkg/api\<close>: the requests of the HTTP interface as functions of the manager and of the
  store of cluster secrets. Decoding a body is the standard library and a parameter, as are the
  random bytes of a secret; what \<open>encoding/json\<close> makes of an answer is left as the value encoded.
  A request is answered with \<open>None\<close> when the matcher does not return.
\<close>

section \<open>Requests and answers\<close>

record request =
  rq_Method :: string
  rq_Path :: "string list"
  rq_Authorization :: string
  rq_trace :: string
  rq_Body :: string

record registerRequest =
  rr_Name :: string
  rr_Manager :: string
  rr_Handle :: string
  rr_Config :: "(string \<times> string) list"
  rr_Discover :: bool

record registerResponse =
  rp_Name :: string
  rp_Handle :: string
  rp_Secret :: string
  rp_Discovered :: "string list"
  rp_DiscoverError :: string

record clusterInfo =
  ci_Name :: string
  ci_Manager :: string
  ci_Dispatch :: string
  ci_Handle :: string
  ci_Nodes :: nat
  ci_Subsystems :: "(string \<times> string list) list"

record subsystemSpec =
  ss_Descriptive :: bool
  ss_Graph :: "jgf option"

text \<open>What the body of an answer holds: a text, or the value that is encoded.\<close>

datatype payload =
    PText string | PRegister registerResponse | PManagers "(string \<times> bool \<times> bool) list" | PClusters "clusterInfo list"
  | PCluster clusterInfo | PSubsystem string string bool | PId string | PCandidates "candidate list"
  | PReceipt "candidate list" trace | PJob job | PJobs "job list" | PVocabulary "dimension list"
  | PCancelled string | PCancelledAll "string list" nat | PEmpty

record response =
  rs_Status :: nat
  rs_ContentType :: string
  rs_Body :: payload

definition plain_text :: string where
  "plain_text = ''text/plain; charset=utf-8''"

definition http_Error :: "string \<Rightarrow> nat \<Rightarrow> response" where
  "http_Error msg code = \<lparr>rs_Status = code, rs_ContentType = plain_text, rs_Body = PText (msg @ [char_of (10 :: nat)])\<rparr>"

definition writeJSON :: "payload \<Rightarrow> response" where
  "writeJSON v = \<lparr>rs_Status = 200, rs_ContentType = ''application/json'', rs_Body = v\<rparr>"

text \<open>
  \<open>WriteHeader(201)\<close> before \<open>writeJSON\<close>: the headers are sent by then, and the type of the body is
  the one the library guesses for a text that begins with a brace.
\<close>

definition created :: "payload \<Rightarrow> response" where
  "created v = \<lparr>rs_Status = 201, rs_ContentType = plain_text, rs_Body = v\<rparr>"

definition no_content :: response where
  "no_content = \<lparr>rs_Status = 204, rs_ContentType = '''', rs_Body = PEmpty\<rparr>"

section \<open>The server\<close>

text \<open>\<open>sv_secrets\<close> and \<open>sv_issued\<close>: the map of the \<open>secretStore\<close> and how often it drew random bytes.\<close>

record ('m, 'w) server =
  sv_M :: "('m, 'w) mgr"
  sv_secrets :: "string \<Rightarrow> string option"
  sv_issued :: nat

text \<open>
  \<open>ap_ClusterAuth = None\<close> is the default authenticator, the secret store. \<open>ap_JobAuth\<close> says why a job
  is refused.
\<close>

record ('m, 'w) api =
  ap_env :: "('m, 'w) env"
  ap_disc :: "'w discoverers"
  ap_JobAuth :: "request \<Rightarrow> jobspec \<Rightarrow> string option"
  ap_ClusterAuth :: "(request \<Rightarrow> string \<Rightarrow> string option) option"
  ap_rand :: "nat \<Rightarrow> nat list"
  ap_decodeRegister :: "string \<Rightarrow> string + registerRequest"
  ap_decodeSubsystem :: "string \<Rightarrow> string + subsystemSpec"
  ap_decodeJob :: "string \<Rightarrow> string + jobspec"

definition allowAllJobs :: "request \<Rightarrow> jobspec \<Rightarrow> string option" where
  "allowAllJobs r js = None"

definition NewServer :: "('m, 'w) mgr \<Rightarrow> ('m, 'w) server" where
  "NewServer m = \<lparr>sv_M = m, sv_secrets = Map.empty, sv_issued = 0\<rparr>"

section \<open>The secret store\<close>

definition EncodeToString :: "nat list \<Rightarrow> string" where
  "EncodeToString bs = concat (map (\<lambda>b. [hex_char (b div 16), hex_char (b mod 16)]) bs)"

definition issue :: "('m, 'w) api \<Rightarrow> string \<Rightarrow> ('m, 'w) server \<Rightarrow> ('m, 'w) server \<times> string" where
  "issue A c s =
     (let secret = EncodeToString (ap_rand A (sv_issued s))
      in (s\<lparr>sv_issued := sv_issued s + 1, sv_secrets := (sv_secrets s)(c \<mapsto> secret)\<rparr>, secret))"

definition forget :: "string \<Rightarrow> ('m, 'w) server \<Rightarrow> ('m, 'w) server" where
  "forget c s = s\<lparr>sv_secrets := (sv_secrets s)(c := None)\<rparr>"

definition bearer :: "request \<Rightarrow> string" where
  "bearer r = (let h = rq_Authorization r in if HasPrefix h ''Bearer '' then TrimSpace (drop (length ''Bearer '') h) else '''')"

definition secret_auth :: "('m, 'w) server \<Rightarrow> request \<Rightarrow> string \<Rightarrow> string option" where
  "secret_auth s r c =
     (case sv_secrets s c of
        None \<Rightarrow> Some (''unknown cluster '' @ go_quote c)
      | Some want \<Rightarrow> if bearer r \<noteq> want then Some ''invalid or missing cluster secret'' else None)"

definition AuthenticateClusterEdit :: "('m, 'w) api \<Rightarrow> ('m, 'w) server \<Rightarrow> request \<Rightarrow> string \<Rightarrow> string option" where
  "AuthenticateClusterEdit A s r c = (case ap_ClusterAuth A of None \<Rightarrow> secret_auth s r c | Some f \<Rightarrow> f r c)"

section \<open>Clusters\<close>

definition handle_of :: "registerRequest \<Rightarrow> string" where
  "handle_of req =
     (if rr_Handle req \<noteq> '''' then rr_Handle req
      else if rr_Manager req \<noteq> '''' then rr_Manager req @ ''://'' @ rr_Name req else rr_Name req)"

definition cluster_of :: "registerRequest \<Rightarrow> cluster_graph" where
  "cluster_of req = \<lparr>cg_ID = rr_Name req, cg_Manager = rr_Manager req, cg_Handle = handle_of req,
     cg_Config = rr_Config req, cg_Subsystems = [], cg_Descriptive = []\<rparr>"

text \<open>Whether the error of \<open>RegisterCluster\<close> is \<open>ErrNotImplemented\<close>: no real driver serves the manager.\<close>

definition not_served :: "('m, 'w) env \<Rightarrow> cluster_graph \<Rightarrow> bool" where
  "not_served e cg \<longleftrightarrow> \<not> Emulated cg \<and> (case ev_RealDrivers e of None \<Rightarrow> False
     | Some r \<Rightarrow> (case reg_For r (cg_Manager cg) of Inl _ \<Rightarrow> True | Inr _ \<Rightarrow> False))"

definition registerCluster :: "('m, 'w) api \<Rightarrow> request \<Rightarrow> ('m, 'w) server \<Rightarrow> ('m, 'w) server \<times> response" where
  "registerCluster A r s =
     (case ap_decodeRegister A (rq_Body r) of
        Inl err \<Rightarrow> (s, http_Error err 400)
      | Inr req \<Rightarrow>
          (if rr_Name req = '''' then (s, http_Error ''cluster name is required'' 400)
           else (case RegisterCluster (ap_env A) (cluster_of req) (sv_M s) of
             (m, Some err) \<Rightarrow> (s\<lparr>sv_M := m\<rparr>, http_Error err (if not_served (ap_env A) (cluster_of req) then 501 else 500))
           | (m, None) \<Rightarrow>
               (let (s, secret) = (if ap_ClusterAuth A = None then issue A (rr_Name req) (s\<lparr>sv_M := m\<rparr>)
                                   else (s\<lparr>sv_M := m\<rparr>, ''''));
                    (m, names, derr) = (if rr_Discover req then DiscoverCluster (ap_env A) (ap_disc A) (rr_Name req) (sv_M s)
                                        else (sv_M s, [], None))
                in (s\<lparr>sv_M := m\<rparr>, created (PRegister \<lparr>rp_Name = rr_Name req, rp_Handle = handle_of req, rp_Secret = secret,
                      rp_Discovered = names, rp_DiscoverError = (case derr of None \<Rightarrow> '''' | Some e \<Rightarrow> e)\<rparr>))))))"

definition unregisterCluster ::
  "('m, 'w) api \<Rightarrow> string \<Rightarrow> request \<Rightarrow> ('m, 'w) server \<Rightarrow> ('m, 'w) server \<times> response" where
  "unregisterCluster A name r s =
     (case AuthenticateClusterEdit A s r name of
        Some err \<Rightarrow> (s, http_Error err 401)
      | None \<Rightarrow>
          (case UnregisterCluster (ap_env A) name (sv_M s) of
             (m, False) \<Rightarrow> (s\<lparr>sv_M := m\<rparr>, http_Error ''not found'' 404)
           | (m, True) \<Rightarrow>
               (let s = s\<lparr>sv_M := m\<rparr> in (if ap_ClusterAuth A = None then forget name s else s, no_content))))"

definition infoOf :: "cluster_graph \<Rightarrow> clusterInfo" where
  "infoOf cg = \<lparr>ci_Name = cg_ID cg, ci_Manager = cg_Manager cg, ci_Dispatch = '''', ci_Handle = cg_Handle cg,
     ci_Nodes = (case Containment_of cg of None \<Rightarrow> 0 | Some g \<Rightarrow> length (verticesOfType g ''node'')),
     ci_Subsystems = map (\<lambda>(name, g). (name, Values (Some g))) (cg_Subsystems cg)\<rparr>"

definition info_with_mode :: "('m, 'w) api \<Rightarrow> cluster_graph \<Rightarrow> clusterInfo" where
  "info_with_mode A cg = (infoOf cg)\<lparr>ci_Dispatch := DispatchMode (ap_env A) cg\<rparr>"

definition get_managers :: "('m, 'w) api \<Rightarrow> response" where
  "get_managers A = writeJSON (PManagers (SupportedManagers (ap_env A)))"

definition get_clusters :: "('m, 'w) api \<Rightarrow> ('m, 'w) server \<Rightarrow> response" where
  "get_clusters A s = writeJSON (PClusters (map (info_with_mode A) (mg_Fleet (sv_M s))))"

definition get_cluster :: "('m, 'w) api \<Rightarrow> string \<Rightarrow> ('m, 'w) server \<Rightarrow> response" where
  "get_cluster A name s = (case fl_Get (mg_Fleet (sv_M s)) name of
     None \<Rightarrow> http_Error ''not found'' 404 | Some cg \<Rightarrow> writeJSON (PCluster (info_with_mode A cg)))"

definition registerSubsystem ::
  "('m, 'w) api \<Rightarrow> string \<Rightarrow> string \<Rightarrow> request \<Rightarrow> ('m, 'w) server \<Rightarrow> ('m, 'w) server \<times> response" where
  "registerSubsystem A name sub r s =
     (case AuthenticateClusterEdit A s r name of
        Some err \<Rightarrow> (s, http_Error err 401)
      | None \<Rightarrow>
          (case ap_decodeSubsystem A (rq_Body r) of
             Inl err \<Rightarrow> (s, http_Error err 400)
           | Inr spec \<Rightarrow>
               (case ss_Graph spec of
                  None \<Rightarrow> (s, http_Error ''subsystem graph (JGF) is required'' 400)
                | Some g \<Rightarrow>
                    (case RegisterSubsystem (ap_env A) name sub g (ss_Descriptive spec) (sv_M s) of
                       (m, Some err) \<Rightarrow> (s\<lparr>sv_M := m\<rparr>, http_Error err 400)
                     | (m, None) \<Rightarrow> (s\<lparr>sv_M := m\<rparr>, created (PSubsystem name sub (ss_Descriptive spec)))))))"

definition unregisterSubsystem ::
  "('m, 'w) api \<Rightarrow> string \<Rightarrow> string \<Rightarrow> request \<Rightarrow> ('m, 'w) server \<Rightarrow> ('m, 'w) server \<times> response" where
  "unregisterSubsystem A name sub r s =
     (case AuthenticateClusterEdit A s r name of
        Some err \<Rightarrow> (s, http_Error err 401)
      | None \<Rightarrow>
          (case UnregisterSubsystem (ap_env A) name sub (sv_M s) of
             (m, Some err) \<Rightarrow> (s\<lparr>sv_M := m\<rparr>, http_Error err 404)
           | (m, None) \<Rightarrow> (s\<lparr>sv_M := m\<rparr>, no_content)))"

section \<open>Jobs\<close>

definition decodeJob :: "('m, 'w) api \<Rightarrow> request \<Rightarrow> string + jobspec" where
  "decodeJob A r = ap_decodeJob A (rq_Body r)"

text \<open>The guard both job requests begin with.\<close>

definition checked_job :: "('m, 'w) api \<Rightarrow> request \<Rightarrow> response + jobspec" where
  "checked_job A r =
     (case decodeJob A r of
        Inl err \<Rightarrow> Inl (http_Error err 400)
      | Inr js \<Rightarrow> (case ap_JobAuth A r js of Some err \<Rightarrow> Inl (http_Error err 401) | None \<Rightarrow> Inr js))"

definition post_submit :: "('m, 'w) api \<Rightarrow> request \<Rightarrow> ('m, 'w) server \<Rightarrow> ('m, 'w) server \<times> response" where
  "post_submit A r s =
     (case checked_job A r of
        Inl resp \<Rightarrow> (s, resp)
      | Inr js \<Rightarrow> (case Submit js (sv_M s) of (m, i) \<Rightarrow> (s\<lparr>sv_M := m\<rparr>, writeJSON (PId i))))"

definition post_satisfy :: "('m, 'w) api \<Rightarrow> request \<Rightarrow> ('m, 'w) server \<Rightarrow> (('m, 'w) server \<times> response) option" where
  "post_satisfy A r s =
     (case checked_job A r of
        Inl resp \<Rightarrow> Some (s, resp)
      | Inr js \<Rightarrow>
          (case Satisfy (ap_env A) js (sv_M s) of
             None \<Rightarrow> None
           | Some ((ranked, tr), m) \<Rightarrow>
               Some (s\<lparr>sv_M := m\<rparr>, writeJSON (if rq_trace r \<noteq> '''' then PReceipt ranked tr else PCandidates ranked))))"

definition get_job :: "string \<Rightarrow> ('m, 'w) server \<Rightarrow> response" where
  "get_job i s = (case q_Get (mg_Queue (sv_M s)) i of
     None \<Rightarrow> http_Error ''not found'' 404 | Some j \<Rightarrow> writeJSON (PJob j))"

definition get_jobs :: "('m, 'w) server \<Rightarrow> response" where
  "get_jobs s = writeJSON (PJobs (All (mg_Queue (sv_M s))))"

definition get_log :: "('m, 'w) api \<Rightarrow> string \<Rightarrow> ('m, 'w) server \<Rightarrow> response" where
  "get_log A i s = (case Logs (ap_env A) i (sv_M s) of
     Inl err \<Rightarrow> http_Error err 404
   | Inr out \<Rightarrow> \<lparr>rs_Status = 200, rs_ContentType = ''text/plain'', rs_Body = PText out\<rparr>)"

definition get_vocabulary :: "('m, 'w) server \<Rightarrow> response" where
  "get_vocabulary s = writeJSON (PVocabulary (Derive (mg_Fleet (sv_M s))))"

definition cancelJob :: "('m, 'w) api \<Rightarrow> string \<Rightarrow> ('m, 'w) server \<Rightarrow> ('m, 'w) server \<times> response" where
  "cancelJob A i s = (case Cancel (ap_env A) i (sv_M s) of
     (m, Some err) \<Rightarrow> (s\<lparr>sv_M := m\<rparr>, http_Error err 404)
   | (m, None) \<Rightarrow> (s\<lparr>sv_M := m\<rparr>, writeJSON (PCancelled i)))"

definition post_cancelAll :: "('m, 'w) api \<Rightarrow> ('m, 'w) server \<Rightarrow> ('m, 'w) server \<times> response" where
  "post_cancelAll A s = (case CancelAll (ap_env A) (sv_M s) of
     (m, ids) \<Rightarrow> (s\<lparr>sv_M := m\<rparr>, writeJSON (PCancelledAll ids (length ids))))"

section \<open>Routes\<close>

datatype seg = Lit string | Wild

datatype op = RegisterOp | UnregisterOp | ClustersOp | ManagersOp | ClusterOp | VocabularyOp | AddSubOp | RemoveSubOp
  | SubmitOp | SatisfyOp | JobsOp | JobOp | LogOp | CancelOp | CancelAllOp

fun match_path :: "seg list \<Rightarrow> string list \<Rightarrow> string list option" where
  "match_path [] [] = Some []"
| "match_path (Lit t # ts) (x # xs) = (if t = x then match_path ts xs else None)"
| "match_path (Wild # ts) (x # xs) = map_option ((#) x) (match_path ts xs)"
| "match_path _ _ = None"

definition Routes :: "(string \<times> seg list \<times> op) list" where
  "Routes =
     [(''POST'', [Lit ''v1'', Lit ''clusters'', Lit ''register''], RegisterOp),
      (''POST'', [Lit ''v1'', Lit ''clusters'', Wild, Lit ''unregister''], UnregisterOp),
      (''GET'', [Lit ''v1'', Lit ''clusters''], ClustersOp),
      (''GET'', [Lit ''v1'', Lit ''managers''], ManagersOp),
      (''GET'', [Lit ''v1'', Lit ''clusters'', Wild], ClusterOp),
      (''GET'', [Lit ''v1'', Lit ''vocabulary''], VocabularyOp),
      (''POST'', [Lit ''v1'', Lit ''clusters'', Wild, Lit ''subsystems'', Wild], AddSubOp),
      (''DELETE'', [Lit ''v1'', Lit ''clusters'', Wild, Lit ''subsystems'', Wild], RemoveSubOp),
      (''POST'', [Lit ''v1'', Lit ''jobs'', Lit ''submit''], SubmitOp),
      (''POST'', [Lit ''v1'', Lit ''jobs'', Lit ''satisfy''], SatisfyOp),
      (''GET'', [Lit ''v1'', Lit ''jobs''], JobsOp),
      (''GET'', [Lit ''v1'', Lit ''jobs'', Wild], JobOp),
      (''GET'', [Lit ''v1'', Lit ''jobs'', Wild, Lit ''log''], LogOp),
      (''POST'', [Lit ''v1'', Lit ''jobs'', Wild, Lit ''cancel''], CancelOp),
      (''POST'', [Lit ''v1'', Lit ''jobs'', Lit ''cancel''], CancelAllOp)]"

text \<open>The method of a pattern against that of a request: a pattern for \<open>GET\<close> takes \<open>HEAD\<close> too.\<close>

definition method_ok :: "string \<Rightarrow> string \<Rightarrow> bool" where
  "method_ok pm m \<longleftrightarrow> pm = m \<or> (pm = ''GET'' \<and> m = ''HEAD'')"

definition routed :: "request \<Rightarrow> (op \<times> string list) list" where
  "routed r = List.map_filter (\<lambda>(pm, pat, oper). case match_path pat (rq_Path r) of
     Some vals \<Rightarrow> if method_ok pm (rq_Method r) then Some (oper, vals) else None | None \<Rightarrow> None) Routes"

definition known_path :: "request \<Rightarrow> bool" where
  "known_path r = list_ex (\<lambda>(pm, pat, oper). match_path pat (rq_Path r) \<noteq> None) Routes"

definition run_op ::
  "('m, 'w) api \<Rightarrow> op \<Rightarrow> string list \<Rightarrow> request \<Rightarrow> ('m, 'w) server \<Rightarrow> (('m, 'w) server \<times> response) option" where
  "run_op A oper vals r s =
     (let a = hd (vals @ ['''']); b = hd (drop 1 vals @ ['''']) in
      case oper of
        RegisterOp \<Rightarrow> Some (registerCluster A r s)
      | UnregisterOp \<Rightarrow> Some (unregisterCluster A a r s)
      | ClustersOp \<Rightarrow> Some (s, get_clusters A s)
      | ManagersOp \<Rightarrow> Some (s, get_managers A)
      | ClusterOp \<Rightarrow> Some (s, get_cluster A a s)
      | VocabularyOp \<Rightarrow> Some (s, get_vocabulary s)
      | AddSubOp \<Rightarrow> Some (registerSubsystem A a b r s)
      | RemoveSubOp \<Rightarrow> Some (unregisterSubsystem A a b r s)
      | SubmitOp \<Rightarrow> Some (post_submit A r s)
      | SatisfyOp \<Rightarrow> post_satisfy A r s
      | JobsOp \<Rightarrow> Some (s, get_jobs s)
      | JobOp \<Rightarrow> Some (s, get_job a s)
      | LogOp \<Rightarrow> Some (s, get_log A a s)
      | CancelOp \<Rightarrow> Some (cancelJob A a s)
      | CancelAllOp \<Rightarrow> Some (post_cancelAll A s))"

definition serve :: "('m, 'w) api \<Rightarrow> request \<Rightarrow> ('m, 'w) server \<Rightarrow> (('m, 'w) server \<times> response) option" where
  "serve A r s =
     (case routed r of
        (oper, vals) # _ \<Rightarrow> run_op A oper vals r s
      | [] \<Rightarrow> Some (s, if known_path r then http_Error ''Method Not Allowed'' 405 else http_Error ''404 page not found'' 404))"

end
