(* ===== verification/Requests.thy ===== *)
theory Requests
  imports Api
begin

text \<open>
  What the requests of \<open>Api\<close> do to the fleet, the secrets and the books: which of them may change a
  cluster, the life of its secret, and that the manager behind the interface is one the theory of
  \<open>Ledger\<close> speaks of.
\<close>

section \<open>The loops of the manager keep the fleet\<close>

lemma fleet_same [simp]:
  "mg_Fleet (failJob e j note s) = mg_Fleet s" "mg_Fleet (setNote j note s) = mg_Fleet s"
  "mg_Fleet (fail_with j note s) = mg_Fleet s" "mg_Fleet (snd (freeLocked e j s)) = mg_Fleet s"
  "mg_Fleet (fst (Submit js s)) = mg_Fleet s"
  by (simp_all add: failJob_def setNote_def fail_with_def freeLocked_def q_Update_def Let_def Submit_def)

lemma fleet_dispatch [simp]:
  "mg_Fleet (submit_to e c content j s) = mg_Fleet s" "mg_Fleet (dispatchNow e i s) = mg_Fleet s"
  "mg_Fleet (Dispatch e j s) = mg_Fleet s"
proof -
  show sub: "mg_Fleet (submit_to e c content j s) = mg_Fleet s" for c content j s
    by (auto simp: submit_to_def split: sum.split prod.split)
  show "mg_Fleet (dispatchNow e i s) = mg_Fleet s" for i s
    by (auto simp: dispatchNow_def Let_def sub split: option.split sum.split prod.split)
  then show "mg_Fleet (Dispatch e j s) = mg_Fleet s" by (simp add: Dispatch_def)
qed

lemma fleet_try_place: "try_place e j d cs s = Some (s', b) \<Longrightarrow> mg_Fleet s' = mg_Fleet s"
proof (induction cs arbitrary: s)
  case (Cons c cs)
  then show ?case by (auto simp: Let_def q_Update_def split: option.splits prod.splits sum.splits)
qed simp

lemma fleet_schedule_job:
  assumes "schedule_job e i s = Some (s', b)"
  shows "mg_Fleet s' = mg_Fleet s"
proof (cases "job_at s i")
  case (Some j)
  show ?thesis
  proof (cases "mt_Evaluate (ev_Matcher e) (mg_Matcher s) (jb_Spec j)")
    case None
    then show ?thesis using assms Some by (simp add: schedule_job_def split: if_splits)
  next
    case cands: (Some cands)
    obtain scored decision s1 where d: "decide e (jb_Spec j) cands s = (scored, decision, s1)"
      by (cases "decide e (jb_Spec j) cands s")
    then have s1: "mg_Fleet s1 = mg_Fleet s" by (auto simp: decide_def case_prod_unfold split: if_splits)
    have fail: "failInfeasible e j s = Some s2 \<Longrightarrow> mg_Fleet s2 = mg_Fleet s" for s2
      by (erule failInfeasible_cases) simp_all
    show ?thesis
      using assms unfolding schedule_job_def Some cands d option.case prod.case Let_def
      by (auto simp: s1 dest!: fail fleet_try_place split: if_splits option.splits prod.splits bool.splits)
  qed
qed (use assms in \<open>simp add: schedule_job_def\<close>)

lemma fleet_schedule_loop: "schedule_loop e js s = Some s' \<Longrightarrow> mg_Fleet s' = mg_Fleet s"
proof (induction js arbitrary: s)
  case (Cons j js)
  then show ?case
    using fleet_schedule_job [of e "jb_ID j" s] by (fastforce split: option.splits prod.splits bool.splits)
qed simp

lemma fleet_fold: "(\<And>j s. mg_Fleet (f j s) = mg_Fleet s) \<Longrightarrow> mg_Fleet (fold f js s) = mg_Fleet s"
  by (induction js arbitrary: s) simp_all

lemma fleet_Step: "Step e s = Some s' \<Longrightarrow> mg_Fleet s' = mg_Fleet s"
proof -
  assume st: "Step e s = Some s'"
  have m: "mg_Fleet (monitor_job e j s) = mg_Fleet s" for j and s :: "('a, 'b) mgr"
    by (auto simp: monitor_job_def q_Update_def Let_def split: option.split sum.split prod.split)
  obtain s1 where s1: "scheduleOnce e s = Some s1" "s' = (if ev_staged e then s1 else monitorOnce e s1)"
    using st by (auto simp: Step_def split: option.splits)
  have "mg_Fleet s1 = mg_Fleet s"
    using s1(1) fleet_schedule_loop by (auto simp: scheduleOnce_def Let_def fleet_fold split: if_splits)
  then show ?thesis using s1(2) by (simp add: monitorOnce_def fleet_fold m)
qed

lemma fleet_Cancel [simp]: "mg_Fleet (fst (Cancel e i s)) = mg_Fleet s"
  by (auto simp: Cancel_def failByID_def q_Update_def Let_def freeLocked_def split: option.split prod.split)

lemma fleet_CancelAll [simp]: "mg_Fleet (fst (CancelAll e s)) = mg_Fleet s"
  by (simp add: CancelAll_def Let_def fleet_fold)

lemma fleet_Satisfy: "Satisfy e js s = Some (r, s') \<Longrightarrow> mg_Fleet s' = mg_Fleet s"
  by (auto simp: Satisfy_def split: option.splits)

section \<open>The fleet under registrations\<close>

lemma fleet_RegisterCluster:
  assumes "fleet_inv (mg_Fleet s)" "k \<noteq> cg_ID cg"
  shows "fl_Get (mg_Fleet (fst (RegisterCluster e cg s))) k = fl_Get (mg_Fleet s) k"
  using assms fleet_inv_Add [OF assms(1), of cg]
  by (auto simp: RegisterCluster_def Let_def fl_Get_Add fl_Get_Remove split: option.split prod.split)

lemma fleet_RegisterSubsystem:
  "k \<noteq> i \<Longrightarrow> fl_Get (mg_Fleet (fst (RegisterSubsystem e i n g d s))) k = fl_Get (mg_Fleet s) k"
  by (auto simp: RegisterSubsystem_def fl_Get_Add AttachSubsystem_def dest: fl_Get_ID split: option.split prod.split)

lemma ID_Detach: "cg_ID (snd (DetachSubsystem n cg)) = cg_ID cg"
  by (auto simp: DetachSubsystem_def)

lemma fleet_UnregisterSubsystem:
  "k \<noteq> i \<Longrightarrow> fl_Get (mg_Fleet (fst (UnregisterSubsystem e i n s))) k = fl_Get (mg_Fleet s) k"
  by (auto simp: UnregisterSubsystem_def Let_def fl_Get_Add ID_Detach dest: fl_Get_ID split: option.split prod.split)

lemma fleet_UnregisterCluster:
  "fleet_inv (mg_Fleet s) \<Longrightarrow> k \<noteq> i \<Longrightarrow> fl_Get (mg_Fleet (fst (UnregisterCluster e i s))) k = fl_Get (mg_Fleet s) k"
  using fl_Get_Remove [of "mg_Fleet s" i k] by (auto simp: UnregisterCluster_def case_prod_unfold Let_def)

lemma inv_registrations [inv_intros]:
  assumes "fleet_inv (mg_Fleet s)"
  shows "fleet_inv (mg_Fleet (fst (RegisterCluster e cg s)))" "fleet_inv (mg_Fleet (fst (RegisterSubsystem e i n g d s)))"
    "fleet_inv (mg_Fleet (fst (UnregisterSubsystem e i n s)))" "fleet_inv (mg_Fleet (fst (UnregisterCluster e i s)))"
  using assms
  by (auto simp: RegisterCluster_def RegisterSubsystem_def UnregisterSubsystem_def UnregisterCluster_def Let_def case_prod_unfold
      split: option.split prod.split intro!: inv_intros)

lemma register_all_keeps:
  "register_all e i subs names s = (s', out, err) \<Longrightarrow>
    (k \<noteq> i \<longrightarrow> fl_Get (mg_Fleet s') k = fl_Get (mg_Fleet s) k) \<and> (fleet_inv (mg_Fleet s) \<longrightarrow> fleet_inv (mg_Fleet s')) \<and>
    mg_seq s' = mg_seq s \<and> (mgr_reach e s0 s \<longrightarrow> mg_seq s < 10000 \<longrightarrow> mgr_reach e s0 s')"
proof (induction subs arbitrary: names s)
  case (Cons x subs)
  obtain n g where x: "x = (n, g)" by (cases x)
  obtain s1 r where r: "RegisterSubsystem e i n g True s = (s1, r)" by (cases "RegisterSubsystem e i n g True s")
  have s1: "s1 = fst (RegisterSubsystem e i n g True s)" by (simp add: r)
  have seq: "mg_seq s1 = mg_seq s" using r by (auto simp: RegisterSubsystem_def split: option.splits prod.splits)
  have keep: "k \<noteq> i \<longrightarrow> fl_Get (mg_Fleet s1) k = fl_Get (mg_Fleet s) k" "fleet_inv (mg_Fleet s) \<longrightarrow> fleet_inv (mg_Fleet s1)"
    "mgr_reach e s0 s \<longrightarrow> mg_seq s < 10000 \<longrightarrow> mgr_reach e s0 s1"
    unfolding s1 using seq [unfolded s1] by (auto simp: fleet_RegisterSubsystem intro: inv_intros mgr_reach.step mgr_step.reg_subsystem)
  show ?case
  proof (cases r)
    case None
    then show ?thesis using Cons.IH [of "names @ [n]" s1] Cons.prems keep seq by (simp add: x r)
  next
    case (Some a)
    then show ?thesis using Cons.prems keep seq by (simp add: x r)
  qed
qed simp

lemma discover_keeps:
  assumes "DiscoverCluster e disc i s = (s', out, err)"
  shows "(k \<noteq> i \<longrightarrow> fl_Get (mg_Fleet s') k = fl_Get (mg_Fleet s) k) \<and> (fleet_inv (mg_Fleet s) \<longrightarrow> fleet_inv (mg_Fleet s')) \<and>
    mg_seq s' = mg_seq s \<and> (mgr_reach e s0 s \<longrightarrow> mg_seq s < 10000 \<longrightarrow> mgr_reach e s0 s')"
proof (cases "s' = s")
  case False
  then obtain g d s1 r where r: "RegisterSubsystem e i ContainmentSubsystem g d s = (s1, r)"
      "s' = s1 \<or> (\<exists>subs. register_all e i subs [ContainmentSubsystem] s1 = (s', out, err))"
    using assms by (auto simp: DiscoverCluster_def Let_def split: option.splits sum.splits prod.splits) blast
  have s1: "s1 = fst (RegisterSubsystem e i ContainmentSubsystem g d s)" by (simp add: r)
  have seq: "mg_seq s1 = mg_seq s" using r(1) by (auto simp: RegisterSubsystem_def split: option.splits prod.splits)
  have keep: "k \<noteq> i \<longrightarrow> fl_Get (mg_Fleet s1) k = fl_Get (mg_Fleet s) k" "fleet_inv (mg_Fleet s) \<longrightarrow> fleet_inv (mg_Fleet s1)"
    "mgr_reach e s0 s \<longrightarrow> mg_seq s < 10000 \<longrightarrow> mgr_reach e s0 s1"
    unfolding s1 using seq [unfolded s1] by (auto simp: fleet_RegisterSubsystem intro: inv_intros mgr_reach.step mgr_step.reg_subsystem)
  show ?thesis using r(2) keep seq register_all_keeps [of e i _ "[ContainmentSubsystem]" s1 s' out err k s0] by auto
qed simp

section \<open>One request\<close>

text \<open>
  What a request does to the manager is a sequence of the steps \<open>Ledger\<close> knows, and it keeps the
  records of the fleet apart.
\<close>

lemma RegisterCluster_seq [simp]: "mg_seq (fst (RegisterCluster e cg s)) = mg_seq s"
  by (auto simp: RegisterCluster_def Let_def split: option.split prod.split)

lemma Unregister_seq [simp]: "mg_seq (fst (UnregisterCluster e i s)) = mg_seq s"
  "mg_seq (fst (UnregisterSubsystem e i n s)) = mg_seq s" "mg_seq (fst (RegisterSubsystem e i n g d s)) = mg_seq s"
  by (auto simp: UnregisterCluster_def UnregisterSubsystem_def RegisterSubsystem_def Let_def case_prod_unfold
      split: option.split prod.split)

definition reaches :: "('m, 'w) env \<Rightarrow> ('m, 'w) mgr \<Rightarrow> ('m, 'w) mgr \<Rightarrow> bool" where
  "reaches e s s' \<longleftrightarrow> (\<forall>s0. mgr_reach e s0 s \<longrightarrow> mg_seq s' < 10000 \<longrightarrow> mgr_reach e s0 s')"

lemma reaches_refl [simp]: "reaches e s s"
  by (simp add: reaches_def)

lemma reaches_step: "mgr_step e s s' \<Longrightarrow> reaches e s s'"
  by (auto simp: reaches_def intro: mgr_reach.step)

text \<open>A request touches a cluster: its record in the fleet or its secret is not what it was.\<close>

definition touched :: "('m, 'w) server \<Rightarrow> ('m, 'w) server \<Rightarrow> string \<Rightarrow> bool" where
  "touched s s' k \<longleftrightarrow> fl_Get (mg_Fleet (sv_M s')) k \<noteq> fl_Get (mg_Fleet (sv_M s)) k \<or> sv_secrets s' k \<noteq> sv_secrets s k"

definition request_effect :: "('m, 'w) env \<Rightarrow> (string \<Rightarrow> bool) \<Rightarrow> ('m, 'w) server \<Rightarrow> ('m, 'w) server \<Rightarrow> bool" where
  "request_effect e may s s' \<longleftrightarrow> reaches e (sv_M s) (sv_M s') \<and>
     (fleet_inv (mg_Fleet (sv_M s)) \<longrightarrow> fleet_inv (mg_Fleet (sv_M s')) \<and> (\<forall>k. touched s s' k \<longrightarrow> may k))"

lemma effect_refl [simp]: "request_effect e may s s"
  by (simp add: request_effect_def touched_def)

text \<open>
  A handler that is one step of the manager and at most changes the secret of the cluster it edits.\<close>

lemma effect_step:
  assumes "mgr_step e (sv_M s) m" "fleet_inv (mg_Fleet (sv_M s)) \<Longrightarrow> fleet_inv (mg_Fleet m)"
    and "\<And>k. fleet_inv (mg_Fleet (sv_M s)) \<Longrightarrow> fl_Get (mg_Fleet m) k \<noteq> fl_Get (mg_Fleet (sv_M s)) k \<Longrightarrow> may k"
    and "sv_M s' = m" "\<And>k. sv_secrets s' k \<noteq> sv_secrets s k \<Longrightarrow> may k"
  shows "request_effect e may s s'"
  using assms by (auto simp: request_effect_def touched_def reaches_step)

lemma effect_register:
  "request_effect (ap_env A) (\<lambda>k. \<exists>req. ap_decodeRegister A (rq_Body r) = Inr req \<and> rr_Name req = k) s (fst (registerCluster A r s))"
proof (cases "ap_decodeRegister A (rq_Body r)")
  case (Inr req)
  let ?may = "\<lambda>k. \<exists>req. ap_decodeRegister A (rq_Body r) = Inr req \<and> rr_Name req = k" and ?e = "ap_env A"
  obtain m res where reg: "RegisterCluster ?e (cluster_of req) (sv_M s) = (m, res)"
    by (cases "RegisterCluster ?e (cluster_of req) (sv_M s)")
  have m: "m = fst (RegisterCluster ?e (cluster_of req) (sv_M s))" by (simp add: reg)
  have id: "cg_ID (cluster_of req) = rr_Name req" by (simp add: cluster_of_def)
  have step: "mgr_step ?e (sv_M s) m" unfolding m by (rule mgr_step.reg_cluster)
  have keep: "fleet_inv (mg_Fleet (sv_M s)) \<Longrightarrow> fleet_inv (mg_Fleet m)"
    "fleet_inv (mg_Fleet (sv_M s)) \<Longrightarrow> fl_Get (mg_Fleet m) k \<noteq> fl_Get (mg_Fleet (sv_M s)) k \<Longrightarrow> k = rr_Name req" for k
    unfolding m using fleet_RegisterCluster [of "sv_M s" k "cluster_of req"] id by (auto intro: inv_intros)
  show ?thesis
  proof (cases "rr_Name req = '''' \<or> res \<noteq> None")
    case True
    then show ?thesis
      using effect_step [OF step keep(1), of ?may "s\<lparr>sv_M := m\<rparr>"] keep(2) Inr reg
      by (auto simp: registerCluster_def)
  next
    case False
    obtain s1 sec where s1: "(if ap_ClusterAuth A = None then issue A (rr_Name req) (s\<lparr>sv_M := m\<rparr>) else (s\<lparr>sv_M := m\<rparr>, '''')) = (s1, sec)"
      by (cases "if ap_ClusterAuth A = None then issue A (rr_Name req) (s\<lparr>sv_M := m\<rparr>) else (s\<lparr>sv_M := m\<rparr>, '''')")
    have s1m: "sv_M s1 = m" "sv_secrets s1 k \<noteq> sv_secrets s k \<Longrightarrow> k = rr_Name req" for k
      using s1 by (auto simp: issue_def Let_def split: if_splits)
    obtain m2 names derr where d: "(if rr_Discover req then DiscoverCluster ?e (ap_disc A) (rr_Name req) (sv_M s1) else (sv_M s1, [], None))
        = (m2, names, derr)" by (cases "if rr_Discover req then DiscoverCluster ?e (ap_disc A) (rr_Name req) (sv_M s1) else (sv_M s1, [], None)")
    have m2: "k \<noteq> rr_Name req \<longrightarrow> fl_Get (mg_Fleet m2) k = fl_Get (mg_Fleet m) k" "fleet_inv (mg_Fleet m) \<longrightarrow> fleet_inv (mg_Fleet m2)"
      "mg_seq m2 = mg_seq m" "mgr_reach ?e s0 m \<longrightarrow> mg_seq m < 10000 \<longrightarrow> mgr_reach ?e s0 m2" for k s0
      using d discover_keeps [of ?e "ap_disc A" "rr_Name req" m m2 names derr k s0] by (auto simp: s1m split: if_splits)
    have "reaches ?e (sv_M s) m2" using reaches_step [OF step] m2(3,4) by (auto simp: reaches_def)
    moreover have "fst (registerCluster A r s) = s1\<lparr>sv_M := m2\<rparr>"
      using False Inr reg s1 d by (simp add: registerCluster_def Let_def)
    ultimately show ?thesis using keep m2(1,2) s1m(2) Inr by (auto simp: request_effect_def touched_def) metis+
  qed
qed (simp add: registerCluster_def)


abbreviation edits :: "('m, 'w) api \<Rightarrow> ('m, 'w) server \<Rightarrow> request \<Rightarrow> string \<Rightarrow> string \<Rightarrow> bool" where
  "edits A s r name k \<equiv> k = name \<and> AuthenticateClusterEdit A s r name = None"

lemma effect_unregister: "request_effect (ap_env A) (edits A s r name) s (fst (unregisterCluster A name r s))"
proof (cases "AuthenticateClusterEdit A s r name")
  case None
  obtain m found where u: "UnregisterCluster (ap_env A) name (sv_M s) = (m, found)"
    by (cases "UnregisterCluster (ap_env A) name (sv_M s)")
  have m: "m = fst (UnregisterCluster (ap_env A) name (sv_M s))" by (simp add: u)
  have sv: "sv_M (fst (unregisterCluster A name r s)) = m"
    "k \<noteq> name \<Longrightarrow> sv_secrets (fst (unregisterCluster A name r s)) k = sv_secrets s k" for k
    by (cases found; simp add: unregisterCluster_def u None forget_def Let_def)+
  show ?thesis
    using None fleet_UnregisterCluster [of "sv_M s" _ name "ap_env A"] sv
    by (intro effect_step [where m = m]) (auto simp: m intro: inv_intros mgr_step.intros)
qed (simp add: unregisterCluster_def)

lemma effect_registerSubsystem: "request_effect (ap_env A) (edits A s r name) s (fst (registerSubsystem A name sub r s))"
proof (cases "AuthenticateClusterEdit A s r name")
  case None
  show ?thesis
  proof (cases "\<exists>spec g. ap_decodeSubsystem A (rq_Body r) = Inr spec \<and> ss_Graph spec = Some g")
    case True
    then obtain spec g where d: "ap_decodeSubsystem A (rq_Body r) = Inr spec" "ss_Graph spec = Some g" by blast
    let ?m = "fst (RegisterSubsystem (ap_env A) name sub g (ss_Descriptive spec) (sv_M s))"
    show ?thesis
      using d None fleet_RegisterSubsystem [of _ name "ap_env A" sub g "ss_Descriptive spec" "sv_M s"]
      by (intro effect_step [where m = ?m])
        (auto simp: registerSubsystem_def intro: inv_intros mgr_step.intros split: prod.splits option.splits)
  qed (auto simp: registerSubsystem_def None split: sum.split option.split)
qed (simp add: registerSubsystem_def)

lemma effect_unregisterSubsystem: "request_effect (ap_env A) (edits A s r name) s (fst (unregisterSubsystem A name sub r s))"
proof (cases "AuthenticateClusterEdit A s r name")
  case None
  let ?m = "fst (UnregisterSubsystem (ap_env A) name sub (sv_M s))"
  show ?thesis
    using None fleet_UnregisterSubsystem [of _ name "ap_env A" sub "sv_M s"]
    by (intro effect_step [where m = ?m])
      (auto simp: unregisterSubsystem_def intro: inv_intros mgr_step.intros split: prod.splits option.splits)
qed (simp add: unregisterSubsystem_def)

lemma effect_submit: "request_effect (ap_env A) (\<lambda>_. False) s (fst (post_submit A r s))"
proof (cases "checked_job A r")
  case (Inr js)
  show ?thesis
    by (rule effect_step [OF mgr_step.submit [of _ _ js]]) (auto simp: post_submit_def Inr case_prod_unfold)
qed (simp add: post_submit_def)

lemma effect_cancel: "request_effect (ap_env A) (\<lambda>_. False) s (fst (cancelJob A i s))"
  by (rule effect_step [OF mgr_step.cancel [of _ _ i]]) (auto simp: cancelJob_def split: prod.splits option.splits)

lemma effect_cancelAll: "request_effect (ap_env A) (\<lambda>_. False) s (fst (post_cancelAll A s))"
  by (rule effect_step [OF mgr_step.cancel_all]) (auto simp: post_cancelAll_def split: prod.splits)

lemma effect_satisfy:
  assumes "post_satisfy A r s = Some (s', resp)"
  shows "request_effect (ap_env A) (\<lambda>_. False) s s'"
proof (cases "s' = s")
  case False
  then obtain js where js: "checked_job A r = Inr js" using assms by (auto simp: post_satisfy_def split: sum.splits)
  have s': "s' = s\<lparr>sv_M := (sv_M s)\<lparr>mg_draws := mg_draws (sv_M s) + 1\<rparr>\<rparr>"
    using assms js by (auto simp: post_satisfy_def Satisfy_def split: option.splits prod.splits)
  have "mgr_step (ap_env A) (sv_M s) (sv_M s')"
    using mgr_step.outside [where s = "sv_M s" and t = "mg_now (sv_M s)" and w = "mg_World (sv_M s)" and
        st = "mg_Stages (sv_M s)" and k = "mg_draws (sv_M s) + 1"] by (simp add: s')
  then show ?thesis by (rule effect_step) (simp_all add: s')
qed simp

text \<open>The requests that may touch cluster \<open>k\<close>.\<close>

definition authorised :: "('m, 'w) api \<Rightarrow> ('m, 'w) server \<Rightarrow> request \<Rightarrow> string \<Rightarrow> bool" where
  "authorised A s r k \<longleftrightarrow>
     (\<exists>vals rest. routed r = (RegisterOp, vals) # rest \<and> (\<exists>req. ap_decodeRegister A (rq_Body r) = Inr req \<and> rr_Name req = k)) \<or>
     (\<exists>oper vals rest. oper \<in> {UnregisterOp, AddSubOp, RemoveSubOp} \<and> routed r = (oper, vals) # rest \<and>
        k = hd (vals @ ['''']) \<and> AuthenticateClusterEdit A s r k = None)"

lemma effect_weaken: "request_effect e may s s' \<Longrightarrow> (\<And>k. may k \<Longrightarrow> may' k) \<Longrightarrow> request_effect e may' s s'"
  by (auto simp: request_effect_def)

lemma serve_effect:
  assumes "serve A r s = Some (s', resp)"
  shows "request_effect (ap_env A) (authorised A s r) s s'"
proof (cases "routed r")
  case Nil
  then show ?thesis using assms by (simp add: serve_def)
next
  case (Cons x rest)
  obtain oper vals where x: "x = (oper, vals)" by (cases x)
  let ?a = "hd (vals @ [''''])"
  have run: "run_op A oper vals r s = Some (s', resp)" using assms Cons by (simp add: serve_def x)
  have may: "edits A s r ?a k \<Longrightarrow> oper \<in> {UnregisterOp, AddSubOp, RemoveSubOp} \<Longrightarrow> authorised A s r k" for k
    using Cons by (auto simp: authorised_def x)
  show ?thesis
  proof (cases oper)
    case RegisterOp
    have s': "s' = fst (registerCluster A r s)" using run by (auto simp: run_op_def RegisterOp)
    show ?thesis unfolding s'
      by (rule effect_weaken [OF effect_register]) (use Cons in \<open>auto simp: RegisterOp x authorised_def\<close>)
  next
    case UnregisterOp
    have s': "s' = fst (unregisterCluster A ?a r s)" using run by (auto simp: run_op_def Let_def UnregisterOp)
    show ?thesis unfolding s' by (rule effect_weaken [OF effect_unregister]) (use may in \<open>auto simp: UnregisterOp\<close>)
  next
    case AddSubOp
    have s': "s' = fst (registerSubsystem A ?a (hd (drop 1 vals @ [''''])) r s)" using run by (auto simp: run_op_def Let_def AddSubOp)
    show ?thesis unfolding s' by (rule effect_weaken [OF effect_registerSubsystem]) (use may in \<open>auto simp: AddSubOp\<close>)
  next
    case RemoveSubOp
    have s': "s' = fst (unregisterSubsystem A ?a (hd (drop 1 vals @ [''''])) r s)" using run by (auto simp: run_op_def Let_def RemoveSubOp)
    show ?thesis unfolding s' by (rule effect_weaken [OF effect_unregisterSubsystem]) (use may in \<open>auto simp: RemoveSubOp\<close>)
  next
    case SubmitOp
    have s': "s' = fst (post_submit A r s)" using run by (auto simp: run_op_def Let_def SubmitOp)
    show ?thesis unfolding s' by (rule effect_weaken [OF effect_submit]) simp
  next
    case SatisfyOp
    have "post_satisfy A r s = Some (s', resp)" using run by (simp add: run_op_def SatisfyOp)
    then show ?thesis by (rule effect_weaken [OF effect_satisfy]) simp
  next
    case CancelOp
    have s': "s' = fst (cancelJob A ?a s)" using run by (auto simp: run_op_def Let_def CancelOp)
    show ?thesis unfolding s' by (rule effect_weaken [OF effect_cancel]) simp
  next
    case CancelAllOp
    have s': "s' = fst (post_cancelAll A s)" using run by (auto simp: run_op_def Let_def CancelAllOp)
    show ?thesis unfolding s' by (rule effect_weaken [OF effect_cancelAll]) simp
  qed (use run in \<open>simp_all add: run_op_def\<close>)
qed


section \<open>Runs of the server\<close>

text \<open>Requests, ticks of the manager's loops and changes outside, from a server as it starts.\<close>

inductive srv_reach :: "('m, 'w) api \<Rightarrow> ('m, 'w) server \<Rightarrow> ('m, 'w) server \<Rightarrow> bool" for A s0 where
  start: "srv_reach A s0 s0"
| request: "srv_reach A s0 s \<Longrightarrow> serve A r s = Some (s', resp) \<Longrightarrow> mg_seq (sv_M s') < 10000 \<Longrightarrow> srv_reach A s0 s'"
| loops: "srv_reach A s0 s \<Longrightarrow> Step (ap_env A) (sv_M s) = Some m \<Longrightarrow> mg_seq m < 10000 \<Longrightarrow> srv_reach A s0 (s\<lparr>sv_M := m\<rparr>)"
| outside: "srv_reach A s0 s \<Longrightarrow> mg_seq (sv_M s) < 10000 \<Longrightarrow>
    srv_reach A s0 (s\<lparr>sv_M := (sv_M s)\<lparr>mg_now := t, mg_World := w, mg_Stages := st, mg_draws := k\<rparr>\<rparr>)"

lemma srv_mgr_reach: "srv_reach A s0 s \<Longrightarrow> mgr_reach (ap_env A) (sv_M s0) (sv_M s)"
proof (induction rule: srv_reach.induct)
  case start
  show ?case by (rule mgr_reach.start)
next
  case (request s r s' resp)
  then show ?case using serve_effect [OF request.hyps(2)] by (auto simp: request_effect_def reaches_def)
next
  case (loops s m)
  then show ?case by (auto intro: mgr_reach.step mgr_step.tick)
next
  case (outside s t w st k)
  then show ?case by (auto intro: mgr_reach.step mgr_step.outside)
qed

lemma srv_fleet_inv: "srv_reach A s0 s \<Longrightarrow> fleet_inv (mg_Fleet (sv_M s0)) \<Longrightarrow> fleet_inv (mg_Fleet (sv_M s))"
proof (induction rule: srv_reach.induct)
  case (request s r s' resp)
  then show ?case using serve_effect [OF request.hyps(2)] by (auto simp: request_effect_def)
qed (auto simp: fleet_Step)

section \<open>Properties\<close>

text \<open>
  C15. Who may change a cluster. In a run of the server a request changes the record of a cluster, its
  subsystems or its secret only if it registers a cluster under that name or edits this cluster
  and carries the secret the server holds for it. An edit without the secret is answered with 401
  and changes nothing at all; the loops of the manager leave every cluster as it is.
\<close>

theorem cluster_changes_authorised:
  assumes "srv_reach A (NewServer (NewManager m w)) s" "ap_ClusterAuth A = None" "serve A r s = Some (s', resp)"
  shows "(\<forall>k. touched s s' k \<longrightarrow>
      (\<exists>vals rest req. routed r = (RegisterOp, vals) # rest \<and> ap_decodeRegister A (rq_Body r) = Inr req \<and> rr_Name req = k) \<or>
      sv_secrets s k = Some (bearer r)) \<and>
    (\<forall>oper vals rest. routed r = (oper, vals) # rest \<longrightarrow> oper \<in> {UnregisterOp, AddSubOp, RemoveSubOp} \<longrightarrow>
      sv_secrets s (hd (vals @ [''''])) \<noteq> Some (bearer r) \<longrightarrow> s' = s \<and> rs_Status resp = 401) \<and>
    (Step (ap_env A) (sv_M s) = Some m2 \<longrightarrow> \<not> touched s (s\<lparr>sv_M := m2\<rparr>) k)"
proof -
  have auth: "AuthenticateClusterEdit A s r k = None \<longleftrightarrow> sv_secrets s k = Some (bearer r)" for k
    using assms(2) by (auto simp: AuthenticateClusterEdit_def secret_auth_def split: option.split)
  have inv: "fleet_inv (mg_Fleet (sv_M s))"
    by (rule srv_fleet_inv [OF assms(1)]) (simp add: NewServer_def NewManager_def fleet_inv_def)
  have "\<forall>k. touched s s' k \<longrightarrow> authorised A s r k"
    using serve_effect [OF assms(3)] inv by (simp add: request_effect_def)
  moreover have "s' = s \<and> rs_Status resp = 401"
    if op: "routed r = (oper, vals) # rest" "oper \<in> {UnregisterOp, AddSubOp, RemoveSubOp}"
      and key: "sv_secrets s (hd (vals @ [''''])) \<noteq> Some (bearer r)" for oper vals rest
  proof -
    obtain err where "AuthenticateClusterEdit A s r (hd (vals @ [''''])) = Some err" using key auth by blast
    then show ?thesis using op assms(3)
      by (auto simp: serve_def run_op_def Let_def unregisterCluster_def registerSubsystem_def unregisterSubsystem_def http_Error_def)
  qed
  moreover have "Step (ap_env A) (sv_M s) = Some m2 \<longrightarrow> \<not> touched s (s\<lparr>sv_M := m2\<rparr>) k"
    by (auto simp: touched_def fleet_Step)
  ultimately show ?thesis unfolding authorised_def auth by blast
qed



text \<open>A text of hexadecimal digits holds no blank, so it is the token of its own header.\<close>

definition hex_digits :: "char set" where
  "hex_digits = set ''0123456789abcdef''"

definition hex_text :: "string \<Rightarrow> bool" where
  "hex_text t \<longleftrightarrow> list_all (\<lambda>c. c \<in> hex_digits) t"

lemma hex_char_in: "d < 16 \<Longrightarrow> hex_char d \<in> hex_digits"
proof -
  assume "d < 16"
  then have "d \<in> set [0..<16]" by simp
  moreover have "list_all (\<lambda>d. hex_char d \<in> set ''0123456789abcdef'') [0..<16]" by code_simp
  ultimately show ?thesis unfolding list_all_iff hex_digits_def by blast
qed

lemma EncodeToString_hex: "list_all (\<lambda>b. b < 256) bs \<Longrightarrow> hex_text (EncodeToString bs) \<and> length (EncodeToString bs) = 2 * length bs"
  by (induction bs) (auto simp: EncodeToString_def hex_text_def intro!: hex_char_in)

lemma hex_no_space: "hex_text t \<Longrightarrow> TrimSpace t = t"
proof -
  assume t: "hex_text t"
  have n: "list_all (\<lambda>c. \<not> is_space c) ''0123456789abcdef''" by code_simp
  have "\<not> is_space c" if "c \<in> set t" for c
    using t n that unfolding hex_text_def hex_digits_def list_all_iff by blast
  then have "dropWhile is_space xs = xs" if "set xs \<subseteq> set t" for xs
    using that by (cases xs) auto
  then show ?thesis by (simp add: TrimSpace_def)
qed

text \<open>
  The secret a registration hands out is the key of the cluster. After a successful registration
  an edit of this cluster is let in exactly when its bearer token is the secret of the answer, which
  is 48 hexadecimal digits and the token of the header \<open>Bearer\<close> with it; nobody had to present the key
  of the cluster that had the name before, and that key no longer opens it unless the random bytes
  repeat. An edit with the key that unregisters the cluster leaves no key for it.
\<close>

theorem secret_is_key:
  assumes "registerCluster A r s = (s', resp)" "rs_Status resp = 201" "ap_ClusterAuth A = None"
    and "length (ap_rand A (sv_issued s)) = 24" "list_all (\<lambda>b. b < 256) (ap_rand A (sv_issued s))"
  shows "\<exists>p. rs_Body resp = PRegister p \<and> length (rp_Secret p) = 48 \<and>
    (\<forall>q. AuthenticateClusterEdit A s' q (rp_Name p) = None \<longleftrightarrow> bearer q = rp_Secret p) \<and>
    bearer (q\<lparr>rq_Authorization := ''Bearer '' @ rp_Secret p\<rparr>) = rp_Secret p \<and>
    (\<forall>k. k \<noteq> rp_Name p \<longrightarrow> sv_secrets s' k = sv_secrets s k) \<and>
    (case unregisterCluster A (rp_Name p) (q\<lparr>rq_Authorization := ''Bearer '' @ rp_Secret p\<rparr>) s' of
       (s2, resp2) \<Rightarrow> rs_Status resp2 = 204 \<longrightarrow> (\<forall>q2. AuthenticateClusterEdit A s2 q2 (rp_Name p) \<noteq> None))"
proof -
  obtain req where req: "ap_decodeRegister A (rq_Body r) = Inr req"
    using assms(1,2) by (cases "ap_decodeRegister A (rq_Body r)") (auto simp: registerCluster_def http_Error_def)
  obtain m res where reg: "RegisterCluster (ap_env A) (cluster_of req) (sv_M s) = (m, res)"
    by (cases "RegisterCluster (ap_env A) (cluster_of req) (sv_M s)")
  have ok: "rr_Name req \<noteq> ''''" "res = None"
    using assms(1,2) req reg by (auto simp: registerCluster_def http_Error_def split: if_splits option.splits)
  let ?k = "EncodeToString (ap_rand A (sv_issued s))"
  obtain p where p: "rs_Body resp = PRegister p" "rp_Name p = rr_Name req" "rp_Secret p = ?k"
      "sv_secrets s' = (sv_secrets s)(rr_Name req \<mapsto> ?k)"
    using assms(1,3) req reg ok
    by (auto simp: registerCluster_def issue_def Let_def created_def split: prod.splits if_splits)
  have hex: "hex_text ?k" "length ?k = 48" using EncodeToString_hex [OF assms(5)] assms(4) by simp_all
  have auth: "AuthenticateClusterEdit A t q c = None \<longleftrightarrow> sv_secrets t c = Some (bearer q)" for t q c
    using assms(3) by (auto simp: AuthenticateClusterEdit_def secret_auth_def split: option.split)
  have tok: "bearer (q\<lparr>rq_Authorization := ''Bearer '' @ ?k\<rparr>) = ?k"
    using hex_no_space [OF hex(1)] by (simp add: bearer_def HasPrefix_def)
  have gone: "sv_secrets s2 c = None" if "unregisterCluster A c u t = (s2, resp2)" "rs_Status resp2 = 204" for c u t s2 resp2
    using that assms(3)
    by (auto simp: unregisterCluster_def Let_def forget_def http_Error_def split: option.splits prod.splits bool.splits)
  show ?thesis
    using p hex tok auth by (intro exI [of _ p]) (auto dest: gone split: prod.split)
qed

text \<open>
  C25. What was submitted can be read back. While fewer than 10000 jobs have been submitted, a job that
  is let in is answered with 200 and an id no job had, and reading the job under that id gives
  the specification that was decoded, submitted and unplaced; the other jobs read as before.
\<close>

theorem submit_then_get:
  assumes "srv_reach A (NewServer (NewManager empty_sim w)) s" "ev_Matcher (ap_env A) = SimMatcher" "drivers_report (ap_env A)"
    and "rq_Method r = ''POST''" "rq_Path r = [''v1'', ''jobs'', ''submit'']" "mg_seq (sv_M s) + 1 < 10000"
    and "ap_decodeJob A (rq_Body r) = Inr js" "ap_JobAuth A r js = None"
  shows "\<exists>s' i j. serve A r s = Some (s', writeJSON (PId i)) \<and> get_job i s = http_Error ''not found'' 404 \<and>
    serve A (g\<lparr>rq_Method := ''GET'', rq_Path := [''v1'', ''jobs'', i]\<rparr>) s' = Some (s', writeJSON (PJob j)) \<and>
    jb_Spec j = js \<and> jb_State j = Submitted \<and> jb_AllocID j = '''' \<and> (\<forall>k. k \<noteq> i \<longrightarrow> get_job k s' = get_job k s)"
proof -
  have reach: "mgr_reach (ap_env A) (NewManager empty_sim w) (sv_M s)" using srv_mgr_reach [OF assms(1)] by (simp add: NewServer_def)
  obtain m i where sub: "Submit js (sv_M s) = (m, i)" by (cases "Submit js (sv_M s)")
  have ok: "sims.ok (sv_M s)"
    by (rule sims.ok_reach [OF assms(2,3) sim_inv_empty _ reach]) (simp add: sim_owns_def empty_sim_def)
  have q: "queue_inv (mg_Queue (sv_M s))" using ok sims.B_facts(1) by blast
  have i: "i = jobID (mg_seq (sv_M s) + 1)" "m = fst (Submit js (sv_M s))" using sub sims.Submit_simps(6) [of js "sv_M s"] by simp_all
  have new: "job_at (sv_M s) i = None" unfolding i using ok assms(6) sims.ids_fresh by blast
  let ?j = "(fresh_job i js (mg_now (sv_M s)))\<lparr>jb_UpdatedAt := mg_now (sv_M s)\<rparr>"
  have m: "job_at m k = (if k = i then Some ?j else job_at (sv_M s) k)" for k
    using q by (simp add: i Submit_def Let_def Enqueue_def Get_Update [unfolded Update_def])
  have post: "serve A r s = Some (s\<lparr>sv_M := m\<rparr>, writeJSON (PId i))"
    using assms(4,5,7,8) sub
    by (simp add: serve_def routed_def Routes_def List.map_filter_simps method_ok_def run_op_def post_submit_def checked_job_def decodeJob_def)
  have get: "serve A (g\<lparr>rq_Method := ''GET'', rq_Path := [''v1'', ''jobs'', i]\<rparr>) (s\<lparr>sv_M := m\<rparr>) =
      Some (s\<lparr>sv_M := m\<rparr>, writeJSON (PJob ?j))"
    by (simp add: serve_def routed_def Routes_def List.map_filter_simps method_ok_def run_op_def Let_def get_job_def m)
  show ?thesis
    by (rule exI [of _ "s\<lparr>sv_M := m\<rparr>"], rule exI [of _ i], rule exI [of _ ?j])
      (use post get new in \<open>simp add: get_job_def m fresh_job_def\<close>)
qed


section \<open>Witnesses\<close>

definition demo_api :: "(sim, unit) api" where
  "demo_api = \<lparr>ap_env = demo_env FirstFeasible False, ap_disc = (\<lambda>_. None), ap_JobAuth = allowAllJobs,
     ap_ClusterAuth = None, ap_rand = (\<lambda>n. replicate 24 (n mod 256)),
     ap_decodeRegister = (\<lambda>b. Inr \<lparr>rr_Name = b, rr_Manager = ''flux-uri'', rr_Handle = '''', rr_Config = [], rr_Discover = False\<rparr>),
     ap_decodeSubsystem = (\<lambda>b. Inl b), ap_decodeJob = (\<lambda>b. Inr one_node_job)\<rparr>"

lemma demo_api_simps [simp]:
  "ap_env demo_api = demo_env FirstFeasible False" "ap_ClusterAuth demo_api = None" "ap_JobAuth demo_api = allowAllJobs"
  "ap_decodeJob demo_api b = Inr one_node_job" "ap_rand demo_api n = replicate 24 (n mod 256)"
  by (simp_all add: demo_api_def)

definition demo_server :: "(sim, unit) server" where
  "demo_server = NewServer (NewManager empty_sim ())"

definition ask :: "string \<Rightarrow> string list \<Rightarrow> string \<Rightarrow> request" where
  "ask m p b = \<lparr>rq_Method = m, rq_Path = p, rq_Authorization = '''', rq_trace = '''', rq_Body = b\<rparr>"

lemma ask_simps [simp]: "rq_Method (ask m p b) = m" "rq_Path (ask m p b) = p" "rq_Body (ask m p b) = b"
  by (simp_all add: ask_def)

lemma demo_server_reach: "srv_reach demo_api (NewServer (NewManager empty_sim ())) demo_server"
  unfolding demo_server_def by (rule srv_reach.start)

text \<open>
  Removing a subsystem without a secret.\<close>

theorem cluster_changes_authorised_witness:
  "\<exists>resp. serve demo_api (ask ''DELETE'' [''v1'', ''clusters'', ''c1'', ''subsystems'', ''gpu''] '''') demo_server =
     Some (demo_server, resp) \<and> rs_Status resp = 401"
proof -
  let ?r = "ask ''DELETE'' [''v1'', ''clusters'', ''c1'', ''subsystems'', ''gpu''] ''''"
  have routed: "routed ?r = [(RemoveSubOp, [''c1'', ''gpu''])]"
    by (simp add: routed_def Routes_def List.map_filter_simps method_ok_def)
  obtain s' resp where s: "serve demo_api ?r demo_server = Some (s', resp)"
    by (cases "unregisterSubsystem demo_api ''c1'' ''gpu'' ?r demo_server") (simp add: serve_def routed run_op_def)
  have "sv_secrets demo_server ''c1'' \<noteq> Some (bearer ?r)" by (simp add: demo_server_def NewServer_def)
  then show ?thesis
    using cluster_changes_authorised [OF demo_server_reach demo_api_simps(2) s] s routed by auto
qed

definition demo_submit :: request where
  "demo_submit = ask ''POST'' [''v1'', ''jobs'', ''submit''] ''''"

theorem submit_then_get_witness:
  "\<exists>s' i j. serve demo_api demo_submit demo_server = Some (s', writeJSON (PId i)) \<and>
     serve demo_api (ask ''GET'' [''v1'', ''jobs'', i] '''') s' = Some (s', writeJSON (PJob j)) \<and> jb_Spec j = one_node_job"
proof -
  have n: "mg_seq (sv_M demo_server) + 1 < 10000" by (simp add: demo_server_def NewServer_def NewManager_def)
  have r: "rq_Method demo_submit = ''POST''" "rq_Path demo_submit = [''v1'', ''jobs'', ''submit'']" by (simp_all add: demo_submit_def)
  have d: "ap_decodeJob demo_api (rq_Body demo_submit) = Inr one_node_job" "ap_JobAuth demo_api demo_submit one_node_job = None"
    by (simp_all add: allowAllJobs_def)
  have g: "(demo_submit\<lparr>rq_Method := ''GET'', rq_Path := [''v1'', ''jobs'', i]\<rparr>) = ask ''GET'' [''v1'', ''jobs'', i] ''''" for i
    by (simp add: demo_submit_def ask_def)
  show ?thesis
    using submit_then_get [OF demo_server_reach _ _ r n d, of demo_submit] demo_reports unfolding g by auto
qed

lemma demo_submitted:
  "serve demo_api demo_submit demo_server =
     Some (demo_server\<lparr>sv_M := fst (Submit one_node_job (NewManager empty_sim ()))\<rparr>, writeJSON (PId (jobID 1)))"
  by (simp add: serve_def routed_def Routes_def List.map_filter_simps method_ok_def run_op_def post_submit_def checked_job_def
      decodeJob_def demo_submit_def demo_server_def NewServer_def allowAllJobs_def case_prod_unfold Submit_def Let_def NewManager_def)


theorem secret_is_key_witness:
  "\<exists>p. rs_Body (snd (registerCluster demo_api (ask ''POST'' [''v1'', ''clusters'', ''register''] ''c1'') demo_server)) = PRegister p \<and>
     length (rp_Secret p) = 48"
proof -
  let ?r = "ask ''POST'' [''v1'', ''clusters'', ''register''] ''c1''"
  obtain s' resp where s: "registerCluster demo_api ?r demo_server = (s', resp)"
    by (cases "registerCluster demo_api ?r demo_server")
  have "rs_Status (snd (registerCluster demo_api ?r demo_server)) = 201"
    by (simp add: registerCluster_def demo_api_def RegisterCluster_def Let_def cluster_of_def created_def issue_def
        Emulated_def Cfg_def case_prod_unfold SimMatcher_def)
  then show ?thesis using secret_is_key [OF s] s by (simp add: list_all_iff) blast
qed

end
