(* ===== verification/Agent.thy ===== *)
theory Agent
  imports Rendering
begin

text \<open>
  Package \<open>pkg/transform\<close>, file \<open>agent.go\<close>: the transformer that has a language model write and repair
  the artifact. The HTTP service, the encoder of the request and the decoder of the answer are the
  parameter \<open>service\<close>; everything the file does around them is modelled.
\<close>

section \<open>The client\<close>

record agent =
  ag_APIKey :: string
  ag_Model :: string
  ag_Endpoint :: string
  ag_Version :: string
  ag_MaxTokens :: int

definition defaultEndpoint :: string where "defaultEndpoint = ''https://api.anthropic.com/v1/messages''"
definition defaultVersion :: string where "defaultVersion = ''2023-06-01''"
definition defaultModel :: string where "defaultModel = ''claude-sonnet-4-5''"
definition defaultMaxTok :: int where "defaultMaxTok = 2048"

definition NewAgentTransformer :: "(string \<Rightarrow> string) \<Rightarrow> agent" where
  "NewAgentTransformer getenv =
     (let model = getenv ''ANTHROPIC_MODEL''
      in \<lparr>ag_APIKey = getenv ''ANTHROPIC_API_KEY'', ag_Model = (if model = '''' then defaultModel else model),
          ag_Endpoint = defaultEndpoint, ag_Version = defaultVersion, ag_MaxTokens = defaultMaxTok\<rparr>)"

section \<open>The messages interface\<close>

record apiMessage =
  am_Role :: string
  am_Content :: string

record apiRequest =
  aq_Model :: string
  aq_MaxTokens :: int
  aq_System :: string
  aq_Messages :: "apiMessage list"

record apiBlock =
  ab_Type :: string
  ab_Text :: string

record apiResponse =
  ar_Content :: "apiBlock list"
  ar_Error :: "(string \<times> string) option"

record http_post =
  hp_URL :: string
  hp_Headers :: "(string \<times> string) list"
  hp_Body :: string

text \<open>
  \<open>sv_newRequest\<close> is why no request can be made for an address; \<open>sv_Do\<close> sends one, with the status and
  the body of the answer or why there is none.
\<close>

record 'w service =
  sv_encode :: "apiRequest \<Rightarrow> string + string"
  sv_decode :: "string \<Rightarrow> string + apiResponse"
  sv_newRequest :: "string \<Rightarrow> string option"
  sv_Do :: "'w \<Rightarrow> http_post \<Rightarrow> 'w \<times> (string + nat \<times> string)"

definition read_answer :: "'w service \<Rightarrow> nat \<Rightarrow> string \<Rightarrow> string + string" where
  "read_answer S status body =
     (if status \<noteq> 200 then Inl (''anthropic '' @ itoa status @ '': '' @ TrimSpace body)
      else (case sv_decode S body of
        Inl err \<Rightarrow> Inl (''decode anthropic response: '' @ err)
      | Inr out \<Rightarrow>
          (case ar_Error out of
             Some (t, m) \<Rightarrow> Inl (''anthropic error ('' @ t @ ''): '' @ m)
           | None \<Rightarrow> Inr (concat (map ab_Text (filter (\<lambda>blk. ab_Type blk = ''text'') (ar_Content out)))))))"

definition ag_complete :: "'w service \<Rightarrow> agent \<Rightarrow> string \<Rightarrow> string \<Rightarrow> 'w \<Rightarrow> 'w \<times> (string + string)" where
  "ag_complete S a system user w =
     (if ag_APIKey a = '''' then (w, Inl ''no Anthropic API key (set $ANTHROPIC_API_KEY)'')
      else (case sv_encode S \<lparr>aq_Model = ag_Model a, aq_MaxTokens = ag_MaxTokens a, aq_System = system,
                   aq_Messages = [\<lparr>am_Role = ''user'', am_Content = user\<rparr>]\<rparr> of
        Inl err \<Rightarrow> (w, Inl err)
      | Inr reqBody \<Rightarrow>
     (case sv_newRequest S (ag_Endpoint a) of
        Some err \<Rightarrow> (w, Inl err)
      | None \<Rightarrow>
     (case sv_Do S w \<lparr>hp_URL = ag_Endpoint a, hp_Headers = [(''content-type'', ''application/json''),
                 (''x-api-key'', ag_APIKey a), (''anthropic-version'', ag_Version a)], hp_Body = reqBody\<rparr> of
        (w, Inl err) \<Rightarrow> (w, Inl (''anthropic request: '' @ err))
      | (w, Inr (status, body)) \<Rightarrow> (w, read_answer S status body)))))"

section \<open>The transformer\<close>

definition kindFor :: "cluster_graph \<Rightarrow> string" where
  "kindFor target = (if cg_Manager target = FluxURI then ''jobspec'' else ''manifest'')"

definition fence :: string where
  "fence = ''```''"

definition stripFences :: "string \<Rightarrow> string" where
  "stripFences s =
     (let s = TrimSpace s in
      if \<not> HasPrefix s fence then s
      else (let lines = split_lines s in
        if length lines < 2 then s
        else (let lines = tl lines;
                  lines = (if lines \<noteq> [] \<and> TrimSpace (last lines) = fence then butlast lines else lines)
              in TrimSpace (join [newline] lines))))"

definition system_prompt :: "string \<Rightarrow> string" where
  "system_prompt kind = ''You are a transform agent for heterogeneous workload managers. Output ONLY a single valid '' @ kind @
     '' for the target manager '' @ dash @ '' no prose, no explanation, no markdown fences. Preserve the application'' @ [squote] @
     ''s resource needs exactly; never change the problem size.''"

definition repair_prompt :: "string \<Rightarrow> string" where
  "repair_prompt kind = ''You are a repair agent. A previously generated '' @ kind @
     '' was rejected. Fix it so it validates on the target, changing ONLY what the error requires. Do not alter the requested '' @
     ''resources or problem size. Output ONLY the corrected '' @ kind @ '' '' @ dash @ '' no prose, no fences.''"

text \<open>What both requests make of the text the model returned.\<close>

definition as_content :: "string \<Rightarrow> string \<Rightarrow> string + string \<Rightarrow> string + content" where
  "as_content who kind out =
     (case out of
        Inl err \<Rightarrow> Inl err
      | Inr text \<Rightarrow>
          (let payload = stripFences text in
           if payload = '''' then Inl (who @ '' returned empty '' @ kind)
           else Inr \<lparr>ct_Kind = kind, ct_Payload = payload\<rparr>))"

definition agent_Transform :: "'w service \<Rightarrow> agent \<Rightarrow> 'w \<Rightarrow> jobspec \<Rightarrow> cluster_graph \<Rightarrow> 'w \<times> (string + content)" where
  "agent_Transform S a w js target =
     (let kind = kindFor target;
          (w, out) = ag_complete S a (system_prompt kind) (BuildPrompt js target) w
      in (w, as_content ''agent'' kind out))"

definition agent_Repair ::
  "'w service \<Rightarrow> agent \<Rightarrow> 'w \<Rightarrow> jobspec \<Rightarrow> cluster_graph \<Rightarrow> string \<Rightarrow> string \<Rightarrow> 'w \<times> (string + content)" where
  "agent_Repair S a w js target failed validationErr =
     (let kind = kindFor target;
          user = BuildPrompt js target @ [newline] @ ''The following '' @ kind @ '' was REJECTED with this error:'' @ [newline] @
            validationErr @ [newline, newline] @ ''--- artifact ---'' @ [newline] @ failed @ [newline];
          (w, out) = ag_complete S a (repair_prompt kind) user w
      in (w, as_content ''repair'' kind out))"

declare TrimSpace_idem [simp]

lemma stripFences_trimmed: "TrimSpace (stripFences s) = stripFences s"
  by (simp add: stripFences_def Let_def)

section \<open>Fences\<close>

lemma fence_chars [simp]: "set fence = {CHR 0x60}" "fence \<noteq> ''''" "length fence = 3" "hd fence = CHR 0x60" "last fence = CHR 0x60"
  by (simp_all add: fence_def)

lemma backtick [simp]: "\<not> is_space (CHR 0x60)" "CHR 0x60 \<noteq> newline" "newline \<noteq> CHR 0x60"
  by code_simp+

lemma TrimSpace_fence: "TrimSpace fence = fence"
  by (rule TrimSpace_id) auto

lemma join_split_lines: "join [newline] (split_lines s) = s"
proof (induction s)
  case (Cons c s)
  then show ?case by (cases "split_lines s"; cases "tl (split_lines s)") auto
qed simp

lemma kindFor_WantKind: "kindFor target = WantKind (backendFor (cg_Manager target))"
  by (simp add: kindFor_def backendFor_def managers_distinct)

lemma as_content_cases:
  assumes "as_content who kind out = Inr c"
  shows "ct_Kind c = kind" "ct_Payload c \<noteq> ''''" "TrimSpace (ct_Payload c) = ct_Payload c"
  using assms by (auto simp: as_content_def Let_def stripFences_trimmed split: sum.splits if_splits)

lemma complete_no_key: "ag_APIKey a = '''' \<Longrightarrow> ag_complete S a system user w = (w, Inl ''no Anthropic API key (set $ANTHROPIC_API_KEY)'')"
  by (simp add: ag_complete_def)

lemma Stub_kind: "Stub_Transform marshal js target = Some (Inr d) \<Longrightarrow> ct_Kind d = kindFor target"
  by (auto simp: Stub_Transform_def kindFor_def split: if_splits sum.splits option.splits)

lemma split_lines_one: "newline \<notin> set s \<Longrightarrow> split_lines s = [s]"
  by (induction s) auto

section \<open>Properties\<close>

text \<open>
  C35. Whatever the service answers, a content that the agent returns, from Transform or from Repair, has the
  kind that the templates and the backend of the target's manager use, and a payload that is trimmed and
  not blank, so the validator does not refuse it as empty or for its kind. Without an
  API key there is an error and no request.
\<close>

theorem agent_artifact:
  assumes "agent_Transform S a w js target = (w', r) \<or> agent_Repair S a w js target failed err = (w', r)"
  shows "(case r of
      Inl e \<Rightarrow> True
    | Inr c \<Rightarrow> ct_Kind c = WantKind (backendFor (cg_Manager target)) \<and>
        ct_Payload c \<noteq> '''' \<and> TrimSpace (ct_Payload c) = ct_Payload c \<and>
        snd (defaultValidate json target c) \<noteq> ''empty artifact'' \<and>
        (\<forall>marshal d. Stub_Transform marshal js target = Some (Inr d) \<longrightarrow> ct_Kind d = ct_Kind c)) \<and>
    (ag_APIKey a = '''' \<longrightarrow> w' = w \<and> r = Inl ''no Anthropic API key (set $ANTHROPIC_API_KEY)'')"
proof -
  obtain who out where r: "r = as_content who (kindFor target) out"
    using assms by (auto simp: agent_Transform_def agent_Repair_def Let_def split: prod.splits)
  have no_key: "w' = w \<and> r = Inl ''no Anthropic API key (set $ANTHROPIC_API_KEY)''" if "ag_APIKey a = ''''"
    using assms that by (auto simp: agent_Transform_def agent_Repair_def complete_no_key as_content_def)
  show ?thesis
  proof (cases r)
    case (Inr c)
    note c = as_content_cases [OF r [symmetric, unfolded Inr]]
    then have "snd (defaultValidate json target c) \<noteq> ''empty artifact''"
      by (auto simp: defaultValidate_def Let_def split: option.splits prod.splits)
    moreover have "ct_Kind d = ct_Kind c" if "Stub_Transform marshal js target = Some (Inr d)" for marshal d
      using Stub_kind [OF that] c(1) by simp
    ultimately show ?thesis using Inr c no_key by (auto simp: kindFor_WantKind)
  qed (use no_key in simp)
qed

text \<open>
  An answer that the model wrapped in a fence is unwrapped to the trimmed text between the two fence lines,
  with or without a language after the first fence and blanks around the whole; an answer that does not
  start with a fence is only trimmed.
\<close>

theorem stripFences_unwraps:
  assumes "newline \<notin> set lang" "list_all is_space ws" "list_all is_space vs"
  shows "stripFences (ws @ fence @ lang @ newline # body @ newline # fence @ vs) = TrimSpace body \<and>
    (\<not> HasPrefix (TrimSpace s) fence \<longrightarrow> stripFences s = TrimSpace s)"
proof -
  let ?opening = "fence @ lang" and ?wrapped = "(fence @ lang) @ newline # (body @ newline # fence)"
  have "TrimSpace ?wrapped = ?wrapped"
    by (rule TrimSpace_id) auto
  then have trim: "TrimSpace (ws @ fence @ lang @ newline # body @ newline # fence @ vs) = ?wrapped"
    using TrimSpace_pad [OF assms(2,3), of ?wrapped] by simp
  have "split_lines ?opening = [?opening]" using assms(1) by (intro split_lines_one) (auto dest: sym)
  then have lines: "split_lines ?wrapped = ?opening # split_lines body @ [fence]"
    unfolding split_lines_append using split_lines_one [of fence] by simp
  have "HasPrefix ?wrapped fence" by (simp add: HasPrefix_def)
  then show ?thesis unfolding stripFences_def [of "ws @ fence @ lang @ newline # body @ newline # fence @ vs"] trim lines Let_def
    by (simp add: TrimSpace_fence join_split_lines) (simp add: stripFences_def)
qed

text \<open>An answer of a model in a fence, and a service that gives it.\<close>

definition fenced_answer :: string where
  "fenced_answer = fence @ ''yaml'' @ newline # ''kind: Job'' @ newline # fence"

definition one_answer :: "nat service" where
  "one_answer = \<lparr>sv_encode = (\<lambda>q. Inr (aq_System q)),
     sv_decode = (\<lambda>b. Inr \<lparr>ar_Content = [\<lparr>ab_Type = ''text'', ab_Text = b\<rparr>], ar_Error = None\<rparr>),
     sv_newRequest = (\<lambda>_. None), sv_Do = (\<lambda>w p. (Suc w, Inr (200, fenced_answer)))\<rparr>"

theorem stripFences_unwraps_witness: "stripFences fenced_answer = ''kind: Job'' \<and> stripFences '' a '' = ''a''"
proof -
  have "newline \<notin> set ''yaml''" "TrimSpace ''kind: Job'' = ''kind: Job''" "TrimSpace '' a '' = ''a''"
    "\<not> HasPrefix (TrimSpace '' a '') fence" by code_simp+
  then show ?thesis
    using stripFences_unwraps [of "''yaml''" "[]" "[]" "''kind: Job''" "'' a ''"] by (simp add: fenced_answer_def)
qed

theorem agent_artifact_witness:
  "agent_Transform one_answer (NewAgentTransformer (\<lambda>_. ''k'')) 0 (echo_job [''echo'']) k8s_target =
     (1, Inr \<lparr>ct_Kind = ''manifest'', ct_Payload = ''kind: Job''\<rparr>) \<and>
   WantKind (backendFor (cg_Manager k8s_target)) = ''manifest'' \<and>
   snd (defaultValidate (\<lambda>_. None) k8s_target \<lparr>ct_Kind = ''manifest'', ct_Payload = ''kind: Job''\<rparr>) \<noteq> ''empty artifact''"
proof -
  have "stripFences fenced_answer = ''kind: Job''" by code_simp
  then have "agent_Transform one_answer (NewAgentTransformer (\<lambda>_. ''k'')) 0 (echo_job [''echo'']) k8s_target =
     (1, Inr \<lparr>ct_Kind = ''manifest'', ct_Payload = ''kind: Job''\<rparr>)"
    by (simp add: agent_Transform_def ag_complete_def one_answer_def NewAgentTransformer_def read_answer_def as_content_def
      kindFor_def k8s_target_def managers_distinct K8sJob_def FluxURI_def Let_def)
  then show ?thesis
    using agent_artifact [of one_answer _ 0 "echo_job [''echo'']" k8s_target _ _ "''''" "''''" "\<lambda>_. None"]
    by fastforce
qed

end
