(* ===== verification/Timestamps.thy ===== *)
theory Timestamps
  imports Prelude "HOL-Library.Char_ord" "HOL-Library.List_Lexorder" "HOL-Library.Sublist"
begin

text \<open>
  Instants as texts, \<open>time.RFC3339Nano\<close> of package \<open>time\<close> in UTC: what the SQLite queue stores in
  its time columns (\<open>queue/sqlite.go\<close>). An instant is a number of nanoseconds from 1970 on. The
  lemmas compare two texts, which is how SQLite orders its rows, with the instants they stand for.
\<close>

section \<open>Calendar dates\<close>

definition leap_year :: "nat \<Rightarrow> bool" where
  "leap_year y \<longleftrightarrow> y mod 4 = 0 \<and> (y mod 100 \<noteq> 0 \<or> y mod 400 = 0)"

definition month_days :: "nat \<Rightarrow> nat \<Rightarrow> nat" where
  "month_days y m = (if m = 2 then (if leap_year y then 29 else 28) else if m \<in> {4, 6, 9, 11} then 30 else 31)"

fun next_day :: "nat \<times> nat \<times> nat \<Rightarrow> nat \<times> nat \<times> nat" where
  "next_day (y, m, d) = (if d < month_days y m then (y, m, d + 1) else if m < 12 then (y, m + 1, 1) else (y + 1, 1, 1))"

text \<open>The date so many days after the first of January 1970.\<close>

primrec civil :: "nat \<Rightarrow> nat \<times> nat \<times> nat" where
  "civil 0 = (1970, 1, 1)"
| "civil (Suc n) = next_day (civil n)"

section \<open>Texts\<close>

text \<open>The last digits of a number, so many of them.\<close>

primrec fixed :: "nat \<Rightarrow> nat \<Rightarrow> string" where
  "fixed 0 n = []"
| "fixed (Suc k) n = fixed k (n div 10) @ [digit_char (n mod 10)]"

text \<open>Fields of fixed width, each with what follows it.\<close>

fun fields_text :: "(nat \<times> string) list \<Rightarrow> nat list \<Rightarrow> string" where
  "fields_text ((w, sep) # fs) (v # vs) = fixed w v @ sep @ fields_text fs vs"
| "fields_text _ _ = []"

definition rfc_fields :: "(nat \<times> string) list" where
  "rfc_fields = [(4, ''-''), (2, ''-''), (2, ''T''), (2, '':''), (2, '':''), (2, '''')]"

definition instant_fields :: "nat \<Rightarrow> nat list" where
  "instant_fields s = (case civil (s div 86400) of (y, m, d) \<Rightarrow>
     (let sod = s mod 86400 in [y, m, d, sod div 3600, sod div 60 mod 60, sod mod 60]))"

definition trim_zeros :: "string \<Rightarrow> string" where
  "trim_zeros s = rev (dropWhile (\<lambda>c. c = CHR ''0'') (rev s))"

definition frac_text :: "nat \<Rightarrow> string" where
  "frac_text t = trim_zeros (fixed 9 (t mod 10 ^ 9))"

definition RFC3339Nano :: "nat \<Rightarrow> string" where
  "RFC3339Nano t = fields_text rfc_fields (instant_fields (t div 10 ^ 9)) @
     (if frac_text t = '''' then '''' else CHR ''.'' # frac_text t) @ ''Z''"

section \<open>The order of texts\<close>

lemma less_append_same [simp]: "(p @ x < p @ y) = (x < (y :: 'a :: linorder list))"
  by (induction p) auto

lemma less_append_len: "length a = length b \<Longrightarrow> (a @ x < b @ y) = (a < b \<or> (a = b \<and> x < (y :: 'a :: linorder list)))"
  by (induction a b rule: list_induct2) auto

lemma length_fixed [simp]: "length (fixed k n) = k"
  by (induction k arbitrary: n) auto

lemma digit_char_less: "a < 10 \<Longrightarrow> b < 10 \<Longrightarrow> (digit_char a < digit_char b) = (a < b)"
  by (simp add: less_char_def of_char_of)

lemma fixed_less: "m < 10 ^ k \<Longrightarrow> n < 10 ^ k \<Longrightarrow> (fixed k m < fixed k n) = (m < n)"
proof (induction k arbitrary: m n)
  case (Suc k)
  have "m div 10 < 10 ^ k" "n div 10 < 10 ^ k" using Suc.prems by (auto simp: less_mult_imp_div_less)
  then have "(fixed k (m div 10) < fixed k (n div 10)) = (m div 10 < n div 10)" "(fixed k (n div 10) < fixed k (m div 10)) = (n div 10 < m div 10)"
    using Suc.IH by auto
  then have eq: "(fixed k (m div 10) = fixed k (n div 10)) = (m div 10 = n div 10)" by (metis nat_neq_iff order_less_irrefl)
  have "(m < n) = (m div 10 < n div 10 \<or> (m div 10 = n div 10 \<and> m mod 10 < n mod 10))"
    using div_mult_mod_eq [of m 10] div_mult_mod_eq [of n 10] mod_less_divisor [of 10 m] mod_less_divisor [of 10 n] by linarith
  then show ?case using \<open>(fixed k (m div 10) < fixed k (n div 10)) = (m div 10 < n div 10)\<close> eq
    by (simp add: less_append_len digit_char_less del: digit_char.simps)
qed simp

lemma fixed_eq: "m < 10 ^ k \<Longrightarrow> n < 10 ^ k \<Longrightarrow> (fixed k m = fixed k n) = (m = n)"
  using fixed_less [of m k n] fixed_less [of n k m] by (metis nat_neq_iff order_less_irrefl)

lemma fields_text_less:
  assumes "length vs = length fs" "length ws = length fs"
    and "list_all2 (\<lambda>(w, sep) v. v < 10 ^ w) fs vs" "list_all2 (\<lambda>(w, sep) v. v < 10 ^ w) fs ws"
  shows "(fields_text fs vs < fields_text fs ws) = (vs < ws)"
  using assms
proof (induction fs arbitrary: vs ws)
  case (Cons f fs)
  obtain v vs' w ws' where vs: "vs = v # vs'" "ws = w # ws'" using Cons.prems by (cases vs; cases ws) auto
  obtain k sep where f: "f = (k, sep)" by (cases f)
  show ?case using Cons.prems Cons.IH [of vs' ws'] unfolding vs f
    by (auto simp: less_append_len fixed_less fixed_eq)
qed simp


section \<open>The order of instants\<close>

definition date_list :: "nat \<times> nat \<times> nat \<Rightarrow> nat list" where
  "date_list = (\<lambda>(y, m, d). [y, m, d])"

definition date_ok :: "nat \<times> nat \<times> nat \<Rightarrow> bool" where
  "date_ok = (\<lambda>(y, m, d). 1 \<le> m \<and> m \<le> 12 \<and> 1 \<le> d \<and> d \<le> 31)"

lemma month_days_le [simp]: "month_days y m \<le> 31"
  by (simp add: month_days_def)

lemma civil_ok: "date_ok (civil n)"
proof (induction n)
  case (Suc n)
  obtain y m d where c: "civil n = (y, m, d)" by (cases "civil n")
  show ?case using Suc month_days_le [of y m] by (auto simp: c date_ok_def simp del: month_days_le)
qed (simp add: date_ok_def)

lemma civil_step: "date_list (civil n) < date_list (civil (Suc n))"
proof -
  obtain y m d where "civil n = (y, m, d)" by (cases "civil n")
  then show ?thesis by (simp add: date_list_def)
qed

lemma civil_less: "a < b \<Longrightarrow> date_list (civil a) < date_list (civil b)"
  by (rule lift_Suc_mono_less [of "\<lambda>n. date_list (civil n)"]) (rule civil_step)

lemma civil_year_mono: "a \<le> b \<Longrightarrow> fst (civil a) \<le> fst (civil b)"
  using civil_less [of a b] by (cases "a = b"; cases "civil a"; cases "civil b") (auto simp: date_list_def)

lemma clock_less:
  fixes h m s h' m' s' :: nat
  assumes "h * 3600 + m * 60 + s < h' * 3600 + m' * 60 + s'" "m < 60" "s < 60" "m' < 60" "s' < 60"
  shows "[h, m, s] < [h', m', s']"
proof -
  have "h < h' \<or> (h = h' \<and> m < m') \<or> (h = h' \<and> m = m' \<and> s < s')" using assms by linarith
  then show ?thesis by auto
qed

lemma instant_fields_less: "a < b \<Longrightarrow> instant_fields a < instant_fields b"
proof -
  assume ab: "a < b"
  obtain y m d where a: "civil (a div 86400) = (y, m, d)" by (cases "civil (a div 86400)")
  obtain y' m' d' where b: "civil (b div 86400) = (y', m', d')" by (cases "civil (b div 86400)")
  consider "a div 86400 < b div 86400" | "a div 86400 = b div 86400" "a mod 86400 < b mod 86400"
    using ab div_mult_mod_eq [of a 86400] div_mult_mod_eq [of b 86400] mod_less_divisor [of 86400 a] mod_less_divisor [of 86400 b]
    by linarith
  then show ?thesis
  proof cases
    case 1
    then show ?thesis using civil_less [OF 1] by (auto simp: instant_fields_def a b date_list_def Let_def)
  next
    case 2
    let ?x = "a mod 86400" and ?y = "b mod 86400"
    have e: "z = z div 3600 * 3600 + (z div 60 mod 60) * 60 + z mod 60" for z :: nat
    proof -
      have "z div 3600 = z div 60 div 60" using div_mult2_eq [of z 60 60] by simp
      then show ?thesis using div_mult_mod_eq [of z 60] div_mult_mod_eq [of "z div 60" 60] by linarith
    qed
    have "[?x div 3600, ?x div 60 mod 60, ?x mod 60] < [?y div 3600, ?y div 60 mod 60, ?y mod 60]"
      by (rule clock_less) (use 2(2) e [of ?x] e [of ?y] in linarith, simp_all)
    then show ?thesis using 2(1) b by (simp add: instant_fields_def a Let_def)
  qed
qed


lemma instant_fields_width:
  assumes "fst (civil (s div 86400)) \<le> 9999"
  shows "list_all2 (\<lambda>(w, sep) v. v < 10 ^ w) rfc_fields (instant_fields s)" "length (instant_fields s) = length rfc_fields"
proof -
  obtain y m d where c: "civil (s div 86400) = (y, m, d)" by (cases "civil (s div 86400)")
  have "date_ok (y, m, d)" using civil_ok [of "s div 86400"] by (simp add: c)
  moreover have "s mod 86400 div 3600 < 24" by (simp add: less_mult_imp_div_less)
  moreover have "s mod 86400 div 60 mod 60 < 60" "s mod 86400 mod 60 < 60" by simp_all
  ultimately show "list_all2 (\<lambda>(w, sep) v. v < 10 ^ w) rfc_fields (instant_fields s)"
    using assms by (auto simp: instant_fields_def rfc_fields_def c date_ok_def Let_def)
  show "length (instant_fields s) = length rfc_fields" by (simp add: instant_fields_def rfc_fields_def c Let_def)
qed

section \<open>Fractions of a second\<close>

lemma zero_char: "digit_char 0 = CHR ''0''"
  by code_simp

lemma fixed_digits: "list_all is_digit (fixed k n)"
  by (induction k arbitrary: n) (auto simp del: digit_char.simps)

lemma is_digit_range: "is_digit c \<Longrightarrow> CHR ''0'' \<le> c \<and> c < CHR ''Z''"
  by (simp add: is_digit_def less_eq_char_def less_char_def)

lemma trim_zeros_prefix: "prefix (trim_zeros s) s"
  unfolding trim_zeros_def by (metis suffix_dropWhile suffix_to_prefix rev_rev_ident)

lemma trim_zeros_keeps: "c \<noteq> CHR ''0'' \<Longrightarrow> \<exists>r. trim_zeros (u @ c # v) = u @ c # r"
proof -
  assume c: "c \<noteq> CHR ''0''"
  show ?thesis
  proof (cases "dropWhile (\<lambda>c. c = CHR ''0'') (rev v) = []")
    case True
    then have "dropWhile (\<lambda>c. c = CHR ''0'') (rev v @ c # rev u) = c # rev u" using c by (simp add: dropWhile_append1 dropWhile_append)
    then show ?thesis by (simp add: trim_zeros_def)
  next
    case False
    then have "dropWhile (\<lambda>c. c = CHR ''0'') (rev v @ c # rev u) = dropWhile (\<lambda>c. c = CHR ''0'') (rev v) @ c # rev u"
      using c by (simp add: dropWhile_append)
    then show ?thesis by (simp add: trim_zeros_def)
  qed
qed

lemma less_split: "length p = length q \<Longrightarrow> p < (q :: string) \<Longrightarrow> \<exists>u c d v w. p = u @ c # v \<and> q = u @ d # w \<and> c < d"
proof (induction p q rule: list_induct2)
  case (Cons x xs y ys)
  show ?case
  proof (cases "x = y")
    case True
    then obtain u c d v w where "xs = u @ c # v" "ys = u @ d # w" "c < d" using Cons by auto
    then show ?thesis using True by (intro exI [of _ "x # u"]) auto
  next
    case False
    then show ?thesis using Cons.prems by (intro exI [of _ "[]"]) auto
  qed
qed simp

text \<open>
  Cut digits, each followed by a character above the digits.\<close>

lemma trimmed_less:
  assumes "length p = length q" "p < q" "list_all is_digit p" "list_all is_digit q"
  shows "(trim_zeros p @ ''Z'' < trim_zeros q @ ''Z'') = (\<not> strict_prefix (trim_zeros p) (trim_zeros q))"
    and "trim_zeros q \<noteq> ''''"
proof -
  obtain u c d v w where s: "p = u @ c # v" "q = u @ d # w" "c < d" using less_split [OF assms(1,2)] by blast
  have "CHR ''0'' \<le> c" using assms(3) s(1) is_digit_range by auto
  then have "d \<noteq> CHR ''0''" using s(3) by auto
  then obtain r where q: "trim_zeros q = u @ d # r" using trim_zeros_keeps s(2) by blast
  then show "trim_zeros q \<noteq> ''''" by simp
  have d: "d < CHR ''Z''" using assms(4) s(2) is_digit_range by auto
  have "prefix (trim_zeros p) (u @ c # v)" using trim_zeros_prefix [of p] s(1) by simp
  then consider "prefix (trim_zeros p) u" | r' where "trim_zeros p = u @ c # r'"
    by (auto simp: prefix_append prefix_Cons)
  then show "(trim_zeros p @ ''Z'' < trim_zeros q @ ''Z'') = (\<not> strict_prefix (trim_zeros p) (trim_zeros q))"
  proof cases
    case 1
    then obtain t where u: "u = trim_zeros p @ t" by (auto simp: prefix_def)
    have "\<not> trim_zeros p @ ''Z'' < trim_zeros q @ ''Z''"
    proof (cases t)
      case (Cons e t')
      then have "e < CHR ''Z''" using assms(4) s(2) u is_digit_range by auto
      then show ?thesis using q u Cons by auto
    qed (use q u d in auto)
    moreover have "strict_prefix (trim_zeros p) (trim_zeros q)" using q u by (simp add: strict_prefix_def)
    ultimately show ?thesis by simp
  next
    case 2
    then have "trim_zeros p @ ''Z'' < trim_zeros q @ ''Z''" using q s(3) by simp
    moreover have "\<not> strict_prefix (trim_zeros p) (trim_zeros q)" using 2 q s(3) by (auto simp: strict_prefix_def)
    ultimately show ?thesis by simp
  qed
qed

text \<open>
  The order of two texts is that of their instants, but for two instants of the same second whose
  fractions are written as a text and a continuation of it: there the later one comes first.
\<close>

lemma RFC3339Nano_less:
  assumes "a < b" "fst (civil (b div 10 ^ 9 div 86400)) \<le> 9999"
  shows "(RFC3339Nano a < RFC3339Nano b) =
    (\<not> (a div 10 ^ 9 = b div 10 ^ 9 \<and> strict_prefix (frac_text a) (frac_text b)))"
proof (cases "a div 10 ^ 9 = b div 10 ^ 9")
  case True
  have "a mod 10 ^ 9 < b mod 10 ^ 9"
    using assms(1) div_mult_mod_eq [of a "10 ^ 9"] div_mult_mod_eq [of b "10 ^ 9"] unfolding True by linarith
  then have "fixed 9 (a mod 10 ^ 9) < fixed 9 (b mod 10 ^ 9)" by (subst fixed_less) simp_all
  note t = trimmed_less [OF _ this fixed_digits fixed_digits, simplified length_fixed, OF refl, folded frac_text_def]
  show ?thesis
  proof (cases "frac_text a = ''''")
    case Empty: True
    then have "strict_prefix (frac_text a) (frac_text b)" using t(2) by (simp add: strict_prefix_def)
    then show ?thesis using True Empty t(2) by (simp add: RFC3339Nano_def less_char_def)
  qed (use t True in \<open>simp add: RFC3339Nano_def\<close>)
next
  case False
  then have ab: "a div 10 ^ 9 < b div 10 ^ 9" using assms(1) div_le_mono [of a b "10 ^ 9"] by linarith
  then have "fst (civil (a div 10 ^ 9 div 86400)) \<le> 9999"
    using assms(2) civil_year_mono [of "a div 10 ^ 9 div 86400" "b div 10 ^ 9 div 86400"] div_le_mono [of "a div 10 ^ 9" "b div 10 ^ 9" 86400] by linarith
  note w = instant_fields_width [OF this] instant_fields_width [OF assms(2)]
  have "fields_text rfc_fields (instant_fields (a div 10 ^ 9)) < fields_text rfc_fields (instant_fields (b div 10 ^ 9))"
    using fields_text_less [OF w(2,4,1,3)] instant_fields_less [OF ab] by simp
  moreover have "length (fields_text rfc_fields (instant_fields x)) = 19" for x
    by (simp add: rfc_fields_def instant_fields_def Let_def split: prod.split)
  ultimately show ?thesis using False by (simp add: RFC3339Nano_def less_append_len)
qed


lemma RFC3339Nano_inj:
  assumes "a < b" "fst (civil (b div 10 ^ 9 div 86400)) \<le> 9999"
  shows "RFC3339Nano a \<noteq> RFC3339Nano b"
proof
  assume eq: "RFC3339Nano a = RFC3339Nano b"
  then have same: "a div 10 ^ 9 = b div 10 ^ 9" "strict_prefix (frac_text a) (frac_text b)"
    using RFC3339Nano_less [OF assms] by auto
  have "length (RFC3339Nano a) < length (RFC3339Nano b)"
    using same prefix_length_less [OF same(2)] by (auto simp: RFC3339Nano_def)
  then show False using eq by simp
qed

end
