(* ===== verification/SqlQueue.thy ===== *)
theory SqlQueue
  imports Ledger Timestamps
begin

text \<open>
  Package \<open>pkg/queue\<close>, files \<open>sqlite.go\<close> and \<open>postgres.go\<close>: the durable queues. The table
  \<open>fluxq_jobs\<close> is a list of rows and the statements of the two files are functions on it. The
  encoding of a job as JSON and back (\<open>enc\<close>, \<open>dec\<close>), the error a statement comes back with, and what
  Postgres keeps of a document (\<open>jsonb\<close>) are parameters.
\<close>

section \<open>The table\<close>

record 'k row =
  rw_id :: string
  rw_state :: string
  rw_submitted :: 'k
  rw_updated :: 'k
  rw_data :: string

fun state_text :: "state \<Rightarrow> string" where
  "state_text Submitted = ''SUBMITTED''"
| "state_text Matched = ''MATCHED''"
| "state_text Dispatching = ''DISPATCHING''"
| "state_text Running = ''RUNNING''"
| "state_text Completed = ''COMPLETED''"
| "state_text Failed = ''FAILED''"

text \<open>\<open>INSERT ... ON CONFLICT (id) DO UPDATE SET state, updated_at, data\<close>.\<close>

fun tb_upsert :: "'k row \<Rightarrow> 'k row list \<Rightarrow> 'k row list" where
  "tb_upsert r [] = [r]"
| "tb_upsert r (x # t) =
     (if rw_id x = rw_id r
      then x\<lparr>rw_state := rw_state r, rw_updated := rw_updated r, rw_data := rw_data r\<rparr> # t
      else x # tb_upsert r t)"

text \<open>\<open>SELECT data FROM fluxq_jobs WHERE id = ...\<close>, of which the first row is read.\<close>

definition tb_data :: "string \<Rightarrow> 'k row list \<Rightarrow> string option" where
  "tb_data i t = map_option rw_data (find (\<lambda>x. rw_id x = i) t)"

text \<open>
  \<open>SELECT data FROM fluxq_jobs WHERE ... ORDER BY submitted_at\<close>. Rows with the same instant may come
  in any order, which the order of the list stands for.\<close>

definition tb_select :: "('k :: linorder row \<Rightarrow> bool) \<Rightarrow> 'k row list \<Rightarrow> string list" where
  "tb_select P t = map rw_data (sort_key rw_submitted (filter P t))"

section \<open>SQLite\<close>

text \<open>The table may be there from an earlier run; \<open>err\<close> is what the statement reports.\<close>

definition NewSQLite :: "string option \<Rightarrow> string row list option \<Rightarrow> string + string row list" where
  "NewSQLite err t = (case err of
     Some e \<Rightarrow> Inl (''create fluxq schema: '' @ e)
   | None \<Rightarrow> Inr (case t of None \<Rightarrow> [] | Some t \<Rightarrow> t))"

definition sq_upsert ::
  "(job \<Rightarrow> string + string) \<Rightarrow> string option \<Rightarrow> int \<Rightarrow> job \<Rightarrow> string row list \<Rightarrow> string row list \<times> string option" where
  "sq_upsert enc err now j t =
     (case enc j of
        Inl e \<Rightarrow> (t, Some e)
      | Inr b \<Rightarrow>
          (case err of
             Some e \<Rightarrow> (t, Some e)
           | None \<Rightarrow> (tb_upsert \<lparr>rw_id = jb_ID j, rw_state = state_text (jb_State j),
                 rw_submitted = RFC3339Nano (nat (jb_SubmittedAt j)), rw_updated = RFC3339Nano (nat now), rw_data = b\<rparr> t, None)))"

definition sq_Enqueue :: "(job \<Rightarrow> string + string) \<Rightarrow> string option \<Rightarrow> int \<Rightarrow> job \<Rightarrow> string row list \<Rightarrow> string row list \<times> string option" where
  "sq_Enqueue = sq_upsert"

definition sq_Update :: "(job \<Rightarrow> string + string) \<Rightarrow> string option \<Rightarrow> int \<Rightarrow> job \<Rightarrow> string row list \<Rightarrow> string row list \<times> string option" where
  "sq_Update = sq_upsert"

text \<open>Any error, of the database or of the decoder, reads as a job that is not there.\<close>

definition sq_Get :: "(string \<Rightarrow> string + job) \<Rightarrow> string option \<Rightarrow> string \<Rightarrow> 'k row list \<Rightarrow> job option" where
  "sq_Get dec err i t =
     (if err \<noteq> None then None
      else (case tb_data i t of
        None \<Rightarrow> None
      | Some data \<Rightarrow> (case dec data of Inl _ \<Rightarrow> None | Inr j \<Rightarrow> Some j)))"

definition decoded :: "(string \<Rightarrow> string + job) \<Rightarrow> string list \<Rightarrow> job list" where
  "decoded dec ds = List.map_filter (\<lambda>data. case dec data of Inl _ \<Rightarrow> None | Inr j \<Rightarrow> Some j) ds"

definition sq_query :: "(string \<Rightarrow> string + job) \<Rightarrow> string option \<Rightarrow> ('k :: linorder row \<Rightarrow> bool) \<Rightarrow> 'k row list \<Rightarrow> job list" where
  "sq_query dec err P t = (if err \<noteq> None then [] else decoded dec (tb_select P t))"

definition sq_Provisional :: "(string \<Rightarrow> string + job) \<Rightarrow> string option \<Rightarrow> 'k :: linorder row list \<Rightarrow> job list" where
  "sq_Provisional dec err t = sq_query dec err (\<lambda>r. rw_state r = state_text Submitted) t"

definition sq_Active :: "(string \<Rightarrow> string + job) \<Rightarrow> string option \<Rightarrow> 'k :: linorder row list \<Rightarrow> job list" where
  "sq_Active dec err t =
     sq_query dec err (\<lambda>r. rw_state r \<in> set [state_text Matched, state_text Dispatching, state_text Running]) t"

definition sq_All :: "(string \<Rightarrow> string + job) \<Rightarrow> string option \<Rightarrow> 'k :: linorder row list \<Rightarrow> job list" where
  "sq_All dec err t = sq_query dec err (\<lambda>_. True) t"

section \<open>Postgres\<close>

text \<open>
  \<open>jsonb\<close> is the document as the column gives it back, or why the column does not take it; a
  \<open>timestamptz\<close> counts microseconds. The reads are those of SQLite.
\<close>

definition NewPostgres :: "string option \<Rightarrow> int row list option \<Rightarrow> string + int row list" where
  "NewPostgres err t = (case err of
     Some e \<Rightarrow> Inl (''create fluxq schema: '' @ e)
   | None \<Rightarrow> Inr (case t of None \<Rightarrow> [] | Some t \<Rightarrow> t))"

definition pg_upsert ::
  "(string \<Rightarrow> string + string) \<Rightarrow> (job \<Rightarrow> string + string) \<Rightarrow> string option \<Rightarrow> int \<Rightarrow> job \<Rightarrow> int row list \<Rightarrow>
    int row list \<times> string option" where
  "pg_upsert jsonb enc err now j t =
     (case enc j of
        Inl e \<Rightarrow> (t, Some e)
      | Inr b \<Rightarrow>
          (case err of
             Some e \<Rightarrow> (t, Some e)
           | None \<Rightarrow>
               (case jsonb b of
                  Inl e \<Rightarrow> (t, Some e)
                | Inr d \<Rightarrow> (tb_upsert \<lparr>rw_id = jb_ID j, rw_state = state_text (jb_State j),
                      rw_submitted = jb_SubmittedAt j div 1000, rw_updated = now div 1000, rw_data = d\<rparr> t, None))))"

definition pg_Enqueue ::
  "(string \<Rightarrow> string + string) \<Rightarrow> (job \<Rightarrow> string + string) \<Rightarrow> string option \<Rightarrow> int \<Rightarrow> job \<Rightarrow> int row list \<Rightarrow> int row list \<times> string option" where
  "pg_Enqueue = pg_upsert"

definition pg_Update ::
  "(string \<Rightarrow> string + string) \<Rightarrow> (job \<Rightarrow> string + string) \<Rightarrow> string option \<Rightarrow> int \<Rightarrow> job \<Rightarrow> int row list \<Rightarrow> int row list \<times> string option" where
  "pg_Update = pg_upsert"

definition pg_Get :: "(string \<Rightarrow> string + job) \<Rightarrow> string option \<Rightarrow> string \<Rightarrow> int row list \<Rightarrow> job option" where
  "pg_Get = sq_Get"

definition pg_Provisional :: "(string \<Rightarrow> string + job) \<Rightarrow> string option \<Rightarrow> int row list \<Rightarrow> job list" where
  "pg_Provisional = sq_Provisional"

definition pg_Active :: "(string \<Rightarrow> string + job) \<Rightarrow> string option \<Rightarrow> int row list \<Rightarrow> job list" where
  "pg_Active = sq_Active"

definition pg_All :: "(string \<Rightarrow> string + job) \<Rightarrow> string option \<Rightarrow> int row list \<Rightarrow> job list" where
  "pg_All = sq_All"

section \<open>The table as a keyed store\<close>

definition tb_inv :: "'k row list \<Rightarrow> bool" where
  "tb_inv t \<longleftrightarrow> distinct (map rw_id t)"

definition tb_doc :: "'k row list \<Rightarrow> string \<Rightarrow> (string \<times> string \<times> string) option" where
  "tb_doc t i = map_option (\<lambda>r. (rw_id r, rw_state r, rw_data r)) (find (\<lambda>x. rw_id x = i) t)"

definition tb_put :: "'k \<Rightarrow> 'k \<Rightarrow> string \<times> string \<times> string \<Rightarrow> 'k row list \<Rightarrow> 'k row list" where
  "tb_put k u v t = (case v of (i, s, d) \<Rightarrow>
     tb_upsert \<lparr>rw_id = i, rw_state = s, rw_submitted = k, rw_updated = u, rw_data = d\<rparr> t)"

lemma ids_upsert: "rw_id ` set (tb_upsert r t) = insert (rw_id r) (rw_id ` set t)"
  by (induction r t rule: tb_upsert.induct) auto

lemma tb_inv_upsert: "tb_inv t \<Longrightarrow> tb_inv (tb_upsert r t)"
  unfolding tb_inv_def
proof (induction r t rule: tb_upsert.induct)
  case (2 r x t)
  then show ?case using ids_upsert [of r t] by (auto simp: image_iff)
qed simp

lemma find_upsert: "find (\<lambda>x. rw_id x = i) (tb_upsert r t) =
    (if i = rw_id r then Some (case find (\<lambda>x. rw_id x = i) t of None \<Rightarrow> r
        | Some x \<Rightarrow> x\<lparr>rw_state := rw_state r, rw_updated := rw_updated r, rw_data := rw_data r\<rparr>)
     else find (\<lambda>x. rw_id x = i) t)"
  by (induction r t rule: tb_upsert.induct) auto

interpretation rows: keyed_store tb_doc "tb_put k u" fst tb_inv for k u
proof unfold_locales
  fix t :: "'a row list" and v i
  show "tb_doc (tb_put k u v t) i = (if i = fst v then Some v else tb_doc t i)"
    by (cases v) (auto simp: tb_doc_def tb_put_def find_upsert split: option.split dest: find_Some_iff [THEN iffD1])
  show "tb_inv t \<Longrightarrow> tb_inv (tb_put k u v t)" by (cases v) (simp add: tb_put_def tb_inv_upsert)
  show "tb_doc t i = Some v \<Longrightarrow> fst v = i" by (auto simp: tb_doc_def find_Some_iff)
qed


section \<open>Histories\<close>

text \<open>
  What was stored one after the other, each with the time of the call: \<open>Enqueue\<close> and \<open>Update\<close> are one
  statement here and one assignment in the in-memory queue.\<close>

type_synonym history = "(int \<times> job) list"

definition put_row :: "(int \<Rightarrow> 'k) \<Rightarrow> (job \<Rightarrow> string + string) \<Rightarrow> int \<times> job \<Rightarrow> 'k row list \<Rightarrow> 'k row list" where
  "put_row key enc x t = (case x of (now, j) \<Rightarrow> (case enc j of
     Inl _ \<Rightarrow> t
   | Inr b \<Rightarrow> tb_upsert \<lparr>rw_id = jb_ID j, rw_state = state_text (jb_State j), rw_submitted = key (jb_SubmittedAt j),
       rw_updated = key now, rw_data = b\<rparr> t))"

definition sq_run :: "(job \<Rightarrow> string + string) \<Rightarrow> history \<Rightarrow> string row list \<Rightarrow> string row list" where
  "sq_run enc h t = fold (\<lambda>(now, j) t. fst (sq_Update enc None now j t)) h t"

definition pg_run :: "(string \<Rightarrow> string + string) \<Rightarrow> (job \<Rightarrow> string + string) \<Rightarrow> history \<Rightarrow> int row list \<Rightarrow> int row list" where
  "pg_run jsonb enc h t = fold (\<lambda>(now, j) t. fst (pg_Update jsonb enc None now j t)) h t"

definition mem_run :: "history \<Rightarrow> memory \<Rightarrow> memory" where
  "mem_run h q = fold (\<lambda>(now, j). Update now j) h q"

definition pg_doc :: "(string \<Rightarrow> string + string) \<Rightarrow> (job \<Rightarrow> string + string) \<Rightarrow> job \<Rightarrow> string + string" where
  "pg_doc jsonb enc j = (case enc j of Inl e \<Rightarrow> Inl e | Inr b \<Rightarrow> jsonb b)"

lemma sq_run_rows: "sq_run enc h t = fold (put_row (\<lambda>x. RFC3339Nano (nat x)) enc) h t"
  by (induction h arbitrary: t) (auto simp: sq_run_def sq_Update_def sq_upsert_def put_row_def split: sum.split)

lemma pg_run_rows: "pg_run jsonb enc h t = fold (put_row (\<lambda>x. x div 1000) (pg_doc jsonb enc)) h t"
  by (induction h arbitrary: t) (auto simp: pg_run_def pg_Update_def pg_upsert_def pg_doc_def put_row_def split: sum.split)

text \<open>
  \<open>reread\<close> is a job after it was encoded and decoded; the time of the last update is not compared, the
  durable queues do not set it.\<close>

definition untimed :: "job \<Rightarrow> job" where
  "untimed j = j\<lparr>jb_UpdatedAt := 0\<rparr>"

definition codec_ok :: "(job \<Rightarrow> string + string) \<Rightarrow> (string \<Rightarrow> string + job) \<Rightarrow> (job \<Rightarrow> job) \<Rightarrow> bool" where
  "codec_ok enc dec reread \<longleftrightarrow> (\<forall>j b. enc j = Inr b \<longrightarrow> dec b = Inr (reread j)) \<and>
     (\<forall>j. jb_ID (reread j) = jb_ID j \<and> jb_State (reread j) = jb_State j \<and> jb_SubmittedAt (reread j) = jb_SubmittedAt j) \<and>
     (\<forall>j n. untimed (reread (j\<lparr>jb_UpdatedAt := n\<rparr>)) = untimed (reread j))"

definition stored_at :: "history \<Rightarrow> string \<Rightarrow> int \<Rightarrow> bool" where
  "stored_at h i a \<longleftrightarrow> (\<exists>x \<in> set h. jb_ID (snd x) = i \<and> jb_SubmittedAt (snd x) = a)"

definition steady :: "history \<Rightarrow> bool" where
  "steady h \<longleftrightarrow> (\<forall>i a b. stored_at h i a \<longrightarrow> stored_at h i b \<longrightarrow> a = b)"

text \<open>A row and the entry of the in-memory queue it stands for.\<close>

definition row_rel :: "(job \<Rightarrow> string + string) \<Rightarrow> history \<Rightarrow> (int \<Rightarrow> 'k) \<Rightarrow> 'k row \<Rightarrow> string \<times> job \<Rightarrow> bool" where
  "row_rel enc h key r e \<longleftrightarrow> rw_id r = fst e \<and> jb_ID (snd e) = fst e \<and> rw_state r = state_text (jb_State (snd e)) \<and>
     (\<exists>n. enc ((snd e)\<lparr>jb_UpdatedAt := n\<rparr>) = Inr (rw_data r)) \<and>
     stored_at h (fst e) (jb_SubmittedAt (snd e)) \<and> (\<exists>a. stored_at h (fst e) a \<and> rw_submitted r = key a)"

lemma row_rel_new:
  assumes "(n, j) \<in> set h" "enc j = Inr b"
  shows "row_rel enc h key \<lparr>rw_id = jb_ID j, rw_state = state_text (jb_State j), rw_submitted = key (jb_SubmittedAt j),
      rw_updated = u, rw_data = b\<rparr> (jb_ID j, j\<lparr>jb_UpdatedAt := n\<rparr>)"
    and "row_rel enc h key r (jb_ID j, k) \<Longrightarrow>
      row_rel enc h key (r\<lparr>rw_state := state_text (jb_State j), rw_updated := u, rw_data := b\<rparr>) (jb_ID j, j\<lparr>jb_UpdatedAt := n\<rparr>)"
proof -
  have "stored_at h (jb_ID j) (jb_SubmittedAt j)" using assms(1) by (force simp: stored_at_def)
  moreover have "\<exists>m. enc (j\<lparr>jb_UpdatedAt := m\<rparr>) = Inr b" by (rule exI [of _ "jb_UpdatedAt j"]) (simp add: assms(2))
  ultimately show "row_rel enc h key \<lparr>rw_id = jb_ID j, rw_state = state_text (jb_State j), rw_submitted = key (jb_SubmittedAt j),
      rw_updated = u, rw_data = b\<rparr> (jb_ID j, j\<lparr>jb_UpdatedAt := n\<rparr>)"
    and "row_rel enc h key r (jb_ID j, k) \<Longrightarrow>
      row_rel enc h key (r\<lparr>rw_state := state_text (jb_State j), rw_updated := u, rw_data := b\<rparr>) (jb_ID j, j\<lparr>jb_UpdatedAt := n\<rparr>)"
    by (auto simp: row_rel_def)
qed

lemma row_rel_upsert:
  assumes "list_all2 (row_rel enc h key) t q" "(n, j) \<in> set h" "enc j = Inr b"
  shows "list_all2 (row_rel enc h key) (put_row key enc (n, j) t) (Update n j q)"
  using assms(1)
proof (induction rule: list_all2_induct)
  case Nil
  show ?case using row_rel_new(1) [where enc = enc, OF assms(2,3)] assms(3) by (simp add: put_row_def Update_def store_def)
next
  case (Cons r t e q)
  obtain i k where e: "e = (i, k)" by (cases e)
  then have "rw_id r = i" using Cons.hyps by (simp add: row_rel_def)
  then show ?case using row_rel_new(2) [where enc = enc and r = r and key = key, OF assms(2,3)] assms(3) Cons e
    by (auto simp: put_row_def Update_def store_def)
qed

lemma run_rel:
  assumes "\<forall>x \<in> set h. \<exists>b. enc (snd x) = Inr b"
  shows "list_all2 (row_rel enc h key) (fold (put_row key enc) h []) (mem_run h [])"
proof -
  have "list_all2 (row_rel enc h key) (fold (put_row key enc) g t) (mem_run g q)"
    if "set g \<subseteq> set h" "list_all2 (row_rel enc h key) t q" for g t q
    using that
  proof (induction g arbitrary: t q)
    case (Cons x g)
    obtain n j where x: "x = (n, j)" by (cases x)
    obtain b where "enc j = Inr b" using assms Cons.prems(1) x by fastforce
    then have "list_all2 (row_rel enc h key) (put_row key enc x t) (Update n j q)"
      unfolding x by (intro row_rel_upsert) (use Cons.prems x in auto)
    then show ?case using Cons x by (simp add: mem_run_def)
  qed (simp add: mem_run_def)
  then show ?thesis by auto
qed

section \<open>Reads\<close>

lemma decoded_map:
  "list_all (\<lambda>r. \<exists>j. dec (f r) = Inr j) rs \<Longrightarrow> decoded dec (map f rs) = map (\<lambda>r. projr (dec (f r))) rs"
  by (induction rs) (auto simp: decoded_def List.map_filter_simps)

lemma row_rel_decodes:
  assumes "codec_ok enc dec reread" "row_rel enc h key r e"
  shows "\<exists>k. dec (rw_data r) = Inr k \<and> untimed k = untimed (reread (snd e)) \<and> jb_ID k = rw_id r \<and>
    jb_State k = jb_State (snd e) \<and> jb_SubmittedAt k = jb_SubmittedAt (snd e)"
proof -
  obtain n where "enc ((snd e)\<lparr>jb_UpdatedAt := n\<rparr>) = Inr (rw_data r)" using assms(2) by (auto simp: row_rel_def)
  then have "dec (rw_data r) = Inr (reread ((snd e)\<lparr>jb_UpdatedAt := n\<rparr>))" using assms(1) by (auto simp: codec_ok_def)
  then show ?thesis using assms by (auto simp: codec_ok_def row_rel_def)
qed


lemma find_map_of:
  assumes "list_all2 (row_rel enc h key) t q"
  shows "rel_option (\<lambda>r j. row_rel enc h key r (i, j)) (find (\<lambda>x. rw_id x = i) t) (map_of q i)"
  using assms
proof (induction rule: list_all2_induct)
  case (Cons r t e q)
  then show ?case by (cases e) (auto simp: row_rel_def)
qed simp

lemma Get_run:
  assumes "codec_ok enc dec reread" "list_all2 (row_rel enc h key) t q"
  shows "map_option untimed (sq_Get dec None i t) = map_option (untimed \<circ> reread) (q_Get q i)"
proof -
  have "rel_option (\<lambda>r j. row_rel enc h key r (i, j)) (find (\<lambda>x. rw_id x = i) t) (q_Get q i)"
    using find_map_of [OF assms(2), of i] by (simp add: q_Get_def)
  then show ?thesis
    using row_rel_decodes [OF assms(1)] by (cases rule: option.rel_cases) (fastforce simp: sq_Get_def tb_data_def)+
qed

text \<open>The jobs a query answers with, in the order of the table.\<close>

definition rows_of :: "(string \<Rightarrow> string + job) \<Rightarrow> ('k row \<Rightarrow> bool) \<Rightarrow> 'k row list \<Rightarrow> job list" where
  "rows_of dec P t = map (\<lambda>r. projr (dec (rw_data r))) (filter P t)"

lemma list_all2_in: "list_all2 R xs ys \<Longrightarrow> x \<in> set xs \<Longrightarrow> \<exists>y. R x y"
  by (auto simp: list_all2_conv_all_nth in_set_conv_nth)

lemma query_sorted:
  assumes "codec_ok enc dec reread" "list_all2 (row_rel enc h key) t q"
  shows "sq_query dec None P t = map (\<lambda>r. projr (dec (rw_data r))) (sort_key rw_submitted (filter P t))"
proof -
  have "\<exists>j. dec (rw_data r) = Inr j" if "r \<in> set t" for r
    using list_all2_in [OF assms(2) that] row_rel_decodes [OF assms(1)] by blast
  then show ?thesis by (simp add: sq_query_def tb_select_def decoded_map list_all_iff)
qed

lemma mset_map_sort: "mset (map f (sort_key k xs)) = mset (map f xs)"
  by simp

lemma query_mset:
  assumes "codec_ok enc dec reread" "list_all2 (row_rel enc h key) t q" "\<And>s. P s \<longleftrightarrow> p (state_text s)"
  shows "mset (map untimed (sq_query dec None (\<lambda>r. p (rw_state r)) t)) = mset (map (untimed \<circ> reread) (q_filter (\<lambda>j. P (jb_State j)) q))"
proof -
  have "map untimed (rows_of dec (\<lambda>r. p (rw_state r)) t) = map (untimed \<circ> reread) (filter (\<lambda>j. P (jb_State j)) (map snd q))"
    using assms(2)
  proof (induction rule: list_all2_induct)
    case (Cons r t e q)
    obtain k where "dec (rw_data r) = Inr k" "untimed k = untimed (reread (snd e))" using row_rel_decodes [OF assms(1) Cons.hyps(1)] by blast
    moreover have "rw_state r = state_text (jb_State (snd e))" using Cons.hyps(1) by (simp add: row_rel_def)
    ultimately show ?case using Cons.IH assms(3) by (simp add: rows_of_def)
  qed (simp add: rows_of_def)
  then have "mset (map untimed (rows_of dec (\<lambda>r. p (rw_state r)) t)) =
      mset (map (untimed \<circ> reread) (filter (\<lambda>j. P (jb_State j)) (map snd q)))" by simp
  moreover have "mset (map untimed (sq_query dec None (\<lambda>r. p (rw_state r)) t)) = mset (map untimed (rows_of dec (\<lambda>r. p (rw_state r)) t))"
    unfolding query_sorted [OF assms(1,2)] rows_of_def map_map by (rule mset_map_sort)
  moreover have "mset (map (untimed \<circ> reread) (q_filter (\<lambda>j. P (jb_State j)) q)) =
      mset (map (untimed \<circ> reread) (filter (\<lambda>j. P (jb_State j)) (map snd q)))"
    unfolding q_filter_def by (rule mset_map_sort)
  ultimately show ?thesis by simp
qed

text \<open>
  A measure of instants that the order of the keys does not contradict sorts every answer.\<close>

lemma query_order:
  assumes "codec_ok enc dec reread" "list_all2 (row_rel enc h key) t q" "steady h"
    and "\<And>i j a b. stored_at h i a \<Longrightarrow> stored_at h j b \<Longrightarrow> key a \<le> key b \<Longrightarrow> f a \<le> (f b :: 'o :: linorder)"
  shows "sorted (map (\<lambda>j. f (jb_SubmittedAt j)) (sq_query dec None P t))"
proof -
  let ?D = "\<lambda>r. projr (dec (rw_data r))"
  have row: "\<exists>i. stored_at h i (jb_SubmittedAt (?D r)) \<and> rw_submitted r = key (jb_SubmittedAt (?D r))" if rt: "r \<in> set t" for r
  proof -
    obtain e where e: "row_rel enc h key r e" using list_all2_in [OF assms(2) rt] by blast
    obtain k where "dec (rw_data r) = Inr k" "jb_SubmittedAt k = jb_SubmittedAt (snd e)"
      using row_rel_decodes [OF assms(1) e] by blast
    then show ?thesis using e assms(3) by (auto simp: row_rel_def steady_def)
  qed
  have "sorted (map rw_submitted (sort_key rw_submitted (filter P t)))" by simp
  then have "sorted (map (\<lambda>r. f (jb_SubmittedAt (?D r))) (sort_key rw_submitted (filter P t)))"
    unfolding sorted_map
  proof (rule sorted_wrt_mono_rel [rotated])
    fix x y
    assume s: "x \<in> set (sort_key rw_submitted (filter P t))" "y \<in> set (sort_key rw_submitted (filter P t))"
      "rw_submitted x \<le> rw_submitted y"
    have t: "x \<in> set t" "y \<in> set t" using s(1,2) by simp_all
    obtain i where i: "stored_at h i (jb_SubmittedAt (?D x))" "rw_submitted x = key (jb_SubmittedAt (?D x))"
      using row [OF t(1)] by blast
    obtain j where j: "stored_at h j (jb_SubmittedAt (?D y))" "rw_submitted y = key (jb_SubmittedAt (?D y))"
      using row [OF t(2)] by blast
    show "f (jb_SubmittedAt (?D x)) \<le> f (jb_SubmittedAt (?D y))"
      by (rule assms(4) [OF i(1) j(1)]) (use s(3) i(2) j(2) in \<open>simp only:\<close>)
  qed
  then show ?thesis by (simp add: query_sorted [OF assms(1,2)] comp_def)
qed


section \<open>Properties\<close>

text \<open>No two submissions fall into one second with a fraction that continues the other's.\<close>

definition fractions_apart :: "history \<Rightarrow> bool" where
  "fractions_apart h \<longleftrightarrow> (\<forall>i j a b. stored_at h i a \<longrightarrow> stored_at h j b \<longrightarrow> 0 \<le> a \<and> fst (civil (nat b div 10 ^ 9 div 86400)) \<le> 9999 \<and>
     (a < b \<longrightarrow> \<not> (nat a div 10 ^ 9 = nat b div 10 ^ 9 \<and> strict_prefix (frac_text (nat a)) (frac_text (nat b)))))"

text \<open>The views of a durable queue hold the jobs of the in-memory queue, as they are after encoding and decoding.\<close>

definition same_jobs :: "(job \<Rightarrow> job) \<Rightarrow> (string \<Rightarrow> string + job) \<Rightarrow> 'k :: linorder row list \<Rightarrow> memory \<Rightarrow> bool" where
  "same_jobs reread dec t q \<longleftrightarrow>
     (\<forall>i. map_option untimed (sq_Get dec None i t) = map_option (untimed \<circ> reread) (q_Get q i)) \<and>
     mset (map untimed (sq_Provisional dec None t)) = mset (map (untimed \<circ> reread) (Provisional q)) \<and>
     mset (map untimed (sq_Active dec None t)) = mset (map (untimed \<circ> reread) (Active q)) \<and>
     mset (map untimed (sq_All dec None t)) = mset (map (untimed \<circ> reread) (All q))"

lemma state_text_inject [simp]: "state_text s = state_text r \<longleftrightarrow> s = r"
  by (cases s; cases r) simp_all

lemma same_jobs_run:
  assumes "codec_ok enc dec reread" "list_all2 (row_rel enc h key) t q"
  shows "same_jobs reread dec t q"
  unfolding same_jobs_def sq_Provisional_def sq_Active_def sq_All_def Provisional_def Active_def All_def
  using Get_run [OF assms] query_mset [OF assms, of "\<lambda>s. s = Submitted" "\<lambda>s. s = state_text Submitted"]
    query_mset [OF assms, of "\<lambda>s. s = Matched \<or> s = Dispatching \<or> s = Running"
      "\<lambda>s. s \<in> set [state_text Matched, state_text Dispatching, state_text Running]"]
    query_mset [OF assms, of "\<lambda>_. True" "\<lambda>_. True"]
  by (simp del: state_text.simps)

text \<open>
  C17. The SQLite queue keeps what the in-memory queue keeps. After any sequence of stores that the
  database and the encoder accept, every read finds the same jobs, up to what the encoding does to them and
  the time of the last update, which SQLite does not set. The views come in the order of
  submission when no two fractions of a second are written one as the continuation of the other; opening
  the database again changes nothing.
\<close>

theorem sqlite_refines_memory:
  assumes "codec_ok enc dec reread" "\<forall>x \<in> set h. \<exists>b. enc (snd x) = Inr b"
  shows "same_jobs reread dec (sq_run enc h []) (mem_run h NewMemory) \<and>
    NewSQLite None (Some (sq_run enc h [])) = Inr (sq_run enc h []) \<and>
    (steady h \<and> fractions_apart h \<longrightarrow> sorted (map jb_SubmittedAt (sq_Provisional dec None (sq_run enc h []))) \<and>
      sorted (map jb_SubmittedAt (sq_Active dec None (sq_run enc h []))) \<and>
      sorted (map jb_SubmittedAt (sq_All dec None (sq_run enc h []))))"
proof -
  let ?key = "\<lambda>x. RFC3339Nano (nat x)"
  have rel: "list_all2 (row_rel enc h ?key) (sq_run enc h []) (mem_run h NewMemory)"
    unfolding sq_run_rows NewMemory_def by (rule run_rel [OF assms(2)])
  have "sorted (map (\<lambda>j. jb_SubmittedAt j) (sq_query dec None P (sq_run enc h [])))" if "steady h" and apart: "fractions_apart h" for P
  proof (rule query_order [OF assms(1) rel that(1)])
    fix i j a b
    assume s: "stored_at h i a" "stored_at h j b" and le: "?key a \<le> ?key b"
    show "a \<le> b"
    proof (rule ccontr)
      assume "\<not> a \<le> b"
      then have "b < a" by simp
      moreover have "0 \<le> b" using apart s unfolding fractions_apart_def by blast
      ultimately have "nat b < nat a" "b < a" by simp_all
      then have "?key b < ?key a"
        using apart s RFC3339Nano_less [of "nat b" "nat a"] unfolding fractions_apart_def by blast
      then show False using le by simp
    qed
  qed
  then show ?thesis using same_jobs_run [OF assms(1) rel]
    by (simp add: NewSQLite_def sq_Provisional_def sq_Active_def sq_All_def)
qed

text \<open>
  The Postgres queue keeps what the in-memory queue keeps, and its views come in the order of
  submission up to a microsecond.
\<close>

theorem postgres_refines_memory:
  assumes "codec_ok (pg_doc jsonb enc) dec reread" "\<forall>x \<in> set h. \<exists>b. pg_doc jsonb enc (snd x) = Inr b"
  shows "same_jobs reread dec (pg_run jsonb enc h []) (mem_run h NewMemory) \<and>
    NewPostgres None (Some (pg_run jsonb enc h [])) = Inr (pg_run jsonb enc h []) \<and>
    (steady h \<longrightarrow> sorted (map (\<lambda>j. jb_SubmittedAt j div 1000) (pg_Provisional dec None (pg_run jsonb enc h []))) \<and>
      sorted (map (\<lambda>j. jb_SubmittedAt j div 1000) (pg_Active dec None (pg_run jsonb enc h []))) \<and>
      sorted (map (\<lambda>j. jb_SubmittedAt j div 1000) (pg_All dec None (pg_run jsonb enc h []))))"
proof -
  have rel: "list_all2 (row_rel (pg_doc jsonb enc) h (\<lambda>x. x div 1000)) (pg_run jsonb enc h []) (mem_run h NewMemory)"
    unfolding pg_run_rows NewMemory_def by (rule run_rel [OF assms(2)])
  have "sorted (map (\<lambda>j. jb_SubmittedAt j div 1000) (sq_query dec None P (pg_run jsonb enc h [])))" if "steady h" for P
    by (rule query_order [OF assms(1) rel that])
  then show ?thesis using same_jobs_run [OF assms(1) rel]
    by (simp add: NewPostgres_def sq_Provisional_def sq_Active_def sq_All_def pg_Provisional_def pg_Active_def pg_All_def)
qed


text \<open>
  SQLite does not keep the order of submission. Of two waiting jobs, the one submitted later comes
  first when both were submitted within one second and the digits of the later fraction continue
  those of the earlier one, as .5 and .51, or none and any: the times are compared as texts, and trailing
  zeros are not written. Otherwise, and always in memory, the earlier one comes first.
\<close>

theorem sqlite_order:
  assumes "codec_ok enc dec reread" "enc j = Inr b" "enc k = Inr c" "jb_ID j \<noteq> jb_ID k"
    and "jb_State j = Submitted" "jb_State k = Submitted" "0 \<le> jb_SubmittedAt j" "jb_SubmittedAt j < jb_SubmittedAt k"
    and "fst (civil (nat (jb_SubmittedAt k) div 10 ^ 9 div 86400)) \<le> 9999"
  shows "sq_Provisional dec None (sq_run enc [(n, j), (m, k)] []) =
      map reread (if nat (jb_SubmittedAt j) div 10 ^ 9 = nat (jb_SubmittedAt k) div 10 ^ 9 \<and>
          strict_prefix (frac_text (nat (jb_SubmittedAt j))) (frac_text (nat (jb_SubmittedAt k)))
        then [k, j] else [j, k]) \<and>
    map jb_ID (Provisional (mem_run [(n, j), (m, k)] NewMemory)) = [jb_ID j, jb_ID k]"
proof -
  let ?row = "\<lambda>n j b. \<lparr>rw_id = jb_ID j, rw_state = state_text (jb_State j), rw_submitted = RFC3339Nano (nat (jb_SubmittedAt j)),
    rw_updated = RFC3339Nano (nat n), rw_data = b\<rparr>"
  have t: "sq_run enc [(n, j), (m, k)] [] = [?row n j b, ?row m k c]"
    using assms(2-4) by (simp add: sq_run_def sq_Update_def sq_upsert_def)
  have dec: "dec b = Inr (reread j)" "dec c = Inr (reread k)" using assms(1-3) by (auto simp: codec_ok_def)
  have two: "sort_key f [x, y] = (if f y < f x then [y, x] else [x, y])" for f :: "'x \<Rightarrow> 'y :: linorder" and x y
    by auto
  have lt: "nat (jb_SubmittedAt j) < nat (jb_SubmittedAt k)" using assms(7,8) by simp
  have texts: "(RFC3339Nano (nat (jb_SubmittedAt k)) < RFC3339Nano (nat (jb_SubmittedAt j))) =
      (nat (jb_SubmittedAt j) div 10 ^ 9 = nat (jb_SubmittedAt k) div 10 ^ 9 \<and>
       strict_prefix (frac_text (nat (jb_SubmittedAt j))) (frac_text (nat (jb_SubmittedAt k))))"
    using RFC3339Nano_less [OF lt assms(9)] RFC3339Nano_inj [OF lt assms(9)] by (metis less_asym' linorder_less_linear)
  have "sq_Provisional dec None [?row n j b, ?row m k c] = map reread
      (if RFC3339Nano (nat (jb_SubmittedAt k)) < RFC3339Nano (nat (jb_SubmittedAt j)) then [k, j] else [j, k])"
    using assms(5,6) dec
    by (simp add: sq_Provisional_def sq_query_def tb_select_def two decoded_def List.map_filter_simps del: sort_key_simps)
  moreover have "map jb_ID (Provisional (mem_run [(n, j), (m, k)] NewMemory)) = [jb_ID j, jb_ID k]"
    using assms(4-6,8)
    by (simp add: mem_run_def Update_def store_def NewMemory_def Provisional_def q_filter_def two del: sort_key_simps)
  ultimately show ?thesis unfolding t texts by simp
qed

text \<open>
  C29. A restart overwrites the durable queue. The jobs are still in the table, but the new process numbers
  submissions from one: its first job takes the id of the first job ever, whose record is replaced
  by it, with the old submission time in the row, and every other row stays.
\<close>

theorem restart_overwrites:
  assumes "codec_ok enc dec reread" "sq_Get dec None (jobID 1) t = Some old" "mg_seq s = 0"
    and "enc (fresh_job (jobID 1) js (mg_now s)) = Inr b"
  shows "case Submit js s of (s', i) \<Rightarrow>
    (case sq_Enqueue enc None (mg_now s) (fresh_job i js (mg_now s)) t of (t', err) \<Rightarrow>
      i = jobID 1 \<and> err = None \<and> NewSQLite None (Some t) = Inr t \<and>
      sq_Get dec None i t' = Some (reread (fresh_job i js (mg_now s))) \<and>
      map rw_id t' = map rw_id t \<and> map rw_submitted t' = map rw_submitted t \<and>
      (\<forall>k. k \<noteq> i \<longrightarrow> sq_Get dec None k t' = sq_Get dec None k t))"
proof -
  let ?j = "fresh_job (jobID 1) js (mg_now s)"
  let ?r = "\<lparr>rw_id = jobID 1, rw_state = state_text Submitted, rw_submitted = RFC3339Nano (nat (mg_now s)),
    rw_updated = RFC3339Nano (nat (mg_now s)), rw_data = b\<rparr>"
  obtain s' where sub: "Submit js s = (s', jobID 1)" using assms(3) by (simp add: Submit_def Let_def)
  have enq: "sq_Enqueue enc None (mg_now s) ?j t = (tb_upsert ?r t, None)"
    using assms(4) by (simp add: sq_Enqueue_def sq_upsert_def fresh_job_def)
  have dec: "dec b = Inr (reread ?j)" using assms(1,4) by (auto simp: codec_ok_def)
  have found: "find (\<lambda>x. rw_id x = jobID 1) t \<noteq> None" using assms(2) by (auto simp: sq_Get_def tb_data_def split: option.splits)
  then have "map rw_id (tb_upsert ?r t) = map rw_id t" "map rw_submitted (tb_upsert ?r t) = map rw_submitted t"
    by (induction t) auto
  moreover have "sq_Get dec None (jobID 1) (tb_upsert ?r t) = Some (reread ?j)"
    using dec by (auto simp: sq_Get_def tb_data_def find_upsert split: option.splits)
  moreover have "sq_Get dec None k (tb_upsert ?r t) = sq_Get dec None k t" if "k \<noteq> jobID 1" for k
    using that by (simp add: sq_Get_def tb_data_def find_upsert)
  ultimately show ?thesis unfolding sub prod.case enq by (simp add: NewSQLite_def)
qed


text \<open>An encoding that knows two jobs.\<close>

definition two_enc :: "job \<Rightarrow> job \<Rightarrow> job \<Rightarrow> string + string" where
  "two_enc a b j = (if untimed j = untimed a then Inr ''1'' else if untimed j = untimed b then Inr ''2'' else Inl '''')"

definition two_dec :: "job \<Rightarrow> job \<Rightarrow> string \<Rightarrow> string + job" where
  "two_dec a b d = (if d = ''1'' then Inr (untimed a) else Inr (untimed b))"

lemma untimed_simps [simp]: "untimed (j\<lparr>jb_UpdatedAt := n\<rparr>) = untimed j" "untimed (untimed j) = untimed j"
  "jb_ID (untimed j) = jb_ID j" "jb_State (untimed j) = jb_State j" "jb_SubmittedAt (untimed j) = jb_SubmittedAt j"
  by (simp_all add: untimed_def)

lemma two_codec: "codec_ok (two_enc a b) (two_dec a b) untimed"
proof -
  have "two_dec a b d = Inr (untimed j)" if "two_enc a b j = Inr d" for j d
    using that by (cases "untimed j = untimed a"; cases "untimed j = untimed b") (auto simp: two_enc_def two_dec_def)
  then show ?thesis unfolding codec_ok_def by (simp only: untimed_simps simp_thms) blast
qed

definition half_past :: job where
  "half_past = fresh_job ''a'' one_node_job 1500000000"

definition just_after :: job where
  "just_after = fresh_job ''b'' one_node_job 1510000000"

lemma two_jobs: "untimed half_past \<noteq> untimed just_after" "untimed half_past = half_past" "untimed just_after = just_after"
  by (simp_all add: half_past_def just_after_def fresh_job_def untimed_def)

lemma fixed_numeral: "fixed (numeral k) n = fixed (pred_numeral k) (n div 10) @ [digit_char (n mod 10)]"
  by (simp only: numeral_eq_Suc [of k] fixed.simps)

lemma digits_151: "digit_char 0 = CHR ''0''" "digit_char 1 = CHR ''1''" "digit_char 5 = CHR ''5''" "digit_char (Suc 0) = CHR ''1''"
  by code_simp+

lemma their_fractions: "frac_text 1500000000 = ''5''" "frac_text 1510000000 = ''51''"
  by (simp_all add: frac_text_def fixed_numeral digits_151 trim_zeros_def del: digit_char.simps)

theorem sqlite_order_witness:
  "sq_Provisional (two_dec half_past just_after) None (sq_run (two_enc half_past just_after) [(0, half_past), (0, just_after)] []) =
   [just_after, half_past]"
proof -
  have "civil (nat 1510000000 div 10 ^ 9 div 86400) = (1970, 1, 1)" by simp
  then show ?thesis
    using sqlite_order [OF two_codec [of half_past just_after], of half_past "''1''" just_after "''2''" 0 0] two_jobs their_fractions
    by (simp add: two_enc_def half_past_def just_after_def fresh_job_def)
qed

theorem sqlite_refines_memory_witness:
  "same_jobs untimed (two_dec half_past just_after) (sq_run (two_enc half_past just_after) [(3, half_past), (4, just_after)] [])
     (mem_run [(3, half_past), (4, just_after)] NewMemory)"
  using sqlite_refines_memory [OF two_codec [of half_past just_after], of "[(3, half_past), (4, just_after)]"]
  by (simp add: two_enc_def two_jobs)

theorem postgres_refines_memory_witness:
  "same_jobs untimed (two_dec half_past just_after) (pg_run Inr (two_enc half_past just_after) [(3, half_past), (4, just_after)] [])
     (mem_run [(3, half_past), (4, just_after)] NewMemory)"
proof -
  have "pg_doc Inr (two_enc half_past just_after) = two_enc half_past just_after" by (auto simp: pg_doc_def split: sum.split)
  then show ?thesis
    using postgres_refines_memory [of Inr "two_enc half_past just_after" "two_dec half_past just_after" untimed
        "[(3, half_past), (4, just_after)]"] two_codec [of half_past just_after]
    by (simp add: two_enc_def two_jobs)
qed

definition first_job :: job where
  "first_job = fresh_job (jobID 1) one_node_job 7"

definition after_restart :: job where
  "after_restart = fresh_job (jobID 1) one_node_job 9"

theorem restart_overwrites_witness:
  "sq_Get (two_dec first_job after_restart) None (jobID 1)
     (fst (sq_Enqueue (two_enc first_job after_restart) None 9 after_restart (sq_run (two_enc first_job after_restart) [(7, first_job)] []))) =
   Some after_restart"
proof -
  let ?t = "sq_run (two_enc first_job after_restart) [(7, first_job)] []"
  let ?s = "(NewManager empty_sim ())\<lparr>mg_now := 9\<rparr>"
  have j: "untimed first_job \<noteq> untimed after_restart" "untimed after_restart = after_restart" "jb_ID first_job = jobID 1"
    by (simp_all add: first_job_def after_restart_def fresh_job_def untimed_def)
  have "sq_Get (two_dec first_job after_restart) None (jobID 1) ?t = Some (untimed first_job)"
    using j by (simp add: sq_run_def sq_Update_def sq_upsert_def two_enc_def sq_Get_def tb_data_def two_dec_def)
  moreover have "mg_seq ?s = 0" "mg_now ?s = 9" by (simp_all add: NewManager_def)
  moreover have "two_enc first_job after_restart (fresh_job (jobID 1) one_node_job 9) = Inr ''2''"
    using j unfolding after_restart_def [symmetric] by (simp add: two_enc_def)
  ultimately show ?thesis
    using restart_overwrites [OF two_codec [of first_job after_restart], of ?t "untimed first_job" ?s one_node_job "''2''"] j(2)
    by (auto simp: after_restart_def split: prod.splits)
qed

end
