(* ===== verification/Inventory.thy ===== *)
theory Inventory
  imports Matcher
begin

text \<open>
  What \<open>BuildContainment\<close> of \<open>pkg/graph/build.go\<close> builds, in the eyes of the matcher: the nodes in the
  order of the groups, each with the cores, gpus and memory its group asks for.
\<close>

section \<open>Steps of the builder\<close>

abbreviation edges_of :: "jgfBuilder \<Rightarrow> edge list" where
  "edges_of b \<equiv> g_edges (b_g b)"

abbreviation kids :: "jgfBuilder \<Rightarrow> nat \<Rightarrow> string list" where
  "kids b s \<equiv> children (b_g b) (itoa s)"

text \<open>So many vertices of one type and size, hung under one vertex.\<close>

definition adds :: "jgfBuilder \<Rightarrow> jgfBuilder \<Rightarrow> nat \<Rightarrow> string \<Rightarrow> int \<Rightarrow> nat \<Rightarrow> bool" where
  "adds b b' s t z n \<longleftrightarrow> b_next b' = b_next b + n \<and>
     (\<exists>vs. nodes_of b' = nodes_of b @ vs \<and> map v_id vs = map itoa [b_next b..<b_next b + n] \<and>
        (\<forall>v \<in> set vs. v_type v = t \<and> vsize v = z)) \<and>
     (\<exists>es. edges_of b' = edges_of b @ es \<and> map e_target es = map itoa [b_next b..<b_next b + n] \<and>
        (\<forall>e \<in> set es. e_source e = itoa s))"

lemma adds_refl: "adds b b s t z 0"
  by (simp add: adds_def)

lemma adds_under: "vm_type m = t \<Longrightarrow> (if vm_size m \<le> 0 then 1 else vm_size m) = z \<Longrightarrow> adds b (snd (add_under (itoa s) m b)) s t z 1"
  by (auto simp: adds_def add_under_def b_add_def b_edge_def Let_def vsize_def)

lemma adds_trans:
  assumes "adds a b s t z n" "adds b c s t z m"
  shows "adds a c s t z (n + m)"
proof -
  have r: "[b_next a..<b_next a + (n + m)] = [b_next a..<b_next a + n] @ [b_next a + n..<b_next a + n + m]"
    using upt_add_eq_append [of "b_next a" "b_next a + n" m] by (simp only: add.assoc le_add1)
  obtain vs es where 1: "nodes_of b = nodes_of a @ vs" "map v_id vs = map itoa [b_next a..<b_next a + n]"
      "\<forall>v \<in> set vs. v_type v = t \<and> vsize v = z" "edges_of b = edges_of a @ es"
      "map e_target es = map itoa [b_next a..<b_next a + n]" "\<forall>e \<in> set es. e_source e = itoa s" "b_next b = b_next a + n"
    using assms(1) unfolding adds_def by blast
  obtain ws fs where 2: "nodes_of c = nodes_of b @ ws" "map v_id ws = map itoa [b_next b..<b_next b + m]"
      "\<forall>v \<in> set ws. v_type v = t \<and> vsize v = z" "edges_of c = edges_of b @ fs"
      "map e_target fs = map itoa [b_next b..<b_next b + m]" "\<forall>e \<in> set fs. e_source e = itoa s" "b_next c = b_next b + m"
    using assms(2) unfolding adds_def by blast
  show ?thesis unfolding adds_def
  proof (intro conjI exI)
    show "nodes_of c = nodes_of a @ (vs @ ws)" "edges_of c = edges_of a @ (es @ fs)" using 1 2 by simp_all
    show "map v_id (vs @ ws) = map itoa [b_next a..<b_next a + (n + m)]" unfolding r using 1(2,7) 2(2) by simp
    show "map e_target (es @ fs) = map itoa [b_next a..<b_next a + (n + m)]" unfolding r using 1(5,7) 2(5) by simp
  qed (use 1 2 in auto)
qed

lemma adds_fold:
  assumes "\<And>x b. adds b (f x b) s t z 1"
  shows "adds b (fold f xs b) s t z (length xs)"
proof (induction xs arbitrary: b)
  case (Cons x xs)
  show ?case using adds_trans [OF assms Cons] by simp
qed (simp add: adds_refl)

lemma adds_cores: "adds b (fold (add_core path (itoa s)) [0..<n] b) s ''core'' 1 n"
proof -
  have "adds b (add_core path (itoa s) x b) s ''core'' 1 1" for x b
    unfolding add_core_def by (rule adds_under) (simp_all add: meta_def)
  from adds_fold [of "add_core path (itoa s)", OF this] show ?thesis by (metis length_upt diff_zero)
qed

lemma adds_gpus: "adds b (fold (add_gpu path (itoa s)) [0..<n] b) s ''gpu'' 1 n"
proof -
  have "adds b (add_gpu path (itoa s) x b) s ''gpu'' 1 1" for x b
    unfolding add_gpu_def by (rule adds_under) (simp_all add: meta_def)
  from adds_fold [of "add_gpu path (itoa s)", OF this] show ?thesis by (metis length_upt diff_zero)
qed

lemma adds_kids: "adds b b' s t z n \<Longrightarrow> kids b' x = kids b x @ (if x = s then map itoa [b_next b..<b_next b + n] else [])"
  by (auto simp: adds_def children_eq)

lemma kids_fresh: "builder_wf b \<Longrightarrow> b_next b \<le> x \<Longrightarrow> kids b x = []"
  by (force simp: builder_wf_def children_eq filter_empty_conv)

text \<open>A vertex by its number, with its type and size.\<close>

definition vert :: "jgfBuilder \<Rightarrow> nat \<Rightarrow> string \<Rightarrow> int \<Rightarrow> bool" where
  "vert b x t z \<longleftrightarrow> (\<exists>v \<in> set (nodes_of b). v_id v = itoa x \<and> v_type v = t \<and> vsize v = z)"

lemma adds_vert:
  assumes "adds b b' s t z n"
  shows "vert b x u y \<Longrightarrow> vert b' x u y" "b_next b \<le> x \<Longrightarrow> x < b_next b' \<Longrightarrow> vert b' x t z"
proof -
  obtain vs where vs: "nodes_of b' = nodes_of b @ vs" "map v_id vs = map itoa [b_next b..<b_next b + n]"
      "\<forall>v \<in> set vs. v_type v = t \<and> vsize v = z" "b_next b' = b_next b + n"
    using assms by (auto simp: adds_def)
  show "vert b x u y \<Longrightarrow> vert b' x u y" using vs(1) by (auto simp: vert_def)
  assume x: "b_next b \<le> x" "x < b_next b'"
  then have "itoa x \<in> set (map v_id vs)" unfolding vs(2) using vs(4) by simp
  then show "vert b' x t z" using vs(1,3) by (auto simp: vert_def)
qed

text \<open>What later steps leave alone: they hang new vertices under the rack or under new ones.\<close>

definition grows :: "jgfBuilder \<Rightarrow> jgfBuilder \<Rightarrow> bool" where
  "grows b b' \<longleftrightarrow> b_next b \<le> b_next b' \<and> (\<exists>vs. nodes_of b' = nodes_of b @ vs) \<and>
     (\<exists>es. edges_of b' = edges_of b @ es \<and> (\<forall>e \<in> set es. \<exists>x. e_source e = itoa x \<and> (x = 1 \<or> b_next b \<le> x)))"

lemma grows_refl: "grows b b"
  by (simp add: grows_def)

lemma grows_trans: "grows a b \<Longrightarrow> grows b c \<Longrightarrow> grows a c"
  unfolding grows_def by (fastforce intro: order_trans)

lemma adds_grows: "adds b b' s t z n \<Longrightarrow> s = 1 \<or> b_next a \<le> s \<Longrightarrow> grows a b \<Longrightarrow> grows a b'"
  unfolding grows_def adds_def by fastforce

lemma grows_kids: "grows b b' \<Longrightarrow> x \<noteq> 1 \<Longrightarrow> x < b_next b \<Longrightarrow> kids b' x = kids b x"
  by (fastforce simp: grows_def children_eq filter_empty_conv)

lemma grows_vert: "grows b b' \<Longrightarrow> vert b x t z \<Longrightarrow> vert b' x t z"
  by (auto simp: grows_def vert_def)


section \<open>The block of a node\<close>

definition node_block :: "jgfBuilder \<Rightarrow> nat \<Rightarrow> nat \<Rightarrow> nat \<Rightarrow> int \<Rightarrow> bool" where
  "node_block b k nc ng mm \<longleftrightarrow>
     (let c0 = k + 2 + nc; c1 = c0 + ng; c2 = c1 + (if mm > 0 then 1 else 0) in
      2 \<le> k \<and> c2 \<le> b_next b \<and> kids b k = map itoa (Suc k # [c0..<c2]) \<and> kids b (Suc k) = map itoa [k + 2..<c0] \<and>
      vert b (Suc k) ''socket'' 1 \<and> (\<forall>x \<in> {k + 2..<c2}. kids b x = []) \<and>
      (\<forall>x \<in> {k + 2..<c0}. vert b x ''core'' 1) \<and> (\<forall>x \<in> {c0..<c1}. vert b x ''gpu'' 1) \<and>
      (\<forall>x \<in> {c1..<c2}. vert b x ''memory'' mm))"

lemma block_grows: "node_block b k nc ng mm \<Longrightarrow> grows b b' \<Longrightarrow> node_block b' k nc ng mm"
proof -
  assume b: "node_block b k nc ng mm" and g: "grows b b'"
  then have n: "b_next b \<le> b_next b'" by (simp add: grows_def)
  have "kids b' x = kids b x" if "2 \<le> x" "x < b_next b" for x using grows_kids [OF g, of x] that by simp
  then show ?thesis using b n grows_vert [OF g] unfolding node_block_def Let_def by auto
qed

lemma adds_no_nodes: "adds b b' s t z n \<Longrightarrow> t \<noteq> ''node'' \<Longrightarrow>
    filter (\<lambda>v. v_type v = ''node'') (nodes_of b') = filter (\<lambda>v. v_type v = ''node'') (nodes_of b)"
  by (auto simp: adds_def filter_empty_conv)

lemma adds_a_node:
  assumes "adds b b' s ''node'' z 1"
  shows "\<exists>v. filter (\<lambda>v. v_type v = ''node'') (nodes_of b') = filter (\<lambda>v. v_type v = ''node'') (nodes_of b) @ [v] \<and> v_id v = itoa (b_next b)"
proof -
  obtain vs where vs: "nodes_of b' = nodes_of b @ vs" "map v_id vs = [itoa (b_next b)]" "\<forall>v \<in> set vs. v_type v = ''node''"
    using assms by (auto simp: adds_def)
  then obtain v where "vs = [v]" by (cases vs) auto
  then show ?thesis using vs by auto
qed

lemma add_node_block:
  fixes rackPath caps grp
  assumes wf: "builder_wf b" and two: "2 \<le> b_next b"
  defines "b' \<equiv> add_node rackPath (itoa 1) caps grp b"
  shows "node_block b' (b_next b) (nat (ns_cores grp)) (nat (ns_gpus grp)) (ns_mem grp)" "grows b b'" "builder_wf b'"
    "\<exists>v. filter (\<lambda>v. v_type v = ''node'') (nodes_of b') = filter (\<lambda>v. v_type v = ''node'') (nodes_of b) @ [v] \<and> v_id v = itoa (b_next b)"
proof -
  define path where "path = rackPath @ ''/node'' @ itoa (b_nodeID b)"
  define nm0 where "nm0 = (meta ''node'' ''node'' (''node'' @ itoa (b_nodeID b)) (int (b_nodeID b)) path)
      \<lparr>vm_rank := int (b_nodeID b)\<rparr>"
  define nm where "nm = (if caps \<noteq> [] then nm0\<lparr>vm_properties := cap_props caps []\<rparr> else nm0)"
  define mm where "mm = (meta ''memory'' ''memory'' ''memory0'' 0 (path @ ''/memory0''))\<lparr>vm_size := ns_mem grp, vm_unit := ''GB''\<rparr>"
  define k where "k = b_next b"
  define b1 where "b1 = snd (add_under (itoa 1) nm b)"
  define b2 where "b2 = snd (add_under (itoa k) (meta ''socket'' ''socket'' ''socket0'' 0 (path @ ''/socket0'')) b1)"
  define b3 where "b3 = fold (add_core (path @ ''/socket0'') (itoa (Suc k))) [0..<nat (ns_cores grp)] b2"
  define b4 where "b4 = fold (add_gpu path (itoa k)) [0..<nat (ns_gpus grp)] b3"
  define b5 where "b5 = (if ns_mem grp > 0 then snd (add_under (itoa k) mm b4) else b4)"
  have eq: "b' = b5\<lparr>b_nodeID := Suc (b_nodeID b5)\<rparr>"
    unfolding b'_def add_node_def Let_def case_prod_unfold b5_def b4_def b3_def b2_def b1_def nm_def
      nm0_def mm_def path_def k_def by simp
  have a1: "adds b b1 1 ''node'' 1 1" unfolding b1_def by (rule adds_under) (simp_all add: nm_def nm0_def meta_def)
  have n1: "b_next b1 = Suc k" using a1 by (simp add: adds_def k_def)
  have a2: "adds b1 b2 k ''socket'' 1 1" unfolding b2_def by (rule adds_under) (simp_all add: meta_def)
  have a3: "adds b2 b3 (Suc k) ''core'' 1 (nat (ns_cores grp))" unfolding b3_def by (rule adds_cores)
  have a4: "adds b3 b4 k ''gpu'' 1 (nat (ns_gpus grp))" unfolding b4_def by (rule adds_gpus)
  have a5: "adds b4 b5 k ''memory'' (ns_mem grp) (if ns_mem grp > 0 then 1 else 0)"
    using adds_under [of mm "''memory''" "ns_mem grp" b4 k] adds_refl by (auto simp: b5_def mm_def meta_def)
  have n: "b_next b2 = k + 2" "b_next b3 = k + 2 + nat (ns_cores grp)" "b_next b4 = k + 2 + nat (ns_cores grp) + nat (ns_gpus grp)"
      "b_next b5 = k + 2 + nat (ns_cores grp) + nat (ns_gpus grp) + (if ns_mem grp > 0 then 1 else 0)"
    using a2 a3 a4 a5 n1 by (simp_all add: adds_def)
  have kids5: "kids b5 x = (if x = k then [itoa (Suc k)] else []) @ (if x = Suc k then map itoa [k + 2..<k + 2 + nat (ns_cores grp)] else []) @
      (if x = k then map itoa [k + 2 + nat (ns_cores grp)..<b_next b5] else [])" if "k \<le> x" for x
    using that two kids_fresh [OF wf, of x] n n1
    by (auto simp: adds_kids [OF a5] adds_kids [OF a4] adds_kids [OF a3] adds_kids [OF a2] adds_kids [OF a1] k_def upt_add_eq_append)
  have v2: "vert b5 (Suc k) ''socket'' 1"
    using adds_vert(2) [OF a2, of "Suc k"] n n1 adds_vert(1) [OF a3] adds_vert(1) [OF a4] adds_vert(1) [OF a5] by simp
  have v3: "vert b5 x ''core'' 1" if "k + 2 \<le> x" "x < k + 2 + nat (ns_cores grp)" for x
    using adds_vert(2) [OF a3, of x] that n adds_vert(1) [OF a4] adds_vert(1) [OF a5] by simp
  have v4: "vert b5 x ''gpu'' 1" if "b_next b3 \<le> x" "x < b_next b4" for x
    using adds_vert(2) [OF a4, of x] that n adds_vert(1) [OF a5] by simp
  have v5: "vert b5 x ''memory'' (ns_mem grp)" if "b_next b4 \<le> x" "x < b_next b5" for x
    using adds_vert(2) [OF a5, of x] that by simp
  have same: "kids b' x = kids b5 x" "vert b' x t z = vert b5 x t z" "b_next b' = b_next b5" "nodes_of b' = nodes_of b5" for x t z
    by (simp_all add: eq vert_def)
  show "node_block b' (b_next b) (nat (ns_cores grp)) (nat (ns_gpus grp)) (ns_mem grp)"
    unfolding node_block_def Let_def same using two kids5 v2 v3 v4 v5 n by (auto simp: k_def [symmetric])
  have "grows b b5"
    using adds_grows [OF a5, of b] adds_grows [OF a4, of b] adds_grows [OF a3, of b] adds_grows [OF a2, of b] adds_grows [OF a1, of b] grows_refl [of b]
    by (simp add: k_def)
  then show "grows b b'" by (simp add: grows_def eq)
  show "builder_wf b'" using advancesD [OF advances_add_node, of b 1] wf two extendsD unfolding b'_def by fastforce
  show "\<exists>v. filter (\<lambda>v. v_type v = ''node'') (nodes_of b') = filter (\<lambda>v. v_type v = ''node'') (nodes_of b) @ [v] \<and> v_id v = itoa (b_next b)"
    using adds_a_node [OF a1] adds_no_nodes [OF a2] adds_no_nodes [OF a3] adds_no_nodes [OF a4] adds_no_nodes [OF a5] by (simp add: same)
qed


section \<open>The capacity of a block\<close>

definition cap_step :: "string \<Rightarrow> int \<Rightarrow> int \<times> int \<times> int \<Rightarrow> int \<times> int \<times> int" where
  "cap_step t z = (\<lambda>(c, g, m).
     (if t = ''core'' then (i64 (c + z), g, m) else if t = ''gpu'' then (c, i64 (g + z), m)
      else if t = ''memory'' then (c, g, i64 (m + z)) else (c, g, m)))"

lemma add_capacity_step: "add_capacity v = cap_step (v_type v) (vsize v)"
  by (auto simp: add_capacity_def cap_step_def)

lemma vert_lookup:
  assumes "builder_wf b" "vert b x t z"
  obtains v where "lookup (b_g b) (itoa x) = Some v" "v_type v = t" "vsize v = z"
  using assms lookup_distinct [OF builder_wf_distinct [OF assms(1)]] unfolding vert_def by metis

lemma below_leaf: "children g i = [] \<Longrightarrow> below account g i acc = Some acc"
  by (simp add: below_unfold)

lemma below_list_append:
  "below_list account g (xs @ ys) acc = (case below_list account g xs acc of None \<Rightarrow> None | Some acc \<Rightarrow> below_list account g ys acc)"
  by (induction xs arbitrary: acc) (auto split: option.split)

lemma below_leaves:
  assumes "builder_wf b" "\<forall>x \<in> set xs. kids b x = [] \<and> vert b x t z"
  shows "below_list add_capacity (b_g b) (map itoa xs) acc = Some ((cap_step t z ^^ length xs) acc)"
  using assms(2)
proof (induction xs arbitrary: acc)
  case (Cons x xs)
  have "vert b x t z" using Cons.prems by simp
  then obtain v where v: "lookup (b_g b) (itoa x) = Some v" "v_type v = t" "vsize v = z" by (rule vert_lookup [OF assms(1)])
  have "below add_capacity (b_g b) (itoa x) (add_capacity v acc) = Some (cap_step t z acc)"
    using Cons.prems v by (simp add: below_leaf add_capacity_step)
  then show ?case using Cons v by (simp add: funpow_swap1)
qed simp

lemma cap_steps:
  "0 \<le> c \<Longrightarrow> c + int n < 2 ^ 63 \<Longrightarrow> (cap_step ''core'' 1 ^^ n) (c, g, m) = (c + int n, g, m)"
  "0 \<le> g \<Longrightarrow> g + int n < 2 ^ 63 \<Longrightarrow> (cap_step ''gpu'' 1 ^^ n) (c, g, m) = (c, g + int n, m)"
  by (induction n arbitrary: c g) (auto simp: cap_step_def i64_fits fits64_def add.commute)

lemma block_capacity:
  assumes "builder_wf b" "node_block b k nc ng mm" "nc < 2 ^ 63" "ng < 2 ^ 63" "mm < 2 ^ 63"
  shows "nodeCapacity (b_g b) (itoa k) = Some (int nc, int ng, max 0 mm)"
proof -
  define c0 where "c0 = k + 2 + nc"
  define c1 where "c1 = c0 + ng"
  define c2 where "c2 = c1 + (if mm > 0 then 1 else 0)"
  have b: "kids b k = map itoa (Suc k # [c0..<c2])" "kids b (Suc k) = map itoa [k + 2..<c0]" "vert b (Suc k) ''socket'' 1"
      "\<forall>x \<in> {k + 2..<c2}. kids b x = []" "\<forall>x \<in> {k + 2..<c0}. vert b x ''core'' 1"
      "\<forall>x \<in> {c0..<c1}. vert b x ''gpu'' 1" "\<forall>x \<in> {c1..<c2}. vert b x ''memory'' mm"
    using assms(2) by (simp_all add: node_block_def Let_def c0_def c1_def c2_def)
  have le: "k + 2 \<le> c0" "c0 \<le> c1" "c1 \<le> c2" by (simp_all add: c0_def c1_def c2_def)
  obtain s where s: "lookup (b_g b) (itoa (Suc k)) = Some s" "v_type s = ''socket''" "vsize s = 1"
    using vert_lookup [OF assms(1) b(3)] by blast
  have n: "c0 - (k + 2) = nc" "c1 - c0 = ng" "c2 - c1 = (if mm > 0 then 1 else 0)" by (simp_all add: c0_def c1_def c2_def)
  have "below_list add_capacity (b_g b) (map itoa [k + 2..<c0]) (0, 0, 0) = Some ((cap_step ''core'' 1 ^^ nc) (0, 0, 0))"
    using below_leaves [OF assms(1), of "[k + 2..<c0]" "''core''" 1 "(0, 0, 0)"] b(4,5) le n(1) by (simp del: upt_Suc)
  then have cores: "below add_capacity (b_g b) (itoa (Suc k)) (0, 0, 0) = Some (int nc, 0, 0)"
    unfolding below_unfold b(2) using cap_steps(1) [of 0 nc 0 0] assms(3) by simp
  have "below_list add_capacity (b_g b) (map itoa [c0..<c1]) (int nc, 0, 0) = Some ((cap_step ''gpu'' 1 ^^ ng) (int nc, 0, 0))"
    using below_leaves [OF assms(1), of "[c0..<c1]" "''gpu''" 1 "(int nc, 0, 0)"] b(4,6) le n(2) by (simp del: upt_Suc)
  then have gpus: "below_list add_capacity (b_g b) (map itoa [c0..<c1]) (int nc, 0, 0) = Some (int nc, int ng, 0)"
    using cap_steps(2) [of 0 ng "int nc" 0] assms(4) by simp
  have "below_list add_capacity (b_g b) (map itoa [c1..<c2]) (int nc, int ng, 0) = Some ((cap_step ''memory'' mm ^^ (if mm > 0 then 1 else 0)) (int nc, int ng, 0))"
    using below_leaves [OF assms(1), of "[c1..<c2]" "''memory''" mm "(int nc, int ng, 0)"] b(4,7) le n(3) by (simp del: upt_Suc)
  then have mem: "below_list add_capacity (b_g b) (map itoa [c1..<c2]) (int nc, int ng, 0) = Some (int nc, int ng, max 0 mm)"
    using assms(5) by (simp add: cap_step_def i64_fits fits64_def)
  have split: "[c0..<c2] = [c0..<c1] @ [c1..<c2]" using le by (metis le_Suc_ex upt_add_eq_append)
  have "add_capacity s (0, 0, 0) = (0, 0, 0)" using s by (simp add: add_capacity_def)
  then show ?thesis
    unfolding nodeCapacity_def below_unfold b(1) split using s cores gpus mem by (simp add: below_list_append)
qed


section \<open>The inventory\<close>

text \<open>One entry per node, in the order the groups name them.\<close>

definition node_list :: "nodeSpec list \<Rightarrow> nodeSpec list" where
  "node_list groups = concat (map (\<lambda>grp. replicate (nat (ns_count grp)) grp) groups)"

definition built :: "jgfBuilder \<Rightarrow> nodeSpec list \<Rightarrow> bool" where
  "built b L \<longleftrightarrow> builder_wf b \<and> 2 \<le> b_next b \<and>
     list_all2 (\<lambda>v grp. \<exists>k. v_id v = itoa k \<and> node_block b k (nat (ns_cores grp)) (nat (ns_gpus grp)) (ns_mem grp))
       (filter (\<lambda>v. v_type v = ''node'') (nodes_of b)) L"

lemma built_add_node: "built b L \<Longrightarrow> built (add_node rackPath (itoa 1) caps grp b) (L @ [grp])"
proof -
  assume b: "built b L"
  then have wf: "builder_wf b" "2 \<le> b_next b" by (simp_all add: built_def)
  let ?b = "add_node rackPath (itoa 1) caps grp b"
  note s = add_node_block [OF wf, where rackPath = rackPath and caps = caps and grp = grp]
  have "list_all2 (\<lambda>v grp. \<exists>k. v_id v = itoa k \<and> node_block ?b k (nat (ns_cores grp)) (nat (ns_gpus grp)) (ns_mem grp))
      (filter (\<lambda>v. v_type v = ''node'') (nodes_of b)) L"
    by (rule list_all2_mono [OF b [unfolded built_def, THEN conjunct2, THEN conjunct2]]) (use block_grows [OF _ s(2)] in blast)
  moreover have "2 \<le> b_next ?b" using s(2) wf by (simp add: grows_def)
  ultimately show ?thesis using s(1,3,4) by (auto simp: built_def list_all2_appendI)
qed

lemma built_add_group: "built b L \<Longrightarrow> built (add_group rackPath (itoa 1) caps grp b) (L @ replicate (nat (ns_count grp)) grp)"
proof -
  have "built (fold (\<lambda>_. add_node rackPath (itoa 1) caps grp) xs b) (L @ replicate (length xs) grp)" if "built b L" for xs :: "nat list" and b L
    using that
  proof (induction xs arbitrary: b L)
    case (Cons x xs)
    show ?case using Cons.IH [OF built_add_node [OF Cons.prems]] by simp
  qed simp
  from this [of b L "[0..<nat (ns_count grp)]"] show "built b L \<Longrightarrow> ?thesis" by (simp add: add_group_def)
qed

lemma built_groups: "built b L \<Longrightarrow> built (fold (add_group rackPath (itoa 1) caps) groups b) (L @ node_list groups)"
proof (induction groups arbitrary: b L)
  case (Cons grp groups)
  show ?case using Cons.IH [OF built_add_group [OF Cons.prems]] by (simp add: node_list_def)
qed (simp add: node_list_def)

lemma built_start:
  assumes "vm_type m0 = ''cluster''" "vm_type m1 = ''rack''"
  shows "built (snd (add_under (itoa 0) m1 (snd (b_add m0 new_builder)))) []"
proof -
  have "builder_wf (snd (b_add m0 new_builder))" by (intro builder_wf_add builder_wf_new)
  then have "builder_wf (snd (add_under (itoa 0) m1 (snd (b_add m0 new_builder))))"
    by (rule builder_wf_add_under) (simp add: new_builder_def)
  then show ?thesis using assms
    by (simp add: built_def nodes_of_add_under new_builder_def b_add_def Let_def)
qed

lemma BuildContainment_built:
  "\<exists>b. BuildContainment c m h groups caps = b_g b \<and> built b (node_list groups)"
proof -
  let ?b0 = "snd (b_add (root_meta c m h caps) new_builder)"
  let ?b1 = "snd (add_under (itoa 0) (meta ''rack'' ''rack'' ''rack0'' 0 (''/'' @ c @ ''/rack0'')) ?b0)"
  have "built ?b1 []" by (rule built_start) (simp_all add: root_meta_def meta_def)
  then have "built (fold (add_group (''/'' @ c @ ''/rack0'') (itoa 1) caps) groups ?b1) (node_list groups)"
    using built_groups [of ?b1 "[]"] by simp
  moreover have "BuildContainment c m h groups caps = b_g (fold (add_group (''/'' @ c @ ''/rack0'') (itoa 1) caps) groups ?b1)"
    unfolding BuildContainment_def Let_def case_prod_unfold root_meta_def [symmetric]
    by (simp add: new_builder_def)
  ultimately show ?thesis by blast
qed

lemma capacities:
  assumes "\<forall>grp \<in> set groups. ns_cores grp < 2 ^ 63 \<and> ns_gpus grp < 2 ^ 63 \<and> ns_mem grp < 2 ^ 63"
  shows "map (\<lambda>v. nodeCapacity (BuildContainment c m h groups caps) (v_id v)) (verticesOfType (BuildContainment c m h groups caps) ''node'') =
    map (\<lambda>grp. Some (max 0 (ns_cores grp), max 0 (ns_gpus grp), max 0 (ns_mem grp))) (node_list groups)"
proof -
  obtain b where b: "BuildContainment c m h groups caps = b_g b" "built b (node_list groups)" using BuildContainment_built by blast
  have each: "map (\<lambda>v. nodeCapacity (b_g b) (v_id v)) vs = map (\<lambda>grp. Some (max 0 (ns_cores grp), max 0 (ns_gpus grp), max 0 (ns_mem grp))) L"
    if "list_all2 (\<lambda>v grp. \<exists>k. v_id v = itoa k \<and> node_block b k (nat (ns_cores grp)) (nat (ns_gpus grp)) (ns_mem grp)) vs L"
      "set L \<subseteq> set groups" for vs L
    using that
  proof (induction rule: list_all2_induct)
    case (Cons v vs grp L)
    then obtain k where k: "v_id v = itoa k" "node_block b k (nat (ns_cores grp)) (nat (ns_gpus grp)) (ns_mem grp)" by blast
    moreover have "nat (ns_cores grp) < 2 ^ 63" "nat (ns_gpus grp) < 2 ^ 63" "ns_mem grp < 2 ^ 63"
      using assms Cons.prems by (auto simp: nat_less_iff)
    ultimately show ?case using Cons block_capacity [OF _ k(2)] b(2) by (simp add: built_def max_def)
  qed simp
  have "set (node_list groups) \<subseteq> set groups" by (auto simp: node_list_def)
  then show ?thesis unfolding b(1) verticesOfType_def
    by (rule each [OF b(2) [unfolded built_def, THEN conjunct2, THEN conjunct2]])
qed

text \<open>
  C19. The builder builds what it is asked for. The graph of \<open>BuildContainment\<close> has one node vertex per
  node of the groups, in their order, and the matcher reads off each the cores, gpus and memory of
  its group; so the nodes that can hold a job are those whose group is large enough.
\<close>

theorem Build_inventory:
  assumes "\<forall>grp \<in> set groups. ns_cores grp < 2 ^ 63 \<and> ns_gpus grp < 2 ^ 63 \<and> ns_mem grp < 2 ^ 63"
  shows "map (\<lambda>v. nodeCapacity (BuildContainment c m h groups caps) (v_id v)) (verticesOfType (BuildContainment c m h groups caps) ''node'') =
    map (\<lambda>grp. Some (max 0 (ns_cores grp), max 0 (ns_gpus grp), max 0 (ns_mem grp))) (node_list groups)"
  using assms by (rule capacities)

theorem Build_inventory_witness:
  "map (\<lambda>v. nodeCapacity (BuildContainment ''c'' ''flux-uri'' ''h'' [\<lparr>ns_count = 2, ns_cores = 4, ns_gpus = 1, ns_mem = 0\<rparr>] []) (v_id v))
     (verticesOfType (BuildContainment ''c'' ''flux-uri'' ''h'' [\<lparr>ns_count = 2, ns_cores = 4, ns_gpus = 1, ns_mem = 0\<rparr>] []) ''node'') =
   [Some (4, 1, 0), Some (4, 1, 0)]"
  using Build_inventory [of "[\<lparr>ns_count = 2, ns_cores = 4, ns_gpus = 1, ns_mem = 0\<rparr>]" "''c''" "''flux-uri''" "''h''" "[]"]
  by (simp add: node_list_def eval_nat_numeral)

end
