(* ===== verification/FluxResource.thy ===== *)
theory FluxResource
  imports Inventory Rendering
begin

text \<open>
  Files \<open>flux_resource.go\<close> of \<open>cmd/fluxq\<close>: from the resource set of a local Flux instance to groups of
  nodes, which \<open>BuildContainment\<close> turns into a containment graph. Running \<open>flux resource R\<close> and decoding
  its answer are parameters.
\<close>

section \<open>Sets of ids\<close>

text \<open>\<open>strconv.Atoi\<close>, with \<open>None\<close> for its errors.\<close>

definition Atoi_opt :: "string \<Rightarrow> int option" where
  "Atoi_opt s =
     (let ds = (if s \<noteq> [] \<and> (hd s = CHR ''-'' \<or> hd s = CHR ''+'') then tl s else s);
          v = (if s \<noteq> [] \<and> hd s = CHR ''-'' then - int (digits_val ds) else int (digits_val ds))
      in if ds = [] \<or> \<not> list_all is_digit ds \<or> \<not> fits64 v then None else Some v)"

definition idset_part :: "int \<Rightarrow> string \<Rightarrow> int" where
  "idset_part n p =
     (if p = '''' then n
      else if CHR ''-'' \<in> set p then
        (let lo = TrimSpace (takeWhile (\<lambda>c. c \<noteq> CHR ''-'') p); hi = TrimSpace (tl (dropWhile (\<lambda>c. c \<noteq> CHR ''-'') p))
         in case (Atoi_opt lo, Atoi_opt hi) of
              (Some l, Some h) \<Rightarrow> if h \<ge> l then i64 (n + (h - l + 1)) else n
            | _ \<Rightarrow> n)
      else if Atoi_opt p \<noteq> None then i64 (n + 1) else n)"

definition idsetCount :: "string \<Rightarrow> int" where
  "idsetCount s = (let s = TrimSpace s in if s = '''' then 0 else foldl idset_part 0 (split_on (CHR '','') s))"

section \<open>Groups of nodes\<close>

record rlite =
  rl_Rank :: string
  rl_Core :: string
  rl_GPU :: string

definition rank_nodes :: "rlite \<Rightarrow> int" where
  "rank_nodes e = (let nodes = idsetCount (rl_Rank e) in if nodes = 0 then 1 else nodes)"

definition sig_of :: "rlite \<Rightarrow> int \<times> int" where
  "sig_of e = (idsetCount (rl_Core e), idsetCount (rl_GPU e))"

text \<open>The signatures in the order they were met, each with its number of nodes.\<close>

definition add_entry :: "rlite \<Rightarrow> ((int \<times> int) \<times> int) list \<Rightarrow> ((int \<times> int) \<times> int) list" where
  "add_entry e acc = AList.update (sig_of e)
     (i64 ((case map_of acc (sig_of e) of None \<Rightarrow> 0 | Some n \<Rightarrow> n) + rank_nodes e)) acc"

text \<open>\<open>output\<close> is the output of the command or its error, \<open>decode\<close> reads the resource set out of it.\<close>

definition fluxContainmentGroups :: "(string \<Rightarrow> string + rlite list) \<Rightarrow> string + string \<Rightarrow> string + nodeSpec list" where
  "fluxContainmentGroups decode output =
     (case output of
        Inl err \<Rightarrow> Inl (''run `flux resource R` (are you inside a flux instance? try `flux start`): '' @ err)
      | Inr out \<Rightarrow>
     (case decode out of
        Inl err \<Rightarrow> Inl (''parse RV1 from `flux resource R`: '' @ err)
      | Inr es \<Rightarrow>
          (let order = fold add_entry es [] in
           if order = [] then Inl ''no resources found in RV1 (empty R_lite)''
           else Inr (map (\<lambda>((cores, gpus), n). \<lparr>ns_count = n, ns_cores = cores, ns_gpus = gpus, ns_mem = 0\<rparr>) order))))"

section \<open>The count of a set\<close>

text \<open>A set as the ranges it is written with.\<close>

fun range_text :: "nat \<times> nat \<Rightarrow> string" where
  "range_text (lo, hi) = (if lo = hi then itoa lo else itoa lo @ CHR ''-'' # itoa hi)"

definition idset_text :: "(nat \<times> nat) list \<Rightarrow> string" where
  "idset_text rs = join '','' (map range_text rs)"

definition range_ids :: "nat \<times> nat \<Rightarrow> nat list" where
  "range_ids r = [fst r..<Suc (snd r)]"


lemma itoa_no: "c \<notin> set (itoa n)" if "\<not> is_digit c"
  using itoa_digits [of n] that by (auto simp: list_all_iff)

lemma not_digits [simp]: "\<not> is_digit (CHR ''-'')" "\<not> is_digit (CHR '','')" "\<not> is_digit (CHR ''+'')"
  by code_simp+

lemma digit_not_space: "is_digit c \<Longrightarrow> \<not> is_space c"
  by (auto simp: is_digit_def is_space_def)

lemma Atoi_itoa [simp]: "n < 2 ^ 63 \<Longrightarrow> Atoi_opt (itoa n) = Some (int n)"
proof -
  assume n: "n < 2 ^ 63"
  have "is_digit (hd (itoa n))" using itoa_digits [of n] hd_in_set [OF itoa_nonempty] unfolding list_all_iff by blast
  then have h: "hd (itoa n) \<noteq> CHR ''-''" "hd (itoa n) \<noteq> CHR ''+''" by (metis not_digits)+
  have "fits64 (int n)" using n by (simp add: fits64_def)
  then show ?thesis using h by (simp add: Atoi_opt_def Let_def itoa_digits)
qed

lemma TrimSpace_itoa [simp]: "TrimSpace (itoa n) = itoa n"
proof -
  have "\<not> is_space (hd (itoa n))" "\<not> is_space (last (itoa n))"
    using itoa_digits [of n] digit_not_space hd_in_set last_in_set itoa_nonempty unfolding list_all_iff by blast+
  then show ?thesis by (intro TrimSpace_id) simp_all
qed

lemma range_part:
  assumes "lo \<le> hi" "hi < 2 ^ 63"
  shows "idset_part n (range_text (lo, hi)) = i64 (n + int (length (range_ids (lo, hi))))"
proof (cases "lo = hi")
  case True
  then show ?thesis using assms itoa_no [of "CHR ''-''" hi] by (simp add: idset_part_def range_ids_def)
next
  case False
  have t: "takeWhile (\<lambda>c. c \<noteq> CHR ''-'') (itoa lo @ CHR ''-'' # itoa hi) = itoa lo"
    "dropWhile (\<lambda>c. c \<noteq> CHR ''-'') (itoa lo @ CHR ''-'' # itoa hi) = CHR ''-'' # itoa hi"
    using itoa_no [of "CHR ''-''" lo] by (auto simp: takeWhile_append dropWhile_append)
  have "int hi - int lo + 1 = int (length (range_ids (lo, hi)))" using assms(1) by (simp add: range_ids_def)
  then show ?thesis using False assms t by (simp add: idset_part_def Let_def)
qed

lemma range_text_chars: "CHR '','' \<notin> set (range_text r)" "range_text r \<noteq> ''''"
  "\<not> is_space (hd (range_text r))" "\<not> is_space (last (range_text r))"
proof -
  obtain lo hi where r: "r = (lo, hi)" by (cases r)
  have d: "\<not> is_space (hd (itoa n))" "\<not> is_space (last (itoa n))" for n
    using itoa_digits [of n] digit_not_space hd_in_set last_in_set itoa_nonempty unfolding list_all_iff by blast+
  show "CHR '','' \<notin> set (range_text r)" using itoa_no [of "CHR '',''"] by (simp add: r)
  show "range_text r \<noteq> ''''" by (simp add: r)
  show "\<not> is_space (hd (range_text r))" "\<not> is_space (last (range_text r))" using d by (simp_all add: r hd_append)
qed

lemma join_ends:
  assumes "xs \<noteq> []" "\<forall>x \<in> set xs. x \<noteq> '''' \<and> \<not> is_space (hd x) \<and> \<not> is_space (last x)"
  shows "join sep xs \<noteq> '''' \<and> \<not> is_space (hd (join sep xs)) \<and> \<not> is_space (last (join sep xs))"
  using assms
proof (induction xs rule: list_nonempty_induct)
  case (cons x xs)
  then obtain y ys where "xs = y # ys" by (cases xs) auto
  then show ?case using cons by (auto simp: hd_append)
qed simp

lemma idsetCount_ranges:
  assumes "\<forall>r \<in> set rs. fst r \<le> snd r \<and> snd r < 2 ^ 63" "length (concat (map range_ids rs)) < 2 ^ 63"
  shows "idsetCount (idset_text rs) = int (length (concat (map range_ids rs)))"
proof (cases "rs = []")
  case False
  let ?xs = "map range_text rs"
  have "idset_text rs \<noteq> '''' \<and> \<not> is_space (hd (idset_text rs)) \<and> \<not> is_space (last (idset_text rs))"
    unfolding idset_text_def by (rule join_ends) (use False range_text_chars in auto)
  then have t: "TrimSpace (idset_text rs) = idset_text rs" "idset_text rs \<noteq> ''''" by (simp_all add: TrimSpace_id)
  have "split_on (CHR '','') (idset_text rs) = ?xs"
    unfolding idset_text_def by (rule split_on_join) (use False range_text_chars in auto)
  then have "idsetCount (idset_text rs) = foldl idset_part 0 ?xs" using t by (simp add: idsetCount_def)
  moreover have "foldl idset_part n (map range_text rs) = i64 (n + int (length (concat (map range_ids rs))))"
    if "fits64 n" "\<forall>r \<in> set rs. fst r \<le> snd r \<and> snd r < 2 ^ 63" for rs n
    using that
  proof (induction rs arbitrary: n)
    case (Cons r rs)
    have "foldl idset_part n (map range_text (r # rs)) = foldl idset_part (i64 (n + int (length (range_ids r)))) (map range_text rs)"
      using range_part [of "fst r" "snd r" n] Cons.prems by simp
    then show ?case using Cons by (simp add: i64_add_left add.assoc)
  qed (simp add: i64_fits)
  moreover have "fits64 (int (length (concat (map range_ids rs))))" using assms(2) by (simp add: fits64_def)
  ultimately show ?thesis using assms(1) by (simp add: i64_fits fits64_def)
qed (simp add: idset_text_def idsetCount_def TrimSpace_def)


section \<open>The nodes of the groups\<close>

definition expand :: "('s \<times> int) list \<Rightarrow> 's list" where
  "expand acc = concat (map (\<lambda>(s, n). replicate (nat n) s) acc)"

definition seen :: "((int \<times> int) \<times> int) list \<Rightarrow> int \<times> int \<Rightarrow> int" where
  "seen acc s = (case map_of acc s of None \<Rightarrow> 0 | Some n \<Rightarrow> n)"

lemma mset_expand_update:
  "\<forall>x \<in> set acc. 0 \<le> snd x \<Longrightarrow> 0 \<le> r \<Longrightarrow>
   mset (expand (AList.update s ((case map_of acc s of None \<Rightarrow> 0 | Some n \<Rightarrow> n) + r) acc)) = mset (expand acc) + replicate_mset (nat r) s"
proof (induction acc)
  case (Cons x acc)
  obtain t n where x: "x = (t, n)" by (cases x)
  then have "0 \<le> n" using Cons.prems by simp
  then show ?case using Cons by (simp add: x expand_def nat_add_distrib replicate_add repeat_mset_distrib)
qed (simp add: expand_def)

lemma in_update: "x \<in> set (AList.update k v acc) \<Longrightarrow> x \<in> set acc \<or> x = (k, v)"
  by (induction acc) (auto split: if_splits)

lemma sum_list_int: "sum_list (map int ns) = int (sum_list ns)"
  by (induction ns) auto

lemma total_update:
  "wf_map acc \<Longrightarrow> sum_list (map snd (AList.update s ((case map_of acc s of None \<Rightarrow> 0 | Some n \<Rightarrow> n) + r) acc)) = sum_list (map snd acc) + (r :: int)"
  by (induction acc) (auto simp: wf_map_def map_of_eq_None_iff split: option.splits)

lemma seen_le: "wf_map acc \<Longrightarrow> \<forall>x \<in> set acc. 0 \<le> snd x \<Longrightarrow> 0 \<le> seen acc s \<and> seen acc s \<le> sum_list (map snd acc)"
proof (induction acc)
  case (Cons x acc)
  have "0 \<le> sum_list (map snd acc)" using Cons.prems by (intro sum_list_nonneg) auto
  then show ?case using Cons by (cases x) (auto simp: seen_def wf_map_def)
qed (simp add: seen_def)

lemma mset_groups:
  assumes "wf_map acc" "\<forall>x \<in> set acc. 0 \<le> snd x" "\<forall>e \<in> set es. 0 \<le> rank_nodes e"
    and "sum_list (map snd acc) + sum_list (map rank_nodes es) < 2 ^ 63"
  shows "mset (expand (fold add_entry es acc)) = mset (expand acc) + mset (concat (map (\<lambda>e. replicate (nat (rank_nodes e)) (sig_of e)) es))"
  using assms
proof (induction es arbitrary: acc)
  case (Cons e es)
  let ?acc = "add_entry e acc"
  have rest: "0 \<le> sum_list (map rank_nodes es)" using Cons.prems(3) by (intro sum_list_nonneg) auto
  have s: "0 \<le> seen acc (sig_of e)" "seen acc (sig_of e) \<le> sum_list (map snd acc)" using seen_le [OF Cons.prems(1,2)] by auto
  then have "fits64 (seen acc (sig_of e) + rank_nodes e)" using Cons.prems(3,4) rest by (simp add: fits64_def)
  then have a: "?acc = AList.update (sig_of e) ((case map_of acc (sig_of e) of None \<Rightarrow> 0 | Some n \<Rightarrow> n) + rank_nodes e) acc"
    by (simp add: add_entry_def i64_fits seen_def)
  have "0 \<le> rank_nodes e" using Cons.prems(3) by simp
  then have "mset (expand ?acc) = mset (expand acc) + replicate_mset (nat (rank_nodes e)) (sig_of e)"
    unfolding a by (rule mset_expand_update [OF Cons.prems(2)])
  moreover have "wf_map ?acc" using Cons.prems(1) by (simp add: add_entry_def)
  moreover have "\<forall>x \<in> set ?acc. 0 \<le> snd x"
    using Cons.prems(2) s(1) \<open>0 \<le> rank_nodes e\<close> unfolding a seen_def by (auto dest!: in_update)
  moreover have "sum_list (map snd ?acc) + sum_list (map rank_nodes es) < 2 ^ 63"
    using Cons.prems(4) total_update [OF Cons.prems(1)] unfolding a by simp
  ultimately show ?case using Cons.IH [of ?acc] Cons.prems(3) by (simp add: add.assoc)
qed simp

lemma fold_add_entry_keys: "fst ` set (fold add_entry es acc) \<subseteq> fst ` set acc \<union> sig_of ` set es"
proof (induction es arbitrary: acc)
  case (Cons e es)
  have "fst ` set (add_entry e acc) = insert (sig_of e) (fst ` set acc)"
    unfolding add_entry_def dom_update by simp
  then show ?case using Cons [of "add_entry e acc"] by auto
qed simp

text \<open>A resource set as its ranks, and the cores and gpus of each of them.\<close>

type_synonym ranges = "(nat \<times> nat) list"

definition ids_of :: "ranges \<Rightarrow> nat list" where
  "ids_of rs = concat (map range_ids rs)"

definition ranges_ok :: "ranges \<Rightarrow> bool" where
  "ranges_ok rs \<longleftrightarrow> (\<forall>r \<in> set rs. fst r \<le> snd r \<and> snd r < 2 ^ 63) \<and> length (ids_of rs) < 2 ^ 63"

definition entry_of :: "ranges \<times> ranges \<times> ranges \<Rightarrow> rlite" where
  "entry_of x = (case x of (rs, cs, gs) \<Rightarrow> \<lparr>rl_Rank = idset_text rs, rl_Core = idset_text cs, rl_GPU = idset_text gs\<rparr>)"

lemma idsetCount_ids: "ranges_ok rs \<Longrightarrow> idsetCount (idset_text rs) = int (length (ids_of rs))"
  using idsetCount_ranges [of rs] by (simp add: ranges_ok_def ids_of_def)

lemma ids_nonempty: "ranges_ok rs \<Longrightarrow> rs \<noteq> [] \<Longrightarrow> ids_of rs \<noteq> []"
  by (cases rs) (auto simp: ranges_ok_def ids_of_def range_ids_def)

definition node_groups :: "((int \<times> int) \<times> int) list \<Rightarrow> nodeSpec list" where
  "node_groups acc = map (\<lambda>((cores, gpus), n). \<lparr>ns_count = n, ns_cores = cores, ns_gpus = gpus, ns_mem = 0\<rparr>) acc"

lemma node_list_groups:
  "map (\<lambda>grp. Some (max 0 (ns_cores grp), max 0 (ns_gpus grp), max 0 (ns_mem grp))) (node_list (node_groups acc)) =
   map (\<lambda>(c, g). Some (max 0 c, max 0 g, 0)) (expand acc)"
  by (induction acc) (auto simp: node_list_def node_groups_def expand_def)


section \<open>Properties\<close>

text \<open>
  C20. The matcher sees the nodes of the local instance. When \<open>flux resource R\<close> lists ranks with their cores
  and gpus as sets of ids, the containment graph that is built from its groups has one node for every
  rank, with as many cores and gpus as ids were listed for it and no memory, whatever the order
  of the entries and however equal ones are merged.
\<close>

theorem flux_resources_seen:
  assumes "\<forall>x \<in> set xs. ranges_ok (fst x) \<and> fst x \<noteq> [] \<and> ranges_ok (fst (snd x)) \<and> ranges_ok (snd (snd x))"
    and "xs \<noteq> []" "sum_list (map (\<lambda>x. length (ids_of (fst x))) xs) < 2 ^ 63" "decode out = Inr (map entry_of xs)"
  shows "\<exists>groups. fluxContainmentGroups decode (Inr out) = Inr groups \<and>
    mset (map (\<lambda>v. nodeCapacity (BuildContainment c m h groups caps) (v_id v)) (verticesOfType (BuildContainment c m h groups caps) ''node'')) =
    mset (concat (map (\<lambda>(rs, cs, gs). replicate (length (ids_of rs)) (Some (int (length (ids_of cs)), int (length (ids_of gs)), 0))) xs))"
proof -
  let ?es = "map entry_of xs"
  let ?acc = "fold add_entry ?es []"
  have e: "rank_nodes (entry_of x) = int (length (ids_of (fst x)))"
      "sig_of (entry_of x) = (int (length (ids_of (fst (snd x)))), int (length (ids_of (snd (snd x)))))"
    if "x \<in> set xs" for x
    using assms(1) that idsetCount_ids ids_nonempty [of "fst x"]
    by (cases x; auto simp: entry_of_def rank_nodes_def sig_of_def)+
  have "map rank_nodes ?es = map int (map (\<lambda>x. length (ids_of (fst x))) xs)" using e(1) by simp
  moreover have "int n < 2 ^ 63" if "n < 2 ^ 63" for n using that by simp
  ultimately have total: "sum_list (map rank_nodes ?es) < 2 ^ 63" using assms(3) by (simp only: sum_list_int)
  have acc: "mset (expand ?acc) = mset (concat (map (\<lambda>e. replicate (nat (rank_nodes e)) (sig_of e)) ?es))"
    using mset_groups [of "[]" ?es] total e(1) by (simp add: expand_def)
  have "?acc \<noteq> []"
  proof
    assume "?acc = []"
    then have "concat (map (\<lambda>e. replicate (nat (rank_nodes e)) (sig_of e)) ?es) = []" using acc by (simp add: expand_def)
    moreover have x: "hd xs \<in> set xs" using assms(2) by simp
    ultimately have "rank_nodes (entry_of (hd xs)) \<le> 0" by simp
    then show False using e(1) [OF x] assms(1) ids_nonempty x by auto
  qed
  then have g: "fluxContainmentGroups decode (Inr out) = Inr (node_groups ?acc)"
    using assms(4) by (simp add: fluxContainmentGroups_def node_groups_def)
  have fit: "ns_cores grp < 2 ^ 63 \<and> ns_gpus grp < 2 ^ 63 \<and> ns_mem grp < 2 ^ 63" if gin: "grp \<in> set (node_groups ?acc)" for grp
  proof -
    obtain s n where grp: "(s, n) \<in> set ?acc" "grp = \<lparr>ns_count = n, ns_cores = fst s, ns_gpus = snd s, ns_mem = 0\<rparr>"
      using gin by (force simp: node_groups_def)
    then obtain x where "x \<in> set xs" "s = sig_of (entry_of x)" using fold_add_entry_keys [of ?es "[]"] by force
    then show ?thesis using e(2) assms(1) grp(2) by (auto simp: ranges_ok_def)
  qed
  have "mset (map (\<lambda>(c, g). Some (max 0 c, max 0 g, 0 :: int)) (expand ?acc)) =
      mset (map (\<lambda>(c, g). Some (max 0 c, max 0 g, 0)) (concat (map (\<lambda>e. replicate (nat (rank_nodes e)) (sig_of e)) ?es)))"
    using acc by simp
  also have "map (\<lambda>(c, g). Some (max 0 c, max 0 g, 0 :: int)) (concat (map (\<lambda>e. replicate (nat (rank_nodes e)) (sig_of e)) ?es)) =
      concat (map (\<lambda>(rs, cs, gs). replicate (length (ids_of rs)) (Some (int (length (ids_of cs)), int (length (ids_of gs)), 0))) xs)"
    unfolding map_concat map_map by (rule arg_cong [where f = concat], rule map_cong) (auto simp: e)
  finally have "mset (map (\<lambda>(c, g). Some (max 0 c, max 0 g, 0 :: int)) (expand ?acc)) =
      mset (concat (map (\<lambda>(rs, cs, gs). replicate (length (ids_of rs)) (Some (int (length (ids_of cs)), int (length (ids_of gs)), 0))) xs))" .
  moreover have "\<forall>grp \<in> set (node_groups ?acc). ns_cores grp < 2 ^ 63 \<and> ns_gpus grp < 2 ^ 63 \<and> ns_mem grp < 2 ^ 63" using fit by blast
  note capacities [OF this, of c m h caps, unfolded node_list_groups]
  ultimately show ?thesis using g by (intro exI [of _ "node_groups ?acc"] conjI) (simp_all only:)
qed

theorem flux_resources_seen_witness:
  "\<exists>groups. fluxContainmentGroups (\<lambda>_. Inr [entry_of ([(0, 1)], [(0, 3)], []), entry_of ([(2, 2)], [(0, 3)], [(0, 0)])]) (Inr ''R'') = Inr groups \<and>
    mset (map (\<lambda>v. nodeCapacity (BuildContainment ''local'' ''flux-uri'' ''h'' groups []) (v_id v))
       (verticesOfType (BuildContainment ''local'' ''flux-uri'' ''h'' groups []) ''node'')) =
    {# Some (4, 0, 0), Some (4, 0, 0), Some (4, 1, 0) #}"
  using flux_resources_seen [of "[([(0, 1)], [(0, 3)], []), ([(2, 2)], [(0, 3)], [(0, 0)])]"
      "\<lambda>_. Inr [entry_of ([(0, 1)], [(0, 3)], []), entry_of ([(2, 2)], [(0, 3)], [(0, 0)])]" "''R''" "''local''" "''flux-uri''" "''h''" "[]"]
  by (simp add: ranges_ok_def ids_of_def range_ids_def)

end
