(* ===== verification/Printing.thy ===== *)
theory Printing
  imports Timestamps Float64 Json Rendering
begin

text \<open>
  What the commands print with: the verbs of package \<open>fmt\<close> they use and the columns of
  \<open>text/tabwriter\<close> with the settings both commands give it (cells padded with two blanks, no flags).
  A text is UTF-8, and a width counts its code points.
\<close>

section \<open>Verbs\<close>

text \<open>Continuation bytes do not begin a code point.\<close>

definition rune_count :: "string \<Rightarrow> nat" where
  "rune_count s = length (filter (\<lambda>c. of_char c div 64 \<noteq> (2 :: nat)) s)"

text \<open>\<open>%-ns\<close>\<close>

definition padr :: "nat \<Rightarrow> string \<Rightarrow> string" where
  "padr n s = s @ replicate (n - rune_count s) CHR '' ''"

definition text_line :: "string \<Rightarrow> string" where
  "text_line s = s @ [newline]"

text \<open>\<open>%.df\<close>: the decimal nearest to the value, the even one of two.\<close>

definition fixed_point :: "nat \<Rightarrow> rat \<Rightarrow> string" where
  "fixed_point d x =
     (let n = nat (rne (\<bar>x\<bar> * 10 ^ d)); frac = itoa (n mod 10 ^ d)
      in (if x < 0 then ''-'' else '''') @ itoa (n div 10 ^ d) @
         (if d = 0 then '''' else CHR ''.'' # replicate (d - length frac) CHR ''0'' @ frac))"

definition times_sign :: string where
  "times_sign = map char_of [195, 151 :: nat]"

section \<open>Columns\<close>

definition tab :: char where
  "tab = char_of (9 :: nat)"

definition vtab :: char where
  "vtab = char_of (11 :: nat)"

definition form_feed :: char where
  "form_feed = char_of (12 :: nat)"

text \<open>All cells of a line but the last end in a tab, and only these have a column.\<close>

definition cells_of :: "string \<Rightarrow> string list" where
  "cells_of l = split_on tab (map (\<lambda>c. if c = vtab then tab else c) l)"

text \<open>The consecutive lines around line \<open>i\<close> that have a cell in column \<open>j\<close> share its width.\<close>

definition column_block :: "string list list \<Rightarrow> nat \<Rightarrow> nat \<Rightarrow> string list" where
  "column_block rows i j =
     map (\<lambda>r. r ! j) (rev (takeWhile (\<lambda>r. Suc j < length r) (rev (take i rows))) @ takeWhile (\<lambda>r. Suc j < length r) (drop i rows))"

definition column_width :: "string list list \<Rightarrow> nat \<Rightarrow> nat \<Rightarrow> nat" where
  "column_width rows i j = fold max (map rune_count (column_block rows i j)) 0 + 2"

definition format_line :: "string list list \<Rightarrow> nat \<Rightarrow> string" where
  "format_line rows i =
     (let r = rows ! i in
      concat (map (\<lambda>j. if Suc j < length r then padr (column_width rows i j) (r ! j) else r ! j) [0..<length r]))"

text \<open>The text as a whole; every line ends in a newline, and a form feed begins new columns.\<close>

definition tabwriter :: "string \<Rightarrow> string" where
  "tabwriter s = join [newline] (concat (map
     (\<lambda>part. let rows = map cells_of (split_on newline part) in map (format_line rows) [0..<length rows]) (split_on form_feed s)))"


section \<open>Tables\<close>

text \<open>Cells that hold none of the characters that end one.\<close>

definition clean_cell :: "string \<Rightarrow> bool" where
  "clean_cell s \<longleftrightarrow> set s \<inter> {tab, vtab, newline, form_feed} = {}"

definition table_text :: "string list list \<Rightarrow> string" where
  "table_text rows = concat (map (\<lambda>r. text_line (join [tab] r)) rows)"

definition table_width :: "string list list \<Rightarrow> nat \<Rightarrow> nat" where
  "table_width rows j = fold max (map (\<lambda>r. rune_count (r ! j)) rows) 0 + 2"

definition table_line :: "string list list \<Rightarrow> string list \<Rightarrow> string" where
  "table_line rows r = concat (map (\<lambda>j. padr (table_width rows j) (r ! j)) [0..<length r - 1]) @ last r"

lemma ends_distinct [simp]: "tab \<noteq> vtab" "tab \<noteq> newline" "tab \<noteq> form_feed" "vtab \<noteq> newline" "vtab \<noteq> form_feed" "newline \<noteq> form_feed"
  by code_simp+

lemmas ends_apart [simp] = ends_distinct [symmetric]

lemma in_join: "x \<in> set (join sep xs) \<Longrightarrow> x \<in> set sep \<or> (\<exists>y \<in> set xs. x \<in> set y)"
  by (induction sep xs rule: join.induct) auto

lemma split_on_lines:
  "\<forall>l \<in> set ls. d \<notin> set l \<Longrightarrow> split_on d (concat (map (\<lambda>l. l @ [d]) ls)) = ls @ ['''']"
  by (induction ls) (simp_all add: split_on_append split_on_free)

lemma join_lines: "join [d] (ls @ ['''']) = concat (map (\<lambda>l. l @ [d]) ls)"
proof (induction ls)
  case (Cons l ls)
  then show ?case by (cases "ls @ ['''']") auto
qed simp

lemma cells_of_join: "r \<noteq> [] \<Longrightarrow> \<forall>c \<in> set r. clean_cell c \<Longrightarrow> cells_of (join [tab] r) = r"
proof -
  assume r: "r \<noteq> []" "\<forall>c \<in> set r. clean_cell c"
  have "vtab \<notin> set (join [tab] r)" using r(2) ends_distinct(1) by (auto simp: clean_cell_def dest!: in_join)
  then have "map (\<lambda>c. if c = vtab then tab else c) (join [tab] r) = join [tab] r" by (intro map_idI) auto
  then show ?thesis using split_on_join [OF r(1), of tab] r(2) by (auto simp: cells_of_def clean_cell_def)
qed

lemma tabwriter_table:
  assumes "m > 0" "\<forall>r \<in> set rows. length r = m \<and> (\<forall>c \<in> set r. clean_cell c)"
  shows "tabwriter (table_text rows) = concat (map (\<lambda>r. text_line (table_line rows r)) rows)"
proof -
  have free: "newline \<notin> set (join [tab] r)" "form_feed \<notin> set (join [tab] r)" if "r \<in> set rows" for r
    using assms(2) that ends_distinct by (auto simp: clean_cell_def dest!: in_join)
  have "form_feed \<notin> set (table_text rows)" using free(2) ends_distinct by (auto simp: table_text_def text_line_def)
  then have ff: "split_on form_feed (table_text rows) = [table_text rows]" by (rule split_on_free)
  have nl: "split_on newline (table_text rows) = map (join [tab]) rows @ ['''']"
    using split_on_lines [of "map (join [tab]) rows" newline] free(1) by (simp add: table_text_def text_line_def comp_def)
  have cells: "map cells_of (map (join [tab]) rows @ ['''']) = rows @ [['''']]"
  proof -
    have "cells_of (join [tab] r) = r" if "r \<in> set rows" for r
      using assms that by (intro cells_of_join) (auto dest: bspec)
    then have "map (\<lambda>r. cells_of (join [tab] r)) rows = rows" by (intro map_idI) auto
    then show ?thesis by (simp add: comp_def) (simp add: cells_of_def)
  qed
  have width: "column_width (rows @ [['''']]) i j = table_width rows j" if "i < length rows" "Suc j < m" for i j
  proof -
    have "takeWhile (\<lambda>r. Suc j < length r) (rev (take i (rows @ [['''']]))) = rev (take i rows)"
      using that assms(2) by (auto simp: takeWhile_eq_all_conv dest: in_set_takeD)
    moreover have "takeWhile (\<lambda>r. Suc j < length r) (drop i (rows @ [['''']])) = drop i rows"
      using that assms(2) by (auto simp: takeWhile_append dest: in_set_dropD)
    ultimately have "column_block (rows @ [['''']]) i j = map (\<lambda>r. r ! j) rows"
      unfolding column_block_def by (simp add: append_take_drop_id)
    then show ?thesis by (simp add: column_width_def table_width_def comp_def)
  qed
  have "format_line (rows @ [['''']]) i = table_line rows (rows ! i)" if i: "i < length rows" for i
  proof -
    let ?r = "rows ! i"
    have r: "length ?r = m" using assms(2) i by simp
    with assms(1) have "?r \<noteq> []" by auto
    note r = r this
    have "[0..<m] = [0..<m - 1] @ [m - 1]" using assms(1) by (cases m) simp_all
    moreover have "?r ! (m - 1) = last ?r" using r by (simp add: last_conv_nth)
    ultimately show ?thesis using i assms(1) r
      by (auto simp: format_line_def Let_def table_line_def nth_append width intro!: arg_cong [of _ _ concat])
  qed
  then have "map (format_line (rows @ [['''']])) [0..<length rows] = map (table_line rows) rows"
    by (auto intro: nth_equalityI)
  moreover have "format_line (rows @ [['''']]) (length rows) = ''''" by (simp add: format_line_def)
  ultimately show ?thesis
    unfolding tabwriter_def ff list.map nl Let_def cells [unfolded list.map]
    by (simp add: join_lines text_line_def comp_def del: join.simps)
qed

lemma le_fold_max: "x \<in> set xs \<Longrightarrow> x \<le> fold max xs (n :: nat)"
  unfolding Max.set_eq_fold [symmetric] by simp

lemma table_width_fits: "r \<in> set rows \<Longrightarrow> rune_count (r ! j) + 2 \<le> table_width rows j"
  by (auto simp: table_width_def intro!: le_fold_max)

end
