(* ===== verification/Client.thy ===== *)
theory Client
  imports Requests FluxResource SqlQueue Printing
begin

text \<open>
  Command \<open>cmd/fluxq\<close>, the client: \<open>client.go\<close>, \<open>multikv.go\<close>, the command of \<open>flux_resource.go\<close> and the
  dispatch of \<open>main.go\<close>. The HTTP exchange, files, the environment and the coding of JSON are the
  parameter \<open>client\<close>; a command is a function of the world \<open>'w\<close> that returns what it prints and how it
  ends: the exit code of a command line that can not be read, or the error it returns, if any.
\<close>

section \<open>Package flag\<close>

definition ParseBool :: "string \<Rightarrow> bool option" where
  "ParseBool s =
     (if s \<in> set [''1'', ''t'', ''T'', ''true'', ''TRUE'', ''True''] then Some True
      else if s \<in> set [''0'', ''f'', ''F'', ''false'', ''FALSE'', ''False''] then Some False else None)"

text \<open>\<open>-name\<close> or \<open>--name\<close>, with what follows the first equals sign.\<close>

definition flag_key :: "string \<Rightarrow> string \<times> string option" where
  "flag_key s =
     (let name = (if s ! 1 = CHR ''-'' then drop 2 s else drop 1 s)
      in (takeWhile (\<lambda>c. c \<noteq> CHR ''='') name,
          if CHR ''='' \<in> set name then Some (tl (dropWhile (\<lambda>c. c \<noteq> CHR ''='') name)) else None))"

definition set_flag :: "string \<Rightarrow> string \<Rightarrow> nat + (string \<times> string) list \<times> string list \<Rightarrow> nat + (string \<times> string) list \<times> string list" where
  "set_flag k v r = (case r of Inl code \<Rightarrow> Inl code | Inr (fs, rest) \<Rightarrow> Inr ((k, v) # fs, rest))"

text \<open>
  \<open>Parse\<close> of a set that exits on an error: the flags in the order they were given and what is left of
  the line, or the exit code. The set lists its flags, true for a boolean one.
\<close>

fun flag_parse :: "(string \<times> bool) list \<Rightarrow> string list \<Rightarrow> nat + (string \<times> string) list \<times> string list" where
  "flag_parse specs [] = Inr ([], [])"
| "flag_parse specs (s # args) =
     (if length s < 2 \<or> hd s \<noteq> CHR ''-'' then Inr ([], s # args)
      else if s = ''--'' then Inr ([], args)
      else (case flag_key s of (k, v) \<Rightarrow>
        (if k = '''' \<or> hd k = CHR ''-'' then Inl 2
         else (case map_of specs k of
           None \<Rightarrow> Inl (if k = ''help'' \<or> k = ''h'' then 0 else 2)
         | Some True \<Rightarrow>
             (case v of
                None \<Rightarrow> set_flag k ''true'' (flag_parse specs args)
              | Some b \<Rightarrow> if ParseBool b = None then Inl 2 else set_flag k b (flag_parse specs args))
         | Some False \<Rightarrow>
             (case v of
                Some x \<Rightarrow> set_flag k x (flag_parse specs args)
              | None \<Rightarrow> (case args of [] \<Rightarrow> Inl 2 | x # rest \<Rightarrow> set_flag k x (flag_parse specs rest)))))))"

definition flag_value :: "(string \<times> string) list \<Rightarrow> string \<Rightarrow> string \<Rightarrow> string" where
  "flag_value fs k d = (case map_of (rev fs) k of None \<Rightarrow> d | Some v \<Rightarrow> v)"

definition flag_bool :: "(string \<times> string) list \<Rightarrow> string \<Rightarrow> bool \<Rightarrow> bool" where
  "flag_bool fs k d = (case map_of (rev fs) k of None \<Rightarrow> d | Some v \<Rightarrow> ParseBool v = Some True)"

section \<open>multikv.go\<close>

text \<open>The map that the values of a repeated flag fold into; a value with no equals sign is dropped.\<close>

definition multiKV_Map :: "string list \<Rightarrow> (string \<times> string) list" where
  "multiKV_Map kvs = fold (\<lambda>kv m. if CHR ''='' \<in> set kv
     then AList.update (TrimSpace (takeWhile (\<lambda>c. c \<noteq> CHR ''='') kv)) (TrimSpace (tl (dropWhile (\<lambda>c. c \<noteq> CHR ''='') kv))) m
     else m) kvs []"

definition multiKV_String :: "string list \<Rightarrow> string" where
  "multiKV_String kvs = join '','' kvs"

section \<open>The HTTP client\<close>

record hreq =
  hq_Method :: string
  hq_URL :: string
  hq_Headers :: "(string \<times> string) list"
  hq_Body :: "string option"

record 'w client =
  cl_newRequest :: "string \<Rightarrow> string \<Rightarrow> string option"
  cl_Do :: "'w \<Rightarrow> hreq \<Rightarrow> 'w \<times> (string + string \<times> nat \<times> string)"
  cl_ReadFile :: "string \<Rightarrow> string + string"
  cl_Getenv :: "string \<Rightarrow> string"
  cl_raw :: "string \<Rightarrow> string + string"
  cl_encRegister :: "registerRequest \<Rightarrow> string + string"
  cl_encSubsystem :: "bool \<Rightarrow> string \<Rightarrow> string + string"
  cl_decRegister :: "string \<Rightarrow> string + registerResponse"
  cl_decClusters :: "string \<Rightarrow> string + clusterInfo list"
  cl_decManagers :: "string \<Rightarrow> string + (string \<times> bool \<times> bool) list"
  cl_decCandidates :: "string \<Rightarrow> string + candidate list"
  cl_decJobs :: "string \<Rightarrow> string + job list"
  cl_envelope :: "string \<Rightarrow> string + string"
  cl_flux :: "string + string"
  cl_decR :: "string \<Rightarrow> string + rlite list"
  cl_encGraph :: "jgf \<Rightarrow> string + string"

text \<open>The body comes as what \<open>json.Marshal\<close> makes of it.\<close>

definition httpDoAuth ::
  "'w client \<Rightarrow> string \<Rightarrow> string \<Rightarrow> string \<Rightarrow> (string + string) option \<Rightarrow> 'w \<Rightarrow> 'w \<times> string \<times> nat \<times> string option" where
  "httpDoAuth C meth url secret body w =
     (case body of
        Some (Inl e) \<Rightarrow> (w, '''', 0, Some e)
      | _ \<Rightarrow>
     (case cl_newRequest C meth url of
        Some e \<Rightarrow> (w, '''', 0, Some e)
      | None \<Rightarrow>
     (case cl_Do C w \<lparr>hq_Method = meth, hq_URL = url,
             hq_Headers = (if body \<noteq> None then [(''Content-Type'', ''application/json'')] else []) @
               (if secret \<noteq> '''' then [(''Authorization'', ''Bearer '' @ secret)] else []),
             hq_Body = map_option projr body\<rparr> of
        (w, Inl e) \<Rightarrow> (w, '''', 0, Some (meth @ '' '' @ url @ '': '' @ e @ '' (is `fluxq serve` running?)''))
      | (w, Inr (status, code, out)) \<Rightarrow>
          (w, out, code, if code \<ge> 300 then Some (status @ '': '' @ TrimSpace out) else None))))"

definition httpDo :: "'w client \<Rightarrow> string \<Rightarrow> string \<Rightarrow> (string + string) option \<Rightarrow> 'w \<Rightarrow> 'w \<times> string \<times> nat \<times> string option" where
  "httpDo C meth url body w = httpDoAuth C meth url '''' body w"

definition default_server :: string where
  "default_server = ''http://localhost:8080''"

definition serverFlag :: "(string \<times> string) list \<Rightarrow> string" where
  "serverFlag fs = flag_value fs ''server'' default_server"

definition secretFlag :: "'w client \<Rightarrow> (string \<times> string) list \<Rightarrow> string" where
  "secretFlag C fs = flag_value fs ''secret'' (cl_Getenv C ''FLUXQ_SECRET'')"

text \<open>Arguments that are read by hand: the flags that take a value, and the first word that is none.\<close>

definition is_flag :: "string \<Rightarrow> string \<Rightarrow> bool" where
  "is_flag n a \<longleftrightarrow> a = ''--'' @ n \<or> a = ''-'' @ n"

definition flag_eq :: "string \<Rightarrow> string \<Rightarrow> string option" where
  "flag_eq p a = (if HasPrefix a (p @ ''='') then Some (TrimPrefix a (p @ ''='')) else None)"

definition server_eq :: "string \<Rightarrow> string option" where
  "server_eq a = (case flag_eq ''--server'' a of Some v \<Rightarrow> Some v | None \<Rightarrow> flag_eq ''-server'' a)"

fun idArg_loop :: "string list \<Rightarrow> string \<Rightarrow> string \<Rightarrow> string \<times> string" where
  "idArg_loop [] server i = (server, i)"
| "idArg_loop (a # args) server i =
     (if is_flag ''server'' a
      then (case args of [] \<Rightarrow> (server, i) | x # rest \<Rightarrow> idArg_loop rest x i)
      else (case server_eq a of
        Some v \<Rightarrow> idArg_loop args v i
      | None \<Rightarrow>
          (if is_flag ''id'' a
           then (case args of [] \<Rightarrow> (server, i) | x # rest \<Rightarrow> idArg_loop rest server x)
           else (case flag_eq ''--id'' a of
             Some v \<Rightarrow> idArg_loop args server v
           | None \<Rightarrow> idArg_loop args server (if i = '''' then a else i)))))"

definition idArg :: "string list \<Rightarrow> string \<times> string" where
  "idArg args = idArg_loop args default_server ''''"

fun serverAndArg_loop :: "string list \<Rightarrow> string \<Rightarrow> string \<Rightarrow> string \<times> string" where
  "serverAndArg_loop [] server i = (server, i)"
| "serverAndArg_loop (a # args) server i =
     (if is_flag ''server'' a
      then (case args of [] \<Rightarrow> (server, i) | x # rest \<Rightarrow> serverAndArg_loop rest x i)
      else (case server_eq a of
        Some v \<Rightarrow> serverAndArg_loop args v i
      | None \<Rightarrow> serverAndArg_loop args server (if i = '''' then a else i)))"

definition serverAndArg :: "string list \<Rightarrow> string \<times> string" where
  "serverAndArg args = serverAndArg_loop args default_server ''''"


section \<open>Commands\<close>

text \<open>What is left of the world, the two outputs, and how the command ended.\<close>

type_synonym 'w outcome = "'w \<times> string \<times> string \<times> (nat + string option)"

definition ret :: "'w \<Rightarrow> string \<Rightarrow> string option \<Rightarrow> 'w outcome" where
  "ret w out e = (w, out, '''', Inr e)"

definition with_flags ::
  "(string \<times> bool) list \<Rightarrow> string list \<Rightarrow> 'w \<Rightarrow> ((string \<times> string) list \<Rightarrow> 'w outcome) \<Rightarrow> 'w outcome" where
  "with_flags specs args w f = (case flag_parse specs args of Inl code \<Rightarrow> (w, '''', '''', Inl code) | Inr (fs, rest) \<Rightarrow> f fs)"

text \<open>The answer of a request, decoded; the errors of the two steps are those of the command.\<close>

definition answered ::
  "'w \<times> string \<times> nat \<times> string option \<Rightarrow> (string \<Rightarrow> string + 'a) \<Rightarrow> ('a \<Rightarrow> string) \<Rightarrow> 'w outcome" where
  "answered r dec show_answer = (case r of (w, out, code, err) \<Rightarrow>
     (case err of
        Some e \<Rightarrow> ret w '''' (Some e)
      | None \<Rightarrow> (case dec out of Inl e \<Rightarrow> ret w '''' (Some e) | Inr x \<Rightarrow> ret w (show_answer x) None)))"

definition register_report :: "registerResponse \<Rightarrow> string" where
  "register_report resp =
     text_line (''registered cluster '' @ go_quote (rp_Name resp) @ '' (handle '' @ rp_Handle resp @ '')'') @
     (if rp_Discovered resp \<noteq> [] then text_line (''discovered subsystems: '' @ join '', '' (rp_Discovered resp)) else '''') @
     (if rp_DiscoverError resp \<noteq> '''' then text_line (''discover warning: '' @ rp_DiscoverError resp) else '''') @
     text_line (''secret: '' @ rp_Secret resp) @
     text_line (''save it for edits:  export FLUXQ_SECRET='' @ rp_Secret resp) @
     (if ContainmentSubsystem \<in> set (rp_Discovered resp) then ''''
      else text_line ''note: the cluster is empty. Add a containment subsystem (JGF) before it can schedule.'')"

definition clusterRegister :: "'w client \<Rightarrow> string list \<Rightarrow> 'w \<Rightarrow> 'w outcome" where
  "clusterRegister C args w =
     with_flags [(''discover'', True), (''server'', False), (''name'', False), (''manager'', False), (''handle'', False), (''config'', False)] args w
       (\<lambda>fs. let name = flag_value fs ''name'' ''''; mgr = flag_value fs ''manager'' '''' in
         (if name = '''' \<or> mgr = '''' then
            ret w '''' (Some ''usage: fluxq cluster register --name N --manager M [--handle H] [--config k=v ...]'')
          else answered (httpDo C ''POST'' (serverFlag fs @ ''/v1/clusters/register'')
                 (Some (cl_encRegister C \<lparr>rr_Name = name, rr_Manager = mgr, rr_Handle = flag_value fs ''handle'' '''',
                    rr_Config = multiKV_Map (map snd (filter (\<lambda>(k, v). k = ''config'') fs)),
                    rr_Discover = flag_bool fs ''discover'' False\<rparr>)) w)
               (cl_decRegister C) register_report))"

definition cluster_row :: "clusterInfo \<Rightarrow> string" where
  "cluster_row c =
     (let entries = map (\<lambda>name. case map_of (ci_Subsystems c) name of
            Some (v # vs) \<Rightarrow> name @ ''='' @ join ''|'' (v # vs) | _ \<Rightarrow> name) (sort (map fst (ci_Subsystems c)));
          subs = join '' '' entries
      in text_line (padr 16 (ci_Name c) @ '' '' @ padr 14 (ci_Manager c) @ '' '' @ padr 16 (ci_Dispatch c) @ '' '' @
           padr 6 (itoa (ci_Nodes c)) @ '' '' @ (if subs = '''' then ''-'' else subs)))"

definition cluster_table :: "clusterInfo list \<Rightarrow> string" where
  "cluster_table infos =
     (if infos = [] then text_line ''(no clusters registered)''
      else text_line (padr 16 ''NAME'' @ '' '' @ padr 14 ''MANAGER'' @ '' '' @ padr 16 ''DISPATCH'' @ '' '' @ padr 6 ''NODES'' @ '' SUBSYSTEMS'') @
        concat (map cluster_row infos))"

definition clusterList :: "'w client \<Rightarrow> string list \<Rightarrow> 'w \<Rightarrow> 'w outcome" where
  "clusterList C args w = with_flags [(''server'', False)] args w
     (\<lambda>fs. answered (httpDo C ''GET'' (serverFlag fs @ ''/v1/clusters'') None w) (cl_decClusters C) cluster_table)"

definition clusterUnregister :: "'w client \<Rightarrow> string list \<Rightarrow> 'w \<Rightarrow> 'w outcome" where
  "clusterUnregister C args w = with_flags [(''server'', False), (''secret'', False), (''name'', False)] args w
     (\<lambda>fs. let name = flag_value fs ''name'' '''' in
       (if name = '''' then ret w '''' (Some ''usage: fluxq cluster unregister --name N --secret S'')
        else answered (httpDoAuth C ''POST'' (serverFlag fs @ ''/v1/clusters/'' @ name @ ''/unregister'') (secretFlag C fs) None w)
               Inr (\<lambda>_. text_line (''unregistered cluster '' @ go_quote name))))"

text \<open>What follows the last slash or backslash.\<close>

definition baseName :: "string \<Rightarrow> string" where
  "baseName p = rev (takeWhile (\<lambda>c. c \<noteq> CHR ''/'' \<and> c \<noteq> char_of (92 :: nat)) (rev p))"

definition trim_json_suffix :: "string \<Rightarrow> string" where
  "trim_json_suffix s = (if suffix ''.json'' s then take (length s - 5) s else s)"

definition subsystemRegister :: "'w client \<Rightarrow> string list \<Rightarrow> 'w \<Rightarrow> 'w outcome" where
  "subsystemRegister C args w =
     with_flags [(''server'', False), (''secret'', False), (''cluster'', False), (''name'', False), (''descriptive'', True), (''file'', False)] args w
       (\<lambda>fs. let cluster = flag_value fs ''cluster'' ''''; file = flag_value fs ''file'' ''''; name = flag_value fs ''name'' '''' in
         (if cluster = '''' \<or> file = '''' then
            ret w '''' (Some ''usage: fluxq cluster subsystem register --cluster C --file g.json [--name N] [--descriptive=false] --secret S'')
          else (case cl_ReadFile C file of
            Inl e \<Rightarrow> ret w '''' (Some e)
          | Inr raw \<Rightarrow>
              answered (httpDoAuth C ''POST'' (serverFlag fs @ ''/v1/clusters/'' @ cluster @ ''/subsystems/'' @
                    (if name = '''' then trim_json_suffix (baseName file) else name))
                  (secretFlag C fs) (Some (cl_encSubsystem C (flag_bool fs ''descriptive'' True) raw)) w)
                Inr (\<lambda>out. text_line (''registered subsystem: '' @ TrimSpace out)))))"

definition subsystemUnregister :: "'w client \<Rightarrow> string list \<Rightarrow> 'w \<Rightarrow> 'w outcome" where
  "subsystemUnregister C args w =
     with_flags [(''server'', False), (''secret'', False), (''cluster'', False), (''name'', False)] args w
       (\<lambda>fs. let cluster = flag_value fs ''cluster'' ''''; name = flag_value fs ''name'' '''' in
         (if cluster = '''' \<or> name = '''' then
            ret w '''' (Some ''usage: fluxq cluster subsystem unregister --cluster C --name N --secret S'')
          else answered (httpDoAuth C ''DELETE'' (serverFlag fs @ ''/v1/clusters/'' @ cluster @ ''/subsystems/'' @ name) (secretFlag C fs) None w)
                 Inr (\<lambda>_. text_line (''unregistered subsystem '' @ name @ '' on '' @ cluster))))"

section \<open>The subsystem of a local Flux instance\<close>

definition flux_summary :: "nodeSpec list \<Rightarrow> string" where
  "flux_summary groups =
     int_text (foldl (\<lambda>t grp. i64 (t + ns_count grp)) 0 groups) @ '' node(s) ['' @
     join '', '' (map (\<lambda>grp. int_text (ns_count grp) @ times_sign @ int_text (ns_cores grp) @ ''core'') groups) @ '']''"

definition subsystemFromFlux :: "'w client \<Rightarrow> string list \<Rightarrow> 'w \<Rightarrow> 'w outcome" where
  "subsystemFromFlux C args w =
     with_flags [(''server'', False), (''secret'', False), (''cluster'', False), (''caps'', False), (''print'', True)] args w
       (\<lambda>fs. case fluxContainmentGroups (cl_decR C) (cl_flux C) of
           Inl e \<Rightarrow> ret w '''' (Some e)
         | Inr groups \<Rightarrow>
             (let cluster = flag_value fs ''cluster'' ''''; csv = flag_value fs ''caps'' '''';
                  name = (if cluster = '''' then ''local'' else cluster);
                  uri = cl_Getenv C ''FLUX_URI'';
                  graph = BuildContainment name FluxURI (if uri = '''' then ''flux-uri://'' @ name else uri) groups
                    (if csv = '''' then [] else split_on (CHR '','') csv)
              in (case cl_encGraph C graph of
                    Inl e \<Rightarrow> ret w '''' (Some e)
                  | Inr raw \<Rightarrow>
                      (if flag_bool fs ''print'' False then (w, text_line raw, text_line (''# derived from local flux: '' @ flux_summary groups), Inr None)
                       else if cluster = '''' then
                         ret w '''' (Some ''usage: fluxq cluster subsystem from-flux --cluster C [--caps a,b] [--print] --secret S'')
                       else answered (httpDoAuth C ''POST'' (serverFlag fs @ ''/v1/clusters/'' @ cluster @ ''/subsystems/containment'')
                              (secretFlag C fs) (Some (cl_encSubsystem C False raw)) w)
                            Inr (\<lambda>out. text_line (''registered containment from local flux: '' @ flux_summary groups @ '' '' @ dash @ '' '' @ TrimSpace out))))))"

definition clusterSubsystem :: "'w client \<Rightarrow> string list \<Rightarrow> 'w \<Rightarrow> 'w outcome" where
  "clusterSubsystem C args w =
     (case args of
        [] \<Rightarrow> ret w '''' (Some ''cluster subsystem: want register|unregister'')
      | a # rest \<Rightarrow>
          (if a \<in> set [''register'', ''add''] then subsystemRegister C rest w
           else if a \<in> set [''unregister'', ''rm''] then subsystemUnregister C rest w
           else if a = ''from-flux'' then subsystemFromFlux C rest w
           else ret w '''' (Some (''cluster subsystem: unknown subcommand '' @ go_quote a))))"

definition runCluster :: "'w client \<Rightarrow> string list \<Rightarrow> 'w \<Rightarrow> 'w outcome" where
  "runCluster C args w =
     (case args of
        [] \<Rightarrow> ret w '''' (Some ''cluster: want register|list|unregister|subsystem'')
      | a # rest \<Rightarrow>
          (if a = ''register'' then clusterRegister C rest w
           else if a \<in> set [''list'', ''ls''] then clusterList C rest w
           else if a \<in> set [''unregister'', ''rm''] then clusterUnregister C rest w
           else if a \<in> set [''subsystem'', ''sub''] then clusterSubsystem C rest w
           else ret w '''' (Some (''cluster: unknown subcommand '' @ go_quote a))))"


section \<open>Jobs\<close>

text \<open>\<open>cl_envelope\<close> decodes the \<open>jobspec\<close> member of an object as raw text, empty when there is none.\<close>

definition unwrapJobspec :: "'w client \<Rightarrow> string \<Rightarrow> string" where
  "unwrapJobspec C raw =
     (case cl_envelope C raw of
        Inl err \<Rightarrow> raw
      | Inr js \<Rightarrow> if length js > 0 \<and> js \<noteq> ''null'' then js else raw)"

definition jobFromFile :: "'w client \<Rightarrow> (string \<times> string) list \<Rightarrow> string \<times> (string + string)" where
  "jobFromFile C fs =
     (let server = serverFlag fs; file = flag_value fs ''file'' '''' in
      (server,
       if file = '''' then Inl ''a --file jobspec.json is required''
       else (case cl_ReadFile C file of Inl e \<Rightarrow> Inl e | Inr raw \<Rightarrow> Inr (unwrapJobspec C raw))))"

definition post_job ::
  "'w client \<Rightarrow> string \<Rightarrow> string list \<Rightarrow> 'w \<Rightarrow> (string \<Rightarrow> string + 'a) \<Rightarrow> ('a \<Rightarrow> string) \<Rightarrow> 'w outcome" where
  "post_job C path args w dec show_answer =
     with_flags [(''server'', False), (''file'', False)] args w
       (\<lambda>fs. case jobFromFile C fs of
          (server, Inl e) \<Rightarrow> ret w '''' (Some e)
        | (server, Inr js) \<Rightarrow> answered (httpDo C ''POST'' (server @ path) (Some (cl_raw C js)) w) dec show_answer)"

definition runSubmit :: "'w client \<Rightarrow> string list \<Rightarrow> 'w \<Rightarrow> 'w outcome" where
  "runSubmit C args w = post_job C ''/v1/jobs/submit'' args w Inr (\<lambda>out. text_line (TrimSpace out))"

definition bool_text :: "bool \<Rightarrow> string" where
  "bool_text b = (if b then ''true'' else ''false'')"

definition satisfy_table :: "candidate list \<Rightarrow> string" where
  "satisfy_table cands =
     (if cands = [] then text_line ''(no feasible clusters)''
      else text_line (padr 16 ''CLUSTER'' @ '' '' @ padr 7 ''SCORE'' @ '' '' @ padr 8 ''FREE-NOW'' @ '' '' @ padr 6 ''FREE'' @ '' MATCHED'') @
        concat (map (\<lambda>c. text_line (padr 16 (ca_Cluster c) @ '' '' @ padr 7 (fixed_point 2 (ca_Score c)) @ '' '' @
          padr 8 (bool_text (ca_FreeNow c)) @ '' '' @ padr 6 (itoa (ca_FreeNodes c)) @ '' '' @ join '','' (ca_Matched c))) cands))"

definition runSatisfy :: "'w client \<Rightarrow> string list \<Rightarrow> 'w \<Rightarrow> 'w outcome" where
  "runSatisfy C args w = post_job C ''/v1/jobs/satisfy'' args w (cl_decCandidates C) satisfy_table"

definition yesno :: "bool \<Rightarrow> string" where
  "yesno b = (if b then ''yes'' else ''no'')"

definition ellipsis :: string where
  "ellipsis = map char_of [226, 128, 166 :: nat]"

definition managers_table :: "(string \<times> bool \<times> bool) list \<Rightarrow> string" where
  "managers_table infos =
     text_line (padr 16 ''MANAGER'' @ '' '' @ padr 14 ''REAL DISPATCH'' @ '' EMULATED'') @
     concat (map (\<lambda>(m, real, emulated). text_line (padr 16 m @ '' '' @ padr 14 (yesno real) @ '' '' @ yesno emulated)) infos) @
     text_line '''' @
     text_line (''REAL DISPATCH=yes: register with backend --config (flux-uri: uri='' @ ellipsis @ '' ; k8s-job: context='' @ ellipsis @ ''|kubeconfig='' @ ellipsis @ '').'') @
     text_line ''REAL DISPATCH=no:  register with --config emulate=true (satisfy-only; never dispatched).''"

definition runManagers :: "'w client \<Rightarrow> string list \<Rightarrow> 'w \<Rightarrow> 'w outcome" where
  "runManagers C args w =
     answered (httpDo C ''GET'' (fst (serverAndArg args) @ ''/v1/managers'') None w) (cl_decManagers C) managers_table"

definition or_dash :: "string \<Rightarrow> string" where
  "or_dash s = (if s = '''' then ''-'' else s)"

definition job_cells :: "job \<Rightarrow> string list" where
  "job_cells j = [jb_ID j, Name (jb_Spec j), state_text (jb_State j), or_dash (jb_ClusterID j),
     or_dash (jb_RemoteHandle j), or_dash (jb_Note j)]"

definition job_header :: "string list" where
  "job_header = [''JOBID'', ''NAME'', ''STATE'', ''CLUSTER'', ''HANDLE'', ''NOTE'']"

definition RenderTable :: "job list \<Rightarrow> string" where
  "RenderTable jobs = tabwriter (text_line (join [tab] job_header) @ concat (map (\<lambda>j. text_line (join [tab] (job_cells j))) jobs))"

definition runJobs :: "'w client \<Rightarrow> string list \<Rightarrow> 'w \<Rightarrow> 'w outcome" where
  "runJobs C args w = answered (httpDo C ''GET'' (fst (serverAndArg args) @ ''/v1/jobs'') None w) (cl_decJobs C) RenderTable"

definition runJob :: "'w client \<Rightarrow> string list \<Rightarrow> 'w \<Rightarrow> 'w outcome" where
  "runJob C args w =
     (case idArg args of (server, i) \<Rightarrow>
        (if i = '''' then ret w '''' (Some ''usage: fluxq job <id>'')
         else answered (httpDo C ''GET'' (server @ ''/v1/jobs/'' @ i) None w) Inr (\<lambda>out. text_line (TrimSpace out))))"

definition runLog :: "'w client \<Rightarrow> string list \<Rightarrow> 'w \<Rightarrow> 'w outcome" where
  "runLog C args w =
     (case idArg args of (server, i) \<Rightarrow>
        (if i = '''' then ret w '''' (Some ''usage: fluxq log <id>'')
         else answered (httpDo C ''GET'' (server @ ''/v1/jobs/'' @ i @ ''/log'') None w) Inr id))"

section \<open>The dispatch of the command\<close>

text \<open>
  \<open>serve\<close> is the server's own command; the build is the one without Fluxion, whose worker hook does
  nothing. \<open>os.Args\<close> without the name of the program; what the exit status is, and the outputs without
  the text of the usage.
\<close>

definition command ::
  "'w client \<Rightarrow> (string list \<Rightarrow> 'w \<Rightarrow> 'w outcome) \<Rightarrow> string \<Rightarrow> (string list \<Rightarrow> 'w \<Rightarrow> 'w outcome) option" where
  "command C serve_cmd name =
     (if name = ''serve'' then Some serve_cmd
      else if name = ''cluster'' then Some (runCluster C)
      else if name = ''managers'' then Some (runManagers C)
      else if name = ''submit'' then Some (runSubmit C)
      else if name = ''satisfy'' then Some (runSatisfy C)
      else if name = ''jobs'' then Some (runJobs C)
      else if name = ''job'' then Some (runJob C)
      else if name = ''log'' then Some (runLog C) else None)"

text \<open>An error is printed and makes the exit status 1.\<close>

definition exited :: "'w outcome \<Rightarrow> 'w \<times> string \<times> string \<times> nat" where
  "exited r =
     (case r of
        (w, out, err, Inl code) \<Rightarrow> (w, out, err, code)
      | (w, out, err, Inr None) \<Rightarrow> (w, out, err, 0)
      | (w, out, err, Inr (Some e)) \<Rightarrow> (w, out, err @ text_line (''error: '' @ e), 1))"

definition main :: "'w client \<Rightarrow> (string list \<Rightarrow> 'w \<Rightarrow> 'w outcome) \<Rightarrow> string list \<Rightarrow> 'w \<Rightarrow> 'w \<times> string \<times> string \<times> nat" where
  "main C serve_cmd args w =
     (case args of
        [] \<Rightarrow> (w, '''', '''', 2)
      | name # rest \<Rightarrow>
          (if name \<in> set [''-h'', ''--help'', ''help''] then (w, '''', '''', 0)
           else (case command C serve_cmd name of
             None \<Rightarrow> (w, '''', text_line (''unknown command '' @ go_quote name) @ [newline], 2)
           | Some f \<Rightarrow> exited (f rest w))))"

section \<open>The table of jobs\<close>

definition plain_job :: "job \<Rightarrow> bool" where
  "plain_job j \<longleftrightarrow> list_all clean_cell [jb_ID j, Name (jb_Spec j), jb_ClusterID j, jb_RemoteHandle j, jb_Note j]"

lemma clean_literals: "clean_cell ''-''" "list_all clean_cell job_header"
  by code_simp+

lemma clean_state [simp]: "clean_cell (state_text st)"
proof -
  have "list_all clean_cell (map state_text [Submitted, Matched, Dispatching, Running, Completed, Failed])" by code_simp
  then show ?thesis by (cases st) simp_all
qed

lemma clean_job: "plain_job j \<Longrightarrow> \<forall>c \<in> set (job_cells j). clean_cell c"
  by (auto simp: plain_job_def job_cells_def or_dash_def clean_literals(1))

text \<open>
  The columns of \<open>fluxq jobs\<close> line up. For jobs whose texts hold no tab, line end or form feed there is one
  width for each of the first five columns: every line, the header too, writes its cells padded to those
  widths, and each width leaves at least two blanks after the longest cell of its column.
\<close>

theorem RenderTable_aligned:
  assumes "list_all plain_job jobs"
  shows "\<exists>w. RenderTable jobs = concat (map (\<lambda>r. text_line (concat (map (\<lambda>k. padr (w k) (r ! k)) [0..<5]) @ r ! 5)) (job_header # map job_cells jobs)) \<and>
    list_all (\<lambda>r. length r = 6 \<and> list_all (\<lambda>k. rune_count (r ! k) + 2 \<le> w k) [0..<5]) (job_header # map job_cells jobs)"
proof -
  let ?rows = "job_header # map job_cells jobs"
  have rows: "\<forall>r \<in> set ?rows. length r = 6 \<and> (\<forall>c \<in> set r. clean_cell c)"
    using assms clean_literals(2) clean_job by (auto simp: list_all_iff) (simp_all add: job_header_def job_cells_def)
  have line: "table_line ?rows r = concat (map (\<lambda>k. padr (table_width ?rows k) (r ! k)) [0..<5]) @ r ! 5"
    if "r \<in> set ?rows" for r
  proof -
    have r: "length r = 6" using rows that by blast
    then have "last r = r ! 5" by (subst last_conv_nth) auto
    then show ?thesis by (simp add: table_line_def r)
  qed
  have "RenderTable jobs = concat (map (\<lambda>r. text_line (table_line ?rows r)) ?rows)"
    using tabwriter_table [OF _ rows] by (simp add: RenderTable_def table_text_def comp_def)
  also have "\<dots> = concat (map (\<lambda>r. text_line (concat (map (\<lambda>k. padr (table_width ?rows k) (r ! k)) [0..<5]) @ r ! 5)) ?rows)"
    by (intro arg_cong [of _ _ concat] map_cong refl arg_cong [of _ _ text_line] line)
  finally have "RenderTable jobs = \<dots>" .
  moreover have "list_all (\<lambda>r. length r = 6 \<and> list_all (\<lambda>k. rune_count (r ! k) + 2 \<le> table_width ?rows k) [0..<5]) ?rows"
    unfolding list_all_iff using rows table_width_fits by blast
  ultimately show ?thesis by (intro exI [of _ "table_width ?rows"] conjI)
qed

theorem RenderTable_aligned_witness:
  "\<exists>w. RenderTable [fresh_job ''job-1'' one_node_job 0] =
     concat (map (\<lambda>r. text_line (concat (map (\<lambda>k. padr (w k) (r ! k)) [0..<5]) @ r ! 5)) [job_header, job_cells (fresh_job ''job-1'' one_node_job 0)])"
proof -
  have "list_all plain_job [fresh_job ''job-1'' one_node_job 0]" by code_simp
  from RenderTable_aligned [OF this] show ?thesis by auto
qed

end
