(* ===== verification/Exchange.thy ===== *)
theory Exchange
  imports Client
begin

text \<open>
  The client of \<open>Client\<close> against the server of \<open>Api\<close>: what \<open>net/http\<close> makes of a request, and the life
  of a cluster's secret as the user of the command line sees it.
\<close>

section \<open>Between the two\<close>

text \<open>What the server reads in a request for a URL of plain characters, which nothing escapes or cleans.\<close>

definition name_char :: "char \<Rightarrow> bool" where
  "name_char c \<longleftrightarrow> c \<in> set ''abcdefghijklmnopqrstuvwxyz0123456789-''"

definition plain_url :: "string \<Rightarrow> bool" where
  "plain_url u \<longleftrightarrow> prefix default_server u \<and> list_all (\<lambda>c. name_char c \<or> c = CHR ''/'') (drop (length default_server) u)"

definition wire_request :: "hreq \<Rightarrow> request" where
  "wire_request h =
     \<lparr>rq_Method = hq_Method h, rq_Path = tl (split_on (CHR ''/'') (drop (length default_server) (hq_URL h))),
      rq_Authorization = (case map_of (hq_Headers h) ''Authorization'' of None \<Rightarrow> '''' | Some v \<Rightarrow> v), rq_trace = '''',
      rq_Body = (case hq_Body h of None \<Rightarrow> '''' | Some b \<Rightarrow> b)\<rparr>"

definition status_line :: "nat \<Rightarrow> string" where
  "status_line code = itoa code @ '' '' @
     (if code = 200 then ''OK'' else if code = 201 then ''Created'' else if code = 204 then ''No Content''
      else if code = 400 then ''Bad Request'' else if code = 401 then ''Unauthorized'' else if code = 404 then ''Not Found''
      else if code = 405 then ''Method Not Allowed'' else if code = 500 then ''Internal Server Error''
      else if code = 501 then ''Not Implemented'' else '''')"

text \<open>
  The exchange reaches the server: a request for a plain URL is answered with what the server makes of
  it, \<open>text\<close> being what is written for a body.
\<close>

definition talks_to :: "('m, 'w) server client \<Rightarrow> ('m, 'w) api \<Rightarrow> (payload \<Rightarrow> string) \<Rightarrow> bool" where
  "talks_to C A body_text \<longleftrightarrow>
     (\<forall>t. body_text (PText t) = t) \<and> body_text PEmpty = '''' \<and> (\<forall>m u. plain_url u \<longrightarrow> cl_newRequest C m u = None) \<and>
     (\<forall>s h s' resp. plain_url (hq_URL h) \<longrightarrow> serve A (wire_request h) s = Some (s', resp) \<longrightarrow>
        cl_Do C s h = (s', Inr (status_line (rs_Status resp), rs_Status resp, body_text (rs_Body resp))))"

lemma exchanged:
  assumes "talks_to C A body_text" "plain_url u"
    and "serve A \<lparr>rq_Method = meth, rq_Path = tl (split_on (CHR ''/'') (drop (length default_server) u)),
      rq_Authorization = (if secret = '''' then '''' else ''Bearer '' @ secret), rq_trace = '''',
      rq_Body = (case body of None \<Rightarrow> '''' | Some b \<Rightarrow> b)\<rparr> s = Some (s', resp)"
  shows "httpDoAuth C meth u secret (map_option Inr body) s =
    (s', body_text (rs_Body resp), rs_Status resp,
     if rs_Status resp \<ge> 300 then Some (status_line (rs_Status resp) @ '': '' @ TrimSpace (body_text (rs_Body resp))) else None)"
proof -
  let ?h = "\<lparr>hq_Method = meth, hq_URL = u,
    hq_Headers = (if body \<noteq> None then [(''Content-Type'', ''application/json'')] else []) @
      (if secret \<noteq> '''' then [(''Authorization'', ''Bearer '' @ secret)] else []), hq_Body = body\<rparr>"
  have "wire_request ?h = \<lparr>rq_Method = meth, rq_Path = tl (split_on (CHR ''/'') (drop (length default_server) u)),
      rq_Authorization = (if secret = '''' then '''' else ''Bearer '' @ secret), rq_trace = '''',
      rq_Body = (case body of None \<Rightarrow> '''' | Some b \<Rightarrow> b)\<rparr>"
    by (auto simp: wire_request_def split: option.split)
  then have d: "cl_Do C s ?h = (s', Inr (status_line (rs_Status resp), rs_Status resp, body_text (rs_Body resp)))"
    using assms by (simp add: talks_to_def)
  have n: "cl_newRequest C meth u = None" using assms(1,2) by (simp add: talks_to_def)
  have "map_option projr (map_option Inr body) = body" by (cases body) simp_all
  then have e: "httpDoAuth C meth u secret (map_option Inr body) s = (case cl_Do C s ?h of
        (w, Inl e) \<Rightarrow> (w, '''', 0, Some (meth @ '' '' @ u @ '': '' @ e @ '' (is `fluxq serve` running?)''))
      | (w, Inr (status, code, out)) \<Rightarrow>
          (w, out, code, if code \<ge> 300 then Some (status @ '': '' @ TrimSpace out) else None))"
    unfolding httpDoAuth_def n by (cases body) simp_all
  show ?thesis unfolding e d by simp
qed


section \<open>The secret of a cluster\<close>

definition plain_registration :: "string \<Rightarrow> string \<Rightarrow> registerRequest" where
  "plain_registration n mg = \<lparr>rr_Name = n, rr_Manager = mg, rr_Handle = '''', rr_Config = [], rr_Discover = False\<rparr>"

definition plain_answer :: "string \<Rightarrow> string \<Rightarrow> string \<Rightarrow> registerResponse" where
  "plain_answer n mg k =
     \<lparr>rp_Name = n, rp_Handle = mg @ ''://'' @ n, rp_Secret = k, rp_Discovered = [], rp_DiscoverError = ''''\<rparr>"

definition register_args :: "string \<Rightarrow> string \<Rightarrow> string list" where
  "register_args n mg = [''cluster'', ''register'', ''--name'', n, ''--manager'', mg]"

definition unregister_args :: "string \<Rightarrow> string \<Rightarrow> string list" where
  "unregister_args n x = [''cluster'', ''unregister'', ''--name'', n, ''--secret'', x]"

lemma plain_url_append: "plain_url (default_server @ u) = list_all (\<lambda>c. name_char c \<or> c = CHR ''/'') u"
  by (simp add: plain_url_def)

lemma register_url:
  "plain_url (default_server @ ''/v1/clusters/register'')"
  "tl (split_on (CHR ''/'') ''/v1/clusters/register'') = [''v1'', ''clusters'', ''register'']"
  unfolding plain_url_append by code_simp+

lemma unregister_url:
  assumes "list_all name_char n"
  shows "plain_url (default_server @ ''/v1/clusters/'' @ n @ ''/unregister'')"
    "tl (split_on (CHR ''/'') (''/v1/clusters/'' @ n @ ''/unregister'')) = [''v1'', ''clusters'', n, ''unregister'']"
proof -
  have "\<not> name_char (CHR ''/'')" by code_simp
  then have n: "CHR ''/'' \<notin> set n" using assms unfolding list_all_iff by blast
  have l: "list_all (\<lambda>c. name_char c \<or> c = CHR ''/'') ''/v1/clusters/''"
    "list_all (\<lambda>c. name_char c \<or> c = CHR ''/'') ''/unregister''" by code_simp+
  have "list_all (\<lambda>c. name_char c \<or> c = CHR ''/'') n" using assms by (auto simp: list_all_iff)
  then show "plain_url (default_server @ ''/v1/clusters/'' @ n @ ''/unregister'')"
    unfolding plain_url_append list_all_append using l by blast
  show "tl (split_on (CHR ''/'') (''/v1/clusters/'' @ n @ ''/unregister'')) = [''v1'', ''clusters'', n, ''unregister'']"
    by (simp add: split_on_append split_on_free n)
qed

lemma register_main:
  assumes "n \<noteq> ''''" "mg \<noteq> ''''"
  shows "main C serve_cmd (register_args n mg) s =
    exited (answered (httpDo C ''POST'' (default_server @ ''/v1/clusters/register'')
        (Some (cl_encRegister C (plain_registration n mg))) s) (cl_decRegister C) register_report)"
proof -
  have f: "flag_parse [(''discover'', True), (''server'', False), (''name'', False), (''manager'', False), (''handle'', False), (''config'', False)]
      [''--name'', n, ''--manager'', mg] = Inr ([(''name'', n), (''manager'', mg)], [])"
    by (simp add: flag_key_def set_flag_def)
  have c: "clusterRegister C [''--name'', n, ''--manager'', mg] s =
      answered (httpDo C ''POST'' (default_server @ ''/v1/clusters/register'')
        (Some (cl_encRegister C (plain_registration n mg))) s) (cl_decRegister C) register_report"
    unfolding clusterRegister_def with_flags_def f
    by (simp add: assms flag_value_def flag_bool_def serverFlag_def multiKV_Map_def plain_registration_def)
  show ?thesis unfolding main_def register_args_def by (simp add: command_def runCluster_def c)
qed

lemma unregister_main:
  assumes "n \<noteq> ''''"
  shows "main C serve_cmd (unregister_args n x) s =
    exited (answered (httpDoAuth C ''POST'' (default_server @ ''/v1/clusters/'' @ n @ ''/unregister'') x None s)
        Inr (\<lambda>_. text_line (''unregistered cluster '' @ go_quote n)))"
proof -
  have f: "flag_parse [(''server'', False), (''secret'', False), (''name'', False)] [''--name'', n, ''--secret'', x] =
      Inr ([(''name'', n), (''secret'', x)], [])"
    by (simp add: flag_key_def set_flag_def)
  have c: "clusterUnregister C [''--name'', n, ''--secret'', x] s =
      answered (httpDoAuth C ''POST'' (default_server @ ''/v1/clusters/'' @ n @ ''/unregister'') x None s)
        Inr (\<lambda>_. text_line (''unregistered cluster '' @ go_quote n))"
    unfolding clusterUnregister_def with_flags_def f
    by (simp add: assms flag_value_def secretFlag_def serverFlag_def)
  show ?thesis unfolding main_def unregister_args_def by (simp add: command_def runCluster_def c)
qed


lemma serve_register:
  "rq_Method r = ''POST'' \<Longrightarrow> rq_Path r = [''v1'', ''clusters'', ''register''] \<Longrightarrow> serve A r s = Some (registerCluster A r s)"
  by (simp add: serve_def routed_def Routes_def List.map_filter_simps method_ok_def run_op_def)

lemma serve_unregister:
  "rq_Method r = ''POST'' \<Longrightarrow> rq_Path r = [''v1'', ''clusters'', n, ''unregister''] \<Longrightarrow> serve A r s = Some (unregisterCluster A n r s)"
  by (simp add: serve_def routed_def Routes_def List.map_filter_simps method_ok_def run_op_def)

lemma registered:
  assumes "ap_ClusterAuth A = None" "ap_decodeRegister A (rq_Body r) = Inr (plain_registration n mg)" "n \<noteq> ''''" "mg \<noteq> ''''"
    and "snd (RegisterCluster (ap_env A) (cluster_of (plain_registration n mg)) (sv_M s)) = None"
  obtains s' where
    "registerCluster A r s = (s', created (PRegister (plain_answer n mg (EncodeToString (ap_rand A (sv_issued s))))))"
    "sv_secrets s' n = Some (EncodeToString (ap_rand A (sv_issued s)))"
    "sv_M s' = fst (RegisterCluster (ap_env A) (cluster_of (plain_registration n mg)) (sv_M s))"
proof -
  obtain m where m: "RegisterCluster (ap_env A) (cluster_of (plain_registration n mg)) (sv_M s) = (m, None)"
    using assms(5) by (cases "RegisterCluster (ap_env A) (cluster_of (plain_registration n mg)) (sv_M s)") simp
  have f: "rr_Name (plain_registration n mg) = n" "\<not> rr_Discover (plain_registration n mg)"
    "handle_of (plain_registration n mg) = mg @ ''://'' @ n"
    using assms(4) by (simp_all add: plain_registration_def handle_of_def)
  show thesis
    by (rule that [of "s\<lparr>sv_M := m, sv_issued := sv_issued s + 1,
        sv_secrets := (sv_secrets s)(n \<mapsto> EncodeToString (ap_rand A (sv_issued s)))\<rparr>"])
      (simp_all add: registerCluster_def assms(1,2,3) f m issue_def Let_def plain_answer_def)
qed

lemma unregister_with:
  assumes "ap_ClusterAuth A = None" "sv_secrets s n = Some k"
  shows "bearer r \<noteq> k \<Longrightarrow> unregisterCluster A n r s = (s, http_Error ''invalid or missing cluster secret'' 401)"
    and "bearer r = k \<Longrightarrow> fleet_inv (mg_Fleet (sv_M s)) \<Longrightarrow> fl_Get (mg_Fleet (sv_M s)) n \<noteq> None \<Longrightarrow>
      \<exists>s'. unregisterCluster A n r s = (s', no_content) \<and> fl_Get (mg_Fleet (sv_M s')) n = None \<and> sv_secrets s' n = None"
proof -
  have a: "AuthenticateClusterEdit A s r n = (if bearer r \<noteq> k then Some ''invalid or missing cluster secret'' else None)"
    by (simp add: AuthenticateClusterEdit_def secret_auth_def assms)
  show "bearer r \<noteq> k \<Longrightarrow> unregisterCluster A n r s = (s, http_Error ''invalid or missing cluster secret'' 401)"
    by (simp add: unregisterCluster_def a)
  assume b: "bearer r = k" and f: "fleet_inv (mg_Fleet (sv_M s))" "fl_Get (mg_Fleet (sv_M s)) n \<noteq> None"
  obtain m ok where m: "UnregisterCluster (ap_env A) n (sv_M s) = (m, ok)" by (cases "UnregisterCluster (ap_env A) n (sv_M s)")
  have "ok = fst (fl_Remove n (mg_Fleet (sv_M s)))" "mg_Fleet m = snd (fl_Remove n (mg_Fleet (sv_M s)))"
    using m by (auto simp: UnregisterCluster_def split: prod.splits)
  then have "ok" "fl_Get (mg_Fleet m) n = None" using f by (simp_all add: fst_fl_Remove fl_Get_Remove)
  then show "\<exists>s'. unregisterCluster A n r s = (s', no_content) \<and> fl_Get (mg_Fleet (sv_M s')) n = None \<and> sv_secrets s' n = None"
    using b m assms(1) by (simp add: unregisterCluster_def a Let_def forget_def)
qed

lemma bearer_word: "rq_Authorization r = (if x = '''' then '''' else ''Bearer '' @ x) \<Longrightarrow> bearer r = TrimSpace x"
  by (simp add: bearer_def HasPrefix_def TrimSpace_def)

lemma fleet_registered:
  "snd (RegisterCluster e cg s) = None \<Longrightarrow> mg_Fleet (fst (RegisterCluster e cg s)) = fl_Add cg (mg_Fleet s)"
  by (auto simp: RegisterCluster_def Let_def split: if_splits prod.splits option.splits)

lemma refusal_text:
  assumes "talks_to C A body_text"
  shows "rs_Status (http_Error ''invalid or missing cluster secret'' 401) = 401"
    "status_line 401 @ '': '' @ TrimSpace (body_text (rs_Body (http_Error ''invalid or missing cluster secret'' 401))) =
     ''401 Unauthorized: invalid or missing cluster secret''"
proof -
  have "TrimSpace (''invalid or missing cluster secret'' @ [char_of (10 :: nat)]) = ''invalid or missing cluster secret''" by code_simp
  moreover have "status_line 401 = ''401 Unauthorized''" by code_simp
  ultimately show "status_line 401 @ '': '' @ TrimSpace (body_text (rs_Body (http_Error ''invalid or missing cluster secret'' 401))) =
      ''401 Unauthorized: invalid or missing cluster secret''"
    using assms by (simp add: talks_to_def http_Error_def)
qed (simp add: http_Error_def)

lemma exited_error: "exited (answered (w, out, code, Some e) dec show_answer) = (w, '''', text_line (''error: '' @ e), 1)"
  by (simp add: answered_def ret_def exited_def)



section \<open>Witness\<close>

text \<open>A client next to the server of the demonstration, whose texts are the bodies themselves.\<close>

fun demo_text :: "payload \<Rightarrow> string" where
  "demo_text (PText t) = t"
| "demo_text (PRegister p) = rp_Secret p"
| "demo_text _ = ''''"

definition demo_client :: "(sim, unit) server client" where
  "demo_client =
     \<lparr>cl_newRequest = (\<lambda>m u. None),
      cl_Do = (\<lambda>s h. case serve demo_api (wire_request h) s of None \<Rightarrow> (s, Inl ''no answer'')
        | Some (s', resp) \<Rightarrow> (s', Inr (status_line (rs_Status resp), rs_Status resp, demo_text (rs_Body resp)))),
      cl_ReadFile = Inl, cl_Getenv = (\<lambda>_. ''''), cl_raw = Inr, cl_encRegister = (\<lambda>q. Inr (rr_Name q)),
      cl_encSubsystem = (\<lambda>_. Inr), cl_decRegister = (\<lambda>t. Inr (plain_answer ''c1'' ''flux-uri'' t)), cl_decClusters = Inl,
      cl_decManagers = Inl, cl_decCandidates = Inl, cl_decJobs = Inl, cl_envelope = Inl, cl_flux = Inl '''', cl_decR = Inl,
      cl_encGraph = (\<lambda>_. Inl '''')\<rparr>"

lemma demo_talks: "talks_to demo_client demo_api demo_text"
  by (simp add: talks_to_def demo_client_def)


end
