(* ===== verification/Benchfmt.thy ===== *)
theory Benchfmt
  imports Printing
begin

text \<open>
  Command \<open>cmd/fluxq-benchfmt\<close>: from the lines of \<open>go test -bench\<close> to a table for every fleet size. The
  input is a parameter, a text or the error of opening its file. Doubles are rationals, so that a number
  too large for a double is not covered.
\<close>

section \<open>The lines it reads\<close>

definition is_word :: "char \<Rightarrow> bool" where
  "is_word c \<longleftrightarrow> is_digit c \<or> (65 \<le> (of_char c :: nat) \<and> of_char c \<le> (90 :: nat)) \<or>
     (97 \<le> (of_char c :: nat) \<and> of_char c \<le> (122 :: nat)) \<or> c = CHR ''_''"

definition is_blank :: "char \<Rightarrow> bool" where
  "is_blank c \<longleftrightarrow> (of_char c :: nat) \<in> {9, 10, 12, 13, 32}"

definition is_numeric :: "char \<Rightarrow> bool" where
  "is_numeric c \<longleftrightarrow> is_digit c \<or> c = CHR ''.''"

text \<open>
  The parts of the regular expression: a literal, and a repetition of one character class. What follows
  each repetition begins with a character outside its class, so that it takes all it can.
\<close>

definition lit :: "string \<Rightarrow> string \<Rightarrow> string option" where
  "lit p s = (if prefix p s then Some (drop (length p) s) else None)"

definition many :: "(char \<Rightarrow> bool) \<Rightarrow> string \<Rightarrow> (string \<times> string) option" where
  "many P s = (if takeWhile P s = '''' then None else Some (takeWhile P s, dropWhile P s))"

definition blanks :: "string \<Rightarrow> string option" where
  "blanks s = map_option snd (many is_blank s)"

definition procs :: "string \<Rightarrow> string" where
  "procs s = (case lit ''-'' s of None \<Rightarrow> s | Some t \<Rightarrow> (case many is_digit t of None \<Rightarrow> s | Some (_, u) \<Rightarrow> u))"

definition metric :: "string \<Rightarrow> string \<Rightarrow> (string \<times> string) option" where
  "metric unit s = do { s \<leftarrow> blanks s; (x, s) \<leftarrow> many is_numeric s; s \<leftarrow> blanks s; s \<leftarrow> lit unit s; Some (x, s) }"

definition after_name :: "string \<Rightarrow> (string \<times> string \<times> string \<times> string) option" where
  "after_name s = do {
     s \<leftarrow> lit ''Evaluate/clusters='' s;
     (n, s) \<leftarrow> many is_digit s;
     s \<leftarrow> blanks (procs s);
     (_, s) \<leftarrow> many is_digit s;
     (ns, s) \<leftarrow> metric ''ns/op'' s;
     (bs, s) \<leftarrow> metric ''B/op'' s;
     (allocs, s) \<leftarrow> metric ''allocs/op'' s;
     Some (n, ns, bs, allocs) }"

text \<open>The name takes as little as it can; \<open>seen\<close> is what it has so far, reversed.\<close>

definition named :: "string \<Rightarrow> string \<Rightarrow> (string \<times> string \<times> string \<times> string \<times> string) option" where
  "named seen s = (if seen = '''' then None else map_option (Pair (rev seen)) (after_name s))"

fun bench_name :: "string \<Rightarrow> string \<Rightarrow> (string \<times> string \<times> string \<times> string \<times> string) option" where
  "bench_name seen [] = named seen []"
| "bench_name seen (c # cs) =
     (case named seen (c # cs) of
        Some r \<Rightarrow> Some r
      | None \<Rightarrow> if is_word c then bench_name (c # seen) cs else None)"

definition bench_at :: "string \<Rightarrow> (string \<times> string \<times> string \<times> string \<times> string) option" where
  "bench_at s = lit ''Benchmark'' s \<bind> bench_name ''''"

fun FindStringSubmatch :: "string \<Rightarrow> (string \<times> string \<times> string \<times> string \<times> string) option" where
  "FindStringSubmatch [] = bench_at []"
| "FindStringSubmatch (c # cs) = (case bench_at (c # cs) of Some r \<Rightarrow> Some r | None \<Rightarrow> FindStringSubmatch cs)"

text \<open>\<open>Atoi\<close> and \<open>ParseFloat\<close> on what the expression lets through, their errors ignored.\<close>

definition bench_atoi :: "string \<Rightarrow> nat" where
  "bench_atoi s = min (digits_val s) (2 ^ 63 - 1)"

definition bench_atof :: "string \<Rightarrow> rat" where
  "bench_atof s =
     (case split_on (CHR ''.'') s of
        [a] \<Rightarrow> f64 (of_nat (digits_val a))
      | [a, b] \<Rightarrow> if a = '''' \<and> b = '''' then 0 else f64 (of_nat (digits_val (a @ b)) / 10 ^ length b)
      | _ \<Rightarrow> 0)"

section \<open>The samples\<close>

record sample =
  sm_ns :: rat
  sm_bytes :: rat
  sm_allocs :: rat
  sm_present :: bool

definition no_sample :: sample where
  "no_sample = \<lparr>sm_ns = 0, sm_bytes = 0, sm_allocs = 0, sm_present = False\<rparr>"

type_synonym samples = "(nat \<times> (string \<times> sample) list) list"

definition add_sample :: "string \<Rightarrow> samples \<Rightarrow> samples" where
  "add_sample l data =
     (case FindStringSubmatch l of
        None \<Rightarrow> data
      | Some (name, n, ns, bs, allocs) \<Rightarrow>
          (let matcher = (if name = ''Sim'' then ''Simulated'' else name);
               row = (case map_of data (bench_atoi n) of None \<Rightarrow> [] | Some row \<Rightarrow> row)
           in AList.update (bench_atoi n) (AList.update matcher
                \<lparr>sm_ns = bench_atof ns, sm_bytes = bench_atof bs, sm_allocs = bench_atof allocs, sm_present = True\<rparr> row) data))"

text \<open>
  \<open>bufio.Scanner\<close>: a line without its ending, an unfinished one at the end too; it stops at a line that
  does not fit its buffer.
\<close>

definition scan_lines :: "string \<Rightarrow> string list" where
  "scan_lines s =
     (let ls = split_lines s; ls = (if last ls = '''' then butlast ls else ls)
      in map (\<lambda>l. if l \<noteq> '''' \<and> last l = char_of (13 :: nat) then butlast l else l) (takeWhile (\<lambda>l. length l < 65536) ls))"

definition collect :: "string \<Rightarrow> samples" where
  "collect s = fold add_sample (scan_lines s) []"

definition sample_of :: "samples \<Rightarrow> nat \<Rightarrow> string \<Rightarrow> sample" where
  "sample_of data n m =
     (case map_of data n of None \<Rightarrow> no_sample | Some row \<Rightarrow> (case map_of row m of None \<Rightarrow> no_sample | Some x \<Rightarrow> x))"

section \<open>Numbers for people\<close>

definition ratio :: "rat \<Rightarrow> string" where
  "ratio r =
     (if r \<ge> 100 then fixed_point 0 r @ times_sign
      else if r \<ge> 10 then fixed_point 0 r @ times_sign
      else fixed_point 1 r @ times_sign)"

definition compare_text :: "rat \<Rightarrow> rat \<Rightarrow> string \<Rightarrow> string" where
  "compare_text sim flux word =
     (if flux \<le> 0 \<or> sim \<le> 0 then ''''
      else if sim \<ge> flux then ''Simulated '' @ ratio (f64 (sim / flux)) @ '' '' @ word
      else ''Fluxion '' @ ratio (f64 (flux / sim)) @ '' '' @
        (if word = ''slower'' then ''slower'' else if word = ''more'' then ''more'' else ''''))"

definition micro :: string where
  "micro = map char_of [194, 181 :: nat]"

definition dur :: "rat \<Rightarrow> string" where
  "dur ns =
     (if ns \<ge> 10 ^ 9 then fixed_point 2 (f64 (ns / 10 ^ 9)) @ '' s''
      else if ns \<ge> 10 ^ 6 then fixed_point 2 (f64 (ns / 10 ^ 6)) @ '' ms''
      else if ns \<ge> 10 ^ 3 then fixed_point 1 (f64 (ns / 10 ^ 3)) @ '' '' @ micro @ ''s''
      else fixed_point 0 ns @ '' ns'')"

definition bytesH :: "rat \<Rightarrow> string" where
  "bytesH b =
     (if b \<ge> 2 ^ 20 then fixed_point 1 (f64 (b / 2 ^ 20)) @ '' MiB''
      else if b \<ge> 2 ^ 10 then fixed_point 1 (f64 (b / 2 ^ 10)) @ '' KiB''
      else fixed_point 0 b @ '' B'')"

text \<open>The loop over the digits, and the whole for a value that fits an \<open>int64\<close>.\<close>

definition commas_in :: "string \<Rightarrow> string" where
  "commas_in s = concat (map (\<lambda>i. (if i > 0 \<and> (length s - i) mod 3 = 0 then '','' else '''') @ [s ! i]) [0..<length s])"

definition commas :: "rat \<Rightarrow> string" where
  "commas f =
     (let s = int_text (if f < 0 then - \<lfloor>- f\<rfloor> else \<lfloor>f\<rfloor>)
      in if HasPrefix s ''-'' then ''-'' @ commas_in (drop 1 s) else commas_in s)"

section \<open>The report\<close>

definition bench_row :: "string \<Rightarrow> string \<Rightarrow> string \<Rightarrow> string \<Rightarrow> bool \<Rightarrow> bool \<Rightarrow> string" where
  "bench_row name a b comparison aOK bOK =
     text_line (''  '' @ name @ [tab] @ (if aOK then a else dash) @ [tab] @ (if bOK then b else dash) @ [tab] @
       (if aOK \<and> bOK then comparison else ''''))"

definition fleet_table :: "samples \<Rightarrow> nat \<Rightarrow> string" where
  "fleet_table data n =
     (let flux = sample_of data n ''Fluxion''; sim = sample_of data n ''Simulated''; ok = sm_present flux; ok' = sm_present sim
      in text_line '''' @ text_line (''Fleet of '' @ itoa n @ '' clusters'') @ tabwriter
           (text_line (''  '' @ join [tab] [''Metric'', ''Fluxion'', ''Simulated'', ''Comparison'']) @
            text_line (''  '' @ join [tab] [''------'', ''-------'', ''---------'', ''----------'']) @
            bench_row ''Time per fleet match'' (dur (sm_ns flux)) (dur (sm_ns sim)) (compare_text (sm_ns sim) (sm_ns flux) ''slower'') ok ok' @
            bench_row ''Memory allocated per match'' (bytesH (sm_bytes flux)) (bytesH (sm_bytes sim))
              (compare_text (sm_bytes sim) (sm_bytes flux) ''more'') ok ok' @
            bench_row ''Heap allocations per match'' (commas (sm_allocs flux)) (commas (sm_allocs sim))
              (compare_text (sm_allocs sim) (sm_allocs flux) ''more'') ok ok'))"

definition bench_intro :: string where
  "bench_intro =
     text_line '''' @
     text_line (''Fleet match benchmark '' @ dash @ '' cost of matching ONE job against a whole fleet'') @
     text_line ''of N clusters (one `satisfy` pass). Lower is better on every metric.'' @
     text_line ''Fluxion = real flux-sched graph matcher; Simulated = the pure-Go dev double.''"

definition bench_outro :: string where
  "bench_outro =
     text_line '''' @
     text_line ''Why: Fluxion builds each cluster graph once at load and only traverses on'' @
     text_line ''each match; the Simulated matcher re-indexes every graph on every match, so'' @
     text_line ''its memory and allocations climb with fleet size.'' @
     text_line ''''"

text \<open>The two outputs and the exit status.\<close>

definition benchfmt :: "string + string \<Rightarrow> string \<times> string \<times> nat" where
  "benchfmt input =
     (case input of
        Inl e \<Rightarrow> ('''', text_line e, 1)
      | Inr s \<Rightarrow>
          (let data = collect s in
           if data = [] then ('''', text_line ''no benchmark lines found on input'', 1)
           else (bench_intro @ concat (map (fleet_table data) (sort (map fst data))) @ bench_outro, '''', 0)))"


section \<open>Groups of digits\<close>

fun grouped :: "string \<Rightarrow> string" where
  "grouped [] = []"
| "grouped (c # cs) = (if length (c # cs) mod 3 = 0 then '','' else '''') @ c # grouped cs"

lemma grouped_eq:
  "concat (map (\<lambda>i. (if (length s - i) mod 3 = 0 then '','' else '''') @ [s ! i]) [0..<length s]) = grouped s"
proof (induction s)
  case (Cons c s)
  have "[0..<length (c # s)] = 0 # map Suc [0..<length s]" by (simp add: map_Suc_upt upt_conv_Cons del: upt_Suc)
  then show ?case using Cons by (simp add: comp_def del: upt_Suc)
qed simp

lemma commas_in_Cons: "commas_in (c # s) = c # grouped s"
proof -
  have "[0..<length (c # s)] = 0 # map Suc [0..<length s]" by (simp add: map_Suc_upt upt_conv_Cons del: upt_Suc)
  then show ?thesis unfolding commas_in_def grouped_eq [symmetric] by (simp add: comp_def del: upt_Suc)
qed

lemma grouped_threes:
  "\<exists>g gs. length g = length s mod 3 \<and> list_all (\<lambda>x. length x = 3) gs \<and> s = g @ concat gs \<and> grouped s = g @ concat (map ((#) (CHR '','')) gs)"
proof (induction s)
  case (Cons c s)
  then obtain g gs where g: "length g = length s mod 3" "list_all (\<lambda>x. length x = 3) gs" "s = g @ concat gs"
    "grouped s = g @ concat (map ((#) (CHR '','')) gs)" by blast
  show ?case
  proof (cases "length (c # s) mod 3 = 0")
    case True
    then have "length (c # g) = 3" unfolding list.size g(1) by presburger
    then show ?thesis using True g
      by (intro exI [of _ "[]"] exI [of _ "(c # g) # gs"]) (simp del: length_append)
  next
    case False
    then have "length (c # g) = length (c # s) mod 3" unfolding list.size g(1) by presburger
    then show ?thesis using False g by (intro exI [of _ "c # g"] exI [of _ gs]) (simp del: length_append)
  qed
qed simp

lemma join_groups: "join '','' (g # gs) = g @ concat (map ((#) (CHR '','')) gs)"
  by (induction gs arbitrary: g) simp_all

text \<open>
  \<open>commas\<close> writes the whole part of a number in groups of three. The text is the sign, if there is one,
  and groups separated by commas, the first of one to three digits, the others of three; without the
  commas they are the decimal digits of the number.
\<close>

theorem commas_grouped:
  "\<exists>g gs. commas f = (if f \<le> -1 then ''-'' else '''') @ join '','' (g # gs) \<and> length g \<in> {1, 2, 3} \<and>
     list_all (\<lambda>x. length x = 3) gs \<and> concat (g # gs) = itoa (nat \<lfloor>\<bar>f\<bar>\<rfloor>)"
proof -
  obtain c s where ds: "itoa (nat \<lfloor>\<bar>f\<bar>\<rfloor>) = c # s" using itoa_nonempty [of "nat \<lfloor>\<bar>f\<bar>\<rfloor>"] by (cases "itoa (nat \<lfloor>\<bar>f\<bar>\<rfloor>)") auto
  obtain g gs where g: "length g = length s mod 3" "list_all (\<lambda>x. length x = 3) gs" "s = g @ concat gs"
    "grouped s = g @ concat (map ((#) (CHR '','')) gs)" using grouped_threes by blast
  have "is_digit c" using itoa_digits [of "nat \<lfloor>\<bar>f\<bar>\<rfloor>"] by (simp add: ds)
  moreover have "\<not> is_digit (CHR ''-'')" by code_simp
  ultimately have c: "c \<noteq> CHR ''-''" by metis
  have "commas f = (if f \<le> -1 then ''-'' else '''') @ commas_in (c # s)"
  proof (cases "f \<le> -1")
    case True
    then have "1 \<le> \<lfloor>- f\<rfloor>" by linarith
    then show ?thesis using True ds by (simp add: commas_def Let_def int_text_def HasPrefix_def)
  next
    case neg: False
    have "(if f < 0 then - \<lfloor>- f\<rfloor> else \<lfloor>f\<rfloor>) = \<lfloor>\<bar>f\<bar>\<rfloor> \<and> \<not> \<lfloor>\<bar>f\<bar>\<rfloor> < 0"
    proof (cases "f < 0")
      case True
      then have "\<lfloor>- f\<rfloor> = 0" using neg by linarith
      then show ?thesis using True by simp
    qed simp
    then show ?thesis using neg ds c by (simp add: commas_def Let_def int_text_def HasPrefix_def)
  qed
  then have "commas f = (if f \<le> -1 then ''-'' else '''') @ join '','' ((c # g) # gs)"
    unfolding commas_in_Cons g(4) join_groups by simp
  moreover have "length (c # g) \<in> {1, 2, 3}" unfolding list.size g(1) by (cases "length s mod 3") auto
  ultimately show ?thesis using g(2,3) ds by (intro exI [of _ "c # g"] exI [of _ gs]) simp
qed


section \<open>Reading a line back\<close>

definition all_blank :: "string \<Rightarrow> bool" where
  "all_blank w \<longleftrightarrow> w \<noteq> '''' \<and> list_all is_blank w"

definition all_numeric :: "string \<Rightarrow> bool" where
  "all_numeric x \<longleftrightarrow> x \<noteq> '''' \<and> list_all is_numeric x"

lemma many_append: "s \<noteq> '''' \<Longrightarrow> list_all P s \<Longrightarrow> t = '''' \<or> \<not> P (hd t) \<Longrightarrow> many P (s @ t) = Some (s, t)"
proof -
  assume s: "s \<noteq> ''''" "list_all P s" and t: "t = '''' \<or> \<not> P (hd t)"
  have "takeWhile P (s @ t) = s" "dropWhile P (s @ t) = t" using s(2) t by (cases t; auto simp: list_all_iff)+
  then show ?thesis using s(1) by (simp add: many_def)
qed

lemma lit_append: "lit p (p @ s) = Some s"
  by (simp add: lit_def)

lemma classes: "is_digit c \<Longrightarrow> \<not> is_blank c" "is_numeric c \<Longrightarrow> \<not> is_blank c" "is_digit c \<Longrightarrow> is_numeric c" "is_blank c \<Longrightarrow> \<not> is_numeric c"
  "is_blank c \<Longrightarrow> \<not> is_digit c" "is_blank c \<Longrightarrow> c \<noteq> CHR ''-''"
proof -
  have b: "(of_char c :: nat) \<le> 32" if "is_blank c" using that by (auto simp: is_blank_def)
  have d: "(of_char c :: nat) \<ge> 48" if "is_digit c" using that by (simp add: is_digit_def)
  have n: "(of_char c :: nat) \<ge> 46" if "is_numeric c" using that d by (auto simp: is_numeric_def)
  show "is_digit c \<Longrightarrow> \<not> is_blank c" "is_numeric c \<Longrightarrow> \<not> is_blank c" "is_blank c \<Longrightarrow> \<not> is_numeric c" "is_blank c \<Longrightarrow> \<not> is_digit c"
    using b d n by (linarith, linarith, linarith, linarith)
  show "is_digit c \<Longrightarrow> is_numeric c" by (simp add: is_numeric_def)
  show "is_blank c \<Longrightarrow> c \<noteq> CHR ''-''" using b by auto
qed

lemma not_dash: "\<not> is_digit (CHR ''-'')"
  by code_simp

lemma blanks_append: "all_blank w \<Longrightarrow> t = '''' \<or> \<not> is_blank (hd t) \<Longrightarrow> blanks (w @ t) = Some t"
  by (simp add: blanks_def all_blank_def many_append)

lemma digits_read: "t = '''' \<or> \<not> is_digit (hd t) \<Longrightarrow> many is_digit (itoa n @ t) = Some (itoa n, t)"
  by (rule many_append) (simp_all add: itoa_digits)

lemma hd_all_blank: "all_blank w \<Longrightarrow> is_blank (hd (w @ t))"
  by (cases w) (simp_all add: all_blank_def)

lemma metric_read:
  assumes "all_blank w" "all_numeric x" "all_blank v" "unit \<noteq> ''''" "\<not> is_blank (hd unit)"
  shows "metric unit (w @ x @ v @ unit @ t) = Some (x, t)"
proof -
  have "blanks (w @ x @ v @ unit @ t) = Some (x @ v @ unit @ t)"
    using assms(2) by (intro blanks_append assms(1)) (cases x; simp add: all_numeric_def classes(2))
  moreover have "many is_numeric (x @ v @ unit @ t) = Some (x, v @ unit @ t)"
    using assms(2) classes(4) [OF hd_all_blank [OF assms(3)]] by (intro many_append) (simp_all add: all_numeric_def)
  moreover have "blanks (v @ unit @ t) = Some (unit @ t)" using assms(4,5) by (intro blanks_append assms(3)) simp
  ultimately show ?thesis by (simp add: metric_def lit_append)
qed

definition procs_text :: "nat option \<Rightarrow> string" where
  "procs_text p = (case p of None \<Rightarrow> '''' | Some n \<Rightarrow> ''-'' @ itoa n)"

lemma procs_read: "all_blank w \<Longrightarrow> procs (procs_text p @ w @ t) = w @ t"
proof (cases p)
  case None
  assume w: "all_blank w"
  then have "lit ''-'' (w @ t) = None" using classes(6) [OF hd_all_blank [OF w, of t]] by (cases "w @ t") (auto simp: lit_def all_blank_def)
  then show ?thesis by (simp add: procs_def procs_text_def None)
next
  case (Some n)
  assume w: "all_blank w"
  have "many is_digit (itoa n @ w @ t) = Some (itoa n, w @ t)" using classes(5) [OF hd_all_blank [OF w]] by (intro digits_read) simp
  then show ?thesis using lit_append [of "''-''" "itoa n @ w @ t"] by (simp add: procs_def procs_text_def Some)
qed

record bench_spaces =
  sp1 :: string
  sp2 :: string
  sp3 :: string
  sp4 :: string
  sp5 :: string
  sp6 :: string
  sp7 :: string

definition spaced :: "bench_spaces \<Rightarrow> bool" where
  "spaced w \<longleftrightarrow> list_all all_blank [sp1 w, sp2 w, sp3 w, sp4 w, sp5 w, sp6 w, sp7 w]"

text \<open>A line of \<open>go test -bench -benchmem\<close>, with any blanks between its fields.\<close>

definition bench_tail :: "nat \<Rightarrow> nat option \<Rightarrow> nat \<Rightarrow> string \<Rightarrow> string \<Rightarrow> string \<Rightarrow> bench_spaces \<Rightarrow> string" where
  "bench_tail n p iters ns bs allocs w =
     ''Evaluate/clusters='' @ itoa n @ procs_text p @ sp1 w @ itoa iters @ sp2 w @ ns @ sp3 w @ ''ns/op'' @ sp4 w @ bs @ sp5 w @
     ''B/op'' @ sp6 w @ allocs @ sp7 w @ ''allocs/op''"

definition bench_line :: "string \<Rightarrow> nat \<Rightarrow> nat option \<Rightarrow> nat \<Rightarrow> string \<Rightarrow> string \<Rightarrow> string \<Rightarrow> bench_spaces \<Rightarrow> string" where
  "bench_line name n p iters ns bs allocs w = ''Benchmark'' @ name @ bench_tail n p iters ns bs allocs w"

lemma after_name_read:
  assumes "spaced w" "list_all all_numeric [ns, bs, allocs]"
  shows "after_name (bench_tail n p iters ns bs allocs w) = Some (itoa n, ns, bs, allocs)"
proof -
  have w: "all_blank (sp1 w)" "all_blank (sp2 w)" "all_blank (sp3 w)" "all_blank (sp4 w)" "all_blank (sp5 w)" "all_blank (sp6 w)" "all_blank (sp7 w)"
    using assms(1) by (simp_all add: spaced_def)
  have x: "all_numeric ns" "all_numeric bs" "all_numeric allocs" using assms(2) by simp_all
  have u: "''ns/op'' \<noteq> ''''" "\<not> is_blank (hd ''ns/op'')" "''B/op'' \<noteq> ''''" "\<not> is_blank (hd ''B/op'')" "''allocs/op'' \<noteq> ''''" "\<not> is_blank (hd ''allocs/op'')"
    by code_simp+
  have "\<not> is_digit (hd (procs_text p @ sp1 w @ t))" for t
    using classes(5) [OF hd_all_blank [OF w(1)]] not_dash by (cases p) (simp_all add: procs_text_def)
  then have d: "many is_digit (itoa n @ procs_text p @ sp1 w @ t) = Some (itoa n, procs_text p @ sp1 w @ t)" for t
    by (intro digits_read) simp
  have b: "blanks (sp1 w @ itoa iters @ t) = Some (itoa iters @ t)" for t
    using itoa_digits [of iters] classes(1) itoa_nonempty [of iters] by (intro blanks_append w(1)) (cases "itoa iters"; simp)
  have i: "many is_digit (itoa iters @ sp2 w @ t) = Some (itoa iters, sp2 w @ t)" for t
    using classes(5) [OF hd_all_blank [OF w(2)]] by (intro digits_read) simp
  have "metric ''allocs/op'' (sp6 w @ allocs @ sp7 w @ ''allocs/op'') = Some (allocs, [])"
    using metric_read [OF w(6) x(3) w(7) u(5,6), of "[]"] by (simp only: append_Nil2)
  then show ?thesis
    unfolding after_name_def bench_tail_def lit_append bind.bind_lunit d prod.case procs_read [OF w(1)] b i
      metric_read [OF w(2) x(1) w(3) u(1,2)] metric_read [OF w(4) x(2) w(5) u(3,4)] by simp
qed


lemma no_slash: "\<not> is_word (CHR ''/'')" "list_all is_word ''Evaluate''"
  by code_simp+

lemma too_early:
  assumes "u \<noteq> ''''" "list_all is_word u"
  shows "after_name (u @ bench_tail n p iters ns bs allocs w) = None"
proof -
  let ?p = "''Evaluate/clusters=''"
  have "\<not> prefix ?p (u @ bench_tail n p iters ns bs allocs w)"
  proof
    assume "prefix ?p (u @ bench_tail n p iters ns bs allocs w)"
    then obtain t where t: "u @ bench_tail n p iters ns bs allocs w = ?p @ t" by (auto simp: prefix_def)
    have "(u @ bench_tail n p iters ns bs allocs w) ! 8 = CHR ''/''" unfolding t by simp
    moreover have "(u @ bench_tail n p iters ns bs allocs w) ! 8 = (u @ ''Evaluate'') ! 8"
      using assms(1) by (cases "8 < length u") (auto simp: nth_append bench_tail_def nth_Cons' Suc_le_eq)
    moreover have "list_all is_word (u @ ''Evaluate'')" using assms(2) no_slash(2) by simp
    then have "is_word ((u @ ''Evaluate'') ! 8)" using assms(1) by (auto simp: list_all_length)
    ultimately show False using no_slash(1) by metis
  qed
  then show ?thesis by (simp add: after_name_def lit_def)
qed

lemma bench_name_read:
  assumes "list_all is_word u" "seen \<noteq> '''' \<or> u \<noteq> ''''" "after_name (bench_tail n p iters ns bs allocs w) = Some r"
  shows "bench_name seen (u @ bench_tail n p iters ns bs allocs w) = Some (rev seen @ u, r)"
  using assms(1,2)
proof (induction u arbitrary: seen)
  case Nil
  then have n: "named seen (bench_tail n p iters ns bs allocs w) = Some (rev seen, r)" using assms(3) by (simp add: named_def)
  then show ?case by (cases "bench_tail n p iters ns bs allocs w") simp_all
next
  case (Cons c u)
  have "after_name ((c # u) @ bench_tail n p iters ns bs allocs w) = None" using too_early [of "c # u"] Cons.prems(1) by blast
  then have "named seen (c # u @ bench_tail n p iters ns bs allocs w) = None" by (simp add: named_def)
  then show ?case using Cons.IH [of "c # seen"] Cons.prems(1) by simp
qed

lemma line_read:
  assumes "name \<noteq> ''''" "list_all is_word name" "spaced w" "list_all all_numeric [ns, bs, allocs]"
  shows "FindStringSubmatch (bench_line name n p iters ns bs allocs w) = Some (name, itoa n, ns, bs, allocs)"
proof -
  have "bench_at (bench_line name n p iters ns bs allocs w) = Some (name, itoa n, ns, bs, allocs)"
    using bench_name_read [OF assms(2) disjI2 [OF assms(1)] after_name_read [OF assms(3,4)], of "[]"]
    unfolding bench_at_def bench_line_def lit_append bind.bind_lunit by simp
  then show ?thesis by (cases "bench_line name n p iters ns bs allocs w") simp_all
qed

section \<open>From the run to the report\<close>

text \<open>A measurement: the matcher, the size of the fleet, the processors, the iterations and the three numbers.\<close>

record measure =
  me_name :: string
  me_size :: nat
  me_procs :: "nat option"
  me_iters :: nat
  me_ns :: string
  me_bytes :: string
  me_allocs :: string
  me_spaces :: bench_spaces

definition measure_ok :: "measure \<Rightarrow> bool" where
  "measure_ok m \<longleftrightarrow> me_name m \<noteq> '''' \<and> list_all is_word (me_name m) \<and> me_size m < 2 ^ 63 \<and> spaced (me_spaces m) \<and>
     list_all all_numeric [me_ns m, me_bytes m, me_allocs m]"

definition measure_line :: "measure \<Rightarrow> string" where
  "measure_line m = bench_line (me_name m) (me_size m) (me_procs m) (me_iters m) (me_ns m) (me_bytes m) (me_allocs m) (me_spaces m)"

definition column_of :: "measure \<Rightarrow> string" where
  "column_of m = (if me_name m = ''Sim'' then ''Simulated'' else me_name m)"

definition measured :: "measure \<Rightarrow> sample" where
  "measured m = \<lparr>sm_ns = bench_atof (me_ns m), sm_bytes = bench_atof (me_bytes m), sm_allocs = bench_atof (me_allocs m), sm_present = True\<rparr>"

lemma sample_of_add:
  assumes "measure_ok m"
  shows "sample_of (add_sample (measure_line m) data) n k = (if me_size m = n \<and> column_of m = k then measured m else sample_of data n k)"
proof -
  have r: "FindStringSubmatch (measure_line m) = Some (me_name m, itoa (me_size m), me_ns m, me_bytes m, me_allocs m)"
    unfolding measure_line_def using assms by (intro line_read) (simp_all add: measure_ok_def)
  have "bench_atoi (itoa (me_size m)) = me_size m" using assms by (simp add: bench_atoi_def measure_ok_def)
  then show ?thesis
    by (auto simp: add_sample_def r Let_def sample_of_def map_of_update column_of_def measured_def split: option.split)
qed

lemma sample_of_lines:
  "list_all measure_ok ms \<Longrightarrow> sample_of (fold add_sample (map measure_line ms) data) n k =
    (case find (\<lambda>m. me_size m = n \<and> column_of m = k) (rev ms) of None \<Rightarrow> sample_of data n k | Some m \<Rightarrow> measured m)"
proof (induction ms arbitrary: data)
  case (Cons m ms)
  have f: "find P (xs @ [m]) = (case find P xs of None \<Rightarrow> if P m then Some m else None | Some x \<Rightarrow> Some x)" for P and xs :: "measure list"
    by (induction xs) auto
  show ?case using Cons by (simp add: sample_of_add f split: option.split)
qed simp


text \<open>The output of a run: measurements among lines that are none.\<close>

definition run_line :: "measure + string \<Rightarrow> string" where
  "run_line x = (case x of Inl m \<Rightarrow> measure_line m | Inr l \<Rightarrow> l)"

definition line_ok :: "string \<Rightarrow> bool" where
  "line_ok l \<longleftrightarrow> length l < 65536 \<and> newline \<notin> set l \<and> (l = '''' \<or> last l \<noteq> char_of (13 :: nat))"

definition run_ok :: "measure + string \<Rightarrow> bool" where
  "run_ok x \<longleftrightarrow> line_ok (run_line x) \<and> (case x of Inl m \<Rightarrow> measure_ok m | Inr l \<Rightarrow> FindStringSubmatch l = None)"

definition taken :: "(measure + string) list \<Rightarrow> measure list" where
  "taken xs = List.map_filter (\<lambda>x. case x of Inl m \<Rightarrow> Some m | Inr l \<Rightarrow> None) xs"

lemma split_lines_eq: "split_lines s = split_on newline s"
  by (induction s) (auto split: list.split)

lemma scan_lines_text:
  assumes "list_all line_ok ls"
  shows "scan_lines (concat (map text_line ls)) = ls"
proof -
  have a: "split_lines (concat (map text_line ls)) = ls @ ['''']"
    using split_on_lines [of ls newline] assms unfolding split_lines_eq text_line_def by (simp add: list_all_iff line_ok_def)
  have b: "takeWhile (\<lambda>l. length l < 65536) ls = ls" using assms by (simp add: takeWhile_eq_all_conv list_all_iff line_ok_def)
  have c: "map (\<lambda>l. if l \<noteq> '''' \<and> last l = char_of (13 :: nat) then butlast l else l) ls = ls"
    using assms by (intro map_idI) (auto simp: list_all_iff line_ok_def)
  show ?thesis unfolding scan_lines_def Let_def a by (simp add: b c)
qed

lemma fold_measures:
  "list_all run_ok xs \<Longrightarrow> fold add_sample (map run_line xs) data = fold add_sample (map measure_line (taken xs)) data"
  by (induction xs arbitrary: data)
    (auto simp: taken_def List.map_filter_simps run_ok_def run_line_def add_sample_def split: sum.splits)

lemma sizes_of_lines:
  "list_all measure_ok ms \<Longrightarrow> distinct (map fst data) \<Longrightarrow>
    distinct (map fst (fold add_sample (map measure_line ms) data)) \<and>
    fst ` set (fold add_sample (map measure_line ms) data) = fst ` set data \<union> me_size ` set ms"
proof (induction ms arbitrary: data)
  case (Cons m ms)
  have r: "FindStringSubmatch (measure_line m) = Some (me_name m, itoa (me_size m), me_ns m, me_bytes m, me_allocs m)"
    unfolding measure_line_def using Cons.prems(1) by (intro line_read) (simp_all add: measure_ok_def)
  have "bench_atoi (itoa (me_size m)) = me_size m" using Cons.prems(1) by (simp add: bench_atoi_def measure_ok_def)
  then obtain row where "add_sample (measure_line m) data = AList.update (me_size m) row data"
    by (auto simp: add_sample_def r Let_def)
  then have "distinct (map fst (add_sample (measure_line m) data))" "fst ` set (add_sample (measure_line m) data) = insert (me_size m) (fst ` set data)"
    using Cons.prems(2) by (simp_all add: distinct_update) (simp add: dom_update flip: dom_map_of_conv_image_fst)
  then show ?case using Cons by simp
qed simp

text \<open>
  C38. The report is about what the run measured. From the output of a run, measurements among other
  lines, the tool takes for every size and column the last measurement with that size and that
  name (\<open>Sim\<close> shown as \<open>Simulated\<close>), and its tables go through the measured sizes, each once and in
  increasing order.
\<close>

theorem report_reads_run:
  assumes "list_all run_ok xs"
  shows "sample_of (collect (concat (map (\<lambda>x. text_line (run_line x)) xs))) n k =
      (case find (\<lambda>m. me_size m = n \<and> column_of m = k) (rev (taken xs)) of None \<Rightarrow> no_sample | Some m \<Rightarrow> measured m) \<and>
    sort (map fst (collect (concat (map (\<lambda>x. text_line (run_line x)) xs)))) = sorted_list_of_set (me_size ` set (taken xs))"
proof -
  have ms: "list_all measure_ok (taken xs)"
    using assms by (induction xs) (auto simp: taken_def List.map_filter_simps run_ok_def split: sum.splits)
  have "list_all line_ok (map run_line xs)" using assms by (auto simp: list_all_iff run_ok_def)
  then have "collect (concat (map (\<lambda>x. text_line (run_line x)) xs)) = fold add_sample (map measure_line (taken xs)) []"
    using scan_lines_text [of "map run_line xs"] fold_measures [OF assms] by (simp add: collect_def comp_def)
  moreover have "sample_of [] n k = no_sample" by (simp add: sample_of_def)
  moreover have "sort (map fst data) = sorted_list_of_set (fst ` set data)" if "distinct (map fst data)" for data :: samples
    using sorted_list_of_set_sort_remdups [of "map fst data"] that by (simp add: distinct_remdups_id)
  ultimately show ?thesis
    using sample_of_lines [OF ms, of "[]" n k] sizes_of_lines [OF ms, of "[]"] by (simp split: option.split)
qed


definition one_space :: bench_spaces where
  "one_space = \<lparr>sp1 = '' '', sp2 = '' '', sp3 = '' '', sp4 = '' '', sp5 = '' '', sp6 = '' '', sp7 = '' ''\<rparr>"

definition demo_measure :: measure where
  "demo_measure = \<lparr>me_name = ''Sim'', me_size = 100, me_procs = Some 16, me_iters = 34, me_ns = ''2.5'', me_bytes = ''0'',
     me_allocs = ''631'', me_spaces = one_space\<rparr>"

lemma demo_run: "list_all run_ok [Inr ''goos: linux'', Inl demo_measure]"
proof -
  have i: "itoa 100 = ''100''" "itoa 16 = ''16''" "itoa 34 = ''34''" by code_simp+
  have l: "length (measure_line demo_measure) < 100" "length ''goos: linux'' = 11"
    by (simp_all add: measure_line_def bench_line_def bench_tail_def demo_measure_def one_space_def procs_text_def i)
  have n: "newline \<notin> set (measure_line demo_measure)" "newline \<notin> set ''goos: linux''"
    "last (measure_line demo_measure) \<noteq> char_of (13 :: nat)" "last ''goos: linux'' \<noteq> char_of (13 :: nat)"
    "FindStringSubmatch ''goos: linux'' = None" "list_all is_word (me_name demo_measure)" "spaced (me_spaces demo_measure)"
    "list_all all_numeric [me_ns demo_measure, me_bytes demo_measure, me_allocs demo_measure]"
    by code_simp+
  then show ?thesis using l by (simp add: run_ok_def line_ok_def run_line_def measure_ok_def) (simp add: demo_measure_def)
qed

theorem report_reads_run_witness:
  "sample_of (collect (''goos: linux'' @ [newline] @ measure_line demo_measure @ [newline])) 100 ''Simulated'' = measured demo_measure"
  using conjunct1 [OF report_reads_run [OF demo_run, of 100 "''Simulated''"]]
  by (simp add: taken_def List.map_filter_simps run_line_def text_line_def) (simp add: demo_measure_def column_of_def)

end
