(* ===== verification/Spec2Isabelle.thy ===== *)
theory Spec2Isabelle
  imports Pipeline Devmode Workers Requests Agent SqlQueue FluxResource Serve
begin

text \<open>
  fluxq is a scheduler for a fleet of clusters. A job arrives as a jobspec; the manager asks the
  matcher which registered clusters can hold it, ranks them, reserves nodes on the best one that is
  free, has the transformer write the artifact that cluster's manager understands, hands it to
  the driver of that manager, polls the driver until the job ends, and frees the nodes. The theories
  model the program part by part, under the names of the code, and prove what makes each part
  correct; paths are those of the repository, below \<open>pkg/\<close> where none is given.

  \<^bold>\<open>Theories and the code they model.\<close>
  \<^item> \<open>Prelude\<close>: 64-bit wrap-around (\<open>i64\<close>), decimal text, association lists as maps.
  \<^item> \<open>Jobspec\<close> (\<open>jobspec/\<close>): the specification as a record, its counts at 64 bits, the Flux document
    rendered from it, the disjunctive expansion of a \<open>requires\<close> section. \<open>Json\<close>: the text of that
    document and the scanner of \<open>encoding/json\<close> that reads it back.
  \<^item> \<open>Jgf\<close>, \<open>Build\<close>, \<open>Fleet\<close> (\<open>graph/\<close>): a graph as lists of vertices and edges with the indexes the
    code derives; the descent of the containment tree, which is \<open>None\<close> when it would not end; the
    builder; the cluster record, its summaries, the fleet and the loader.
  \<^item> \<open>Matcher\<close>, \<open>Booking\<close> (\<open>matcher/matcher.go\<close>, \<open>sim.go\<close>): the interface as a record of operations,
    the in-process matcher, and the theory of its books.
  \<^item> \<open>Float64\<close>, \<open>Score\<close> (\<open>score/\<close>): IEEE doubles as rationals rounded to nearest even, the default score,
    the ranking with the shuffle as a function of the random draws.
  \<^item> \<open>Queue\<close> (\<open>queue/queue.go\<close>, \<open>policy/\<close>), \<open>Reconcile\<close> (\<open>reconcile/\<close>), \<open>Vocabulary\<close> (\<open>vocabulary/\<close>),
    \<open>Driver\<close> (\<open>cluster/driver.go\<close>), \<open>Validate\<close> (\<open>manager/validate.go\<close>): as named.
  \<^item> \<open>Manager\<close> (\<open>manager/manager.go\<close>): submission, registration, the schedule pass, inline dispatch,
    monitoring, cancellation. \<open>Pipeline\<close> (\<open>manager/pipeline.go\<close>, \<open>river.go\<close>): the staged handlers as
    sequences of locked segments. \<open>Ledger\<close> and \<open>Schedule\<close> hold their theory.
  \<^item> \<open>Emulator\<close>, \<open>FluxDrivers\<close>, \<open>K8sDriver\<close> (\<open>cluster/\<close>): the drivers; \<open>Discovery\<close>
    (\<open>cluster/discover.go\<close>, \<open>DiscoverCluster\<close>): from node facts to subsystems.
  \<^item> \<open>Transform\<close> (\<open>transform/transform.go\<close>): the templates of the artifacts, line by line. \<open>Rendering\<close>
    proves that what they write passes the validator and the emulated backends, and what they lose.
    \<open>Agent\<close> (\<open>transform/agent.go\<close>): the transformer that asks a language model. \<open>Devmode\<close>
    (\<open>cmd/fluxq/serve.go\<close> with \<open>--dev\<close>): a job from its dispatch to its end.
  \<^item> \<open>Timestamps\<close>, \<open>SqlQueue\<close> (\<open>queue/sqlite.go\<close>, \<open>postgres.go\<close>): the durable queues as tables of rows, with the
    time texts they are ordered by, and their refinement of the queue in memory.
  \<^item> \<open>Inventory\<close>: the graph that \<open>graph/build.go\<close> builds from groups of nodes, as the matcher reads it.
    \<open>FluxResource\<close> (\<open>cmd/fluxq/flux_resource.go\<close>): the groups found in the resource set of a Flux instance.
  \<^item> \<open>Printing\<close>: the verbs of \<open>fmt\<close> and the columns of \<open>text/tabwriter\<close> the commands print with. \<open>Client\<close>
    (\<open>cmd/fluxq/client.go\<close>, \<open>multikv.go\<close>, \<open>main.go\<close>): the commands as functions from arguments to output and exit
    status. \<open>Exchange\<close>: client and server together. \<open>Serve\<close> (\<open>cmd/fluxq/serve.go\<close>, \<open>river.go\<close>,
    \<open>cmd/fluxq-datagen\<close>): what the server starts with, and when it does. \<open>Benchfmt\<close>
    (\<open>cmd/fluxq-benchfmt\<close>): the benchmark report.
  \<^item> \<open>Fluxion\<close> (\<open>matcher/fluxion.go\<close>, \<open>fluxion_worker.go\<close>): the matcher over flux-sched with its worker
    processes; \<open>Workers\<close> has its theory.
  \<^item> \<open>Api\<close> (\<open>api/api.go\<close>): the HTTP requests, their routes and the cluster secrets; \<open>Requests\<close> has what
    holds of every run of the server.

  \<^bold>\<open>State and interaction.\<close> The state of the manager is the record \<open>mgr\<close>: queue, fleet, matcher state,
  the submission counter, the number of rankings drawn, and the outside world. What the code injects is
  the record \<open>env\<close>: matcher operations, driver registries, transformer, validator, policy, scorer. Each
  interface is a record of operations (\<open>matcher\<close>, \<open>driver\<close>, \<open>libflux\<close>, \<open>kube\<close>), its contract
  a locale, and each locale is interpreted on the operations of the code. The relation \<open>mgr_step\<close> collects
  the requests and ticks, \<open>segment\<close> the locked segments of the stage handlers, so that the
  invariants hold under every interleaving the locks allow.

  \<^bold>\<open>Bounds, fuel and partiality.\<close> Integers are 64-bit with the wrap-around written out (\<open>i64\<close>), durations
  and counters too. A traversal of a graph gets as much fuel as the graph has vertices; \<open>descent_returns_iff\<close>
  shows that it is exhausted exactly on a cycle, where the code does not return either, so \<open>None\<close> means
  no return. Maps iterated by the code in no particular order are lists, and what is proved
  does not depend on that order where the code does not.

  \<^bold>\<open>Not modelled.\<close> The workers and tables of the river engine (its start and its queues are), the listener
  and the signals of the server, opening a database, file and network
  input and output, the text of the usage. The transformer is a parameter of the manager, instantiated
  by the templates in \<open>Devmode\<close> and by either choice of the command line in \<open>Serve\<close>. Third-party libraries (flux-sched, libflux, the Kubernetes client, the
  language model's service) are parameters: what a theorem needs of one is a named hypothesis.
\<close>

end
